(* ===== verification/Prelude.thy ===== *)
theory Prelude
  imports Complex_Main "HOL-Library.Multiset" "HOL-Library.AList" "HOL-Library.List_Lexorder"
    "HOL-Library.Char_ord" "HOL-Library.Product_Lexorder"
begin

text \<open>
  Shared vocabulary of the development: the exceptions the tools raise, the result type of
  code that may raise, insertion-ordered dictionaries, grouping, first-occurrence
  de-duplication, and the list lemmas the components use.

  A Python expression that may raise is a value of \<open>'a res\<close>: \<open>Err e\<close> for the exception,
  \<open>Ok x\<close> for the value. \<open>rbind\<close> is sequencing, so the first exception wins, as in Python.
  An exception is represented by its class; only the classes whose text the program itself
  reads later (\<open>SbflBatchError\<close> in a run log, \<open>ModelResponseError\<close> in a repair prompt)
  carry their message.
\<close>

section \<open>Exceptions and results\<close>

datatype exn =
    KeyError | IndexError | TypeError | ValueError | OverflowError | ZeroDivisionError
  | AttributeError | AssertionError | FileExistsError | OSError | JSONDecodeError
  | InvalidOperation | KeyboardInterrupt | ArgumentTypeError
  | SbflCommonError | SummaryError
  | SbflBatchError string
  | SbflLlmError | PatchError | ModelResponseError string
  | RerankError
  | RuntimeError | ConfigException | GenError | ReqErr | CalledProcessError | InvalidStateError | ExceptionGroup "exn list" | SystemExit int | TimeoutExpired | StopIteration

type_synonym 'a res = "exn + 'a"

abbreviation Err :: "exn \<Rightarrow> 'a res" where "Err \<equiv> Inl"

abbreviation Ok :: "'a \<Rightarrow> 'a res" where "Ok \<equiv> Inr"

text \<open>The class hierarchy, as the \<open>except\<close> clauses of the tools see it.\<close>

fun is_value_error :: "exn \<Rightarrow> bool" where
  "is_value_error ValueError = True"
| "is_value_error JSONDecodeError = True"
| "is_value_error RerankError = True"
| "is_value_error _ = False"

fun is_os_error :: "exn \<Rightarrow> bool" where
  "is_os_error OSError = True"
| "is_os_error FileExistsError = True"
| "is_os_error _ = False"

fun is_sbfl_common_error :: "exn \<Rightarrow> bool" where
  "is_sbfl_common_error SbflCommonError = True"
| "is_sbfl_common_error SummaryError = True"
| "is_sbfl_common_error _ = False"

fun is_sbfl_batch_error :: "exn \<Rightarrow> bool" where
  "is_sbfl_batch_error (SbflBatchError _) = True"
| "is_sbfl_batch_error _ = False"

fun is_sbfl_llm_error :: "exn \<Rightarrow> bool" where
  "is_sbfl_llm_error SbflLlmError = True"
| "is_sbfl_llm_error PatchError = True"
| "is_sbfl_llm_error (ModelResponseError _) = True"
| "is_sbfl_llm_error _ = False"

definition rbind :: "'a res \<Rightarrow> ('a \<Rightarrow> 'b res) \<Rightarrow> 'b res" where
  "rbind m f = (case m of Inl e \<Rightarrow> Inl e | Inr x \<Rightarrow> f x)"

definition rguard :: "bool \<Rightarrow> exn \<Rightarrow> unit res" where
  "rguard b e = (if b then Ok () else Err e)"

definition rcatch :: "(exn \<Rightarrow> bool) \<Rightarrow> exn \<Rightarrow> 'a res \<Rightarrow> 'a res" where
  "rcatch h e' m = (case m of Inl e \<Rightarrow> Inl (if h e then e' else e) | Inr x \<Rightarrow> Inr x)"

fun rmapM :: "('a \<Rightarrow> 'b res) \<Rightarrow> 'a list \<Rightarrow> 'b list res" where
  "rmapM f [] = Ok []"
| "rmapM f (x # xs) = rbind (f x) (\<lambda>y. rbind (rmapM f xs) (\<lambda>ys. Ok (y # ys)))"

fun rfoldM :: "('s \<Rightarrow> 'a \<Rightarrow> 's res) \<Rightarrow> 's \<Rightarrow> 'a list \<Rightarrow> 's res" where
  "rfoldM f s [] = Ok s"
| "rfoldM f s (x # xs) = rbind (f s x) (\<lambda>s'. rfoldM f s' xs)"

definition res_of :: "exn \<Rightarrow> 'a option \<Rightarrow> 'a res" where
  "res_of e x = (case x of None \<Rightarrow> Err e | Some v \<Rightarrow> Ok v)"

named_theorems res_simps \<open>rewriting of result-valued code\<close>

lemma rbind_Inl [simp, res_simps]: "rbind (Inl e) f = Inl e"
  by (simp add: rbind_def)

lemma rbind_Inr [simp, res_simps]: "rbind (Inr x) f = f x"
  by (simp add: rbind_def)

lemma rbind_eq_Ok [res_simps]: "rbind m f = Inr y \<longleftrightarrow> (\<exists>x. m = Inr x \<and> f x = Inr y)"
  by (cases m) (auto simp: rbind_def)

lemma rbind_eq_Err: "rbind m f = Inl e \<longleftrightarrow> m = Inl e \<or> (\<exists>x. m = Inr x \<and> f x = Inl e)"
  by (cases m) (auto simp: rbind_def)

lemma rbind_OkE:
  assumes "rbind m f = Inr y" obtains x where "m = Inr x" "f x = Inr y"
  using assms by (auto simp: rbind_eq_Ok)

lemma rbind_assoc: "rbind (rbind m f) g = rbind m (\<lambda>x. rbind (f x) g)"
  by (cases m) (auto simp: rbind_def)

lemma rbind_cong [fundef_cong]:
  "m = m' \<Longrightarrow> (\<And>x. m' = Inr x \<Longrightarrow> f x = g x) \<Longrightarrow> rbind m f = rbind m' g"
  by (cases m') (auto simp: rbind_def)

lemma rguard_eq_Ok [simp, res_simps]: "rguard b e = Inr u \<longleftrightarrow> b"
  by (simp add: rguard_def)

lemma rguard_eq_Err: "rguard b e = Inl e' \<longleftrightarrow> \<not> b \<and> e' = e"
  by (auto simp: rguard_def)

lemma rguard_True [simp]: "rguard True e = Inr ()"
  by (simp add: rguard_def)

lemma rguard_False [simp]: "rguard False e = Inl e"
  by (simp add: rguard_def)

lemma rcatch_eq_Ok [simp, res_simps]: "rcatch h e' m = Inr x \<longleftrightarrow> m = Inr x"
  by (cases m) (auto simp: rcatch_def)

lemma rcatch_Inr [simp]: "rcatch h e' (Inr x) = Inr x"
  by (simp add: rcatch_def)

lemma res_of_eq_Ok [simp, res_simps]: "res_of e x = Inr v \<longleftrightarrow> x = Some v"
  by (cases x) (auto simp: res_of_def)

lemma res_of_simps [simp]: "res_of e None = Inl e" "res_of e (Some v) = Inr v"
  by (simp_all add: res_of_def)

lemma rmapM_eq_Ok: "rmapM f xs = Inr ys \<longleftrightarrow> list_all2 (\<lambda>x y. f x = Inr y) xs ys"
  by (induction xs arbitrary: ys) (auto simp: rbind_eq_Ok list_all2_Cons1)

lemma rmapM_Ok_length: "rmapM f xs = Inr ys \<Longrightarrow> length ys = length xs"
  by (auto simp: rmapM_eq_Ok dest: list_all2_lengthD)

lemma rmapM_total: "(\<And>x. x \<in> set xs \<Longrightarrow> f x = Inr (g x)) \<Longrightarrow> rmapM f xs = Inr (map g xs)"
  by (induction xs) auto

lemma rmapM_Ok_mem:
  "rmapM f xs = Inr ys \<Longrightarrow> y \<in> set ys \<Longrightarrow> \<exists>x \<in> set xs. f x = Inr y"
  by (induction xs arbitrary: ys) (auto simp: rbind_eq_Ok)

lemma rmapM_cong [fundef_cong]:
  "xs = ys \<Longrightarrow> (\<And>x. x \<in> set ys \<Longrightarrow> f x = g x) \<Longrightarrow> rmapM f xs = rmapM g ys"
proof -
  assume "xs = ys" and "\<And>x. x \<in> set ys \<Longrightarrow> f x = g x"
  then have "rmapM f ys = rmapM g ys"
    by (induction ys arbitrary: xs) auto
  with \<open>xs = ys\<close> show "rmapM f xs = rmapM g ys" by simp
qed

lemma rfoldM_append: "rfoldM f s (xs @ ys) = rbind (rfoldM f s xs) (\<lambda>s'. rfoldM f s' ys)"
  by (induction xs arbitrary: s) (auto simp: rbind_assoc)

lemma rfoldM_invariant:
  assumes "rfoldM f s xs = Inr s'" and "P s"
    and "\<And>s x s'. x \<in> set xs \<Longrightarrow> P s \<Longrightarrow> f s x = Inr s' \<Longrightarrow> P s'"
  shows "P s'"
  using assms by (induction xs arbitrary: s) (auto simp: rbind_eq_Ok)

section \<open>Insertion-ordered dictionaries\<close>

text \<open>
  A Python dict is an association list with distinct keys in insertion order.
  \<open>AList.update\<close> overwrites in place or appends, which is \<open>d[k] = v\<close>; \<open>map_of\<close> is
  \<open>d.get\<close>. \<open>dict_update d kvs\<close> is \<open>d.update(kvs)\<close>, and \<open>dict_of kvs\<close> the dict display.
\<close>

type_synonym ('k, 'v) dict = "('k \<times> 'v) list"

definition dict_update :: "('k, 'v) dict \<Rightarrow> ('k \<times> 'v) list \<Rightarrow> ('k, 'v) dict" where
  "dict_update d kvs = fold (\<lambda>(k, v). AList.update k v) kvs d"

definition dict_of :: "('k \<times> 'v) list \<Rightarrow> ('k, 'v) dict" where
  "dict_of kvs = dict_update [] kvs"

definition dict_get :: "('k, 'v) dict \<Rightarrow> 'k \<Rightarrow> 'v \<Rightarrow> 'v" where
  "dict_get d k v = (case map_of d k of None \<Rightarrow> v | Some x \<Rightarrow> x)"

definition dict_keys :: "('k, 'v) dict \<Rightarrow> 'k list" where
  "dict_keys d = map fst d"

lemma map_of_AList_update: "map_of (AList.update k v d) = (map_of d)(k \<mapsto> v)"
  by (rule update_conv')

lemma map_of_dict_update: "map_of (dict_update d kvs) = map_of d ++ map_of (rev kvs)"
proof (induction kvs arbitrary: d)
  case Nil
  then show ?case by (simp add: dict_update_def)
next
  case (Cons kv kvs)
  have "map_of (dict_update d (kv # kvs)) =
      map_of (AList.update (fst kv) (snd kv) d) ++ map_of (rev kvs)"
    using Cons.IH by (simp add: dict_update_def case_prod_unfold)
  then show ?case
    by (simp add: map_of_AList_update map_add_upd_left fun_eq_iff map_add_def split: option.splits)
qed

lemma distinct_dict_update:
  "distinct (map fst d) \<Longrightarrow> distinct (map fst (dict_update d kvs))"
  by (induction kvs arbitrary: d) (auto simp: dict_update_def case_prod_unfold distinct_update)

lemma AList_update_keys:
  "map fst (AList.update k v d) = (if k \<in> set (map fst d) then map fst d else map fst d @ [k])"
  by (induction d) auto

lemma set_dict_update_keys:
  "fst ` set (dict_update d kvs) = fst ` set d \<union> fst ` set kvs"
proof (induction kvs arbitrary: d)
  case Nil
  then show ?case by (simp add: dict_update_def)
next
  case (Cons kv kvs)
  have "fst ` set (AList.update (fst kv) (snd kv) d) = insert (fst kv) (fst ` set d)"
    by (simp add: dom_update)
  with Cons.IH show ?case
    by (simp add: dict_update_def case_prod_unfold)
qed

lemma dict_update_keys_within:
  assumes "fst ` set kvs \<subseteq> set (map fst d)"
  shows "map fst (dict_update d kvs) = map fst d"
  using assms
proof (induction kvs arbitrary: d)
  case Nil
  then show ?case by (simp add: dict_update_def)
next
  case (Cons kv kvs)
  let ?d = "AList.update (fst kv) (snd kv) d"
  have k: "map fst ?d = map fst d"
    using Cons.prems by (auto simp: AList_update_keys)
  then have "map fst (dict_update ?d kvs) = map fst ?d"
    using Cons.prems by (intro Cons.IH) (simp add: k)
  with k show ?case by (simp add: dict_update_def case_prod_unfold)
qed

section \<open>Grouping and first occurrences\<close>

text \<open>
  \<open>group_by f xs\<close> is the loop \<open>for x in xs: groups[f(x)].append(x)\<close> over a
  \<open>defaultdict(list)\<close>, or with \<open>setdefault(f(x), []).append(x)\<close>. \<open>uniq\<close> is
  \<open>list(dict.fromkeys(xs))\<close>: the first occurrence of each element, in order.
\<close>

definition group_add :: "('a \<Rightarrow> 'k) \<Rightarrow> 'a \<Rightarrow> ('k, 'a list) dict \<Rightarrow> ('k, 'a list) dict" where
  "group_add f x g = AList.update (f x) (dict_get g (f x) [] @ [x]) g"

definition group_by :: "('a \<Rightarrow> 'k) \<Rightarrow> 'a list \<Rightarrow> ('k, 'a list) dict" where
  "group_by f xs = fold (group_add f) xs []"

fun uniq_acc :: "'a list \<Rightarrow> 'a list \<Rightarrow> 'a list" where
  "uniq_acc seen [] = []"
| "uniq_acc seen (x # xs) = (if x \<in> set seen then uniq_acc seen xs else x # uniq_acc (x # seen) xs)"

definition uniq :: "'a list \<Rightarrow> 'a list" where
  "uniq xs = uniq_acc [] xs"

lemma uniq_acc_set: "set (uniq_acc seen xs) = set xs - set seen"
  by (induction xs arbitrary: seen) auto

lemma uniq_acc_distinct: "distinct (uniq_acc seen xs)"
  by (induction xs arbitrary: seen) (auto simp: uniq_acc_set)

lemma set_uniq [simp]: "set (uniq xs) = set xs"
  by (simp add: uniq_def uniq_acc_set)

lemma distinct_uniq [simp]: "distinct (uniq xs)"
  by (simp add: uniq_def uniq_acc_distinct)

lemma uniq_acc_id: "distinct xs \<Longrightarrow> set seen \<inter> set xs = {} \<Longrightarrow> uniq_acc seen xs = xs"
  by (induction xs arbitrary: seen) auto

lemma uniq_id [simp]: "distinct xs \<Longrightarrow> uniq xs = xs"
  by (simp add: uniq_def uniq_acc_id)

lemma map_of_group_fold:
  "map_of (fold (group_add f) xs g) k =
     (let ys = filter (\<lambda>x. f x = k) xs
      in if ys = [] then map_of g k else Some (dict_get g k [] @ ys))"
proof (induction xs arbitrary: g)
  case Nil
  then show ?case by simp
next
  case (Cons x xs)
  have "map_of (group_add f x g) k =
      (if f x = k then Some (dict_get g k [] @ [x]) else map_of g k)"
    by (simp add: group_add_def map_of_AList_update)
  with Cons.IH [of "group_add f x g"] show ?case
    by (auto simp: Let_def dict_get_def)
qed

lemma map_of_group_by:
  "map_of (group_by f xs) k =
     (let ys = filter (\<lambda>x. f x = k) xs in if ys = [] then None else Some ys)"
  by (simp add: group_by_def map_of_group_fold dict_get_def Let_def)

lemma distinct_group_fold:
  "distinct (map fst g) \<Longrightarrow> distinct (map fst (fold (group_add f) xs g))"
  by (induction xs arbitrary: g) (auto simp: group_add_def distinct_update)

lemma distinct_group_by: "distinct (map fst (group_by f xs))"
  by (simp add: group_by_def distinct_group_fold)

lemma group_by_mem:
  "(k, ys) \<in> set (group_by f xs) \<longleftrightarrow> ys = filter (\<lambda>x. f x = k) xs \<and> ys \<noteq> []"
proof -
  have "(k, ys) \<in> set (group_by f xs) \<longleftrightarrow> map_of (group_by f xs) k = Some ys"
    by (simp add: distinct_group_by)
  then show ?thesis by (auto simp: map_of_group_by Let_def)
qed

lemma group_by_keys: "set (map fst (group_by f xs)) = f ` set xs"
proof -
  have "k \<in> fst ` set (group_by f xs) \<longleftrightarrow> map_of (group_by f xs) k \<noteq> None" for k
    by (simp add: map_of_eq_None_iff)
  then have "k \<in> fst ` set (group_by f xs) \<longleftrightarrow> filter (\<lambda>x. f x = k) xs \<noteq> []" for k
    by (simp add: map_of_group_by Let_def)
  then have "k \<in> fst ` set (group_by f xs) \<longleftrightarrow> k \<in> f ` set xs" for k
    by (auto simp: filter_empty_conv)
  then show ?thesis by (simp only: set_map) blast
qed

lemma mset_filter_partition:
  assumes "distinct ks" and "\<And>x. x \<in> set xs \<Longrightarrow> f x \<in> set ks"
  shows "mset (concat (map (\<lambda>k. filter (\<lambda>x. f x = k) xs) ks)) = mset xs"
  using assms
proof (induction ks arbitrary: xs)
  case Nil
  then show ?case by (cases xs) auto
next
  case (Cons k ks)
  let ?ys = "filter (\<lambda>x. f x \<noteq> k) xs"
  have eq: "map (\<lambda>k'. filter (\<lambda>x. f x = k') xs) ks = map (\<lambda>k'. filter (\<lambda>x. f x = k') ?ys) ks"
    using Cons.prems(1) by (intro map_cong) (auto intro!: filter_cong)
  have "mset (concat (map (\<lambda>k'. filter (\<lambda>x. f x = k') xs) ks)) = mset ?ys"
    unfolding eq using Cons.prems by (intro Cons.IH) auto
  then show ?case by simp
qed

lemma group_by_partition: "mset (concat (map snd (group_by f xs))) = mset xs"
proof -
  let ?ks = "map fst (group_by f xs)"
  have "map snd (group_by f xs) = map (\<lambda>k. filter (\<lambda>x. f x = k) xs) ?ks"
    by (auto simp: group_by_mem)
  then show ?thesis
    using mset_filter_partition [of ?ks xs f] distinct_group_by [of f xs] group_by_keys [of f xs]
    by (simp only:) auto
qed

section \<open>Sorting and counting\<close>

text \<open>\<open>sorted(set(xs))\<close>; \<open>sorted(xs, key=f)\<close> is the library's stable \<open>sort_key\<close>.\<close>

definition sorted_set :: "'a::linorder list \<Rightarrow> 'a list" where
  "sorted_set xs = sort (remdups xs)"

definition count_if :: "('a \<Rightarrow> bool) \<Rightarrow> 'a list \<Rightarrow> int" where
  "count_if p xs = int (length (filter p xs))"

lemma sorted_sorted_set [simp]: "sorted (sorted_set xs)"
  and distinct_sorted_set [simp]: "distinct (sorted_set xs)"
  and set_sorted_set [simp]: "set (sorted_set xs) = set xs"
  by (simp_all add: sorted_set_def)

lemma sorted_set_eqI:
  "sorted ys \<Longrightarrow> distinct ys \<Longrightarrow> set ys = set xs \<Longrightarrow> sorted_set xs = ys"
  by (rule sorted_distinct_set_unique) auto

lemma sorted_set_id [simp]: "sorted xs \<Longrightarrow> distinct xs \<Longrightarrow> sorted_set xs = xs"
  by (rule sorted_set_eqI) auto

lemma sorted_set_empty_iff [simp]: "sorted_set xs = [] \<longleftrightarrow> xs = []"
  by (metis set_sorted_set set_empty)

lemma count_if_Nil [simp]: "count_if p [] = 0"
  by (simp add: count_if_def)

lemma count_if_Cons [simp]: "count_if p (x # xs) = (if p x then 1 else 0) + count_if p xs"
  by (simp add: count_if_def)

lemma count_if_append [simp]: "count_if p (xs @ ys) = count_if p xs + count_if p ys"
  by (simp add: count_if_def)

lemma count_if_nonneg [simp]: "0 \<le> count_if p xs"
  by (simp add: count_if_def)

lemma count_if_mono: "(\<And>x. x \<in> set xs \<Longrightarrow> p x \<Longrightarrow> q x) \<Longrightarrow> count_if p xs \<le> count_if q xs"
  by (induction xs) auto

text \<open>A counter that every step of a loop moves by a weight of the element ends as the sum.\<close>

lemma rfoldM_counter:
  fixes g :: "'s \<Rightarrow> int"
  assumes "rfoldM f s xs = Ok s'" and "\<And>s x s'. f s x = Ok s' \<Longrightarrow> g s' = g s + w x"
  shows "g s' = g s + sum_list (map w xs)"
  using assms(1) by (induction xs arbitrary: s) (auto simp: rbind_eq_Ok dest: assms(2))

lemma sum_list_count_if: "sum_list (map (\<lambda>r. if p r then 1 else 0) rows) = count_if p rows"
  by (induction rows) auto

lemma rfoldM_count_if:
  fixes g :: "'s \<Rightarrow> int"
  assumes "rfoldM f s xs = Ok s'" and "\<And>s x s'. f s x = Ok s' \<Longrightarrow> g s' = g s + (if p x then 1 else 0)"
  shows "g s' = g s + count_if p xs"
  using rfoldM_counter [where w = "\<lambda>x. if p x then 1 else 0", OF assms] by (simp add: sum_list_count_if)

lemma count_if_le_length: "count_if p xs \<le> int (length xs)"
  by (simp add: count_if_def)

lemma sorted_strict_nth_interval:
  assumes "sorted xs" "distinct xs" "set xs = {1..int (length xs)}"
  shows "xs = map int [1..<Suc (length xs)]"
proof -
  let ?ys = "map int [1..<Suc (length xs)]"
  have "set ?ys = {1..int (length xs)}"
    by (simp only: set_map set_upt image_int_atLeastLessThan) auto
  moreover have "sorted ?ys" "distinct ?ys"
    by (auto simp: sorted_map distinct_map simp del: upt_Suc)
  ultimately show ?thesis
    using assms by (metis sorted_distinct_set_unique)
qed

section \<open>Runs and consecutive numbers\<close>

text \<open>\<open>runs f xs\<close> cuts \<open>xs\<close> into its maximal runs of equal \<open>f\<close>.\<close>

fun runs :: "('a \<Rightarrow> 'k) \<Rightarrow> 'a list \<Rightarrow> 'a list list" where
  "runs f [] = []"
| "runs f (x # xs) =
     (case runs f xs of
        (y # ys) # gs \<Rightarrow> if f x = f y then (x # y # ys) # gs else [x] # (y # ys) # gs
      | _ \<Rightarrow> [[x]])"

lemma runs_nonempty: "[] \<notin> set (runs f xs)"
  by (induction xs) (auto split: list.splits)

lemma runs_Nil_iff [simp]: "runs f xs = [] \<longleftrightarrow> xs = []"
  by (cases xs) (auto split: list.splits)

lemma concat_runs [simp]: "concat (runs f xs) = xs"
proof (induction xs)
  case (Cons x xs)
  show ?case
  proof (cases "runs f xs")
    case Nil
    with Cons show ?thesis by simp
  next
    case (Cons g gs)
    then obtain y ys where "g = y # ys" using runs_nonempty [of f xs] by (cases g) auto
    with Cons Cons.IH show ?thesis by simp
  qed
qed simp

lemma runs_Cons: "\<exists>zs hs. runs f (x # xs) = (x # zs) # hs"
  by (auto split: list.splits)

lemma runs_same: "g \<in> set (runs f xs) \<Longrightarrow> b \<in> set g \<Longrightarrow> f b = f (hd g)"
proof (induction xs arbitrary: g)
  case (Cons x xs)
  then show ?case by (fastforce split: list.splits if_splits)
qed simp

lemma runs_append_same:
  assumes "xs \<noteq> []" "\<forall>x \<in> set xs. f x = k"
  shows "runs f (xs @ ys) =
    (case runs f ys of
        (y # zs) # gs \<Rightarrow> if k = f y then (xs @ y # zs) # gs else xs # (y # zs) # gs
      | _ \<Rightarrow> [xs])"
  using assms
proof (induction xs)
  case (Cons x xs)
  have ne: "[] \<notin> set (runs f ys)" by (rule runs_nonempty)
  show ?case
  proof (cases "xs = []")
    case True
    then show ?thesis using Cons.prems by (simp split: list.splits)
  next
    case False
    then obtain x' xs' where x': "xs = x' # xs'" by (cases xs) auto
    with Cons.prems False show ?thesis
      using Cons.IH ne by (auto split: list.splits)
  qed
qed simp

lemma runs_adjacent: "successively (\<lambda>g h. f (hd g) \<noteq> f (hd h)) (runs f xs)"
proof (induction xs)
  case (Cons x xs)
  then show ?case
    by (cases "runs f xs"; cases "tl (runs f xs)") (auto split: list.splits)
qed simp

fun consecutive :: "int \<Rightarrow> int list \<Rightarrow> bool" where
  "consecutive a [] = True"
| "consecutive a (x # xs) = (x = a \<and> consecutive (a + 1) xs)"

lemma consecutive_append:
  "consecutive a (xs @ ys) \<longleftrightarrow> consecutive a xs \<and> consecutive (a + int (length xs)) ys"
  by (induction xs arbitrary: a) (auto simp: algebra_simps)

lemma sum_list_consecutive:
  "consecutive a xs \<Longrightarrow> 2 * sum_list xs = int (length xs) * (2 * a + int (length xs) - 1)"
proof (induction xs arbitrary: a)
  case (Cons x xs)
  then show ?case using Cons.IH [of "a + 1"] by (auto simp: algebra_simps)
qed simp

section \<open>First hits\<close>

lemma list_all2_mem2: "list_all2 P xs ys \<Longrightarrow> y \<in> set ys \<Longrightarrow> \<exists>x \<in> set xs. P x y"
  by (induction rule: list_all2_induct) auto

lemma list_all2_mem1: "list_all2 P xs ys \<Longrightarrow> x \<in> set xs \<Longrightarrow> \<exists>y \<in> set ys. P x y"
  by (induction rule: list_all2_induct) auto

lemma find_append: "find p (xs @ ys) = (case find p xs of Some x \<Rightarrow> Some x | None \<Rightarrow> find p ys)"
  by (induction xs) auto

lemma find_concat:
  assumes "find (list_ex hit) rs = Some g"
  shows "find hit (concat rs) = find hit g \<and> g \<in> set rs
    \<and> (\<exists>b. find hit g = Some b \<and> find (\<lambda>h. b \<in> set h) rs = Some g)"
  using assms
proof (induction rs)
  case (Cons h rs)
  show ?case
  proof (cases "list_ex hit h")
    case True
    then obtain b where b: "find hit h = Some b" by (cases "find hit h") (auto simp: find_None_iff list_ex_iff)
    then have "b \<in> set h" by (auto simp: find_Some_iff)
    with True b Cons.prems show ?thesis by (auto simp: find_append)
  next
    case False
    with Cons obtain b where b: "find hit g = Some b" "find (\<lambda>h. b \<in> set h) rs = Some g"
      "find hit (concat rs) = find hit g" "g \<in> set rs" by auto
    have "hit b" using b(1) by (auto simp: find_Some_iff)
    with False have "b \<notin> set h" by (auto simp: list_ex_iff)
    moreover have "find hit h = None" using False by (auto simp: find_None_iff list_ex_iff)
    ultimately show ?thesis using b by (auto simp: find_append)
  qed
qed simp

lemma find_concat_None: "find (list_ex hit) rs = None \<Longrightarrow> find hit (concat rs) = None"
  by (auto simp: find_None_iff list_ex_iff)

section \<open>Text codecs\<close>

text \<open>
  The contract between a printer and the reader of its texts: a valid value is read back as
  itself. Integers, paths, average ranks, line ranges and shell command lines are instances.
\<close>

locale codec =
  fixes enc :: "'a \<Rightarrow> 'b" and dec :: "'b \<Rightarrow> 'a option" and valid :: "'a \<Rightarrow> bool"
  assumes dec_enc: "valid x \<Longrightarrow> dec (enc x) = Some x"
begin

lemma enc_inj: "valid x \<Longrightarrow> valid y \<Longrightarrow> enc x = enc y \<longleftrightarrow> x = y"
  by (metis dec_enc option.inject)

lemma inj_on_enc: "inj_on enc {x. valid x}"
  by (rule inj_onI) (simp add: enc_inj)

lemma distinct_map_enc: "(\<And>x. x \<in> set xs \<Longrightarrow> valid x) \<Longrightarrow> distinct (map enc xs) \<longleftrightarrow> distinct xs"
  by (simp add: distinct_map inj_on_def enc_inj)

lemma those_dec_enc: "(\<And>x. x \<in> set xs \<Longrightarrow> valid x) \<Longrightarrow> those (map dec (map enc xs)) = Some xs"
  by (induction xs) (simp_all add: dec_enc)

end

section \<open>More on dictionaries\<close>

lemma AList_update_fresh: "k \<notin> set (map fst d) \<Longrightarrow> AList.update k v d = d @ [(k, v)]"
  by (induction d) auto

lemma dict_update_fresh:
  "distinct (map fst kvs) \<Longrightarrow> set (map fst kvs) \<inter> set (map fst d) = {} \<Longrightarrow> dict_update d kvs = d @ kvs"
  by (induction kvs arbitrary: d) (force simp: dict_update_def AList_update_fresh)+

lemma dict_of_id: "distinct (dict_keys d) \<Longrightarrow> dict_of d = d"
  by (simp add: dict_of_def dict_keys_def dict_update_fresh)

lemma map_dict_get_keys: "distinct (dict_keys d) \<Longrightarrow> map (\<lambda>k. dict_get d k v) (dict_keys d) = map snd d"
  by (auto simp: dict_keys_def dict_get_def)

lemma zip_keys: "zip (dict_keys d) (map snd d) = d"
  by (simp add: dict_keys_def zip_map_fst_snd)

lemma dict_update_keys: "fst ` set kvs \<subseteq> set (dict_keys d) \<Longrightarrow> dict_keys (dict_update d kvs) = dict_keys d"
  unfolding dict_keys_def by (rule dict_update_keys_within)

lemma AList_update_known_key: "k \<in> set (dict_keys d) \<Longrightarrow> dict_keys (AList.update k v d) = dict_keys d"
  by (simp add: dict_keys_def AList_update_keys)

lemma dict_get_update_other: "k \<notin> fst ` set kvs \<Longrightarrow> dict_get (dict_update d kvs) k v = dict_get d k v"
proof -
  assume "k \<notin> fst ` set kvs"
  then have "map_of (rev kvs) k = None" by (simp add: map_of_eq_None_iff)
  then show ?thesis by (simp add: dict_get_def map_of_dict_update map_add_def)
qed

lemma dict_get_AList_update_other: "k \<noteq> k' \<Longrightarrow> dict_get (AList.update k' x d) k v = dict_get d k v"
  by (simp add: dict_get_def map_of_AList_update)

lemma sum_list_le_length: "(\<And>x. x \<in> set xs \<Longrightarrow> w x \<le> (1::int)) \<Longrightarrow> sum_list (map w xs) \<le> int (length xs)"
  by (induction xs) (auto simp: add_mono)

end
