(* ===== verification/Py_Text.thy ===== *)
theory Py_Text
  imports Prelude
begin

text \<open>
  The string operations of Python that the tools use. A \<open>string\<close> is a list of code points
  below 256 (Isabelle's \<open>char\<close>), so the predicates below are those of Python's \<open>str\<close>
  restricted to that range: white space is TAB to CR, FS to US, the space, NEL and NBSP; the
  only decimal digits are the ASCII ones; \<open>lower\<close> also maps the Latin-1 capitals.
  The interpreter's configurable limit on the length of decimal integers is not modelled.
\<close>

section \<open>Characters\<close>

definition code :: "char \<Rightarrow> nat" where
  "code c = of_char c"

definition is_space :: "char \<Rightarrow> bool" where
  "is_space c \<longleftrightarrow> (9 \<le> code c \<and> code c \<le> 13) \<or> (28 \<le> code c \<and> code c \<le> 32)
     \<or> code c = 133 \<or> code c = 160"

definition is_eol :: "char \<Rightarrow> bool" where
  "is_eol c \<longleftrightarrow> (10 \<le> code c \<and> code c \<le> 13) \<or> (28 \<le> code c \<and> code c \<le> 30) \<or> code c = 133"

definition is_digit :: "char \<Rightarrow> bool" where
  "is_digit c \<longleftrightarrow> 48 \<le> code c \<and> code c \<le> 57"

definition is_upper_az :: "char \<Rightarrow> bool" where
  "is_upper_az c \<longleftrightarrow> 65 \<le> code c \<and> code c \<le> 90"

definition is_lower_az :: "char \<Rightarrow> bool" where
  "is_lower_az c \<longleftrightarrow> 97 \<le> code c \<and> code c \<le> 122"

definition is_ascii :: "char \<Rightarrow> bool" where
  "is_ascii c \<longleftrightarrow> code c < 128"

definition is_ascii_alnum :: "char \<Rightarrow> bool" where
  "is_ascii_alnum c \<longleftrightarrow> is_digit c \<or> is_upper_az c \<or> is_lower_az c"

definition lower_char :: "char \<Rightarrow> char" where
  "lower_char c = (if is_upper_az c \<or> (192 \<le> code c \<and> code c \<le> 222 \<and> code c \<noteq> 215)
     then char_of (code c + 32) else c)"

definition digit_val :: "char \<Rightarrow> nat" where
  "digit_val c = code c - 48"

definition digit_chr :: "nat \<Rightarrow> char" where
  "digit_chr d = char_of (48 + d)"

definition NL :: char where "NL = CHR 0x0A"

definition CR :: char where "CR = CHR 0x0D"

definition TAB :: char where "TAB = CHR 0x09"

lemmas char_class_defs = is_space_def is_eol_def is_digit_def is_upper_az_def is_lower_az_def
  is_ascii_def is_ascii_alnum_def code_def

lemma code_digit_chr [simp]: "d < 10 \<Longrightarrow> code (digit_chr d) = 48 + d"
  by (simp add: code_def digit_chr_def)

lemma digit_val_chr [simp]: "d < 10 \<Longrightarrow> digit_val (digit_chr d) = d"
  by (simp add: digit_val_def)

lemma is_digit_chr [simp]: "d < 10 \<Longrightarrow> is_digit (digit_chr d)"
  by (simp add: is_digit_def)

lemma digit_not_space: "is_digit c \<Longrightarrow> \<not> is_space c"
  by (auto simp: is_digit_def is_space_def)

lemma eol_space: "is_eol c \<Longrightarrow> is_space c"
  by (auto simp: is_eol_def is_space_def)

section \<open>Stripping, prefixes and suffixes\<close>

definition lstrip_by :: "(char \<Rightarrow> bool) \<Rightarrow> string \<Rightarrow> string" where
  "lstrip_by p s = dropWhile p s"

definition rstrip_by :: "(char \<Rightarrow> bool) \<Rightarrow> string \<Rightarrow> string" where
  "rstrip_by p s = rev (dropWhile p (rev s))"

definition rstrip :: "string \<Rightarrow> string" where
  "rstrip s = rstrip_by is_space s"

definition strip :: "string \<Rightarrow> string" where
  "strip s = rstrip_by is_space (lstrip_by is_space s)"

definition startswith :: "string \<Rightarrow> string \<Rightarrow> bool" where
  "startswith s p \<longleftrightarrow> take (length p) s = p"

definition endswith :: "string \<Rightarrow> string \<Rightarrow> bool" where
  "endswith s p \<longleftrightarrow> length p \<le> length s \<and> drop (length s - length p) s = p"

definition removeprefix :: "string \<Rightarrow> string \<Rightarrow> string" where
  "removeprefix s p = (if startswith s p then drop (length p) s else s)"

definition removesuffix :: "string \<Rightarrow> string \<Rightarrow> string" where
  "removesuffix s p = (if p \<noteq> [] \<and> endswith s p then take (length s - length p) s else s)"

definition lower :: "string \<Rightarrow> string" where
  "lower s = map lower_char s"

lemma startswith_append [simp]: "startswith (p @ s) p"
  by (simp add: startswith_def)

lemma startswith_iff: "startswith s p \<longleftrightarrow> (\<exists>t. s = p @ t)"
  by (metis append_eq_conv_conj append_take_drop_id startswith_def)

lemma startswith_length: "startswith s p \<Longrightarrow> length p \<le> length s"
  by (auto simp: startswith_iff)

lemma endswith_append [simp]: "endswith (s @ p) p"
  by (simp add: endswith_def)

lemma endswith_iff: "endswith s p \<longleftrightarrow> (\<exists>t. s = t @ p)"
  by (metis append_take_drop_id endswith_append endswith_def)

lemma removeprefix_append [simp]: "removeprefix (p @ s) p = s"
  by (simp add: removeprefix_def)

lemma dropWhile_id_hd: "(xs = [] \<or> \<not> p (hd xs)) \<Longrightarrow> dropWhile p xs = xs"
  by (cases xs) auto

lemma strip_id: "s = [] \<or> (\<not> is_space (hd s) \<and> \<not> is_space (last s)) \<Longrightarrow> strip s = s"
  by (cases "s = []")
    (simp_all add: strip_def lstrip_by_def rstrip_by_def dropWhile_id_hd hd_rev)

lemma strip_no_space: "(\<And>c. c \<in> set s \<Longrightarrow> \<not> is_space c) \<Longrightarrow> strip s = s"
  by (rule strip_id) auto

lemma set_strip_subset: "set (strip s) \<subseteq> set s"
  by (auto simp: strip_def lstrip_by_def rstrip_by_def dest!: set_dropWhileD)

lemma rstrip_by_snoc: "rstrip_by p (s @ [c]) = (if p c then rstrip_by p s else s @ [c])"
  by (simp add: rstrip_by_def)

lemma strip_snoc_space: "is_space c \<Longrightarrow> strip (s @ [c]) = strip s"
  by (cases "\<forall>x \<in> set s. is_space x")
    (auto simp: strip_def lstrip_by_def rstrip_by_def dropWhile_append dest: set_dropWhileD)

section \<open>Splitting and joining\<close>

fun split_by :: "(char \<Rightarrow> bool) \<Rightarrow> string \<Rightarrow> string list" where
  "split_by p [] = [[]]"
| "split_by p (c # cs) =
     (if p c then [] # split_by p cs
      else (case split_by p cs of [] \<Rightarrow> [[c]] | w # ws \<Rightarrow> (c # w) # ws))"

definition split_char :: "char \<Rightarrow> string \<Rightarrow> string list" where
  "split_char sep s = split_by (\<lambda>c. c = sep) s"

definition split_ws :: "string \<Rightarrow> string list" where
  "split_ws s = filter (\<lambda>w. w \<noteq> []) (split_by is_space s)"

fun join :: "string \<Rightarrow> string list \<Rightarrow> string" where
  "join sep [] = []"
| "join sep [w] = w"
| "join sep (w # ws) = w @ sep @ join sep ws"

function splitlines :: "string \<Rightarrow> string list" where
  "splitlines [] = []"
| "splitlines (c # cs) =
     (if c = CR \<and> cs \<noteq> [] \<and> hd cs = NL then [] # splitlines (tl cs)
      else if is_eol c then [] # splitlines cs
      else (case splitlines cs of [] \<Rightarrow> [[c]] | l # ls \<Rightarrow> (c # l) # ls))"
  by pat_completeness auto
termination
  by (relation "measure length") auto

lemma split_by_nonempty [simp]: "split_by p s \<noteq> []"
  by (induction s) (auto split: list.splits)

lemma split_by_no_sep: "(\<And>c. c \<in> set s \<Longrightarrow> \<not> p c) \<Longrightarrow> split_by p s = [s]"
  by (induction s) auto

lemma split_by_append_sep:
  "(\<And>c. c \<in> set w \<Longrightarrow> \<not> p c) \<Longrightarrow> p d \<Longrightarrow> split_by p (w @ d # s) = w # split_by p s"
  by (induction w) auto

lemma split_by_elem: "w \<in> set (split_by p s) \<Longrightarrow> c \<in> set w \<Longrightarrow> \<not> p c \<and> c \<in> set s"
proof (induction s arbitrary: w)
  case Nil
  then show ?case by simp
next
  case (Cons d s)
  show ?case
  proof (cases "p d")
    case True
    with Cons show ?thesis by fastforce
  next
    case False
    obtain v vs where eq: "split_by p s = v # vs" by (cases "split_by p s") auto
    with False Cons.prems have "w = d # v \<or> w \<in> set vs" by auto
    then show ?thesis
      using Cons.IH [of v] Cons.IH [of w] Cons.prems(2) False eq by auto
  qed
qed

lemma join_Cons: "ws \<noteq> [] \<Longrightarrow> join sep (w # ws) = w @ sep @ join sep ws"
  by (cases ws) auto

lemma split_char_join:
  assumes "ws \<noteq> []" and "\<And>w. w \<in> set ws \<Longrightarrow> sep \<notin> set w"
  shows "split_char sep (join [sep] ws) = ws"
  using assms
proof (induction ws)
  case Nil
  then show ?case by simp
next
  case (Cons w ws)
  show ?case
  proof (cases "ws = []")
    case True
    with Cons.prems show ?thesis by (auto simp: split_char_def intro!: split_by_no_sep)
  next
    case False
    then have "split_char sep (join [sep] (w # ws)) = w # split_char sep (join [sep] ws)"
      using Cons.prems by (auto simp: join_Cons split_char_def intro!: split_by_append_sep)
    with False Cons show ?thesis by simp
  qed
qed

lemma splitlines_append_NL:
  "(\<And>c. c \<in> set l \<Longrightarrow> \<not> is_eol c) \<Longrightarrow> splitlines (l @ NL # s) = l # splitlines s"
proof (induction l)
  case Nil
  then show ?case by (simp add: NL_def CR_def is_eol_def code_def)
next
  case (Cons c l)
  have "c \<noteq> CR" using Cons.prems [of c] by (auto simp: is_eol_def CR_def code_def)
  with Cons show ?case by simp
qed

lemma splitlines_no_eol: "(\<And>c. c \<in> set l \<Longrightarrow> \<not> is_eol c) \<Longrightarrow> l \<noteq> [] \<Longrightarrow> splitlines l = [l]"
proof (induction l)
  case (Cons c l)
  have "c \<noteq> CR" using Cons.prems(1) [of c] by (auto simp: is_eol_def CR_def code_def)
  with Cons show ?case by (cases "l = []") auto
qed simp

lemma splitlines_elem: "l \<in> set (splitlines s) \<Longrightarrow> c \<in> set l \<Longrightarrow> \<not> is_eol c"
proof (induction s arbitrary: l rule: splitlines.induct)
  case (2 d cs)
  then show ?case by (auto split: if_splits list.splits) blast+
qed simp

text \<open>The lines of a text file opened for reading, without their line ends.\<close>

definition text_lines :: "string \<Rightarrow> string list" where
  "text_lines s = (let ls = split_char NL s in if last ls = [] then butlast ls else ls)"

lemma split_char_append_sep: "sep \<notin> set w \<Longrightarrow> split_char sep (w @ sep # s) = w # split_char sep s"
  unfolding split_char_def by (rule split_by_append_sep) auto

lemma text_lines_append_NL: "NL \<notin> set l \<Longrightarrow> text_lines (l @ NL # s) = l # text_lines s"
  using split_by_nonempty [of "\<lambda>c. c = NL" s]
  by (simp add: text_lines_def split_char_append_sep Let_def) (simp add: split_char_def)

lemma text_lines_unlines:
  "(\<And>l. l \<in> set ls \<Longrightarrow> NL \<notin> set l) \<Longrightarrow> text_lines (concat (map (\<lambda>l. l @ [NL]) ls)) = ls"
  by (induction ls) (simp_all add: text_lines_append_NL, simp add: text_lines_def split_char_def)

lemma text_lines_no_NL: "l \<in> set (text_lines s) \<Longrightarrow> NL \<notin> set l"
  by (auto simp: text_lines_def split_char_def Let_def split: if_splits dest!: in_set_butlastD split_by_elem)

section \<open>Searching and replacing\<close>

fun find_sub :: "string \<Rightarrow> string \<Rightarrow> nat option" where
  "find_sub p s =
     (if startswith s p then Some 0
      else (case s of [] \<Rightarrow> None | _ # cs \<Rightarrow> map_option Suc (find_sub p cs)))"

declare find_sub.simps [simp del]

definition contains :: "string \<Rightarrow> string \<Rightarrow> bool" where
  "contains s p \<longleftrightarrow> find_sub p s \<noteq> None"

definition rfind_char :: "char \<Rightarrow> string \<Rightarrow> nat option" where
  "rfind_char c s =
     (if c \<in> set s then Some (length s - 1 - length (takeWhile (\<lambda>d. d \<noteq> c) (rev s))) else None)"

function replace_all :: "string \<Rightarrow> string \<Rightarrow> string \<Rightarrow> string" where
  "replace_all old new s =
     (if old \<noteq> [] \<and> startswith s old
      then new @ replace_all old new (drop (length old) s)
      else (case s of [] \<Rightarrow> [] | c # cs \<Rightarrow> c # replace_all old new cs))"
  by pat_completeness auto
termination
  by (relation "measure (\<lambda>(old, new, s). length s)") (auto simp: startswith_iff)

declare replace_all.simps [simp del]

definition replace_char :: "char \<Rightarrow> char \<Rightarrow> string \<Rightarrow> string" where
  "replace_char a b s = map (\<lambda>c. if c = a then b else c) s"

lemma find_sub_Some:
  "find_sub p s = Some i \<Longrightarrow> i + length p \<le> length s \<and> take (length p) (drop i s) = p"
proof (induction s arbitrary: i)
  case Nil
  then show ?case by (auto simp: find_sub.simps [of p "[]"] startswith_def split: if_splits)
next
  case (Cons c s)
  show ?case
  proof (cases "startswith (c # s) p")
    case True
    then have "length p \<le> length (c # s)" by (rule startswith_length)
    with True Cons.prems show ?thesis
      by (auto simp: find_sub.simps [of p "c # s"] startswith_def)
  next
    case False
    with Cons.prems obtain j where "find_sub p s = Some j" "i = Suc j"
      by (auto simp: find_sub.simps [of p "c # s"])
    with Cons.IH show ?thesis by fastforce
  qed
qed

section \<open>Decimal integers\<close>

fun str_nat :: "nat \<Rightarrow> string" where
  "str_nat n = (if n < 10 then [digit_chr n] else str_nat (n div 10) @ [digit_chr (n mod 10)])"

declare str_nat.simps [simp del]

definition str_int :: "int \<Rightarrow> string" where
  "str_int i = (if i < 0 then CHR ''-'' # str_nat (nat (- i)) else str_nat (nat i))"

definition lpad :: "char \<Rightarrow> nat \<Rightarrow> string \<Rightarrow> string" where
  "lpad c n s = replicate (n - length s) c @ s"

definition rpad :: "char \<Rightarrow> nat \<Rightarrow> string \<Rightarrow> string" where
  "rpad c n s = s @ replicate (n - length s) c"

text \<open>\<open>f"{i:0nd}"\<close>: zero padding goes between the sign and the digits.\<close>

definition zpad_int :: "nat \<Rightarrow> int \<Rightarrow> string" where
  "zpad_int n i = (if i < 0 then CHR ''-'' # lpad CHR ''0'' (n - 1) (str_nat (nat (- i)))
     else lpad CHR ''0'' n (str_nat (nat i)))"

fun digits_val :: "bool \<Rightarrow> nat \<Rightarrow> string \<Rightarrow> nat option" where
  "digits_val prev acc [] = (if prev then Some acc else None)"
| "digits_val prev acc (c # cs) =
     (if is_digit c then digits_val True (10 * acc + digit_val c) cs
      else if c = CHR ''_'' \<and> prev then digits_val False acc cs
      else None)"

text \<open>\<open>int(s)\<close> for a string: surrounding white space, a sign, digits with single underscores
  between them. \<open>None\<close> is \<open>ValueError\<close>.\<close>

definition py_int :: "string \<Rightarrow> int option" where
  "py_int s =
     (case strip s of
        [] \<Rightarrow> None
      | c # cs \<Rightarrow>
          if c = CHR ''-'' then map_option (\<lambda>n. - int n) (digits_val False 0 cs)
          else if c = CHR ''+'' then map_option int (digits_val False 0 cs)
          else map_option int (digits_val False 0 (c # cs)))"

lemma str_nat_digits: "c \<in> set (str_nat n) \<Longrightarrow> is_digit c"
proof (induction n rule: str_nat.induct)
  case (1 n)
  then show ?case by (cases "n < 10") (auto simp: str_nat.simps [of n])
qed

lemma str_nat_nonempty [simp]: "str_nat n \<noteq> []"
  by (subst str_nat.simps) simp

lemma digits_val_append:
  "(\<And>c. c \<in> set xs \<Longrightarrow> is_digit c) \<Longrightarrow> xs \<noteq> [] \<Longrightarrow>
   digits_val b acc (xs @ ys) =
     digits_val True (foldl (\<lambda>a c. 10 * a + digit_val c) acc xs) ys"
  by (induction xs arbitrary: b acc; case_tac "xs = []") auto

lemma foldl_digits_str_nat: "foldl (\<lambda>a c. 10 * a + digit_val c) 0 (str_nat n) = n"
proof (induction n rule: str_nat.induct)
  case (1 n)
  then show ?case by (cases "n < 10") (auto simp: str_nat.simps [of n])
qed

lemma digits_val_str_nat: "digits_val b 0 (str_nat n) = Some n"
  using digits_val_append [of "str_nat n" b 0 "[]"]
  by (simp add: str_nat_digits foldl_digits_str_nat)

lemma str_nat_hd_digit: "is_digit (hd (str_nat n))"
  by (rule str_nat_digits [of _ n]) simp

lemma strip_str_nat: "strip (str_nat n) = str_nat n"
  by (rule strip_no_space) (auto dest: str_nat_digits digit_not_space)

lemma strip_str_int: "strip (str_int i) = str_int i"
proof (rule strip_no_space)
  fix c assume "c \<in> set (str_int i)"
  then have "c = CHR ''-'' \<or> is_digit c"
    by (auto simp: str_int_def dest: str_nat_digits split: if_splits)
  then show "\<not> is_space c" by (auto simp: is_space_def is_digit_def code_def)
qed

lemma str_nat_Cons: "\<exists>c cs. str_nat n = c # cs \<and> is_digit c"
  using str_nat_hd_digit [of n] by (cases "str_nat n") auto

theorem py_int_str_nat [simp]: "py_int (str_nat n) = Some (int n)"
proof -
  obtain c cs where eq: "str_nat n = c # cs" "is_digit c" using str_nat_Cons by blast
  have "c \<noteq> CHR ''-''" "c \<noteq> CHR ''+''" using eq(2) by (auto simp: is_digit_def code_def)
  then show ?thesis
    using eq digits_val_str_nat [of False n] strip_str_nat [of n] by (simp add: py_int_def)
qed

theorem py_int_str_int [simp]: "py_int (str_int i) = Some i"
proof (cases "i < 0")
  case True
  then show ?thesis
    using strip_str_int [of i] digits_val_str_nat [of False "nat (- i)"]
    by (simp add: py_int_def str_int_def)
next
  case False
  then show ?thesis by (simp add: str_int_def)
qed

lemma str_int_inj: "str_int i = str_int j \<longleftrightarrow> i = j"
  by (metis option.inject py_int_str_int)

lemma str_int_nonempty [simp]: "str_int i \<noteq> []"
  by (simp add: str_int_def)

lemma str_int_chars: "c \<in> set (str_int i) \<Longrightarrow> c = CHR ''-'' \<or> is_digit c"
  by (auto simp: str_int_def dest: str_nat_digits split: if_splits)

lemma str_int_nonneg_digits: "0 \<le> i \<Longrightarrow> c \<in> set (str_int i) \<Longrightarrow> is_digit c"
  by (auto simp: str_int_def dest: str_nat_digits split: if_splits)

lemma rstrip_by_append_id: "t \<noteq> [] \<Longrightarrow> \<not> p (last t) \<Longrightarrow> rstrip_by p (s @ t) = s @ t"
  by (simp add: rstrip_by_def dropWhile_id_hd hd_append hd_rev)

lemma strip_append_prefix:
  assumes "p \<noteq> []" "\<not> is_space (hd p)" "\<not> is_space (last p)"
  shows "strip (p @ v) = p @ rstrip v"
proof -
  have l: "dropWhile is_space (p @ v) = p @ v" using assms by (intro dropWhile_id_hd) simp
  have r: "dropWhile is_space (rev p) = rev p" using assms by (intro dropWhile_id_hd) (simp add: hd_rev)
  have "dropWhile is_space (rev v @ rev p) = dropWhile is_space (rev v) @ rev p"
    by (cases "\<forall>c \<in> set v. is_space c") (auto simp: dropWhile_append r)
  with l show ?thesis by (simp add: strip_def rstrip_def lstrip_by_def rstrip_by_def)
qed

lemma foldl_digits_zeros: "foldl (\<lambda>a c. 10 * a + digit_val c) 0 (replicate n CHR ''0'') = 0"
  by (induction n) (simp_all add: digit_val_def code_def)

lemma digits_val_lpad: "digits_val False 0 (lpad CHR ''0'' n (str_nat k)) = Some k"
proof -
  have z: "is_digit CHR ''0''" by (simp add: is_digit_def code_def)
  have "\<And>c. c \<in> set (lpad CHR ''0'' n (str_nat k)) \<Longrightarrow> is_digit c"
    using z str_nat_digits by (auto simp: lpad_def set_replicate_conv_if split: if_splits)
  moreover have "foldl (\<lambda>a c. 10 * a + digit_val c) 0 (lpad CHR ''0'' n (str_nat k)) = k"
    by (simp add: lpad_def foldl_digits_zeros foldl_digits_str_nat)
  ultimately show ?thesis
    using digits_val_append [of "lpad CHR ''0'' n (str_nat k)" False 0 "[]"] by (simp add: lpad_def)
qed

lemma lpad_digits: "c \<in> set (lpad CHR ''0'' n (str_nat k)) \<Longrightarrow> is_digit c"
  using str_nat_digits by (auto simp: lpad_def set_replicate_conv_if is_digit_def code_def split: if_splits)

lemma lpad_nonempty: "lpad c n (str_nat k) \<noteq> []"
  by (simp add: lpad_def)

lemma py_int_lpad: "py_int (lpad CHR ''0'' n (str_nat k)) = Some (int k)"
proof -
  let ?s = "lpad CHR ''0'' n (str_nat k)"
  obtain c cs where eq: "?s = c # cs" using lpad_nonempty [of "CHR ''0''" n k] by (cases ?s) auto
  have "is_digit c" using lpad_digits [of c n k] eq by simp
  then have ne: "c \<noteq> CHR ''-''" "c \<noteq> CHR ''+''" by (auto simp: is_digit_def code_def)
  have "strip ?s = ?s" using lpad_digits digit_not_space by (intro strip_no_space) blast
  then show ?thesis
    using ne eq digits_val_lpad [of n k] by (simp add: py_int_def)
qed

theorem py_int_zpad_int: "py_int (zpad_int n i) = Some i"
proof (cases "i < 0")
  case True
  let ?s = "lpad CHR ''0'' (n - 1) (str_nat (nat (- i)))"
  have "strip (CHR ''-'' # ?s) = CHR ''-'' # ?s"
  proof (rule strip_no_space)
    fix c assume "c \<in> set (CHR ''-'' # ?s)"
    then have "c = CHR ''-'' \<or> is_digit c" using lpad_digits by auto
    then show "\<not> is_space c" using digit_not_space by (auto simp: is_space_def code_def)
  qed
  then show ?thesis using True digits_val_lpad by (simp add: zpad_int_def py_int_def)
next
  case False
  then show ?thesis by (simp add: zpad_int_def py_int_lpad)
qed

interpretation int_text: codec str_int py_int "\<lambda>_. True"
  by unfold_locales simp

interpretation padded_int: codec "zpad_int n" py_int "\<lambda>_. True"
  by unfold_locales (simp add: py_int_zpad_int)

lemma zpad_int_inj: "zpad_int n i = zpad_int n j \<longleftrightarrow> i = j"
  by (simp add: padded_int.enc_inj)

end
