(* ===== verification/Py_Float.thy ===== *)
theory Py_Float
  imports Py_Text "HOL-Library.Log_Nat"
begin

text \<open>
  Python's \<open>float\<close> as IEEE 754 binary64: a finite value is the rational it denotes, and every
  operation rounds its exact result to the nearest double, ties to even (\<open>rnd\<close>). The two
  zeros are identified. Also here: \<open>float(s)\<close>, \<open>Decimal(s)\<close>, \<open>round(x, n)\<close> and the
  fixed-point format \<open>f"{x:.nf}"\<close>. \<open>repr\<close> of a float is a parameter of the definitions
  that print one.
\<close>

section \<open>Rounding\<close>

datatype pyfloat = Fin rat | PInf | NInf | NaN

definition round_half_even :: "rat \<Rightarrow> int" where
  "round_half_even q =
     (let f = \<lfloor>q\<rfloor>; d = q - of_int f
      in if d < 1 / 2 then f else if 1 / 2 < d then f + 1 else if even f then f else f + 1)"

text \<open>\<open>expo q\<close> is the floor of the binary logarithm of \<open>\<bar>q\<bar>\<close>, from the bit lengths of
  numerator and denominator.\<close>

definition expo :: "rat \<Rightarrow> int" where
  "expo q =
     (let (n, d) = quotient_of \<bar>q\<bar>;
          k = int (floorlog 2 (nat n)) - int (floorlog 2 (nat d))
      in if 2 powi k \<le> \<bar>q\<bar> then k else k - 1)"

definition ulp_exp :: "rat \<Rightarrow> int" where
  "ulp_exp q = max (expo q - 52) (- 1074)"

definition rnd_rat :: "rat \<Rightarrow> rat" where
  "rnd_rat q = (if q = 0 then 0
     else of_int (round_half_even (q / 2 powi ulp_exp q)) * 2 powi ulp_exp q)"

definition rnd :: "rat \<Rightarrow> pyfloat" where
  "rnd q = (let r = rnd_rat q in if 2 ^ 1024 \<le> \<bar>r\<bar> then (if 0 < q then PInf else NInf) else Fin r)"

text \<open>A rational is a double when it is a 53-bit integer scaled by a power of two of the range.\<close>

definition is_double :: "rat \<Rightarrow> bool" where
  "is_double q \<longleftrightarrow> rnd q = Fin q"

section \<open>Arithmetic, comparison, conversion\<close>

fun fneg :: "pyfloat \<Rightarrow> pyfloat" where
  "fneg (Fin a) = Fin (- a)"
| "fneg PInf = NInf"
| "fneg NInf = PInf"
| "fneg NaN = NaN"

fun fadd :: "pyfloat \<Rightarrow> pyfloat \<Rightarrow> pyfloat" where
  "fadd (Fin a) (Fin b) = rnd (a + b)"
| "fadd NaN _ = NaN"
| "fadd _ NaN = NaN"
| "fadd PInf NInf = NaN"
| "fadd NInf PInf = NaN"
| "fadd PInf _ = PInf"
| "fadd _ PInf = PInf"
| "fadd NInf _ = NInf"
| "fadd _ NInf = NInf"

definition fsub :: "pyfloat \<Rightarrow> pyfloat \<Rightarrow> pyfloat" where
  "fsub a b = fadd a (fneg b)"

definition inf_sgn :: "rat \<Rightarrow> pyfloat" where
  "inf_sgn a = (if a = 0 then NaN else if 0 < a then PInf else NInf)"

fun fmul :: "pyfloat \<Rightarrow> pyfloat \<Rightarrow> pyfloat" where
  "fmul (Fin a) (Fin b) = rnd (a * b)"
| "fmul NaN _ = NaN"
| "fmul _ NaN = NaN"
| "fmul (Fin a) PInf = inf_sgn a"
| "fmul (Fin a) NInf = inf_sgn (- a)"
| "fmul PInf (Fin a) = inf_sgn a"
| "fmul NInf (Fin a) = inf_sgn (- a)"
| "fmul PInf PInf = PInf"
| "fmul NInf NInf = PInf"
| "fmul _ _ = NInf"

text \<open>\<open>a / b\<close>: a zero divisor raises.\<close>

fun fdiv :: "pyfloat \<Rightarrow> pyfloat \<Rightarrow> pyfloat res" where
  "fdiv (Fin a) (Fin b) = (if b = 0 then Err ZeroDivisionError else Ok (rnd (a / b)))"
| "fdiv NaN (Fin b) = (if b = 0 then Err ZeroDivisionError else Ok NaN)"
| "fdiv PInf (Fin b) = (if b = 0 then Err ZeroDivisionError else Ok (inf_sgn b))"
| "fdiv NInf (Fin b) = (if b = 0 then Err ZeroDivisionError else Ok (inf_sgn (- b)))"
| "fdiv (Fin a) NaN = Ok NaN"
| "fdiv (Fin a) _ = Ok (Fin 0)"
| "fdiv _ _ = Ok NaN"

fun fle :: "pyfloat \<Rightarrow> pyfloat \<Rightarrow> bool" where
  "fle NaN _ = False"
| "fle _ NaN = False"
| "fle (Fin a) (Fin b) = (a \<le> b)"
| "fle NInf _ = True"
| "fle _ PInf = True"
| "fle _ _ = False"

definition flt :: "pyfloat \<Rightarrow> pyfloat \<Rightarrow> bool" where
  "flt a b \<longleftrightarrow> fle a b \<and> \<not> fle b a"

definition feq :: "pyfloat \<Rightarrow> pyfloat \<Rightarrow> bool" where
  "feq a b \<longleftrightarrow> fle a b \<and> fle b a"

fun isfinite :: "pyfloat \<Rightarrow> bool" where
  "isfinite (Fin _) = True"
| "isfinite _ = False"

definition float_of_int :: "int \<Rightarrow> pyfloat res" where
  "float_of_int i = (case rnd (of_int i) of Fin q \<Rightarrow> Ok (Fin q) | _ \<Rightarrow> Err OverflowError)"

text \<open>\<open>int(x)\<close> truncates towards zero and raises on the non-finite values.\<close>

fun int_of_float :: "pyfloat \<Rightarrow> int res" where
  "int_of_float (Fin a) = Ok (if 0 \<le> a then \<lfloor>a\<rfloor> else \<lceil>a\<rceil>)"
| "int_of_float NaN = Err ValueError"
| "int_of_float _ = Err OverflowError"

text \<open>\<open>round(x, n)\<close>: the nearest multiple of \<open>10 ** -n\<close> (ties to even on the exact value),
  then the nearest double.\<close>

fun fround :: "nat \<Rightarrow> pyfloat \<Rightarrow> pyfloat" where
  "fround n (Fin a) = rnd (of_int (round_half_even (a * 10 ^ n)) / 10 ^ n)"
| "fround n x = x"

text \<open>The order sorting uses on floats that are not NaN (NaN is put last).\<close>

fun ford :: "pyfloat \<Rightarrow> nat \<times> rat" where
  "ford NInf = (0, 0)"
| "ford (Fin a) = (1, a)"
| "ford PInf = (2, 0)"
| "ford NaN = (3, 0)"

instantiation pyfloat :: linorder
begin

definition less_eq_pyfloat :: "pyfloat \<Rightarrow> pyfloat \<Rightarrow> bool" where
  "less_eq_pyfloat a b \<longleftrightarrow> ford a \<le> ford b"

definition less_pyfloat :: "pyfloat \<Rightarrow> pyfloat \<Rightarrow> bool" where
  "less_pyfloat a b \<longleftrightarrow> ford a < ford b"

instance
proof
  fix x y :: pyfloat
  assume "x \<le> y" "y \<le> x"
  then have "ford x = ford y" by (auto simp: less_eq_pyfloat_def)
  then show "x = y" by (cases x; cases y) auto
qed (auto simp: less_eq_pyfloat_def less_pyfloat_def)

end

lemma fle_iff_le: "a \<noteq> NaN \<Longrightarrow> b \<noteq> NaN \<Longrightarrow> fle a b \<longleftrightarrow> a \<le> b"
  by (cases a; cases b) (auto simp: less_eq_pyfloat_def)

lemma Fin_le [simp]: "Fin a \<le> Fin b \<longleftrightarrow> a \<le> b"
  by (simp add: less_eq_pyfloat_def)

lemma Fin_less [simp]: "Fin a < Fin b \<longleftrightarrow> a < b"
  by (simp add: less_pyfloat_def)

section \<open>Text\<close>

fun scan_digits :: "string \<Rightarrow> string \<times> string" where
  "scan_digits [] = ([], [])"
| "scan_digits (c # cs) =
     (if is_digit c
      then (let cs' = (if length cs \<ge> 2 \<and> hd cs = CHR ''_'' \<and> is_digit (hd (tl cs)) then tl cs else cs)
            in (c # fst (scan_digits cs'), snd (scan_digits cs')))
      else ([], c # cs))"

definition digits_nat :: "string \<Rightarrow> nat" where
  "digits_nat ds = foldl (\<lambda>a c. 10 * a + digit_val c) 0 ds"

definition signed :: "string \<Rightarrow> bool \<times> string" where
  "signed s = (if s \<noteq> [] \<and> hd s = CHR ''-'' then (True, tl s)
     else if s \<noteq> [] \<and> hd s = CHR ''+'' then (False, tl s) else (False, s))"

definition parse_exponent :: "string \<Rightarrow> int option" where
  "parse_exponent s =
     (if s = [] then Some 0
      else if hd s = CHR ''e'' \<or> hd s = CHR ''E''
      then (let (neg, r) = signed (tl s)
            in map_option (\<lambda>n. if neg then - int n else int n) (digits_val False 0 r))
      else None)"

definition parse_number :: "string \<Rightarrow> rat option" where
  "parse_number s =
     (let (ip, r1) = scan_digits s;
          (fp, r2) = (if r1 \<noteq> [] \<and> hd r1 = CHR ''.'' then scan_digits (tl r1) else ([], r1))
      in if ip = [] \<and> fp = [] then None
         else map_option (\<lambda>x. of_nat (digits_nat (ip @ fp)) * 10 powi (x - int (length fp)))
                (parse_exponent r2))"

definition py_float :: "string \<Rightarrow> pyfloat option" where
  "py_float s =
     (let (neg, r) = signed (strip s); l = lower r
      in if l = ''inf'' \<or> l = ''infinity'' then Some (if neg then NInf else PInf)
         else if l = ''nan'' then Some NaN
         else map_option (\<lambda>q. rnd (if neg then - q else q)) (parse_number r))"

text \<open>\<open>Decimal(s)\<close>: white space is stripped and every underscore ignored. A quiet NaN equals
  nothing, and comparing a signalling one raises.\<close>

datatype decimal = DFin rat | DPInf | DNInf | DNaN | DSNaN

definition py_decimal :: "string \<Rightarrow> decimal option" where
  "py_decimal s =
     (let (neg, r) = signed (filter (\<lambda>c. c \<noteq> CHR ''_'') (strip s)); l = lower r
      in if l = ''inf'' \<or> l = ''infinity'' then Some (if neg then DNInf else DPInf)
         else if startswith l ''nan'' \<and> list_all is_digit (drop 3 l) then Some DNaN
         else if startswith l ''snan'' \<and> list_all is_digit (drop 4 l) then Some DSNaN
         else map_option (\<lambda>q. DFin (if neg then - q else q)) (parse_number r))"

fun decimal_eq :: "decimal \<Rightarrow> decimal \<Rightarrow> bool res" where
  "decimal_eq DSNaN _ = Err InvalidOperation"
| "decimal_eq _ DSNaN = Err InvalidOperation"
| "decimal_eq DNaN _ = Ok False"
| "decimal_eq _ DNaN = Ok False"
| "decimal_eq a b = Ok (a = b)"

text \<open>\<open>f"{x:.nf}"\<close> of a finite value.\<close>

definition fmt_fixed :: "nat \<Rightarrow> rat \<Rightarrow> string" where
  "fmt_fixed n q =
     (let m = nat (round_half_even (\<bar>q\<bar> * 10 ^ n));
          body = str_nat (m div 10 ^ n) @ (if n = 0 then [] else CHR ''.'' # lpad CHR ''0'' n (str_nat (m mod 10 ^ n)))
      in (if q < 0 then CHR ''-'' # body else body))"

fun ffmt :: "nat \<Rightarrow> pyfloat \<Rightarrow> string" where
  "ffmt n (Fin q) = fmt_fixed n q"
| "ffmt n PInf = ''inf''"
| "ffmt n NInf = ''-inf''"
| "ffmt n NaN = ''nan''"

section \<open>Exactness of rounding\<close>

lemma round_half_even_int [simp]: "round_half_even (of_int i) = i"
  by (simp add: round_half_even_def Let_def)

lemma round_half_even_bounds:
  "of_int (round_half_even q) \<le> q + 1 / 2" "q - 1 / 2 \<le> of_int (round_half_even q)"
proof -
  define f where "f = \<lfloor>q\<rfloor>"
  have "of_int f \<le> q" "q < of_int f + 1" using floor_correct [of q] by (simp_all add: f_def)
  then show "of_int (round_half_even q) \<le> q + 1 / 2" "q - 1 / 2 \<le> of_int (round_half_even q)"
    by (auto simp: round_half_even_def Let_def f_def [symmetric])
qed

lemma round_half_even_mono:
  assumes "a \<le> b"
  shows "round_half_even a \<le> round_half_even b"
proof (cases "\<lfloor>a\<rfloor> = \<lfloor>b\<rfloor>")
  case True
  then show ?thesis using assms by (auto simp: round_half_even_def Let_def)
next
  case False
  with assms have "\<lfloor>a\<rfloor> + 1 \<le> \<lfloor>b\<rfloor>" using floor_mono [OF assms] by linarith
  moreover have "round_half_even a \<le> \<lfloor>a\<rfloor> + 1" "\<lfloor>b\<rfloor> \<le> round_half_even b"
    by (auto simp: round_half_even_def Let_def)
  ultimately show ?thesis by linarith
qed

lemma expo_bounds:
  assumes "q \<noteq> 0"
  shows "2 powi expo q \<le> \<bar>q\<bar>" and "\<bar>q\<bar> < 2 powi (expo q + 1)"
proof -
  obtain n d where nd: "quotient_of \<bar>q\<bar> = (n, d)" by fastforce
  have d: "0 < d" using quotient_of_denom_pos [OF nd] .
  have q: "\<bar>q\<bar> = of_int n / of_int d" using quotient_of_div [OF nd] .
  have "0 < \<bar>q\<bar>" using assms by simp
  with d have n: "0 < n" unfolding q by (simp add: zero_less_divide_iff)
  define a b where "a = int (floorlog 2 (nat n))" and "b = int (floorlog 2 (nat d))"
  have fl: "2 ^ (floorlog 2 (nat m) - 1) \<le> nat m" "nat m < 2 ^ floorlog 2 (nat m)" if "0 < m" for m
    using floorlog_bounds [of "nat m" 2] that by auto
  have pw: "(2::rat) powi (int (floorlog 2 (nat m)) - 1) \<le> of_int m"
    "of_int m < (2::rat) powi int (floorlog 2 (nat m))" if "0 < m" for m
  proof -
    have pos: "0 < floorlog 2 (nat m)" using fl(2) [OF that] that by (cases "floorlog 2 (nat m)") auto
    have "(2::rat) powi (int (floorlog 2 (nat m)) - 1) = 2 ^ (floorlog 2 (nat m) - 1)"
      using pos by (simp add: power_int_def nat_diff_distrib)
    also have "\<dots> \<le> of_nat (nat m)" using fl(1) [OF that] by (metis of_nat_le_iff of_nat_numeral of_nat_power)
    finally show "(2::rat) powi (int (floorlog 2 (nat m)) - 1) \<le> of_int m" using that by simp
    have "of_nat (nat m) < (2::rat) ^ floorlog 2 (nat m)"
      using fl(2) [OF that] by (metis of_nat_less_iff of_nat_numeral of_nat_power)
    then show "of_int m < (2::rat) powi int (floorlog 2 (nat m))" using that by simp
  qed
  note pa = pw [OF n, folded a_def] and pb = pw [OF d, folded b_def]
  have "2 powi (a - b - 1) = (2::rat) powi (a - 1) / 2 powi b"
    by (simp add: power_int_diff [symmetric] algebra_simps)
  also have "\<dots> \<le> of_int n / of_int d" using pa pb d n by (intro frac_le) auto
  finally have low: "2 powi (a - b - 1) \<le> \<bar>q\<bar>" by (simp add: q)
  have "of_int n / of_int d < (2::rat) powi a / 2 powi (b - 1)"
    using pa pb d n by (intro frac_less) auto
  also have "\<dots> = 2 powi (a - b + 1)" by (simp add: power_int_diff [symmetric] algebra_simps)
  finally have high: "\<bar>q\<bar> < 2 powi (a - b + 1)" by (simp add: q)
  have e: "expo q = (if 2 powi (a - b) \<le> \<bar>q\<bar> then a - b else a - b - 1)"
    by (simp add: expo_def nd a_def b_def Let_def)
  show "2 powi expo q \<le> \<bar>q\<bar>" using low by (simp add: e)
  show "\<bar>q\<bar> < 2 powi (expo q + 1)" using high by (simp add: e)
qed

lemma expo_less:
  assumes "q \<noteq> 0" and "\<bar>q\<bar> < 2 powi k"
  shows "expo q < k"
proof (rule ccontr)
  assume "\<not> expo q < k"
  then have "(2::rat) powi k \<le> 2 powi expo q" by (intro power_int_increasing) auto
  with expo_bounds(1) [OF assms(1)] assms(2) show False by linarith
qed

lemma rnd_rat_multiple:
  assumes "ulp_exp (of_int m * 2 powi e) \<le> e"
  shows "rnd_rat (of_int m * 2 powi e) = of_int m * 2 powi e"
proof (cases "m = 0")
  case True
  then show ?thesis by (simp add: rnd_rat_def)
next
  case False
  define q :: rat where "q = of_int m * 2 powi e"
  define u where "u = ulp_exp q"
  have "q / 2 powi u = of_int m * 2 powi (e - u)" by (simp add: q_def power_int_diff)
  also have "\<dots> = of_int (m * 2 ^ nat (e - u))"
    using assms by (simp add: q_def u_def power_int_def)
  finally have "of_int (round_half_even (q / 2 powi u)) = q / 2 powi u"
    by (simp only: round_half_even_int)
  then have "rnd_rat q = q"
    by (simp add: rnd_rat_def u_def [symmetric])
  then show ?thesis by (simp add: q_def)
qed

lemma rnd_rat_exact_less:
  assumes "\<bar>m\<bar> < 2 ^ 53" and "- 1074 \<le> e"
  shows "rnd_rat (of_int m * 2 powi e) = of_int m * 2 powi e"
proof (cases "m = 0")
  case True
  then show ?thesis by (simp add: rnd_rat_def)
next
  case False
  let ?q = "of_int m * 2 powi e :: rat"
  have "(of_int \<bar>m\<bar> :: rat) < of_int (2 ^ 53)" using assms(1) by (simp only: of_int_less_iff)
  then have "\<bar>of_int m\<bar> < (2::rat) ^ 53" by simp
  then have "\<bar>?q\<bar> < 2 ^ 53 * 2 powi e" by (simp add: abs_mult)
  also have "\<dots> = 2 powi (53 + e)" by (simp add: power_int_add)
  finally have "expo ?q < 53 + e" using False by (intro expo_less) auto
  then have "ulp_exp ?q \<le> e" using assms(2) by (simp add: ulp_exp_def)
  then show ?thesis by (rule rnd_rat_multiple)
qed

lemma rnd_rat_exact:
  assumes "\<bar>m\<bar> \<le> 2 ^ 53" and "- 1074 \<le> e"
  shows "rnd_rat (of_int m * 2 powi e) = of_int m * 2 powi e"
proof (cases "\<bar>m\<bar> < 2 ^ 53")
  case True
  then show ?thesis using assms(2) by (rule rnd_rat_exact_less)
next
  case False
  define k where "k = m div 2"
  have "m = 2 ^ 53 \<or> m = - (2 ^ 53)" using False assms(1) by linarith
  then have k: "m = 2 * k" "\<bar>k\<bar> < 2 ^ 53" by (auto simp: k_def)
  have "(of_int m * 2 powi e :: rat) = of_int k * 2 powi (e + 1)"
    by (simp add: k(1) power_int_add)
  then show ?thesis using rnd_rat_exact_less [OF k(2), of "e + 1"] assms(2) by simp
qed

lemma rnd_rat_form:
  "\<exists>m e. rnd_rat q = of_int m * 2 powi e \<and> \<bar>m\<bar> \<le> 2 ^ 53 \<and> - 1074 \<le> e"
proof (cases "q = 0")
  case True
  then show ?thesis by (intro exI [of _ "0::int"]) (simp add: rnd_rat_def)
next
  case False
  let ?u = "ulp_exp q" and ?m = "round_half_even (q / 2 powi ulp_exp q)"
  have "expo q + 1 \<le> 53 + ?u" by (simp add: ulp_exp_def)
  then have "(2::rat) powi (expo q + 1) \<le> 2 powi (53 + ?u)" by (intro power_int_increasing) auto
  with expo_bounds(2) [OF False] have "\<bar>q\<bar> < 2 powi (53 + ?u)" by linarith
  then have "\<bar>q\<bar> < 2 powi 53 * 2 powi ?u" by (simp add: power_int_add)
  then have "\<bar>q\<bar> / 2 powi ?u < 2 powi 53" by (simp add: pos_divide_less_eq)
  then have "\<bar>q / 2 powi ?u\<bar> < of_int (2 ^ 53)" by (simp add: power_int_def)
  then have "of_int (- (2 ^ 53)) \<le> q / 2 powi ?u" "q / 2 powi ?u \<le> of_int (2 ^ 53)"
    unfolding of_int_minus by linarith+
  from round_half_even_mono [OF this(1)] round_half_even_mono [OF this(2)]
  have "- (2 ^ 53) \<le> ?m" "?m \<le> 2 ^ 53" unfolding round_half_even_int .
  then have "\<bar>?m\<bar> \<le> 2 ^ 53" by linarith
  moreover have "rnd_rat q = of_int ?m * 2 powi ?u" using False by (simp add: rnd_rat_def)
  moreover have "- 1074 \<le> ?u" by (simp add: ulp_exp_def)
  ultimately show ?thesis by blast
qed

lemma rnd_rat_idem [simp]: "rnd_rat (rnd_rat q) = rnd_rat q"
  using rnd_rat_form [of q] rnd_rat_exact by metis

lemma rnd_Fin_is_double: "rnd q = Fin r \<Longrightarrow> is_double r"
  by (auto simp: rnd_def is_double_def Let_def split: if_splits)

lemma is_double_0 [simp]: "is_double 0"
  by (simp add: is_double_def rnd_def rnd_rat_def)

lemma is_double_scaled:
  assumes "\<bar>m\<bar> \<le> 2 ^ 53" "- 1074 \<le> e" "e \<le> 970"
  shows "is_double (of_int m * 2 powi e)"
proof -
  have "(of_int \<bar>m\<bar> :: rat) \<le> of_int (2 ^ 53)" using assms(1) by (simp only: of_int_le_iff)
  then have "\<bar>of_int m\<bar> \<le> (2::rat) powi 53" by (simp add: power_int_def)
  then have "\<bar>of_int m * 2 powi e\<bar> \<le> (2::rat) powi 53 * 2 powi e"
    by (simp only: abs_mult power_int_abs abs_numeral) (intro mult_right_mono; simp)
  also have "\<dots> = 2 powi (53 + e)" by (simp add: power_int_add)
  also have "\<dots> \<le> 2 powi 1023" using assms(3) by (intro power_int_increasing) auto
  also have "(2::rat) powi 1023 < 2 powi 1024" by (intro power_int_strict_increasing) auto
  also have "(2::rat) powi 1024 = 2 ^ 1024" by (simp only: power_int_numeral)
  finally have "\<not> 2 ^ 1024 \<le> \<bar>of_int m * 2 powi e :: rat\<bar>" unfolding not_le .
  then show ?thesis
    unfolding is_double_def rnd_def Let_def rnd_rat_exact [OF assms(1,2)] by (simp only: if_False)
qed

lemma is_double_int: "\<bar>m\<bar> \<le> 2 ^ 53 \<Longrightarrow> is_double (of_int m)"
  using is_double_scaled [of m 0] by (simp only: power_int_0_right) simp

lemma is_double_half:
  assumes "\<bar>m\<bar> \<le> 2 ^ 53"
  shows "is_double (of_int m / 2)"
proof -
  have "(of_int m * 2 powi (- 1) :: rat) = of_int m / 2" by (simp only: power_int_minus power_int_1_right divide_inverse)
  then show ?thesis using is_double_scaled [OF assms, of "- 1"] by simp
qed

lemma is_double_rnd: "is_double q \<Longrightarrow> rnd q = Fin q"
  by (simp add: is_double_def)

section \<open>Reading decimal texts\<close>

lemma decimal_eq_plain: "a \<noteq> DNaN \<Longrightarrow> a \<noteq> DSNaN \<Longrightarrow> b \<noteq> DNaN \<Longrightarrow> b \<noteq> DSNaN \<Longrightarrow> decimal_eq a b = Ok (a = b)"
  by (cases a; cases b) auto

lemma scan_digits_digits:
  assumes "\<forall>c \<in> set ds. is_digit c" "r = [] \<or> (\<not> is_digit (hd r) \<and> hd r \<noteq> CHR ''_'')"
  shows "scan_digits (ds @ r) = (ds, r)"
  using assms
proof (induction ds)
  case Nil
  then show ?case by (cases r) auto
next
  case (Cons d ds)
  have "ds @ r = [] \<or> hd (ds @ r) \<noteq> CHR ''_''"
    using Cons.prems by (cases ds) (auto simp: is_digit_def code_def)
  then have "\<not> (2 \<le> length (ds @ r) \<and> hd (ds @ r) = CHR ''_'' \<and> is_digit (hd (tl (ds @ r))))"
    by auto
  moreover have "scan_digits (ds @ r) = (ds, r)" "is_digit d" using Cons by auto
  ultimately show ?case by (simp only: append_Cons scan_digits.simps Let_def if_True if_False) simp
qed

lemma lower_digit [simp]: "is_digit c \<Longrightarrow> lower_char c = c"
  by (auto simp: lower_char_def is_digit_def is_upper_az_def)

lemma py_float_fraction:
  assumes "ds \<noteq> []" "\<forall>c \<in> set ds. is_digit c" "\<forall>c \<in> set fs. is_digit c"
  shows "py_float (ds @ CHR ''.'' # fs) =
      Some (rnd (of_nat (digits_nat (ds @ fs)) * 10 powi (- int (length fs))))"
    and "py_float ds = Some (rnd (of_nat (digits_nat ds)))"
proof -
  obtain d ds' where ds: "ds = d # ds'" using assms(1) by (cases ds) auto
  have d: "is_digit d" using ds assms(2) by simp
  then have dd: "d \<noteq> CHR ''-''" "d \<noteq> CHR ''+''" "lower_char d \<noteq> CHR ''i''" "lower_char d \<noteq> CHR ''n''"
    by (auto simp: is_digit_def code_def)
  have sp: "strip (ds @ CHR ''.'' # fs) = ds @ CHR ''.'' # fs" "strip ds = ds"
    using assms digit_not_space by (auto intro!: strip_no_space simp: is_space_def code_def)
  have s1: "scan_digits (ds @ CHR ''.'' # fs) = (ds, CHR ''.'' # fs)" "scan_digits fs = (fs, [])"
    "scan_digits ds = (ds, [])"
    using scan_digits_digits [of ds "CHR ''.'' # fs"] scan_digits_digits [of fs "[]"]
      scan_digits_digits [of ds "[]"] assms by (auto simp: is_digit_def code_def)
  show "py_float (ds @ CHR ''.'' # fs) =
      Some (rnd (of_nat (digits_nat (ds @ fs)) * 10 powi (- int (length fs))))"
    using sp s1 dd assms(1)
    by (simp add: py_float_def ds signed_def lower_def parse_number_def parse_exponent_def)
  show "py_float ds = Some (rnd (of_nat (digits_nat ds)))"
    using sp s1 dd assms(1)
    by (simp add: py_float_def ds signed_def lower_def parse_number_def parse_exponent_def)
qed


lemma quotient_of_half:
  assumes "odd m"
  shows "quotient_of (of_int m / 2) = (m, 2)"
proof -
  have "coprime m 2" using assms by simp
  then have "Rat.normalize (m, 2) = (m, 2)" by (simp add: Rat.normalize_def)
  moreover have "of_int m / 2 = Fract m 2" by (simp add: Fract_of_int_quotient)
  ultimately show ?thesis by (simp add: quotient_of_Fract)
qed

lemma quotient_of_of_int: "quotient_of (of_int i) = (i, 1)"
  by (simp add: of_int_rat quotient_of_Fract Rat.normalize_def)

lemma digits_nat_append: "digits_nat (xs @ ys) = digits_nat xs * 10 ^ length ys + digits_nat ys"
proof (induction ys rule: rev_induct)
  case (snoc y ys)
  then show ?case by (simp add: digits_nat_def algebra_simps)
qed (simp add: digits_nat_def)

lemma digits_nat_str_nat [simp]: "digits_nat (str_nat n) = n"
  by (simp add: digits_nat_def foldl_digits_str_nat)

section \<open>Faster code equations\<close>

lemma big_iff_expo: "2 ^ 1024 \<le> \<bar>q\<bar> \<longleftrightarrow> q \<noteq> 0 \<and> 1024 \<le> expo q" for q :: rat
proof (cases "q = 0")
  case True
  have "\<not> (2 ^ 1024 \<le> (0 :: rat))" unfolding not_le by (rule zero_less_power) simp
  then show ?thesis using True by (simp only: abs_zero) simp
next
  case False
  have p: "(2::rat) powi 1024 = 2 ^ 1024" by (simp only: power_int_numeral)
  show ?thesis
  proof (cases "1024 \<le> expo q")
    case True
    then have "(2::rat) powi 1024 \<le> 2 powi expo q" by (intro power_int_increasing) auto
    with expo_bounds(1) [OF False] have "2 ^ 1024 \<le> \<bar>q\<bar>" unfolding p [symmetric] by linarith
    with True False show ?thesis by blast
  next
    case ne: False
    then have "(2::rat) powi (expo q + 1) \<le> 2 powi 1024" by (intro power_int_increasing) auto
    with expo_bounds(2) [OF False] have "\<bar>q\<bar> < 2 ^ 1024" unfolding p [symmetric] by linarith
    with ne False show ?thesis by (simp only: not_le [symmetric]) blast
  qed
qed

lemma rnd_code [code]:
  "rnd q = (let r = rnd_rat q in if r \<noteq> 0 \<and> 1024 \<le> expo r then (if 0 < q then PInf else NInf) else Fin r)"
  unfolding rnd_def Let_def big_iff_expo ..

lemma round_half_even_scaled:
  assumes "quotient_of a = (p, q)" "10 ^ n mod q = 0"
  shows "of_int (round_half_even (a * 10 ^ n)) / 10 ^ n = a"
proof -
  have a: "a = of_int p / of_int q" and q: "0 < q"
    using quotient_of_div [OF assms(1)] quotient_of_denom_pos [OF assms(1)] by auto
  obtain k where k: "10 ^ n = q * k" using assms(2) by (auto elim: dvdE)
  then have "(10 ^ n :: rat) = of_int q * of_int k" by (metis of_int_mult of_int_numeral of_int_power)
  then have "a * 10 ^ n = of_int (p * k)" using q by (simp add: a)
  then have "of_int (round_half_even (a * 10 ^ n)) = a * 10 ^ n" by (simp only: round_half_even_int)
  then show ?thesis by simp
qed

text \<open>An equation that computes faster: a value with at most \<open>n\<close> decimals is only rounded to a
  double.\<close>

lemma fround_code [code]:
  "fround n x =
     (case x of
        Fin a \<Rightarrow> if 10 ^ n mod snd (quotient_of a) = 0 then rnd a
                 else rnd (of_int (round_half_even (a * 10 ^ n)) / 10 ^ n)
      | _ \<Rightarrow> x)"
  by (auto split: pyfloat.splits intro: round_half_even_scaled [OF surjective_pairing, THEN arg_cong [of _ _ rnd]])

lemma dvd_two_power: "d dvd 2 ^ n \<Longrightarrow> \<exists>j \<le> n. d = 2 ^ j" for d :: nat
proof (induction n arbitrary: d)
  case (Suc n)
  show ?case
  proof (cases "even d")
    case True
    then obtain k where k: "d = 2 * k" by (elim evenE)
    with Suc.prems have "k dvd 2 ^ n" by simp
    with Suc.IH k show ?thesis by (metis Suc_le_mono power_Suc)
  next
    case False
    then have "coprime d 2" by simp
    with Suc.prems have "d dvd 2 ^ n" by (simp add: coprime_dvd_mult_right_iff)
    with Suc.IH show ?thesis by (meson le_SucI)
  qed
qed simp

lemma rnd_rat_small:
  assumes "quotient_of q = (n, d)" "\<bar>n\<bar> \<le> 9007199254740992" "1048576 mod d = 0"
  shows "rnd_rat q = q"
proof -
  have q: "q = of_int n / of_int d" and d: "0 < d"
    using quotient_of_div [OF assms(1)] quotient_of_denom_pos [OF assms(1)] by auto
  have "d dvd 1048576" using assms(3) by (simp only: dvd_eq_mod_eq_0)
  then have "int (nat d) dvd int (2 ^ 20)" using d by simp
  then have "nat d dvd 2 ^ 20" by (simp only: of_nat_dvd_iff)
  then obtain j where j: "j \<le> 20" "nat d = 2 ^ j"
    using dvd_two_power by blast
  then have "d = 2 ^ j" using d by (metis int_nat_eq less_imp_le of_nat_numeral of_nat_power)
  then have "q = of_int n * 2 powi (- int j)" by (simp add: q power_int_minus divide_inverse)
  moreover have "\<bar>n\<bar> \<le> 2 ^ 53" using assms(2) by simp
  ultimately show ?thesis using rnd_rat_exact [of n "- int j"] j(1) by simp
qed

lemma rnd_rat_code [code]:
  "rnd_rat q =
     (let (n, d) = quotient_of q in
      if \<bar>n\<bar> \<le> 9007199254740992 \<and> 1048576 mod d = 0 then q
      else of_int (round_half_even (q / 2 powi ulp_exp q)) * 2 powi ulp_exp q)"
proof (cases "q = 0")
  case True
  then show ?thesis by (simp add: rnd_rat_def)
next
  case False
  then show ?thesis using rnd_rat_small [of q] by (auto simp: rnd_rat_def split: prod.splits)
qed

end
