(* ===== verification/Py_Json.thy ===== *)
theory Py_Json
  imports Py_Float
begin

text \<open>
  JSON values as \<open>json.loads\<close> builds them, and the Python operations the tools apply to
  them: \<open>str\<close>, \<open>repr\<close>, \<open>int\<close>, \<open>float\<close>, iteration, subscription, \<open>get\<close>, \<open>isinstance\<close>.
  The decoder itself is an argument (\<open>loads\<close>) of the definitions that read a file: it maps a
  text to \<open>None\<close>, for \<open>JSONDecodeError\<close>, or to a value. The theorems hold for every decoder.
\<close>

datatype json =
    JNull | JBool bool | JInt int | JFloat pyfloat | JStr string
  | JArr "json list" | JObj "(string \<times> json) list"

type_synonym decoder = "string \<Rightarrow> json option"

section \<open>The shortest decimal of a float\<close>

text \<open>
  \<open>repr(x)\<close> prints the shortest digit string that reads back as \<open>x\<close>, the closest to \<open>x\<close>
  among those. \<open>decpt q\<close> is the position of the decimal point: \<open>10 ^ (decpt q - 1) \<le> q\<close>
  and \<open>q < 10 ^ decpt q\<close>. With \<open>n\<close> digits only the two neighbours of \<open>q\<close> can be closest;
  seventeen digits always identify a double.
\<close>

definition decpt :: "rat \<Rightarrow> int" where
  "decpt q =
     (let (n, d) = quotient_of q;
          k = int (length (str_nat (nat n))) - int (length (str_nat (nat d)))
      in if 10 powi k \<le> q then k + 1 else k)"

definition digit_candidates :: "rat \<Rightarrow> int \<Rightarrow> nat \<Rightarrow> int list" where
  "digit_candidates q k n =
     (let s = 10 powi (int n - k); f = \<lfloor>q * s\<rfloor>
      in filter (\<lambda>c. rnd (of_int c / s) = Fin q) [f, f + 1])"

definition closest :: "rat \<Rightarrow> int list \<Rightarrow> int option" where
  "closest y cs =
     (case cs of [] \<Rightarrow> None
      | [c] \<Rightarrow> Some c
      | c # d # _ \<Rightarrow> Some (if \<bar>of_int c - y\<bar> < \<bar>of_int d - y\<bar> then c
           else if \<bar>of_int d - y\<bar> < \<bar>of_int c - y\<bar> then d else if even c then c else d))"

fun shortest_digits :: "rat \<Rightarrow> int \<Rightarrow> nat \<Rightarrow> nat \<Rightarrow> int \<times> nat" where
  "shortest_digits q k n 0 = (round_half_even (q * 10 powi (int n - k)), n)"
| "shortest_digits q k n (Suc left) =
     (case closest (q * 10 powi (int n - k)) (digit_candidates q k n) of
        Some c \<Rightarrow> (c, n)
      | None \<Rightarrow> shortest_digits q k (Suc n) left)"

definition exp_text :: "int \<Rightarrow> string" where
  "exp_text x = (if x < 0 then ''e-'' else ''e+'') @ lpad CHR ''0'' 2 (str_nat (nat \<bar>x\<bar>))"

definition repr_digits :: "string \<Rightarrow> int \<Rightarrow> string" where
  "repr_digits ds k =
     (if - 4 < k \<and> k \<le> 16
      then if k \<le> 0 then ''0.'' @ replicate (nat (- k)) CHR ''0'' @ ds
           else if int (length ds) \<le> k then ds @ replicate (nat k - length ds) CHR ''0'' @ ''.0''
           else take (nat k) ds @ ''.'' @ drop (nat k) ds
      else take 1 ds @ (if length ds \<le> 1 then [] else CHR ''.'' # drop 1 ds) @ exp_text (k - 1))"

definition frepr_pos :: "rat \<Rightarrow> string" where
  "frepr_pos q =
     (let k = decpt q; (c, n) = shortest_digits q k 1 16; ds = str_nat (nat c)
      in repr_digits (let r = rstrip_by (\<lambda>x. x = CHR ''0'') ds in if r = [] then ''0'' else r)
           (k + int (length ds) - int n))"

fun frepr :: "pyfloat \<Rightarrow> string" where
  "frepr (Fin q) = (if q = 0 then ''0.0'' else if q < 0 then CHR ''-'' # frepr_pos (- q) else frepr_pos q)"
| "frepr PInf = ''inf''"
| "frepr NInf = ''-inf''"
| "frepr NaN = ''nan''"

section \<open>Text of a value\<close>

definition hex_digit :: "nat \<Rightarrow> char" where
  "hex_digit d = (if d < 10 then char_of (48 + d) else char_of (87 + d))"

definition is_printable :: "char \<Rightarrow> bool" where
  "is_printable c \<longleftrightarrow> (32 \<le> code c \<and> code c \<le> 126) \<or> (161 \<le> code c \<and> code c \<noteq> 173)"

definition BS :: char where "BS = CHR 0x5C"

definition SQ :: char where "SQ = CHR 0x27"

definition DQ :: char where "DQ = CHR 0x22"

definition repr_char :: "char \<Rightarrow> char \<Rightarrow> string" where
  "repr_char q c =
     (if c = q \<or> c = BS then [BS, c]
      else if c = TAB then [BS, CHR ''t''] else if c = NL then [BS, CHR ''n'']
      else if c = CR then [BS, CHR ''r'']
      else if is_printable c then [c]
      else [BS, CHR ''x'', hex_digit (code c div 16), hex_digit (code c mod 16)])"

definition repr_str :: "string \<Rightarrow> string" where
  "repr_str s =
     (let q = (if SQ \<in> set s \<and> DQ \<notin> set s then DQ else SQ)
      in [q] @ concat (map (repr_char q) s) @ [q])"

fun py_repr :: "json \<Rightarrow> string" where
  "py_repr JNull = ''None''"
| "py_repr (JBool b) = (if b then ''True'' else ''False'')"
| "py_repr (JInt i) = str_int i"
| "py_repr (JFloat f) = frepr f"
| "py_repr (JStr s) = repr_str s"
| "py_repr (JArr xs) = ''['' @ join '', '' (map py_repr xs) @ '']''"
| "py_repr (JObj kvs) =
     ''{'' @ join '', '' (map (\<lambda>(k, v). repr_str k @ '': '' @ py_repr v) kvs) @ ''}''"

definition py_str :: "json \<Rightarrow> string" where
  "py_str v = (case v of JStr s \<Rightarrow> s | _ \<Rightarrow> py_repr v)"

section \<open>Conversions and access\<close>

fun to_int :: "json \<Rightarrow> int res" where
  "to_int (JInt i) = Ok i"
| "to_int (JBool b) = Ok (if b then 1 else 0)"
| "to_int (JFloat f) = int_of_float f"
| "to_int (JStr s) = res_of ValueError (py_int s)"
| "to_int _ = Err TypeError"

fun to_float :: "json \<Rightarrow> pyfloat res" where
  "to_float (JInt i) = float_of_int i"
| "to_float (JBool b) = Ok (Fin (if b then 1 else 0))"
| "to_float (JFloat f) = Ok f"
| "to_float (JStr s) = res_of ValueError (py_float s)"
| "to_float _ = Err TypeError"

text \<open>\<open>for x in v\<close>\<close>

fun to_iter :: "json \<Rightarrow> json list res" where
  "to_iter (JArr xs) = Ok xs"
| "to_iter (JObj kvs) = Ok (map (\<lambda>(k, v). JStr k) kvs)"
| "to_iter (JStr s) = Ok (map (\<lambda>c. JStr [c]) s)"
| "to_iter _ = Err TypeError"

text \<open>\<open>v.get(k, d)\<close> of any value, and \<open>v[k]\<close> of a dict.\<close>

fun jget :: "json \<Rightarrow> string \<Rightarrow> json \<Rightarrow> json res" where
  "jget (JObj kvs) k d = Ok (dict_get kvs k d)"
| "jget _ k d = Err AttributeError"

definition jindex :: "(string \<times> json) list \<Rightarrow> string \<Rightarrow> json res" where
  "jindex kvs k = res_of KeyError (map_of kvs k)"

fun jtruth :: "json \<Rightarrow> bool" where
  "jtruth JNull = False"
| "jtruth (JBool b) = b"
| "jtruth (JInt i) = (i \<noteq> 0)"
| "jtruth (JFloat f) = (f \<noteq> Fin 0)"
| "jtruth (JStr s) = (s \<noteq> [])"
| "jtruth (JArr xs) = (xs \<noteq> [])"
| "jtruth (JObj kvs) = (kvs \<noteq> [])"

text \<open>\<open>{int(x) for x in v}\<close>, as the list of the values.\<close>

definition int_list :: "json \<Rightarrow> int list res" where
  "int_list v = rbind (to_iter v) (rmapM to_int)"

lemma py_str_simps [simp]:
  "py_str (JStr s) = s" "py_str (JInt i) = str_int i"
  by (simp_all add: py_str_def)

lemma to_int_py_str: "to_int (JStr (py_str (JInt i))) = Ok i"
  by simp

lemma rmapM_to_int_JInt [simp]: "rmapM to_int (map JInt xs) = Ok xs"
  by (induction xs) auto

lemma int_list_JInt [simp]: "int_list (JArr (map JInt xs)) = Ok xs"
  by (simp add: int_list_def)

end
