(* ===== verification/Py_Regex.thy ===== *)
theory Py_Regex
  imports Py_Text
begin

text \<open>
  The fragment of Python's \<open>re\<close> the tools use, as a backtracking matcher. An expression is
  an abstract syntax tree; \<open>rx r s e\<close> lists, in the order the backtracking engine tries
  them, every way to match \<open>r\<close> at the start of \<open>s\<close>: what is left of the input, and the
  captured groups. \<open>re.match\<close> is the first of them, \<open>re.fullmatch\<close> the first that leaves
  nothing, \<open>re.search\<close> the first at the leftmost position that has one.
  Every repetition in the sources is over a single-character class, so the only
  repetitions are \<open>Many\<close> (greedy) and \<open>Few\<close> (lazy).
\<close>

datatype re =
    One "char \<Rightarrow> bool"
  | Many "char \<Rightarrow> bool"
  | Few "char \<Rightarrow> bool"
  | Eps
  | Eos
  | Seq re re
  | Alt re re
  | Cap string re

type_synonym groups = "(string \<times> string) list"

fun many :: "(char \<Rightarrow> bool) \<Rightarrow> string \<Rightarrow> string list" where
  "many p [] = [[]]"
| "many p (c # cs) = (if p c then many p cs @ [c # cs] else [c # cs])"

fun rx :: "re \<Rightarrow> string \<Rightarrow> groups \<Rightarrow> (string \<times> groups) list" where
  "rx (One p) s e = (case s of [] \<Rightarrow> [] | c # cs \<Rightarrow> if p c then [(cs, e)] else [])"
| "rx (Many p) s e = map (\<lambda>s'. (s', e)) (many p s)"
| "rx (Few p) s e = map (\<lambda>s'. (s', e)) (rev (many p s))"
| "rx Eps s e = [(s, e)]"
| "rx Eos s e = (if s = [] \<or> s = [NL] then [(s, e)] else [])"
| "rx (Seq a b) s e = concat (map (\<lambda>(s', e'). rx b s' e') (rx a s e))"
| "rx (Alt a b) s e = rx a s e @ rx b s e"
| "rx (Cap n r) s e =
     map (\<lambda>(s', e'). (s', (n, take (length s - length s') s) # e')) (rx r s e)"

definition re_match :: "re \<Rightarrow> string \<Rightarrow> groups option" where
  "re_match r s = (case rx r s [] of [] \<Rightarrow> None | (s', e) # _ \<Rightarrow> Some e)"

definition re_fullmatch :: "re \<Rightarrow> string \<Rightarrow> groups option" where
  "re_fullmatch r s =
     (case filter (\<lambda>(s', e). s' = []) (rx r s []) of [] \<Rightarrow> None | (s', e) # _ \<Rightarrow> Some e)"

fun re_search :: "re \<Rightarrow> string \<Rightarrow> groups option" where
  "re_search r s =
     (case re_match r s of
        Some e \<Rightarrow> Some e
      | None \<Rightarrow> (case s of [] \<Rightarrow> None | _ # cs \<Rightarrow> re_search r cs))"

declare re_search.simps [simp del]

text \<open>Derived expressions: a literal, \<open>r+\<close> over a class, an optional part, a fixed count.\<close>

fun Lit :: "string \<Rightarrow> re" where
  "Lit [] = Eps"
| "Lit (c # cs) = Seq (One (\<lambda>d. d = c)) (Lit cs)"

definition Some1 :: "(char \<Rightarrow> bool) \<Rightarrow> re" where
  "Some1 p = Seq (One p) (Many p)"

definition Opt :: "re \<Rightarrow> re" where
  "Opt r = Alt r Eps"

fun Exactly :: "nat \<Rightarrow> (char \<Rightarrow> bool) \<Rightarrow> re" where
  "Exactly 0 p = Eps"
| "Exactly (Suc n) p = Seq (One p) (Exactly n p)"

fun Seqs :: "re list \<Rightarrow> re" where
  "Seqs [] = Eps"
| "Seqs [r] = r"
| "Seqs (r # rs) = Seq r (Seqs rs)"

definition any_char :: "char \<Rightarrow> bool" where
  "any_char c \<longleftrightarrow> c \<noteq> NL"

text \<open>\<open>m.group(n)\<close>: \<open>None\<close> for a group that took no part in the match.\<close>

definition group :: "groups \<Rightarrow> string \<Rightarrow> string option" where
  "group e n = map_of e n"

section \<open>What a match consumes\<close>

lemma many_suffix: "s' \<in> set (many p s) \<Longrightarrow> \<exists>u. s = u @ s' \<and> (\<forall>c \<in> set u. p c)"
proof (induction s arbitrary: s')
  case (Cons c s)
  show ?case
  proof (cases "p c \<and> s' \<noteq> c # s")
    case True
    with Cons.prems have "s' \<in> set (many p s)" by auto
    with Cons.IH obtain u where "s = u @ s'" "\<forall>c \<in> set u. p c" by blast
    with True show ?thesis by (intro exI [of _ "c # u"]) auto
  next
    case False
    with Cons.prems show ?thesis by (auto split: if_splits)
  qed
qed simp

lemma rx_suffix: "(s', e') \<in> set (rx r s e) \<Longrightarrow> \<exists>u. s = u @ s'"
proof (induction r arbitrary: s e s' e')
  case (Seq a b)
  then obtain s1 e1 where "(s1, e1) \<in> set (rx a s e)" "(s', e') \<in> set (rx b s1 e1)" by auto
  with Seq.IH obtain u v where "s = u @ s1" "s1 = v @ s'" by blast
  then show ?case by auto
next
  case (Alt a b)
  then have "(s', e') \<in> set (rx a s e) \<or> (s', e') \<in> set (rx b s e)" by simp
  then show ?case using Alt.IH by blast
qed (auto split: list.splits if_splits dest!: many_suffix)

lemma rx_length: "(s', e') \<in> set (rx r s e) \<Longrightarrow> length s' \<le> length s"
  by (auto dest: rx_suffix)

text \<open>A match of \<open>p+\<close> consumes a non-empty run of \<open>p\<close>.\<close>

lemma rx_Some1:
  "(s', e') \<in> set (rx (Some1 p) s e) \<Longrightarrow> e' = e \<and> (\<exists>u. u \<noteq> [] \<and> s = u @ s' \<and> (\<forall>c \<in> set u. p c))"
proof -
  assume a: "(s', e') \<in> set (rx (Some1 p) s e)"
  then obtain c cs where s: "s = c # cs" "p c" and m: "s' \<in> set (many p cs)" and e: "e' = e"
    by (auto simp: Some1_def split: list.splits if_splits)
  from many_suffix [OF m] obtain u where u: "cs = u @ s'" "\<forall>c \<in> set u. p c" by blast
  with s e show ?thesis by (intro conjI exI [of _ "c # u"]) auto
qed

lemma rx_Cap_Some1:
  "(s', e') \<in> set (rx (Cap n (Some1 p)) s e) \<Longrightarrow>
   \<exists>u. e' = (n, u) # e \<and> u \<noteq> [] \<and> s = u @ s' \<and> (\<forall>c \<in> set u. p c)"
  by (auto dest!: rx_Some1)

section \<open>Deterministic first matches\<close>

text \<open>
  \<open>first_match r s e s' e'\<close>: the engine's first try of \<open>r\<close> on \<open>s\<close> succeeds and leaves
  \<open>s'\<close>. The rules below compose such matches, so a concrete expression is run on a
  symbolic input by applying them from left to right.
\<close>

definition first_match :: "re \<Rightarrow> string \<Rightarrow> groups \<Rightarrow> string \<Rightarrow> groups \<Rightarrow> bool" where
  "first_match r s e s' e' \<longleftrightarrow> (\<exists>t. rx r s e = (s', e') # t)"

lemma first_match_re_match: "first_match r s [] s' e' \<Longrightarrow> re_match r s = Some e'"
  by (auto simp: first_match_def re_match_def)

lemma first_match_One [intro]: "p c \<Longrightarrow> first_match (One p) (c # s) e s e"
  by (simp add: first_match_def)

lemma first_match_Eps [intro]: "first_match Eps s e s e"
  by (simp add: first_match_def)

lemma first_match_Eos: "first_match Eos [] e [] e"
  by (simp add: first_match_def)

lemma first_match_Seq:
  assumes "first_match a s e s1 e1" and "first_match b s1 e1 s2 e2"
  shows "first_match (Seq a b) s e s2 e2"
  using assms by (auto simp: first_match_def)

lemma first_match_Alt1: "first_match a s e s' e' \<Longrightarrow> first_match (Alt a b) s e s' e'"
  by (auto simp: first_match_def)

lemma first_match_Alt2: "rx a s e = [] \<Longrightarrow> first_match b s e s' e' \<Longrightarrow> first_match (Alt a b) s e s' e'"
  by (auto simp: first_match_def)

lemma first_match_Opt: "first_match r s e s' e' \<Longrightarrow> first_match (Opt r) s e s' e'"
  by (simp add: Opt_def first_match_Alt1)

lemma first_match_Opt_none: "rx r s e = [] \<Longrightarrow> first_match (Opt r) s e s e"
  by (simp add: Opt_def first_match_def)

lemma first_match_Cap:
  "first_match r (u @ s) e s e' \<Longrightarrow> first_match (Cap n r) (u @ s) e s ((n, u) # e')"
  by (auto simp: first_match_def)

lemma many_first: "\<exists>t. many p (u @ s) = s # t" if "\<forall>c \<in> set u. p c" "s = [] \<or> \<not> p (hd s)"
  using that
proof (induction u)
  case Nil
  then show ?case by (cases s) auto
qed auto

lemma first_match_Many:
  "\<forall>c \<in> set u. p c \<Longrightarrow> s = [] \<or> \<not> p (hd s) \<Longrightarrow> first_match (Many p) (u @ s) e s e"
  using many_first [of u p s] by (auto simp: first_match_def)

lemma first_match_Some1:
  assumes "u \<noteq> []" "\<forall>c \<in> set u. p c" "s = [] \<or> \<not> p (hd s)"
  shows "first_match (Some1 p) (u @ s) e s e"
proof -
  obtain c cs where u: "u = c # cs" using assms(1) by (cases u) auto
  have "first_match (One p) (u @ s) e (cs @ s) e" using u assms(2) by auto
  moreover have "first_match (Many p) (cs @ s) e s e"
    using u assms(2,3) by (intro first_match_Many) auto
  ultimately show ?thesis unfolding Some1_def by (rule first_match_Seq)
qed

lemma first_match_Lit: "first_match (Lit l) (l @ s) e s e"
  by (induction l) (auto intro!: first_match_Seq)

lemma first_match_Exactly:
  "length u = n \<Longrightarrow> \<forall>c \<in> set u. p c \<Longrightarrow> first_match (Exactly n p) (u @ s) e s e"
proof (induction n arbitrary: u)
  case (Suc n)
  then obtain c cs where "u = c # cs" by (cases u) auto
  with Suc show ?case by (auto intro!: first_match_Seq)
qed auto

section \<open>What a group captures\<close>

text \<open>Read off the expression: the least length of a match, the groups every match sets, and
  whether a group can only be set to a non-empty text.\<close>

fun min_len :: "re \<Rightarrow> nat" where
  "min_len (One p) = 1"
| "min_len (Seq a b) = min_len a + min_len b"
| "min_len (Alt a b) = min (min_len a) (min_len b)"
| "min_len (Cap n r) = min_len r"
| "min_len _ = 0"

fun sets_group :: "string \<Rightarrow> re \<Rightarrow> bool" where
  "sets_group n (Seq a b) \<longleftrightarrow> sets_group n a \<or> sets_group n b"
| "sets_group n (Alt a b) \<longleftrightarrow> sets_group n a \<and> sets_group n b"
| "sets_group n (Cap m r) \<longleftrightarrow> m = n \<or> sets_group n r"
| "sets_group n _ \<longleftrightarrow> False"

fun group_nonempty :: "string \<Rightarrow> re \<Rightarrow> bool" where
  "group_nonempty n (Seq a b) \<longleftrightarrow> group_nonempty n a \<and> group_nonempty n b"
| "group_nonempty n (Alt a b) \<longleftrightarrow> group_nonempty n a \<and> group_nonempty n b"
| "group_nonempty n (Cap m r) \<longleftrightarrow> (m = n \<longrightarrow> 0 < min_len r) \<and> group_nonempty n r"
| "group_nonempty n _ \<longleftrightarrow> True"

lemma rx_min_len: "(s', e') \<in> set (rx r s e) \<Longrightarrow> length s' + min_len r \<le> length s"
proof (induction r arbitrary: s e s' e')
  case (Seq a b)
  then obtain s1 e1 where "(s1, e1) \<in> set (rx a s e)" "(s', e') \<in> set (rx b s1 e1)" by auto
  with Seq.IH show ?case by fastforce
next
  case (Alt a b)
  then show ?case using Alt.IH by fastforce
qed (auto split: list.splits if_splits dest!: many_suffix)

lemma rx_keeps_groups: "(s', e') \<in> set (rx r s e) \<Longrightarrow> set e \<subseteq> set e'"
proof (induction r arbitrary: s e s' e')
  case (Seq a b)
  then obtain s1 e1 where "(s1, e1) \<in> set (rx a s e)" "(s', e') \<in> set (rx b s1 e1)" by auto
  with Seq.IH show ?case by fastforce
next
  case (Alt a b)
  then show ?case using Alt.IH by fastforce
next
  case (Cap n r)
  then show ?case by fastforce
qed (auto split: list.splits if_splits)

lemma rx_sets_group: "(s', e') \<in> set (rx r s e) \<Longrightarrow> sets_group n r \<Longrightarrow> n \<in> fst ` set e'"
proof (induction r arbitrary: s e s' e')
  case (Seq a b)
  then obtain s1 e1 where ab: "(s1, e1) \<in> set (rx a s e)" "(s', e') \<in> set (rx b s1 e1)" by auto
  from rx_keeps_groups [OF ab(2)] Seq.IH(1) [OF ab(1)] Seq.IH(2) [OF ab(2)] Seq.prems(2)
  show ?case by (auto simp: image_subset_iff)
next
  case (Alt a b)
  then show ?case by (auto simp del: split_paired_Ex)
next
  case (Cap m r)
  then show ?case by fastforce
qed auto

lemma rx_group_nonempty:
  "(s', e') \<in> set (rx r s e) \<Longrightarrow> group_nonempty n r \<Longrightarrow> (n, []) \<notin> set e \<Longrightarrow> (n, []) \<notin> set e'"
proof (induction r arbitrary: s e s' e')
  case (Seq a b)
  then obtain s1 e1 where ab: "(s1, e1) \<in> set (rx a s e)" "(s', e') \<in> set (rx b s1 e1)" by auto
  with Seq.IH Seq.prems show ?case by (metis group_nonempty.simps(1))
next
  case (Alt a b)
  then show ?case by auto
next
  case (Cap m r)
  then obtain e1 where r: "(s', e1) \<in> set (rx r s e)" and e': "e' = (m, take (length s - length s') s) # e1"
    by auto
  from rx_min_len [OF r] Cap.IH [OF r] Cap.prems(2,3) show ?case by (auto simp: e')
qed (auto split: list.splits if_splits)

lemma re_match_group:
  assumes "re_match r s = Some e" "sets_group n r" "group_nonempty n r"
  shows "\<exists>u. group e n = Some u \<and> u \<noteq> []"
proof -
  from assms(1) obtain s' where m: "(s', e) \<in> set (rx r s [])"
    by (auto simp: re_match_def split: list.splits)
  from rx_sets_group [OF m assms(2)] have "n \<in> fst ` set e" .
  then obtain u where u: "map_of e n = Some u" by (metis map_of_eq_None_iff option.exhaust)
  with rx_group_nonempty [OF m assms(3)] map_of_SomeD [OF u] show ?thesis by (auto simp: group_def)
qed

end
