(* ===== verification/Py_System.thy ===== *)
theory Py_System
  imports Py_Text
begin

text \<open>
  Paths and the file system, as \<open>pathlib\<close> sees them, and code with effects.

  A \<open>path\<close> is a root (empty, one or two slashes) and its parts. The file system is a
  dictionary from paths to nodes; a relative path is a key of its own, so two spellings of one
  file through \<open>..\<close>, symbolic links or the working directory are different keys. The root
  and the working directory always exist. The contents of a file are its text.

  An operation with effects is a function from a state to a result and the new state. The state
  changes of an operation that raises are kept, as they are in Python.
\<close>

section \<open>Paths\<close>

datatype path = Path (path_root: string) (path_parts: "string list")

instantiation path :: linorder
begin

definition less_eq_path :: "path \<Rightarrow> path \<Rightarrow> bool" where
  "less_eq_path p q \<longleftrightarrow> path_root p # path_parts p \<le> path_root q # path_parts q"

definition less_path :: "path \<Rightarrow> path \<Rightarrow> bool" where
  "less_path p q \<longleftrightarrow> path_root p # path_parts p < path_root q # path_parts q"

instance
proof
  fix p q :: path
  assume "p \<le> q" "q \<le> p"
  then have "path_root p # path_parts p = path_root q # path_parts q"
    unfolding less_eq_path_def by (rule antisym)
  then show "p = q" by (auto intro: path.expand)
next
  fix p q :: path
  show "p \<le> q \<or> q \<le> p" unfolding less_eq_path_def by (rule linear)
  show "(p < q) = (p \<le> q \<and> \<not> q \<le> p)"
    unfolding less_eq_path_def less_path_def by (rule less_le_not_le)
  show "p \<le> p" unfolding less_eq_path_def by (rule order_refl)
next
  fix p q r :: path
  assume "p \<le> q" "q \<le> r"
  then show "p \<le> r" unfolding less_eq_path_def by (rule order_trans)
qed

end

definition path_of :: "string \<Rightarrow> path" where
  "path_of s =
     Path (if startswith s ''//'' \<and> \<not> startswith s ''///'' then ''//''
           else if startswith s ''/'' then ''/'' else [])
       (filter (\<lambda>p. p \<noteq> [] \<and> p \<noteq> ''.'') (split_char CHR ''/'' s))"

definition path_str :: "path \<Rightarrow> string" where
  "path_str p = (let s = path_root p @ join ''/'' (path_parts p) in if s = [] then ''.'' else s)"

definition path_join :: "path \<Rightarrow> path \<Rightarrow> path" where
  "path_join p q = (if path_root q \<noteq> [] then q else Path (path_root p) (path_parts p @ path_parts q))"

definition path_div :: "path \<Rightarrow> string \<Rightarrow> path" where
  "path_div p s = path_join p (path_of s)"

definition path_parent :: "path \<Rightarrow> path" where
  "path_parent p = Path (path_root p) (butlast (path_parts p))"

definition path_name :: "path \<Rightarrow> string" where
  "path_name p = (if path_parts p = [] then [] else last (path_parts p))"

definition path_suffix :: "path \<Rightarrow> string" where
  "path_suffix p =
     (case rfind_char CHR ''.'' (path_name p) of
        None \<Rightarrow> []
      | Some i \<Rightarrow> if 0 < i \<and> i < length (path_name p) - 1 then drop i (path_name p) else [])"

definition path_stem :: "path \<Rightarrow> string" where
  "path_stem p = take (length (path_name p) - length (path_suffix p)) (path_name p)"

definition path_with_name :: "path \<Rightarrow> string \<Rightarrow> path res" where
  "path_with_name p n =
     (if path_name p = [] \<or> n = [] \<or> CHR ''/'' \<in> set n \<or> n = ''.'' then Err ValueError
      else Ok (Path (path_root p) (butlast (path_parts p) @ [n])))"

definition path_is_absolute :: "path \<Rightarrow> bool" where
  "path_is_absolute p \<longleftrightarrow> path_root p \<noteq> []"

definition path_relative_to :: "path \<Rightarrow> path \<Rightarrow> path res" where
  "path_relative_to p q =
     (if path_root p = path_root q \<and> take (length (path_parts q)) (path_parts p) = path_parts q
      then Ok (Path [] (drop (length (path_parts q)) (path_parts p))) else Err ValueError)"

text \<open>A path whose text reads back as itself.\<close>

definition wf_path :: "path \<Rightarrow> bool" where
  "wf_path p \<longleftrightarrow> path_root p \<in> {[], ''/'', ''//''}
     \<and> (\<forall>w \<in> set (path_parts p). w \<noteq> [] \<and> w \<noteq> ''.'' \<and> CHR ''/'' \<notin> set w)"

lemma path_of_wf: "wf_path (path_of s)"
  by (auto simp: wf_path_def path_of_def split_char_def dest: split_by_elem)

lemma startswith_Cons: "startswith (c # s) (d # p) \<longleftrightarrow> c = d \<and> startswith s p"
  by (simp add: startswith_def)

lemma startswith_Nil [simp]: "startswith s []"
  by (simp add: startswith_def)

lemma startswith_Nil_Cons [simp]: "\<not> startswith [] (d # p)"
  by (simp add: startswith_def)

lemma join_slash_hd:
  assumes "\<forall>w \<in> set ws. w \<noteq> [] \<and> CHR ''/'' \<notin> set w"
  shows "\<not> startswith (join ''/'' ws) ''/''"
proof (cases ws)
  case (Cons w vs)
  with assms have "w \<noteq> []" "CHR ''/'' \<notin> set w" by auto
  then obtain c cs where "w = c # cs" "c \<noteq> CHR ''/''" by (cases w) auto
  with Cons show ?thesis by (cases vs) (auto simp: startswith_Cons)
qed simp

theorem path_of_str [simp]:
  assumes "wf_path p"
  shows "path_of (path_str p) = p"
proof (cases p)
  case (Path r ws)
  have w: "\<forall>w \<in> set ws. w \<noteq> [] \<and> CHR ''/'' \<notin> set w" and wd: "\<forall>w \<in> set ws. w \<noteq> ''.''"
    and r: "r \<in> {[], ''/'', ''//''}"
    using assms by (auto simp: Path wf_path_def)
  let ?j = "join ''/'' ws" and ?f = "\<lambda>p. p \<noteq> [] \<and> p \<noteq> ''.''"
  have f: "filter ?f ws = ws" using w wd by (auto simp: filter_id_conv)
  have sp: "filter ?f (split_char CHR ''/'' ?j) = ws"
  proof (cases "ws = []")
    case True
    then show ?thesis by (simp add: split_char_def)
  next
    case False
    then show ?thesis using w f by (simp add: split_char_join)
  qed
  have slash: "split_char CHR ''/'' (CHR ''/'' # s) = [] # split_char CHR ''/'' s" for s
    by (simp add: split_char_def)
  note nj = join_slash_hd [OF w]
  consider "r = []" "ws = []" | "r = []" "?j \<noteq> []" | "r = ''/''" | "r = ''//''"
    using r w by (cases ws; cases "tl ws") (auto simp: join_Cons)
  then show ?thesis
  proof cases
    case 1
    then show ?thesis by (simp add: Path path_str_def path_of_def split_char_def startswith_def)
  next
    case 2
    have "\<not> startswith ?j ''//''" using nj by (cases ?j) (auto simp: startswith_Cons)
    with 2 nj sp show ?thesis by (simp add: Path path_str_def path_of_def)
  next
    case 3
    with nj sp show ?thesis by (simp add: Path path_str_def path_of_def startswith_Cons slash)
  next
    case 4
    with nj sp show ?thesis by (simp add: Path path_str_def path_of_def startswith_Cons slash)
  qed
qed

interpretation path_text: codec path_str "\<lambda>s. Some (path_of s)" wf_path
  by unfold_locales simp

section \<open>The file system\<close>

datatype node = File string | Directory

type_synonym fs = "(path, node) dict"

definition is_file :: "fs \<Rightarrow> path \<Rightarrow> bool" where
  "is_file fs p \<longleftrightarrow> (case map_of fs p of Some (File _) \<Rightarrow> True | _ \<Rightarrow> False)"

definition is_dir :: "fs \<Rightarrow> path \<Rightarrow> bool" where
  "is_dir fs p \<longleftrightarrow> path_parts p = [] \<or> map_of fs p = Some Directory"

definition path_exists :: "fs \<Rightarrow> path \<Rightarrow> bool" where
  "path_exists fs p \<longleftrightarrow> is_dir fs p \<or> is_file fs p"

definition read_text :: "fs \<Rightarrow> path \<Rightarrow> string res" where
  "read_text fs p = (case map_of fs p of Some (File s) \<Rightarrow> Ok s | _ \<Rightarrow> Err OSError)"

definition write_text :: "path \<Rightarrow> string \<Rightarrow> fs \<Rightarrow> fs res" where
  "write_text p s fs =
     (if is_dir fs p \<or> \<not> is_dir fs (path_parent p) then Err OSError
      else Ok (AList.update p (File s) fs))"

text \<open>\<open>p.rglob(n)\<close> for a plain file name \<open>n\<close>: every entry of that name below \<open>p\<close>.\<close>

definition is_below :: "path \<Rightarrow> path \<Rightarrow> bool" where
  "is_below p q \<longleftrightarrow> path_root p = path_root q \<and> length (path_parts p) < length (path_parts q)
     \<and> take (length (path_parts p)) (path_parts q) = path_parts p"

definition rglob_name :: "fs \<Rightarrow> path \<Rightarrow> string \<Rightarrow> path list" where
  "rglob_name fs p n = filter (\<lambda>q. is_below p q \<and> path_name q = n) (map fst fs)"

text \<open>\<open>p.iterdir()\<close>\<close>

definition iterdir :: "fs \<Rightarrow> path \<Rightarrow> path list" where
  "iterdir fs p = filter (\<lambda>q. is_below p q \<and> path_parent q = p) (map fst fs)"

text \<open>\<open>p.rglob("*" + suffix)\<close> and \<open>p.glob("*" + suffix)\<close>\<close>

definition rglob_suffix :: "fs \<Rightarrow> path \<Rightarrow> string \<Rightarrow> path list" where
  "rglob_suffix fs p suffix = filter (\<lambda>q. is_below p q \<and> endswith (path_name q) suffix) (map fst fs)"

definition glob_suffix :: "fs \<Rightarrow> path \<Rightarrow> string \<Rightarrow> path list" where
  "glob_suffix fs p suffix = filter (\<lambda>q. endswith (path_name q) suffix) (iterdir fs p)"

fun ancestors :: "string \<Rightarrow> string list \<Rightarrow> string list \<Rightarrow> path list" where
  "ancestors r done_parts [] = []"
| "ancestors r done_parts (w # ws) = Path r (done_parts @ [w]) # ancestors r (done_parts @ [w]) ws"

text \<open>\<open>p.mkdir(parents=True, exist_ok=True)\<close>\<close>

definition mkdir_parents :: "path \<Rightarrow> fs \<Rightarrow> fs res" where
  "mkdir_parents p fs =
     rfoldM (\<lambda>fs q. if is_file fs q then Err (if q = p then FileExistsError else OSError)
               else Ok (if is_dir fs q then fs else AList.update q Directory fs))
       fs (ancestors (path_root p) [] (path_parts p))"

text \<open>\<open>p.unlink(missing_ok=True)\<close>\<close>

definition unlink :: "path \<Rightarrow> fs \<Rightarrow> fs res" where
  "unlink p fs = (if is_dir fs p then Err OSError else Ok (AList.delete p fs))"

text \<open>\<open>a.replace(b)\<close> of a file.\<close>

definition replace_file :: "path \<Rightarrow> path \<Rightarrow> fs \<Rightarrow> fs res" where
  "replace_file a b fs =
     (case map_of fs a of
        Some (File s) \<Rightarrow>
          if is_dir fs b \<or> \<not> is_dir fs (path_parent b) then Err OSError
          else Ok (AList.update b (File s) (AList.delete a fs))
      | _ \<Rightarrow> Err OSError)"

lemma read_text_write:
  "write_text p s fs = Ok fs' \<Longrightarrow> read_text fs' q = (if q = p then Ok s else read_text fs q)"
  by (auto simp: write_text_def read_text_def map_of_AList_update split: if_splits)

lemma is_file_read: "is_file fs p \<longleftrightarrow> (\<exists>s. read_text fs p = Ok s)"
  by (auto simp: is_file_def read_text_def split: option.splits node.splits)

lemma replace_file_OkE:
  assumes "replace_file a b fs = Ok fs'"
  obtains s where "map_of fs a = Some (File s)" "map_of fs' = (map_of (AList.delete a fs))(b \<mapsto> File s)"
proof (cases "map_of fs a")
  case None
  with assms show ?thesis by (simp add: replace_file_def)
next
  case (Some n)
  with assms obtain s where "n = File s" "fs' = AList.update b (File s) (AList.delete a fs)"
    by (cases n) (auto simp: replace_file_def split: if_splits)
  with Some show ?thesis by (intro that [of s]) (simp_all add: map_of_AList_update)
qed

lemma read_text_replace:
  assumes "replace_file a b fs = Ok fs'" "a \<noteq> b"
  shows "read_text fs' q =
    (if q = b then read_text fs a else if q = a then Err OSError else read_text fs q)"
  using assms by (elim replace_file_OkE) (simp add: read_text_def delete_conv')

section \<open>Effects\<close>

type_synonym ('s, 'a) eff = "'s \<Rightarrow> 'a res \<times> 's"

definition eret :: "'a \<Rightarrow> ('s, 'a) eff" where
  "eret x s = (Ok x, s)"

definition eraise :: "exn \<Rightarrow> ('s, 'a) eff" where
  "eraise e s = (Err e, s)"

definition ebind :: "('s, 'a) eff \<Rightarrow> ('a \<Rightarrow> ('s, 'b) eff) \<Rightarrow> ('s, 'b) eff" where
  "ebind m f s = (case m s of (Inl e, s') \<Rightarrow> (Inl e, s') | (Inr x, s') \<Rightarrow> f x s')"

definition elift :: "'a res \<Rightarrow> ('s, 'a) eff" where
  "elift r s = (r, s)"

definition eupd :: "('s \<Rightarrow> 's res) \<Rightarrow> ('s, unit) eff" where
  "eupd f s = (case f s of Inl e \<Rightarrow> (Inl e, s) | Inr s' \<Rightarrow> (Inr (), s'))"

definition eget :: "('s \<Rightarrow> 'a) \<Rightarrow> ('s, 'a) eff" where
  "eget f s = (Ok (f s), s)"

text \<open>\<open>try: m except ...: h(e)\<close> and \<open>try: m finally: c\<close>; an exception of the clean-up wins.\<close>

definition ecatch :: "('s, 'a) eff \<Rightarrow> (exn \<Rightarrow> ('s, 'a) eff option) \<Rightarrow> ('s, 'a) eff" where
  "ecatch m h s =
     (case m s of
        (Inl e, s') \<Rightarrow> (case h e of None \<Rightarrow> (Inl e, s') | Some k \<Rightarrow> k s')
      | (Inr x, s') \<Rightarrow> (Inr x, s'))"

definition efinally :: "('s, 'a) eff \<Rightarrow> ('s, unit) eff \<Rightarrow> ('s, 'a) eff" where
  "efinally m c s =
     (case m s of (r, s') \<Rightarrow> (case c s' of (Inl e, s'') \<Rightarrow> (Inl e, s'') | (Inr _, s'') \<Rightarrow> (r, s'')))"

lemma eret_apply [simp]: "eret x s = (Inr x, s)"
  and eraise_apply [simp]: "eraise e s = (Inl e, s)"
  and elift_apply [simp]: "elift r s = (r, s)"
  and eget_apply [simp]: "eget f s = (Inr (f s), s)"
  by (simp_all add: eret_def eraise_def elift_def eget_def)

lemma ebind_Ok: "m s = (Inr x, s') \<Longrightarrow> ebind m f s = f x s'"
  and ebind_Err: "m s = (Inl e, s') \<Longrightarrow> ebind m f s = (Inl e, s')"
  by (simp_all add: ebind_def)

lemma ebind_eret [simp]: "ebind (eret x) f = f x"
  by (rule ext) (simp add: ebind_def)

lemma ebind_eraise [simp]: "ebind (eraise e) f = eraise e"
  by (rule ext) (simp add: ebind_def)

lemma ebind_result_Ok:
  "ebind m f s = (Inr y, s'') \<longleftrightarrow> (\<exists>x s'. m s = (Inr x, s') \<and> f x s' = (Inr y, s''))"
  by (auto simp: ebind_def split: prod.splits sum.splits)

lemma eupd_Ok: "eupd f s = (Inr x, s') \<longleftrightarrow> f s = Ok s'"
  by (auto simp: eupd_def split: sum.splits)

lemma efinally_Ok: "efinally m k s = (Ok x, s'') \<longleftrightarrow> (\<exists>s' u. m s = (Ok x, s') \<and> k s' = (Ok u, s''))"
  by (cases "m s") (auto simp: efinally_def split: prod.splits sum.splits)

lemma path_str_nonempty [simp]: "path_str p \<noteq> []"
  by (simp add: path_str_def Let_def)

end
