(* ===== verification/Artifacts.thy ===== *)
theory Artifacts
  imports Py_Json Py_Regex Py_System
begin

text \<open>
  \<open>ibex_sbfl_common/artifacts.py\<close>: the readers of the result log, of \<open>blocks.json\<close>, of the
  status and timing files and of \<open>bug_info.json\<close>, and the two evaluations of the rank of the
  faulty block, over the suspiciousness ties of the log and over a reranked result.

  The entries of \<open>result.log\<close> are the record \<open>ranked_block\<close>, whose fields already have the
  types the parser gives them, so the later \<open>int(item["rank"])\<close> and \<open>str(item["sus"])\<close> are
  the fields themselves. JSON objects keep their Python form, and every conversion of a field
  may raise. Warnings on standard error are not part of the model.
\<close>

section \<open>Patterns\<close>

definition BLOCK_RANK_RE :: re where
  "BLOCK_RANK_RE = Seqs
     [Lit ''top-'', Cap ''rank'' (Some1 is_digit), Lit '':'', Some1 is_space,
      Lit ''Block(scope:'', Some1 is_space, Cap ''scope'' (Many any_char), Lit '','', Some1 is_space,
      Lit ''bid:'', Some1 is_space, Cap ''bid'' (Some1 is_digit), Lit '')'', Some1 is_space,
      Lit ''with suspicious'', Some1 is_space,
      One (\<lambda>c. c = SQ), Cap ''sus'' (Some1 (\<lambda>c. c \<noteq> SQ)), One (\<lambda>c. c = SQ)]"

definition STATUS_RE :: re where
  "STATUS_RE = Seqs
     [Lit ''['', Cap ''kind'' (Some1 (\<lambda>c. is_upper_az c \<or> c = CHR ''_'' \<or> c = CHR '' '')), Lit '']'',
      Some1 is_space,
      Cap ''bugcase'' (Some1 (\<lambda>c. c \<noteq> CHR '','' \<and> \<not> is_space c)),
      Opt (Seqs [Lit '','', Many is_space, Lit ''status='',
                 Cap ''status'' (Seqs [Opt (Lit ''-''), Some1 is_digit])]),
      Opt (Seqs [Lit '','', Many is_space, Lit ''elapsed='',
                 Cap ''elapsed'' (Seqs [Some1 is_digit, Lit '':'', Exactly 2 is_digit, Lit '':'',
                   Exactly 2 is_digit, Lit '':'', Exactly 3 is_digit])]),
      Opt (Seqs [Lit '','', Many is_space, Lit ''elapsed_ms='', Cap ''elapsed_ms'' (Some1 is_digit)]),
      Many is_space, Eos]"

section \<open>Readers\<close>

definition resolve_input_files :: "fs \<Rightarrow> path \<Rightarrow> (path \<times> path \<times> path) res" where
  "resolve_input_files fs sbfl_path =
     rbind
       (if is_dir fs sbfl_path
        then Ok (path_div sbfl_path ''result.log'', path_div sbfl_path ''blocks.json'', sbfl_path)
        else if path_name sbfl_path = ''result.log''
        then rbind (path_with_name sbfl_path ''blocks.json'')
               (\<lambda>b. Ok (sbfl_path, b, path_parent sbfl_path))
        else Err SbflCommonError)
       (\<lambda>(result_log, blocks_json, output_dir).
          if \<not> is_file fs result_log \<or> \<not> is_file fs blocks_json then Err SbflCommonError
          else Ok (result_log, blocks_json, output_dir))"

record ranked_block =
  rank :: int
  scope :: string
  bid :: int
  sus :: string

text \<open>The fields of a match; the groups of the pattern are digits, so \<open>int\<close> cannot fail.\<close>

definition block_of_match :: "groups \<Rightarrow> ranked_block option" where
  "block_of_match e =
     (case (group e ''rank'', group e ''scope'', group e ''bid'', group e ''sus'') of
        (Some r, Some sc, Some b, Some su) \<Rightarrow>
          (case (py_int r, py_int b) of
             (Some i, Some j) \<Rightarrow> Some \<lparr>rank = i, scope = sc, bid = j, sus = su\<rparr>
           | _ \<Rightarrow> None)
      | _ \<Rightarrow> None)"

fun parse_block_lines :: "bool \<Rightarrow> string list \<Rightarrow> ranked_block list" where
  "parse_block_lines in_block_section [] = []"
| "parse_block_lines in_block_section (raw # rest) =
     (let line = strip raw in
      if line = ''Suspiciousness of block:'' then parse_block_lines True rest
      else if \<not> in_block_section then parse_block_lines in_block_section rest
      else if startswith line ''Suspiciousness of '' then []
      else case re_match BLOCK_RANK_RE line of
             None \<Rightarrow> parse_block_lines in_block_section rest
           | Some e \<Rightarrow> (case block_of_match e of
                None \<Rightarrow> parse_block_lines in_block_section rest
              | Some b \<Rightarrow> b # parse_block_lines in_block_section rest))"

definition parse_block_suspiciousness :: "fs \<Rightarrow> path \<Rightarrow> ranked_block list res" where
  "parse_block_suspiciousness fs p =
     rbind (read_text fs p) (\<lambda>text. Ok (parse_block_lines False (splitlines text)))"

type_synonym jobj = "(string \<times> json) list"

type_synonym block_map = "(string \<times> int, jobj) dict"

definition block_key :: "jobj \<Rightarrow> (string \<times> int) res" where
  "block_key raw =
     rbind (jindex raw ''scope'') (\<lambda>sc.
     rbind (jindex raw ''bid'') (\<lambda>b. rbind (to_int b) (\<lambda>i. Ok (py_str sc, i))))"

definition add_block :: "block_map \<Rightarrow> json \<Rightarrow> block_map res" where
  "add_block m raw =
     (case raw of
        JObj o1 \<Rightarrow>
          (case block_key o1 of
             Inr k \<Rightarrow> Ok (AList.update k o1 m)
           | Inl e \<Rightarrow> if e = KeyError \<or> e = TypeError \<or> is_value_error e then Ok m else Err e)
      | _ \<Rightarrow> Ok m)"

definition load_blocks :: "decoder \<Rightarrow> fs \<Rightarrow> path \<Rightarrow> block_map res" where
  "load_blocks loads fs p =
     rbind (read_text fs p) (\<lambda>text.
       case loads text of
         None \<Rightarrow> Err SbflCommonError
       | Some (JArr data) \<Rightarrow> rfoldM add_block [] data
       | Some _ \<Rightarrow> Err SbflCommonError)"

definition read_time :: "string \<Rightarrow> fs \<Rightarrow> path \<Rightarrow> string res" where
  "read_time name fs logdir =
     (let p = path_div (path_div logdir ''elapsed'') name
      in if is_file fs p then rbind (read_text fs p) (\<lambda>t. Ok (strip t)) else Ok [])"

definition read_gen_time :: "fs \<Rightarrow> path \<Rightarrow> string res" where
  "read_gen_time fs logdir = read_time ''gen_time.txt'' fs logdir"

definition read_sbfl_time :: "fs \<Rightarrow> path \<Rightarrow> string res" where
  "read_sbfl_time fs logdir = read_time ''sbfl_time.txt'' fs logdir"

definition time_units :: "(string \<times> rat) list" where
  "time_units = [(''ms'', 1000), ([CHR 0xB5, CHR ''s''], 1000000), (''us'', 1000000),
     (''ns'', 1000000000)]"

definition parse_time :: "string \<Rightarrow> pyfloat res" where
  "parse_time v =
     (let value = strip v in
      if value = [] then Ok (Fin 0)
      else case find (\<lambda>(suffix, divisor). endswith value suffix) time_units of
             Some (suffix, divisor) \<Rightarrow>
               rbind (res_of ValueError (py_float (take (length value - length suffix) value)))
                 (\<lambda>x. fdiv x (Fin divisor))
           | None \<Rightarrow> res_of ValueError
               (py_float (if endswith value ''s'' then butlast value else value)))"

definition parse_rank :: "string \<Rightarrow> pyfloat option" where
  "parse_rank rank_str =
     (let value = lower (strip rank_str) in
      if startswith value ''over'' then None
      else py_float (if startswith value ''top-'' then drop 4 value else value))"

definition parse_status :: "fs \<Rightarrow> path \<Rightarrow> (string \<times> bool \<times> string) option res" where
  "parse_status fs status_path =
     rbind (read_text fs status_path) (\<lambda>raw.
       case re_match STATUS_RE (strip raw) of
         None \<Rightarrow> Ok None
       | Some e \<Rightarrow>
           (let kind = replace_char CHR '' '' CHR ''_'' (strip (the (group e ''kind'')));
                bugcase = the (group e ''bugcase'')
            in if kind = ''OK'' then Ok (Some (bugcase, True, ''OK''))
               else (let status = (case group e ''status'' of Some s \<Rightarrow> s | None \<Rightarrow> ''-1'')
                     in Ok (Some (bugcase, False, kind @ ''('' @ status @ '')'')))))"

definition resolve_bugcase_ref :: "fs \<Rightarrow> path \<Rightarrow> string \<Rightarrow> (string \<times> string \<times> path \<times> path) option" where
  "resolve_bugcase_ref fs bugset_root bugcase =
     (let bugcase_path = path_of bugcase in
      if \<not> endswith (path_name bugcase_path) ''.sv.diff'' \<or> path_str (path_parent bugcase_path) = ''.''
      then None
      else (let case_dir = path_join bugset_root (path_parent bugcase_path);
                diff_path = path_div case_dir (path_name bugcase_path)
            in if \<not> is_dir fs case_dir \<or> \<not> is_file fs diff_path then None
               else Some (path_str (path_parent bugcase_path), path_name bugcase_path, case_dir, diff_path)))"

definition load_bug_info_from_case_dir :: "decoder \<Rightarrow> fs \<Rightarrow> path \<Rightarrow> jobj option res" where
  "load_bug_info_from_case_dir loads fs case_dir =
     (let p = path_div case_dir ''bug_info.json'' in
      if \<not> is_file fs p then Ok None
      else rbind (read_text fs p) (\<lambda>text.
        case loads text of
          Some (JObj value) \<Rightarrow>
            Ok (if list_all (\<lambda>k. map_of value k \<noteq> None) [''module_name'', ''scope_name'', ''modify_line'']
                then Some value else None)
        | _ \<Rightarrow> Ok None))"

section \<open>Suspiciousness ties\<close>

text \<open>The key \<open>("num", Decimal)\<close> or \<open>("str", text)\<close> of a suspiciousness, and its \<open>==\<close>.\<close>

datatype sus_key = KNum decimal | KStr string

definition suspiciousness_key :: "string \<Rightarrow> sus_key" where
  "suspiciousness_key v =
     (let value = strip v in case py_decimal value of Some d \<Rightarrow> KNum d | None \<Rightarrow> KStr value)"

fun key_eq :: "sus_key \<Rightarrow> sus_key \<Rightarrow> bool res" where
  "key_eq (KNum a) (KNum b) = decimal_eq a b"
| "key_eq (KStr a) (KStr b) = Ok (a = b)"
| "key_eq _ _ = Ok False"

definition line_set_with_window :: "json \<Rightarrow> int \<Rightarrow> int list res" where
  "line_set_with_window lines window =
     rbind (int_list lines) (\<lambda>ls. Ok (concat (map (\<lambda>line. [line - window..line + window]) ls)))"

definition format_average_rank :: "rat \<Rightarrow> string" where
  "format_average_rank r =
     (if snd (quotient_of r) = 1 then str_int (fst (quotient_of r))
      else rstrip_by (\<lambda>c. c = CHR ''.'') (rstrip_by (\<lambda>c. c = CHR ''0'') (ffmt 6 (rnd r))))"

definition mean_rank :: "('a \<Rightarrow> int) \<Rightarrow> 'a list \<Rightarrow> rat" where
  "mean_rank f xs = of_int (sum_list (map f xs)) / of_nat (length xs)"

type_synonym tie_group = "ranked_block list \<times> rat"

text \<open>One round of the loop: the finished groups, the current group and its key.\<close>

definition tie_step ::
  "tie_group list \<times> ranked_block list \<times> sus_key option \<Rightarrow> ranked_block
   \<Rightarrow> (tie_group list \<times> ranked_block list \<times> sus_key option) res" where
  "tie_step st item =
     (case st of (groups, current, current_key) \<Rightarrow>
       (let key = suspiciousness_key (sus item) in
        rbind (case (current, current_key) of
                 (_ # _, Some k) \<Rightarrow> key_eq key k
               | _ \<Rightarrow> Ok True)
          (\<lambda>same. if same then Ok (groups, current @ [item], Some key)
                  else Ok (groups @ [(current, mean_rank rank current)], [item], Some key))))"

definition iter_suspiciousness_tie_groups :: "ranked_block list \<Rightarrow> tie_group list res" where
  "iter_suspiciousness_tie_groups ranked_blocks =
     rbind (rfoldM tie_step ([], [], None) (sort_key rank ranked_blocks))
       (\<lambda>(groups, current, _).
          Ok (if current \<noteq> [] then groups @ [(current, mean_rank rank current)] else groups))"

definition is_bug_block ::
  "ranked_block \<Rightarrow> block_map \<Rightarrow> string \<Rightarrow> string \<Rightarrow> int list \<Rightarrow> bool res" where
  "is_bug_block item block_map module_name scope_name target_lines =
     (case map_of block_map (scope item, bid item) of
        None \<Rightarrow> Ok False
      | Some block \<Rightarrow>
          if py_str (dict_get block ''scope'' (JStr [])) \<noteq> scope_name
             \<or> py_str (dict_get block ''module'' (JStr [])) \<noteq> module_name
          then Ok False
          else rbind (int_list (dict_get block ''lines'' (JArr [])))
                 (\<lambda>ls. Ok (list_ex (\<lambda>l. l \<in> set target_lines) ls)))"

definition first_max :: "('a \<Rightarrow> int) \<Rightarrow> 'a list \<Rightarrow> 'a" where
  "first_max f xs = foldl (\<lambda>m x. if f m < f x then x else m) (hd xs) (tl xs)"

definition over_top :: "int \<Rightarrow> string \<times> string" where
  "over_top n = (''over top-'' @ str_int n, [])"

text \<open>The inner loop over the items of a group; \<open>None\<close> when it runs to its end.\<close>

fun scan_group ::
  "jobj \<Rightarrow> block_map \<Rightarrow> int list \<Rightarrow> int \<Rightarrow> bool \<Rightarrow> rat \<Rightarrow> ranked_block list
   \<Rightarrow> (string \<times> string) option res" where
  "scan_group bug_info block_map target_lines top_n reaches average_rank [] = Ok None"
| "scan_group bug_info block_map target_lines top_n reaches average_rank (item # items) =
     rbind (jindex bug_info ''module_name'') (\<lambda>m.
     rbind (jindex bug_info ''scope_name'') (\<lambda>sc.
     rbind (is_bug_block item block_map (py_str m) (py_str sc) target_lines) (\<lambda>hit.
       if \<not> hit then scan_group bug_info block_map target_lines top_n reaches average_rank items
       else if reaches \<and> rank item \<noteq> top_n then Ok (Some (over_top top_n))
       else if reaches then Ok (Some (''top-'' @ str_int top_n, sus item))
       else Ok (Some (''top-'' @ format_average_rank average_rank, sus item)))))"

fun scan_groups ::
  "jobj \<Rightarrow> block_map \<Rightarrow> int list \<Rightarrow> int \<Rightarrow> sus_key \<Rightarrow> tie_group list \<Rightarrow> (string \<times> string) res" where
  "scan_groups bug_info block_map target_lines top_n boundary_key [] = Ok (over_top top_n)"
| "scan_groups bug_info block_map target_lines top_n boundary_key ((items, average_rank) # rest) =
     rbind (key_eq (suspiciousness_key (sus (hd items))) boundary_key) (\<lambda>reaches.
     rbind (scan_group bug_info block_map target_lines top_n reaches average_rank items) (\<lambda>found.
       case found of
         Some r \<Rightarrow> Ok r
       | None \<Rightarrow> scan_groups bug_info block_map target_lines top_n boundary_key rest))"

definition find_bug_rank ::
  "jobj \<Rightarrow> ranked_block list \<Rightarrow> block_map \<Rightarrow> int \<Rightarrow> (string \<times> string) res" where
  "find_bug_rank bug_info ranked_blocks block_map line_window =
     rbind (jindex bug_info ''modify_line'') (\<lambda>ml.
     rbind (line_set_with_window ml line_window) (\<lambda>target_lines.
     rbind (iter_suspiciousness_tie_groups ranked_blocks) (\<lambda>groups.
       let top_n = int (length ranked_blocks) in
       if top_n > 0 \<and> length groups = 1 then Ok (over_top top_n)
       else if top_n = 0 then Ok (over_top 0)
       else scan_groups bug_info block_map target_lines top_n
              (suspiciousness_key (sus (first_max rank ranked_blocks))) groups)))"

section \<open>Rank of the faulty block in a reranked result\<close>

text \<open>
  Keys of the tie dictionary. A quiet NaN equals no other key, so each makes a group of its own
  (\<open>SNan\<close> with its position); a signalling NaN cannot be hashed.
\<close>

datatype score_key = SRank int | SNum decimal | SNan nat | SStr string

definition score_key_of :: "nat \<Rightarrow> jobj \<Rightarrow> score_key res" where
  "score_key_of i item =
     rbind (jindex item ''reranked_rank'') (\<lambda>r. rbind (to_int r) (\<lambda>rank.
       let raw_score = dict_get item ''final_score'' JNull;
           score_text = (if raw_score \<noteq> JNull then strip (py_str raw_score) else [])
       in if score_text = [] then Ok (SRank rank)
          else case py_decimal score_text of
                 Some DSNaN \<Rightarrow> Err TypeError
               | Some DNaN \<Rightarrow> Ok (SNan i)
               | Some d \<Rightarrow> Ok (SNum d)
               | None \<Rightarrow> Ok (SStr score_text)))"

definition item_rank :: "jobj \<Rightarrow> int res" where
  "item_rank item = rbind (jindex item ''reranked_rank'') to_int"

text \<open>\<open>sorted(rankings, key=...)\<close>, with the evaluated keys kept beside the items.\<close>

definition order_rankings :: "jobj list \<Rightarrow> (int \<times> jobj) list res" where
  "order_rankings rankings =
     rbind (rmapM item_rank rankings) (\<lambda>ks. Ok (sort_key fst (zip ks rankings)))"

definition average_ranks :: "(score_key \<times> int) list \<Rightarrow> (int, rat) dict" where
  "average_ranks keyed =
     dict_of (concat (map (\<lambda>(k, members). map (\<lambda>m. (snd m, mean_rank snd members)) members)
                (group_by fst keyed)))"

fun scan_rankings ::
  "jobj \<Rightarrow> int list \<Rightarrow> (int, rat) dict \<Rightarrow> (int \<times> jobj) list \<Rightarrow> (string \<times> jobj) option res" where
  "scan_rankings bug_info target_lines averages [] = Ok None"
| "scan_rankings bug_info target_lines averages ((r, item) # rest) =
     rbind (jindex bug_info ''module_name'') (\<lambda>m.
       if py_str (dict_get item ''module'' (JStr [])) \<noteq> py_str m
       then scan_rankings bug_info target_lines averages rest
       else rbind (jindex bug_info ''scope_name'') (\<lambda>sc.
         if py_str (dict_get item ''scope'' (JStr [])) \<noteq> py_str sc
         then scan_rankings bug_info target_lines averages rest
         else rbind (int_list (dict_get item ''lines'' (JArr []))) (\<lambda>ls.
           if list_ex (\<lambda>l. l \<in> set target_lines) ls
           then rbind (res_of KeyError (map_of averages r))
                  (\<lambda>a. Ok (Some (''top-'' @ format_average_rank a, item)))
           else scan_rankings bug_info target_lines averages rest)))"

definition find_reranked_bug_rank ::
  "jobj \<Rightarrow> jobj list \<Rightarrow> int \<Rightarrow> (string \<times> jobj option) res" where
  "find_reranked_bug_rank bug_info rankings line_window =
     rbind (jindex bug_info ''modify_line'') (\<lambda>ml.
     rbind (line_set_with_window ml line_window) (\<lambda>target_lines.
     rbind (order_rankings rankings) (\<lambda>ordered.
     rbind (rmapM (\<lambda>(i, r, item). rbind (score_key_of i item) (\<lambda>k. Ok (k, r)))
              (zip [0..<length ordered] ordered)) (\<lambda>keyed.
     rbind (scan_rankings bug_info target_lines (average_ranks keyed) ordered) (\<lambda>found.
       case found of
         Some (text, item) \<Rightarrow> Ok (text, Some item)
       | None \<Rightarrow> Ok (''over top-'' @ str_int (int (length rankings)), None))))))"

lemma parse_status_bugcase: "parse_status fs p = Ok (Some (bugcase, b, st)) \<Longrightarrow> bugcase \<noteq> []"
proof -
  have "sets_group ''bugcase'' STATUS_RE" "group_nonempty ''bugcase'' STATUS_RE"
    by (simp_all add: STATUS_RE_def Some1_def Opt_def numeral_eq_Suc)
  then have "re_match STATUS_RE s = Some e \<Longrightarrow> the (group e ''bugcase'') \<noteq> []" for s e
    using re_match_group by fastforce
  then show "parse_status fs p = Ok (Some (bugcase, b, st)) \<Longrightarrow> bugcase \<noteq> []"
    unfolding parse_status_def Let_def by (auto elim!: rbind_OkE split: option.splits if_splits)
qed

end
