(* ===== verification/Bug_Rank.thy ===== *)
theory Bug_Rank
  imports Artifacts
begin

text \<open>
  Properties of \<open>ibex_sbfl_common/artifacts.py\<close>: the loop over suspiciousness ties yields the
  maximal runs of equal suspiciousness with their mean ranks; \<open>find_bug_rank\<close> computes
  \<open>bug_rank_spec\<close>, the rank of the first faulty block in the order of the log; the rank texts
  it prints are read back exactly by \<open>parse_rank\<close>; and the averages of a reranked result are
  the means over its score ties. A suspiciousness is plain when it is not a NaN.
\<close>

definition plain_sus :: "string \<Rightarrow> bool" where
  "plain_sus s \<longleftrightarrow> suspiciousness_key s \<noteq> KNum DNaN \<and> suspiciousness_key s \<noteq> KNum DSNaN"

definition block_sus_key :: "ranked_block \<Rightarrow> sus_key" where
  "block_sus_key b = suspiciousness_key (sus b)"

lemma key_eq_plain:
  "plain_sus s \<Longrightarrow> plain_sus t \<Longrightarrow>
   key_eq (suspiciousness_key s) (suspiciousness_key t) = Ok (suspiciousness_key s = suspiciousness_key t)"
  unfolding plain_sus_def
  by (cases "suspiciousness_key s"; cases "suspiciousness_key t") (auto simp: decimal_eq_plain)

lemma tie_fold:
  assumes "\<forall>b \<in> set (cur @ xs). plain_sus (sus b)" "cur \<noteq> []" "\<forall>b \<in> set cur. block_sus_key b = k"
  shows "\<exists>gs' cur' k'. rfoldM tie_step (gs, cur, Some k) xs = Ok (gs', cur', k') \<and> cur' \<noteq> []
    \<and> gs' @ [(cur', mean_rank rank cur')]
      = gs @ map (\<lambda>g. (g, mean_rank rank g)) (runs block_sus_key (cur @ xs))"
  using assms
proof (induction xs arbitrary: gs cur k)
  case Nil
  then show ?case by (simp add: runs_append_same [of cur _ k "[]", simplified])
next
  case (Cons x xs)
  obtain c where c: "c \<in> set cur" using Cons.prems(2) by (cases cur) auto
  have k: "k = suspiciousness_key (sus c)" and p: "plain_sus (sus c)" "plain_sus (sus x)"
    using Cons.prems c by (auto simp: block_sus_key_def)
  have eq: "key_eq (suspiciousness_key (sus x)) k = Ok (block_sus_key x = k)"
    unfolding k using key_eq_plain [OF p(2,1)] by (simp add: block_sus_key_def)
  show ?case
  proof (cases "block_sus_key x = k")
    case True
    then have "tie_step (gs, cur, Some k) x = Ok (gs, cur @ [x], Some k)"
      using Cons.prems(2) eq by (cases cur) (auto simp: tie_step_def Let_def block_sus_key_def)
    then show ?thesis using Cons.IH [of "cur @ [x]" k gs] Cons.prems True by simp
  next
    case False
    then have s: "tie_step (gs, cur, Some k) x =
        Ok (gs @ [(cur, mean_rank rank cur)], [x], Some (block_sus_key x))"
      using Cons.prems(2) eq by (cases cur) (auto simp: tie_step_def Let_def block_sus_key_def)
    obtain zs hs where r: "runs block_sus_key (x # xs) = (x # zs) # hs"
      using runs_Cons [of block_sus_key x xs] by blast
    have "runs block_sus_key (cur @ x # xs) = cur # runs block_sus_key (x # xs)"
      using runs_append_same [OF Cons.prems(2,3), of "x # xs"] False r by simp
    then show ?thesis
      using Cons.IH [of "[x]" "block_sus_key x" "gs @ [(cur, mean_rank rank cur)]"] Cons.prems s by simp
  qed
qed

lemma iter_tie_groups_runs:
  assumes "\<forall>b \<in> set xs. plain_sus (sus b)"
  shows "iter_suspiciousness_tie_groups xs =
    Ok (map (\<lambda>g. (g, mean_rank rank g)) (runs block_sus_key (sort_key rank xs)))"
proof (cases "sort_key rank xs")
  case Nil
  then show ?thesis by (simp add: iter_suspiciousness_tie_groups_def)
next
  case (Cons y ys)
  have p: "\<forall>b \<in> set ([y] @ ys). plain_sus (sus b)" using assms Cons by (metis append_Cons append_Nil set_sort)
  have "tie_step ([], [], None) y = Ok ([], [y], Some (block_sus_key y))"
    by (simp add: tie_step_def Let_def block_sus_key_def)
  with tie_fold [OF p, of "block_sus_key y" "[]"] Cons show ?thesis
    by (auto simp: iter_suspiciousness_tie_groups_def)
qed

lemma mean_rank_bounds:
  assumes "xs \<noteq> []" "\<forall>x \<in> set xs. lo \<le> f x \<and> f x \<le> hi"
  shows "of_int lo \<le> mean_rank f xs" "mean_rank f xs \<le> of_int hi"
proof -
  have "lo * int (length xs) \<le> sum_list (map f xs) \<and> sum_list (map f xs) \<le> hi * int (length xs)"
    using assms(2) by (induction xs) (auto simp: algebra_simps)
  then have "of_int (lo * int (length xs)) \<le> (of_int (sum_list (map f xs)) :: rat)"
    "(of_int (sum_list (map f xs)) :: rat) \<le> of_int (hi * int (length xs))"
    by (simp_all only: of_int_le_iff)
  then show "of_int lo \<le> mean_rank f xs" "mean_rank f xs \<le> of_int hi"
    using assms(1) by (simp_all add: mean_rank_def pos_le_divide_eq pos_divide_le_eq)
qed

lemma mean_rank_consecutive:
  assumes "xs \<noteq> []" "consecutive a (map f xs)"
  shows "mean_rank f xs = of_int (2 * a + int (length xs) - 1) / 2"
proof -
  have "2 * sum_list (map f xs) = int (length xs) * (2 * a + int (length xs) - 1)"
    using sum_list_consecutive [OF assms(2)] by simp
  then have "2 * of_int (sum_list (map f xs)) = (of_int (int (length xs) * (2 * a + int (length xs) - 1)) :: rat)"
    by (metis of_int_mult of_int_numeral)
  then show ?thesis using assms(1) by (simp add: mean_rank_def field_simps)
qed

lemma runs_consecutive:
  assumes "consecutive a (map f xs)" "g \<in> set (runs h xs)"
  shows "\<exists>b. a \<le> b \<and> b + int (length g) \<le> a + int (length xs) \<and> consecutive b (map f g)"
proof -
  obtain us vs where "runs h xs = us @ g # vs" using assms(2) by (auto simp: in_set_conv_decomp)
  then have xs: "xs = concat us @ g @ concat vs" by (metis concat.simps(2) concat_append concat_runs)
  then show ?thesis
    using assms(1) by (intro exI [of _ "a + int (length (concat us))"]) (auto simp: consecutive_append)
qed

section \<open>Rank texts\<close>

lemma format_average_rank_int: "format_average_rank (of_int i) = str_int i"
  by (simp add: format_average_rank_def quotient_of_of_int)

lemma fmt_half:
  assumes "0 \<le> k"
  shows "fmt_fixed 6 (of_int (2 * k + 1) / 2) = str_int k @ ''.500000''"
proof -
  have e: "(\<bar>of_int (2 * k + 1) / 2\<bar> * 10 ^ 6 :: rat) = of_int (k * 1000000 + 500000)"
    using assms by (simp add: field_simps)
  have m: "nat (round_half_even (\<bar>of_int (2 * k + 1) / 2\<bar> * 10 ^ 6)) = nat k * 1000000 + 500000"
    unfolding e round_half_even_int using assms by (simp add: nat_add_distrib nat_mult_distrib)
  have d: "(a * 1000000 + 500000) div 10 ^ 6 = a" "(a * 1000000 + 500000) mod 10 ^ 6 = 500000" for a :: nat
    by simp_all
  have "digit_chr 5 = CHR ''5''" "digit_chr 0 = CHR ''0''" by code_simp+
  then have "str_nat 500000 = ''500000''"
    by (simp add: str_nat.simps [of 500000] str_nat.simps [of 50000] str_nat.simps [of 5000]
        str_nat.simps [of 500] str_nat.simps [of 50] str_nat.simps [of 5])
  then show ?thesis
    using assms unfolding fmt_fixed_def m Let_def d
    by (simp add: lpad_def str_int_def)
qed

lemma format_average_rank_half:
  assumes "0 \<le> k" "2 * k + 1 \<le> 2 ^ 53"
  shows "format_average_rank (of_int (2 * k + 1) / 2) = str_int k @ ''.5''"
proof -
  have r: "rnd (of_int (2 * k + 1) / 2) = Fin (of_int (2 * k + 1) / 2)"
    using assms by (intro is_double_rnd is_double_half) simp
  have q: "snd (quotient_of (of_int (2 * k + 1) / 2)) = 2" 
    using quotient_of_half [of "2 * k + 1"] by simp
  have "rstrip_by (\<lambda>c. c = CHR ''0'') (str_int k @ ''.500000'') = str_int k @ ''.5''"
    by (simp add: rstrip_by_def)
  moreover have "rstrip_by (\<lambda>c. c = CHR ''.'') (str_int k @ ''.5'') = str_int k @ ''.5''"
    by (rule rstrip_by_append_id) simp_all
  ultimately show ?thesis
    by (simp only: format_average_rank_def q r ffmt.simps fmt_half [OF assms(1)]) simp
qed

lemma parse_rank_top:
  assumes "\<forall>c \<in> set t. is_digit c \<or> c = CHR ''.''"
  shows "parse_rank (''top-'' @ t) = py_float t"
proof -
  have "lower t = t"
    using assms by (auto simp: lower_def lower_char_def is_digit_def is_upper_az_def code_def intro!: map_idI)
  moreover have "lower ''top-'' = ''top-''" by code_simp
  ultimately have l: "lower (''top-'' @ t) = ''top-'' @ t" by (simp only: lower_def map_append)
  have s: "strip (''top-'' @ t) = ''top-'' @ t"
  proof (rule strip_no_space)
    fix c assume "c \<in> set (''top-'' @ t)"
    then have "c \<in> set ''top-.'' \<or> is_digit c" using assms by auto
    then show "\<not> is_space c" using digit_not_space by (auto simp: is_space_def code_def)
  qed
  have "\<not> startswith (''top-'' @ t) ''over''" "startswith (''top-'' @ t) ''top-''"
    by (simp_all add: startswith_def)
  then show ?thesis unfolding parse_rank_def Let_def s l by simp
qed

lemma parse_rank_over: "parse_rank (''over top-'' @ t) = None"
proof -
  have s: "strip (''over top-'' @ t) = ''over top-'' @ rstrip t"
    by (rule strip_append_prefix) (simp_all add: is_space_def code_def)
  have "lower ''over top-'' = ''over top-''" by code_simp
  then have "startswith (lower (''over top-'' @ rstrip t)) ''over''"
    by (simp only: lower_def map_append) (simp add: startswith_def)
  then show ?thesis by (simp only: parse_rank_def Let_def s if_True)
qed

lemma str_int_digits_nat: "0 \<le> i \<Longrightarrow> of_nat (digits_nat (str_int i)) = (of_int i :: rat)"
  by (simp add: str_int_def)

lemma parse_rank_format_half:
  assumes "0 \<le> m" "m \<le> 2 ^ 53"
  shows "parse_rank (''top-'' @ format_average_rank (of_int m / 2)) = Some (Fin (of_int m / 2))"
proof (cases "even m")
  case True
  then obtain i where i: "m = 2 * i" by (elim evenE)
  have p: "0 \<le> i" "\<bar>i\<bar> \<le> 2 ^ 53" using assms i by auto
  have dig: "\<forall>c \<in> set (str_int i). is_digit c" using p str_int_nonneg_digits by blast
  have "parse_rank (''top-'' @ str_int i) = Some (rnd (of_int i))"
    using parse_rank_top [of "str_int i"] dig py_float_fraction(2) [of "str_int i" "[]"] p
    by (simp add: str_int_digits_nat)
  then show ?thesis using is_double_rnd [OF is_double_int [OF p(2)]] i
    by (simp add: format_average_rank_int)
next
  case False
  define k where "k = m div 2"
  have m: "m = 2 * k + 1" using False by (simp add: k_def)
  have k: "0 \<le> k" "2 * k + 1 \<le> 2 ^ 53" using assms m by auto
  have dig: "\<forall>c \<in> set (str_int k). is_digit c" using k str_int_nonneg_digits by blast
  have five: "is_digit CHR ''5''" "digits_nat ''5'' = 5" by code_simp+
  have val: "(of_nat (digits_nat (str_int k @ ''5'')) * 10 powi (- int (length ''5'')) :: rat) = of_int m / 2"
    using str_int_digits_nat [OF k(1)] five(2) m
    by (simp add: digits_nat_append power_int_minus field_simps)
  have "py_float (str_int k @ ''.5'') = Some (rnd (of_int m / 2))"
    using py_float_fraction(1) [of "str_int k" "''5''"] dig five(1) unfolding val by simp
  moreover have "parse_rank (''top-'' @ str_int k @ ''.5'') = py_float (str_int k @ ''.5'')"
    using dig five(1) by (intro parse_rank_top) auto
  moreover have "rnd (of_int m / 2) = Fin (of_int m / 2)"
    using assms by (intro is_double_rnd is_double_half) auto
  ultimately show ?thesis
    using format_average_rank_half [OF k] by (simp only: m [symmetric]) 
qed

text \<open>The average rank of a tie of consecutive ranks, twice its value being the integer printed.\<close>

interpretation rank_text: codec "\<lambda>m. ''top-'' @ format_average_rank (of_int m / 2)"
    "\<lambda>t. case parse_rank t of Some (Fin q) \<Rightarrow> Some \<lfloor>2 * q\<rfloor> | _ \<Rightarrow> None"
    "\<lambda>m. 0 \<le> m \<and> m \<le> 2 ^ 53"
proof unfold_locales
  fix m :: int assume "0 \<le> m \<and> m \<le> 2 ^ 53"
  then have "parse_rank (''top-'' @ format_average_rank (of_int m / 2)) = Some (Fin (of_int m / 2))"
    by (intro parse_rank_format_half) simp_all
  moreover have "\<lfloor>2 * (of_int m / 2 :: rat)\<rfloor> = m" by simp
  ultimately show "(case parse_rank (''top-'' @ format_average_rank (of_int m / 2)) of
      Some (Fin q) \<Rightarrow> Some \<lfloor>2 * q\<rfloor> | _ \<Rightarrow> None) = Some m" by simp
qed

section \<open>What \<open>find_bug_rank\<close> computes\<close>

definition tie_run :: "ranked_block list \<Rightarrow> ranked_block \<Rightarrow> ranked_block list" where
  "tie_run xs b = the (find (\<lambda>g. b \<in> set g) (runs block_sus_key (sort_key rank xs)))"

definition bug_rank_spec :: "ranked_block list \<Rightarrow> (ranked_block \<Rightarrow> bool) \<Rightarrow> string \<times> string" where
  "bug_rank_spec xs hit =
     (let n = int (length xs) in
      if length (runs block_sus_key (sort_key rank xs)) \<le> 1 then over_top n
      else case find hit (sort_key rank xs) of
        None \<Rightarrow> over_top n
      | Some b \<Rightarrow>
          if block_sus_key b = block_sus_key (first_max rank xs)
          then (if rank b = n then (''top-'' @ str_int n, sus b) else over_top n)
          else (''top-'' @ format_average_rank (mean_rank rank (tie_run xs b)), sus b))"

text \<open>The evaluation of the block test is total on these entries, with the outcome \<open>hit\<close>.\<close>

definition bug_test ::
  "jobj \<Rightarrow> block_map \<Rightarrow> int \<Rightarrow> ranked_block list \<Rightarrow> (ranked_block \<Rightarrow> bool) \<Rightarrow> bool" where
  "bug_test bug_info m window xs hit \<longleftrightarrow>
     (\<exists>ml mn sn ls. map_of bug_info ''modify_line'' = Some ml
        \<and> map_of bug_info ''module_name'' = Some mn \<and> map_of bug_info ''scope_name'' = Some sn
        \<and> line_set_with_window ml window = Ok ls
        \<and> (\<forall>b \<in> set xs. is_bug_block b m (py_str mn) (py_str sn) ls = Ok (hit b)))"

definition verdict :: "int \<Rightarrow> bool \<Rightarrow> rat \<Rightarrow> ranked_block \<Rightarrow> string \<times> string" where
  "verdict n reaches a b =
     (if reaches \<and> rank b \<noteq> n then over_top n else if reaches then (''top-'' @ str_int n, sus b)
      else (''top-'' @ format_average_rank a, sus b))"

lemma scan_group_find:
  assumes "map_of bi ''module_name'' = Some mn" "map_of bi ''scope_name'' = Some sn"
    and "\<forall>b \<in> set g. is_bug_block b m (py_str mn) (py_str sn) ls = Ok (hit b)"
  shows "scan_group bi m ls n reaches a g = Ok (map_option (verdict n reaches a) (find hit g))"
  using assms(3) by (induction g) (auto simp: jindex_def assms(1,2) verdict_def)

lemma scan_groups_find:
  assumes "map_of bi ''module_name'' = Some mn" "map_of bi ''scope_name'' = Some sn"
    and "\<forall>b \<in> set (concat rs). is_bug_block b m (py_str mn) (py_str sn) ls = Ok (hit b)"
    and "[] \<notin> set rs" "\<forall>b \<in> set (concat rs). plain_sus (sus b)" "plain_sus s"
  shows "scan_groups bi m ls n (suspiciousness_key s) (map (\<lambda>g. (g, mean_rank rank g)) rs) =
    Ok (case find (list_ex hit) rs of
          None \<Rightarrow> over_top n
        | Some g \<Rightarrow> verdict n (block_sus_key (hd g) = suspiciousness_key s) (mean_rank rank g)
                      (the (find hit g)))"
  using assms(3-5)
proof (induction rs)
  case (Cons g rs)
  have "hd g \<in> set g" using Cons.prems(2) by (cases g) auto
  then have "plain_sus (sus (hd g))" using Cons.prems(3) by auto
  then have k: "key_eq (suspiciousness_key (sus (hd g))) (suspiciousness_key s)
      = Ok (block_sus_key (hd g) = suspiciousness_key s)"
    using key_eq_plain [OF _ assms(6)] by (simp add: block_sus_key_def)
  have hits: "\<forall>b \<in> set g. is_bug_block b m (py_str mn) (py_str sn) ls = Ok (hit b)"
    using Cons.prems(1) by auto
  have sg: "scan_group bi m ls n (block_sus_key (hd g) = suspiciousness_key s) (mean_rank rank g) g =
      Ok (map_option (verdict n (block_sus_key (hd g) = suspiciousness_key s) (mean_rank rank g)) (find hit g))"
    by (rule scan_group_find [OF assms(1,2) hits])
  have ex: "list_ex hit g \<longleftrightarrow> find hit g \<noteq> None"
    by (auto simp: find_None_iff list_ex_iff)
  show ?case
  proof (cases "find hit g")
    case None
    then show ?thesis using k sg ex Cons by auto
  next
    case (Some b)
    then show ?thesis using k sg ex by simp
  qed
qed simp

lemma first_max_mem: "xs \<noteq> [] \<Longrightarrow> first_max f xs \<in> set xs"
proof -
  have "foldl (\<lambda>m x. if f m < f x then x else m) y ys \<in> insert y (set ys)" for y ys
    by (induction ys arbitrary: y) (simp, fastforce)
  then show "xs \<noteq> [] \<Longrightarrow> first_max f xs \<in> set xs"
    by (cases xs) (auto simp: first_max_def)
qed

lemma find_bug_rank_refines:
  assumes plain: "\<forall>b \<in> set xs. plain_sus (sus b)" and test: "bug_test bi m window xs hit"
  shows "find_bug_rank bi xs m window = Ok (bug_rank_spec xs hit)"
proof -
  let ?rs = "runs block_sus_key (sort_key rank xs)" and ?n = "int (length xs)"
  obtain ml mn sn ls where bi: "map_of bi ''modify_line'' = Some ml"
      "map_of bi ''module_name'' = Some mn" "map_of bi ''scope_name'' = Some sn"
      "line_set_with_window ml window = Ok ls"
      "\<forall>b \<in> set xs. is_bug_block b m (py_str mn) (py_str sn) ls = Ok (hit b)"
    using test by (auto simp: bug_test_def)
  have gs: "iter_suspiciousness_tie_groups xs = Ok (map (\<lambda>g. (g, mean_rank rank g)) ?rs)"
    by (rule iter_tie_groups_runs [OF plain])
  have start: "find_bug_rank bi xs m window =
      (if xs \<noteq> [] \<and> length ?rs = 1 then Ok (over_top ?n) else if xs = [] then Ok (over_top 0)
       else scan_groups bi m ls ?n (suspiciousness_key (sus (first_max rank xs))) (map (\<lambda>g. (g, mean_rank rank g)) ?rs))"
    by (simp add: find_bug_rank_def jindex_def bi gs)
  have rs0: "?rs = [] \<longleftrightarrow> xs = []" by (metis length_0_conv length_sort runs_Nil_iff)
  show ?thesis
  proof (cases "length ?rs \<le> 1")
    case True
    then have "xs \<noteq> [] \<longrightarrow> length ?rs = 1" using rs0 by (metis le_neq_implies_less length_0_conv less_one)
    with True show ?thesis unfolding start by (auto simp: bug_rank_spec_def)
  next
    case False
    then have ne: "xs \<noteq> []" "length ?rs \<noteq> 1" using rs0 by auto
    have "plain_sus (sus (first_max rank xs))" using plain first_max_mem [OF ne(1)] by blast
    then have sc: "find_bug_rank bi xs m window =
      Ok (case find (list_ex hit) ?rs of
          None \<Rightarrow> over_top ?n
        | Some g \<Rightarrow> verdict ?n (block_sus_key (hd g) = block_sus_key (first_max rank xs)) (mean_rank rank g)
                      (the (find hit g)))"
      unfolding start block_sus_key_def [of "first_max rank xs"]
      using scan_groups_find [OF bi(2,3), of ?rs m ls hit "sus (first_max rank xs)" ?n]
        bi(5) plain runs_nonempty [of block_sus_key "sort_key rank xs"] ne
      by simp
    show ?thesis
    proof (cases "find (list_ex hit) ?rs")
      case None
      then show ?thesis using False find_concat_None [OF None] by (simp add: sc bug_rank_spec_def)
    next
      case (Some g)
      from find_concat [OF Some] obtain b where b: "find hit (sort_key rank xs) = Some b"
        "find hit g = Some b" "find (\<lambda>h. b \<in> set h) ?rs = Some g" "g \<in> set ?rs" by auto
      then have "b \<in> set g" by (auto simp: find_Some_iff)
      then have "block_sus_key (hd g) = block_sus_key b" using runs_same [OF b(4)] by metis
      then show ?thesis
        using False b by (simp add: sc Some bug_rank_spec_def verdict_def tie_run_def Let_def)
    qed
  qed
qed

lemma parse_rank_str_int:
  assumes "0 \<le> i" "i \<le> 2 ^ 52"
  shows "parse_rank (''top-'' @ str_int i) = Some (Fin (of_int i))"
  using parse_rank_format_half [of "2 * i"] assms by (simp add: format_average_rank_int)

lemma tie_run_consecutive:
  assumes "consecutive 1 (map rank (sort_key rank xs))" "b \<in> set xs"
  shows "\<exists>m. mean_rank rank (tie_run xs b) = of_int m / 2 \<and> 2 \<le> m \<and> m \<le> 2 * int (length xs)"
proof -
  let ?rs = "runs block_sus_key (sort_key rank xs)"
  have "b \<in> set (concat ?rs)" using assms(2) by simp
  then have "\<exists>g \<in> set ?rs. b \<in> set g" unfolding set_concat by blast
  then obtain g where g: "find (\<lambda>h. b \<in> set h) ?rs = Some g"
    by (cases "find (\<lambda>h. b \<in> set h) ?rs") (auto simp: find_None_iff)
  then have m: "g \<in> set ?rs" by (auto simp: find_Some_iff)
  then have ne: "g \<noteq> []" using runs_nonempty by blast
  obtain a where a: "1 \<le> a" "a + int (length g) \<le> 1 + int (length xs)" "consecutive a (map rank g)"
    using runs_consecutive [OF assms(1) m] by auto
  have "1 \<le> int (length g)" using ne by (cases g) auto
  then show ?thesis
    using mean_rank_consecutive [OF ne a(3)] a g
    by (intro exI [of _ "2 * a + int (length g) - 1"]) (auto simp: tie_run_def)
qed

lemma bug_rank_spec_text:
  assumes "consecutive 1 (map rank (sort_key rank xs))" "int (length xs) \<le> 2 ^ 52"
  shows "(parse_rank (fst (bug_rank_spec xs hit)) = None \<and> snd (bug_rank_spec xs hit) = [])
    \<or> (\<exists>r b. b \<in> set xs \<and> hit b \<and> snd (bug_rank_spec xs hit) = sus b
         \<and> parse_rank (fst (bug_rank_spec xs hit)) = Some (Fin r) \<and> 1 \<le> r \<and> r \<le> of_int (int (length xs)))"
proof -
  let ?n = "int (length xs)"
  have over: "parse_rank (fst (over_top ?n)) = None \<and> snd (over_top ?n) = []"
    unfolding over_top_def fst_conv snd_conv by (simp only: parse_rank_over)
  show ?thesis
  proof (cases "\<exists>b. find hit (sort_key rank xs) = Some b \<and> bug_rank_spec xs hit \<noteq> over_top ?n")
    case False
    then have "bug_rank_spec xs hit = over_top ?n"
      by (auto simp: bug_rank_spec_def Let_def split: option.splits)
    then show ?thesis using over by simp
  next
    case True
    then obtain b where b: "find hit (sort_key rank xs) = Some b" "bug_rank_spec xs hit \<noteq> over_top ?n" by blast
    have mem: "b \<in> set xs" and hit: "hit b" using b(1)
      by (auto simp: find_Some_iff) (metis nth_mem length_sort set_sort)
    obtain m where m: "mean_rank rank (tie_run xs b) = of_int m / 2" "2 \<le> m" "m \<le> 2 * ?n"
      using tie_run_consecutive [OF assms(1) mem] by blast
    have n: "1 \<le> ?n" using mem by (cases xs) auto
    from b consider "bug_rank_spec xs hit = (''top-'' @ str_int ?n, sus b)"
      | "bug_rank_spec xs hit = (''top-'' @ format_average_rank (of_int m / 2), sus b)"
      by (simp add: bug_rank_spec_def m(1) Let_def split: if_splits)
    then show ?thesis
    proof cases
      case 1
      have "parse_rank (fst (bug_rank_spec xs hit)) = Some (Fin (of_int ?n))"
        unfolding 1 fst_conv using assms(2) by (intro parse_rank_str_int) simp_all
      with 1 n mem hit show ?thesis by (intro disjI2 exI [of _ "of_int ?n"] exI [of _ b]) simp
    next
      case 2
      have "parse_rank (fst (bug_rank_spec xs hit)) = Some (Fin (of_int m / 2))"
        unfolding 2 fst_conv using m assms(2) by (intro parse_rank_format_half) simp_all
      moreover have "1 \<le> (of_int m / 2 :: rat)" using m(2) by simp
      moreover have "(of_int m :: rat) \<le> of_int (2 * ?n)" using m(3) by (simp only: of_int_le_iff)
      ultimately show ?thesis using 2 mem hit
        by (intro disjI2 exI [of _ "of_int m / 2"] exI [of _ b]) simp
    qed
  qed
qed

section \<open>Reranked results\<close>

text \<open>A ranking entry with its fields in their normal form, as \<open>load_rerank_result\<close> leaves it.\<close>

definition average_spec :: "(score_key \<times> int) list \<Rightarrow> score_key \<Rightarrow> rat" where
  "average_spec keyed k = mean_rank snd (filter (\<lambda>x. fst x = k) keyed)"

lemma map_of_average_ranks:
  assumes "distinct (map snd keyed)" "(k, r) \<in> set keyed"
  shows "map_of (average_ranks keyed) r = Some (average_spec keyed k)"
proof -
  let ?kvs = "concat (map (\<lambda>(k, members). map (\<lambda>m. (snd m, mean_rank snd members)) members)
                (group_by fst keyed))"
  have mem: "(r', a) \<in> set ?kvs \<longleftrightarrow> (\<exists>k'. (k', r') \<in> set keyed \<and> a = average_spec keyed k')" for r' a
  proof -
    have "(r', a) \<in> set ?kvs \<longleftrightarrow> (\<exists>k' ms m. (k', ms) \<in> set (group_by fst keyed) \<and> m \<in> set ms
        \<and> r' = snd m \<and> a = mean_rank snd ms)"
      by (simp only: set_concat set_map UN_iff image_iff bex_simps split_paired_Ex split_beta) force
    also have "\<dots> \<longleftrightarrow> (\<exists>m. m \<in> set keyed \<and> r' = snd m \<and> a = average_spec keyed (fst m))"
      unfolding group_by_mem average_spec_def by (auto simp: filter_empty_conv)
    finally show ?thesis by auto
  qed
  have uniq_key: "k' = k" if "(k', r) \<in> set keyed" for k'
  proof -
    from that obtain i where i: "i < length keyed" "keyed ! i = (k', r)" by (auto simp: in_set_conv_nth)
    from assms(2) obtain j where j: "j < length keyed" "keyed ! j = (k, r)" by (auto simp: in_set_conv_nth)
    have "map snd keyed ! i = map snd keyed ! j" using i j by simp
    then have "i = j" using assms(1) i(1) j(1) by (metis length_map nth_eq_iff_index_eq)
    with i j show ?thesis by simp
  qed
  have ex: "(r, average_spec keyed k) \<in> set (rev ?kvs)"
    unfolding set_rev mem using assms(2) by blast
  have un: "a = average_spec keyed k" if "(r, a) \<in> set (rev ?kvs)" for a
    using that uniq_key unfolding set_rev mem by blast
  obtain a where a: "map_of (rev ?kvs) r = Some a"
    using weak_map_of_SomeI [OF ex] by blast
  then have "a = average_spec keyed k" by (intro un map_of_SomeD)
  with a show ?thesis unfolding average_ranks_def dict_of_def map_of_dict_update
    by (simp only: map_of.simps map_add_Some_iff) simp
qed

section \<open>Properties\<close>

definition sample_blocks :: "ranked_block list" where
  "sample_blocks =
     [\<lparr>rank = 1, scope = ''top.a'', bid = 7, sus = ''1''\<rparr>,
      \<lparr>rank = 2, scope = ''top.a'', bid = 8, sus = ''0.5''\<rparr>,
      \<lparr>rank = 3, scope = ''top.b'', bid = 1, sus = ''0.50''\<rparr>,
      \<lparr>rank = 4, scope = ''top.b'', bid = 2, sus = ''0.5''\<rparr>,
      \<lparr>rank = 5, scope = ''top.c'', bid = 2, sus = ''0''\<rparr>]"

definition sample_bug_info :: jobj where
  "sample_bug_info = [(''module_name'', JStr ''m''), (''scope_name'', JStr ''top.b''),
     (''modify_line'', JArr [JInt 12])]"

definition sample_block_map :: block_map where
  "sample_block_map = [((''top.b'', 1), [(''scope'', JStr ''top.b''), (''module'', JStr ''m''),
     (''lines'', JArr [JInt 11, JInt 13])])]"

definition sample_hit :: "ranked_block \<Rightarrow> bool" where
  "sample_hit b \<longleftrightarrow> rank b = 3"

lemma sample_plain: "\<forall>b \<in> set sample_blocks. plain_sus (sus b)"
  by code_simp

lemma sample_test: "bug_test sample_bug_info sample_block_map 1 sample_blocks sample_hit"
proof -
  have "line_set_with_window (JArr [JInt 12]) 1 = Ok [11, 12, 13]" by code_simp
  moreover have "\<forall>b \<in> set sample_blocks. is_bug_block b sample_block_map (py_str (JStr ''m''))
      (py_str (JStr ''top.b'')) [11, 12, 13] = Ok (sample_hit b)" by code_simp
  ultimately show ?thesis unfolding bug_test_def sample_bug_info_def by auto
qed

lemma sample_consecutive: "consecutive 1 (map rank (sort_key rank sample_blocks))"
  by code_simp

text \<open>The loop over suspiciousness ties never fails on plain suspiciousness values, and
  returns the entries in rank order, cut where the suspiciousness changes: every group is
  non-empty, has one suspiciousness value and the mean of its ranks, and two neighbouring groups
  differ.\<close>

theorem iter_suspiciousness_tie_groups_spec:
  assumes "\<forall>b \<in> set xs. plain_sus (sus b)"
  shows "\<exists>gs. iter_suspiciousness_tie_groups xs = Ok gs
    \<and> concat (map fst gs) = sort_key rank xs
    \<and> (\<forall>(g, a) \<in> set gs. g \<noteq> [] \<and> a = mean_rank rank g \<and> (\<forall>b \<in> set g. block_sus_key b = block_sus_key (hd g)))
    \<and> successively (\<lambda>g h. block_sus_key (hd (fst g)) \<noteq> block_sus_key (hd (fst h))) gs"
proof -
  let ?rs = "runs block_sus_key (sort_key rank xs)" and ?f = "\<lambda>g. (g, mean_rank rank g)"
  have "successively (\<lambda>g h. block_sus_key (hd (fst g)) \<noteq> block_sus_key (hd (fst h))) (map ?f ?rs)"
    using runs_adjacent [of block_sus_key "sort_key rank xs"] by (simp add: successively_map)
  moreover have "concat (map fst (map ?f ?rs)) = sort_key rank xs" by (simp add: o_def)
  moreover have "\<forall>(g, a) \<in> set (map ?f ?rs). g \<noteq> [] \<and> a = mean_rank rank g
      \<and> (\<forall>b \<in> set g. block_sus_key b = block_sus_key (hd g))"
    using runs_nonempty [of block_sus_key "sort_key rank xs"] runs_same [of _ block_sus_key "sort_key rank xs"]
    by auto
  ultimately show ?thesis using iter_tie_groups_runs [OF assms] by blast
qed

text \<open>C1: \<open>find_bug_rank\<close> computes its specification. With all suspiciousness values tied
  there is no rank; otherwise the first faulty block in rank order decides: inside the tie that
  reaches the end of the log it counts only at the very last rank, and elsewhere its rank is the
  mean rank of its tie.\<close>

theorem find_bug_rank_spec:
  assumes "\<forall>b \<in> set xs. plain_sus (sus b)" and "bug_test bug_info m window xs hit"
  shows "find_bug_rank bug_info xs m window = Ok (bug_rank_spec xs hit)"
  using assms by (rule find_bug_rank_refines)

theorem find_bug_rank_spec_witness:
  "find_bug_rank sample_bug_info sample_blocks sample_block_map 1 = Ok (''top-3'', ''0.50'')
   \<and> bug_rank_spec sample_blocks sample_hit = (''top-3'', ''0.50'')"
proof -
  have "find_bug_rank sample_bug_info sample_blocks sample_block_map 1 = Ok (''top-3'', ''0.50'')"
    by code_simp
  then show ?thesis using find_bug_rank_spec [OF sample_plain sample_test] by simp
qed

text \<open>On a log with the ranks 1 to \<open>n\<close>, the text \<open>find_bug_rank\<close> returns either
  reads back as no rank, with an empty suspiciousness, or reads back as a number between 1 and
  \<open>n\<close>, with the suspiciousness of a faulty block of the log.\<close>

theorem find_bug_rank_text:
  assumes "\<forall>b \<in> set xs. plain_sus (sus b)" and "bug_test bug_info m window xs hit"
    and "consecutive 1 (map rank (sort_key rank xs))" and "int (length xs) \<le> 2 ^ 52"
  shows "\<exists>t s. find_bug_rank bug_info xs m window = Ok (t, s)
    \<and> ((parse_rank t = None \<and> s = [])
       \<or> (\<exists>r b. b \<in> set xs \<and> hit b \<and> s = sus b \<and> parse_rank t = Some (Fin r)
            \<and> 1 \<le> r \<and> r \<le> of_int (int (length xs))))"
  using find_bug_rank_refines [OF assms(1,2)] bug_rank_spec_text [OF assms(3,4), of hit]
  by (metis prod.collapse)

text \<open>Every rank the tools print for a tie of consecutive ranks, a multiple of one
  half, is read back exactly by \<open>parse_rank\<close>.\<close>

theorem parse_rank_format_average_rank:
  assumes "0 \<le> k" and "k \<le> 2 ^ 53"
  shows "parse_rank (''top-'' @ format_average_rank (of_int k / 2)) = Some (Fin (of_int k / 2))"
  using assms by (rule parse_rank_format_half)

end
