(* ===== verification/Result_IO.thy ===== *)
theory Result_IO
  imports Bug_Rank
begin

text \<open>
  \<open>ibex_sbfl_common/result_io.py\<close>: \<open>load_rerank_result\<close> reads a rerank result file,
  normalizes its rankings and checks them. Every rejected file is a \<open>SummaryError\<close>; the
  exceptions \<open>int\<close> raises that the code does not catch (the overflow of an infinite JSON
  number) escape as they do in Python.
\<close>

section \<open>Model\<close>

definition ranking_fields :: "string list" where
  "ranking_fields = [''candidate_id'', ''module'', ''scope'', ''bid'', ''lines'', ''reranked_rank'']"

definition is_number_error :: "exn \<Rightarrow> bool" where
  "is_number_error e \<longleftrightarrow> e = TypeError \<or> is_value_error e"

text \<open>The body of the loop over the rankings: the sets of seen identifiers and ranks, and the
  normalized items so far.\<close>

type_synonym rank_state = "string list \<times> int list \<times> jobj list"

definition normalize_ranking :: "rank_state \<Rightarrow> json \<Rightarrow> rank_state res" where
  "normalize_ranking st raw =
     (case (st, raw) of
        ((seen_ids, seen_ranks, normalized), JObj raw) \<Rightarrow>
          if \<not> list_all (\<lambda>f. map_of raw f \<noteq> None) ranking_fields then Err SummaryError
          else (case map_of raw ''lines'' of
            Some (JArr ls) \<Rightarrow>
              rbind (rcatch is_number_error SummaryError
                 (rbind (to_int (the (map_of raw ''reranked_rank''))) (\<lambda>reranked_rank.
                  rbind (to_int (the (map_of raw ''bid''))) (\<lambda>bid.
                  rbind (rmapM to_int ls) (\<lambda>lines. Ok (reranked_rank, bid, sorted_set lines))))))
                (\<lambda>(reranked_rank, bid, lines).
                   let candidate_id = py_str (the (map_of raw ''candidate_id''))
                   in if candidate_id = [] \<or> candidate_id \<in> set seen_ids \<or> reranked_rank \<in> set seen_ranks
                      then Err SummaryError
                      else Ok (candidate_id # seen_ids, reranked_rank # seen_ranks, normalized @
                        [dict_update raw
                          [(''candidate_id'', JStr candidate_id),
                           (''module'', JStr (py_str (the (map_of raw ''module'')))),
                           (''scope'', JStr (py_str (the (map_of raw ''scope'')))),
                           (''bid'', JInt bid),
                           (''lines'', JArr (map JInt lines)),
                           (''reranked_rank'', JInt reranked_rank)]]))
          | _ \<Rightarrow> Err SummaryError)
      | _ \<Rightarrow> Err SummaryError)"

text \<open>The normalized rank of an item.\<close>

definition norm_rank :: "jobj \<Rightarrow> int" where
  "norm_rank item = (case map_of item ''reranked_rank'' of Some (JInt i) \<Rightarrow> i | _ \<Rightarrow> 0)"

text \<open>\<open>value.get("top_k", value.get("config", {}).get("top_k", len(normalized)))\<close>: the default
  is evaluated first.\<close>

definition read_top_k :: "jobj \<Rightarrow> nat \<Rightarrow> int res" where
  "read_top_k value n =
     rbind (jget (dict_get value ''config'' (JObj [])) ''top_k'' (JInt (int n)))
       (\<lambda>d. rcatch is_number_error SummaryError (to_int (dict_get value ''top_k'' d)))"

definition check_rerank_result :: "json \<Rightarrow> jobj res" where
  "check_rerank_result v =
     (case v of
        JObj value \<Rightarrow>
          (case map_of value ''rankings'' of
             Some (JArr (r # rs)) \<Rightarrow>
               rbind (rfoldM normalize_ranking ([], [], []) (r # rs)) (\<lambda>(_, _, normalized).
                 let items = sort_key norm_rank normalized;
                     n = length items
                 in if map norm_rank items \<noteq> map int [1..<Suc n] then Err SummaryError
                    else rbind (read_top_k value n) (\<lambda>top_k.
                      if top_k \<noteq> int n then Err SummaryError
                      else Ok (dict_update value
                             [(''rankings'', JArr (map JObj items)), (''top_k'', JInt top_k)])))
           | _ \<Rightarrow> Err SummaryError)
      | _ \<Rightarrow> Err SummaryError)"

definition load_rerank_result :: "decoder \<Rightarrow> fs \<Rightarrow> path \<Rightarrow> jobj res" where
  "load_rerank_result loads fs p =
     rbind (read_text fs p) (\<lambda>text.
       case loads text of None \<Rightarrow> Err SummaryError | Some v \<Rightarrow> check_rerank_result v)"

section \<open>The invariant of a loaded result\<close>

text \<open>A normalized ranking: its identity and numbers have their types, its lines are sorted and
  without repetition.\<close>

definition wf_ranking :: "jobj \<Rightarrow> bool" where
  "wf_ranking item \<longleftrightarrow>
     (\<exists>c m s b ls r. map_of item ''candidate_id'' = Some (JStr c) \<and> c \<noteq> []
        \<and> map_of item ''module'' = Some (JStr m) \<and> map_of item ''scope'' = Some (JStr s)
        \<and> map_of item ''bid'' = Some (JInt b) \<and> map_of item ''lines'' = Some (JArr (map JInt ls))
        \<and> sorted ls \<and> distinct ls \<and> map_of item ''reranked_rank'' = Some (JInt r))"

definition cand_id :: "jobj \<Rightarrow> string" where
  "cand_id item = (case map_of item ''candidate_id'' of Some (JStr c) \<Rightarrow> c | _ \<Rightarrow> [])"

definition rank_inv :: "rank_state \<Rightarrow> bool" where
  "rank_inv st \<longleftrightarrow> (case st of (ids, ranks, items) \<Rightarrow>
     (\<forall>x \<in> set items. wf_ranking x) \<and> distinct (map cand_id items) \<and> distinct (map norm_rank items)
     \<and> set (map cand_id items) = set ids \<and> set (map norm_rank items) = set ranks)"

lemma map_of_dict_update_last:
  "map_of (dict_update d kvs) k = (case map_of (rev kvs) k of Some v \<Rightarrow> Some v | None \<Rightarrow> map_of d k)"
  by (simp add: map_of_dict_update map_add_def)

lemma normalize_ranking_Ok:
  assumes "normalize_ranking (ids, ranks, items) raw = Inr st'"
  obtains d c r x where "raw = JObj d" "c \<noteq> []" "c \<notin> set ids" "r \<notin> set ranks"
    "st' = (c # ids, r # ranks, items @ [x])" "wf_ranking x" "cand_id x = c" "norm_rank x = r"
    "\<And>k. k \<notin> set ranking_fields \<Longrightarrow> map_of x k = map_of d k"
proof -
  obtain d where d: "raw = JObj d" using assms by (cases raw) (auto simp: normalize_ranking_def)
  obtain ls where ls: "map_of d ''lines'' = Some (JArr ls)"
    using assms by (auto simp: normalize_ranking_def d split: if_splits option.splits json.splits)
  from assms obtain r b lines where num: "rmapM to_int ls = Inr lines"
      and st': "st' = (py_str (the (map_of d ''candidate_id'')) # ids, r # ranks, items @
                        [dict_update d
                          [(''candidate_id'', JStr (py_str (the (map_of d ''candidate_id'')))),
                           (''module'', JStr (py_str (the (map_of d ''module'')))),
                           (''scope'', JStr (py_str (the (map_of d ''scope'')))),
                           (''bid'', JInt b),
                           (''lines'', JArr (map JInt (sorted_set lines))),
                           (''reranked_rank'', JInt r)]])"
      and fresh: "py_str (the (map_of d ''candidate_id'')) \<noteq> []"
        "py_str (the (map_of d ''candidate_id'')) \<notin> set ids" "r \<notin> set ranks"
    by (auto simp: normalize_ranking_def d ls Let_def rbind_eq_Ok split: if_splits)
  show ?thesis
  proof (rule that [OF d fresh st'])
    show "wf_ranking (dict_update d
                          [(''candidate_id'', JStr (py_str (the (map_of d ''candidate_id'')))),
                           (''module'', JStr (py_str (the (map_of d ''module'')))),
                           (''scope'', JStr (py_str (the (map_of d ''scope'')))),
                           (''bid'', JInt b),
                           (''lines'', JArr (map JInt (sorted_set lines))),
                           (''reranked_rank'', JInt r)])"
      unfolding wf_ranking_def map_of_dict_update_last
      using fresh(1) by (auto intro!: exI [of _ "sorted_set lines"])
  qed (auto simp: cand_id_def norm_rank_def map_of_dict_update_last ranking_fields_def)
qed

lemma rank_inv_step:
  assumes "rank_inv st" "normalize_ranking st raw = Inr st'"
  shows "rank_inv st'"
proof -
  obtain ids ranks items where st: "st = (ids, ranks, items)" by (cases st)
  show ?thesis
    using assms(2) unfolding st
    by (rule normalize_ranking_Ok) (use assms(1) in \<open>auto simp: rank_inv_def st\<close>)
qed

lemma rank_inv_fold: "rfoldM normalize_ranking ([], [], []) rs = Inr st \<Longrightarrow> rank_inv st"
proof (rule rfoldM_invariant [where P = rank_inv])
  show "rank_inv ([], [], [])" by (simp add: rank_inv_def)
qed (auto intro: rank_inv_step)

lemma normalize_length:
  "rfoldM normalize_ranking (ids, ranks, items) rs = Inr (ids', ranks', items') \<Longrightarrow>
   length items' = length items + length rs"
proof (induction rs arbitrary: ids ranks items)
  case (Cons r rs)
  then obtain st where st: "normalize_ranking (ids, ranks, items) r = Inr st"
    "rfoldM normalize_ranking st rs = Inr (ids', ranks', items')" by (auto simp: rbind_eq_Ok)
  from st(1) show ?case
    by (rule normalize_ranking_Ok) (use Cons.IH st(2) in auto)
qed simp

definition wf_result :: "jobj \<Rightarrow> bool" where
  "wf_result v \<longleftrightarrow>
     (\<exists>items. map_of v ''rankings'' = Some (JArr (map JObj items)) \<and> items \<noteq> []
        \<and> map_of v ''top_k'' = Some (JInt (int (length items)))
        \<and> (\<forall>x \<in> set items. wf_ranking x) \<and> distinct (map cand_id items)
        \<and> map norm_rank items = map int [1..<Suc (length items)])"

lemma check_rerank_result_Ok:
  assumes "check_rerank_result v = Ok out"
  shows "wf_result out"
proof -
  obtain d r rs where v: "v = JObj d" "map_of d ''rankings'' = Some (JArr (r # rs))"
    using assms by (auto simp: check_rerank_result_def split: json.splits option.splits list.splits)
  obtain ids ranks items where f: "rfoldM normalize_ranking ([], [], []) (r # rs) = Inr (ids, ranks, items)"
    and c: "map norm_rank (sort_key norm_rank items) = map int [1..<Suc (length items)]"
    and out: "out = dict_update d [(''rankings'', JArr (map JObj (sort_key norm_rank items))),
        (''top_k'', JInt (int (length items)))]"
    using assms by (auto simp: check_rerank_result_def v rbind_eq_Ok Let_def split: if_splits simp del: rfoldM.simps upt_Suc)
  have inv: "rank_inv (ids, ranks, items)" by (rule rank_inv_fold [OF f])
  have "length items = Suc (length rs)" using normalize_length [OF f] by simp
  then have "sort_key norm_rank items \<noteq> []" by (metis length_0_conv length_sort nat.distinct(1))
  moreover have "distinct (map cand_id (sort_key norm_rank items))"
    using inv by (metis (no_types, lifting) case_prod_conv distinct_map mset_sort rank_inv_def set_sort distinct_sort)
  ultimately show ?thesis
    unfolding wf_result_def out
    using inv c by (intro exI [of _ "sort_key norm_rank items"])
      (auto simp: map_of_dict_update_last rank_inv_def simp del: upt_Suc)
qed

section \<open>The faulty block in a loaded result\<close>

definition wf_items :: "jobj list \<Rightarrow> bool" where
  "wf_items items \<longleftrightarrow> (\<forall>x \<in> set items. wf_ranking x) \<and> map norm_rank items = map int [1..<Suc (length items)]"

definition item_lines :: "jobj \<Rightarrow> int list" where
  "item_lines x = (case map_of x ''lines'' of Some (JArr vs) \<Rightarrow> (case rmapM to_int vs of Inr ls \<Rightarrow> ls | _ \<Rightarrow> []) | _ \<Rightarrow> [])"

definition ranking_hit :: "string \<Rightarrow> string \<Rightarrow> int list \<Rightarrow> jobj \<Rightarrow> bool" where
  "ranking_hit mn sn target x \<longleftrightarrow>
     map_of x ''module'' = Some (JStr mn) \<and> map_of x ''scope'' = Some (JStr sn)
     \<and> (\<exists>l \<in> set (item_lines x). l \<in> set target)"

lemma item_rank_wf: "wf_ranking x \<Longrightarrow> item_rank x = Ok (norm_rank x)"
  by (auto simp: wf_ranking_def item_rank_def jindex_def norm_rank_def)

lemma order_rankings_wf:
  assumes "wf_items items"
  shows "order_rankings items = Ok (zip (map norm_rank items) items)"
proof -
  have "rmapM item_rank items = Ok (map norm_rank items)"
    using assms by (intro rmapM_total) (auto simp: wf_items_def item_rank_wf)
  moreover have "sorted (map fst (zip (map norm_rank items) items))"
    using assms by (simp add: wf_items_def sorted_map del: upt_Suc)
  ultimately show ?thesis by (simp add: order_rankings_def sort_key_id_if_sorted)
qed

lemma scan_rankings_find:
  assumes "\<forall>(r, x) \<in> set ordered. wf_ranking x \<and> r = norm_rank x"
    and "map_of bi ''module_name'' = Some mn" "map_of bi ''scope_name'' = Some sn"
    and "\<forall>(r, x) \<in> set ordered. map_of averages r = Some (avg x)"
  shows "scan_rankings bi target averages ordered =
    Ok (map_option (\<lambda>x. (''top-'' @ format_average_rank (avg x), x))
          (find (ranking_hit (py_str mn) (py_str sn) target) (map snd ordered)))"
  using assms(1,4)
proof (induction ordered)
  case (Cons rx ordered)
  obtain r x where rx: "rx = (r, x)" by (cases rx)
  then obtain m s ls where x: "map_of x ''module'' = Some (JStr m)" "map_of x ''scope'' = Some (JStr s)"
      "map_of x ''lines'' = Some (JArr (map JInt ls))"
    using Cons.prems(1) by (auto simp: wf_ranking_def)
  have hit: "ranking_hit (py_str mn) (py_str sn) target x \<longleftrightarrow>
      m = py_str mn \<and> s = py_str sn \<and> list_ex (\<lambda>l. l \<in> set target) ls"
    by (auto simp: ranking_hit_def x item_lines_def list_ex_iff)
  have IH: "scan_rankings bi target averages ordered =
    Ok (map_option (\<lambda>x. (''top-'' @ format_average_rank (avg x), x))
          (find (ranking_hit (py_str mn) (py_str sn) target) (map snd ordered)))"
    using Cons by auto
  have a: "map_of averages r = Some (avg x)" using Cons.prems(2) rx by auto
  show ?case
    by (simp add: rx jindex_def assms(2,3) dict_get_def x hit a IH)
qed simp

lemma keyed_zip:
  assumes "\<forall>i < length items. score_key_of i (items ! i) = Ok (key (items ! i))"
  shows "rmapM (\<lambda>(i, r, item). rbind (score_key_of i item) (\<lambda>k. Ok (k, r)))
      (zip [0..<length (zip (map norm_rank items) items)] (zip (map norm_rank items) items))
    = Ok (map (\<lambda>x. (key x, norm_rank x)) items)"
proof -
  let ?z = "zip [0..<length (zip (map norm_rank items) items)] (zip (map norm_rank items) items)"
  have "rmapM (\<lambda>(i, r, item). rbind (score_key_of i item) (\<lambda>k. Ok (k, r))) ?z
      = Ok (map (\<lambda>(i, r, item). (key item, r)) ?z)"
    using assms by (intro rmapM_total) (auto simp: set_zip)
  moreover have "map (\<lambda>(i, r, item). (key item, r)) ?z = map (\<lambda>x. (key x, norm_rank x)) items"
    by (rule nth_equalityI) auto
  ultimately show ?thesis by simp
qed

text \<open>Every item has a score key of its own: an absent score is its rank, a score text its
  number; a NaN equals only itself, so it has no key of this form.\<close>

definition score_keyed :: "(jobj \<Rightarrow> score_key) \<Rightarrow> jobj list \<Rightarrow> bool" where
  "score_keyed key items \<longleftrightarrow> (\<forall>i < length items. score_key_of i (items ! i) = Ok (key (items ! i)))"

lemma find_reranked_bug_rank_refines:
  assumes wf: "wf_items items" and keys: "score_keyed key items"
    and bi: "map_of bi ''module_name'' = Some mn" "map_of bi ''scope_name'' = Some sn"
      "map_of bi ''modify_line'' = Some ml" "line_set_with_window ml window = Ok target"
  shows "find_reranked_bug_rank bi items window =
    Ok (case find (ranking_hit (py_str mn) (py_str sn) target) items of
          None \<Rightarrow> (''over top-'' @ str_int (int (length items)), None)
        | Some x \<Rightarrow> (''top-'' @ format_average_rank
                       (mean_rank norm_rank (filter (\<lambda>y. key y = key x) items)), Some x))"
proof -
  let ?ord = "zip (map norm_rank items) items" and ?keyed = "map (\<lambda>x. (key x, norm_rank x)) items"
  let ?avg = "\<lambda>x. mean_rank norm_rank (filter (\<lambda>y. key y = key x) items)"
  have avg: "average_spec ?keyed (key x) = ?avg x" for x
    by (simp add: average_spec_def mean_rank_def filter_map o_def)
  have "distinct (map snd ?keyed)"
    using wf by (simp add: wf_items_def o_def distinct_map del: upt_Suc)
  then have "map_of (average_ranks ?keyed) (norm_rank x) = Some (?avg x)" if "x \<in> set items" for x
    using map_of_average_ranks [of ?keyed "key x" "norm_rank x"] that by (simp add: avg)
  then have "\<forall>(r, x) \<in> set ?ord. map_of (average_ranks ?keyed) r = Some (?avg x)"
    by (auto simp: set_zip)
  moreover have "\<forall>x \<in> set items. wf_ranking x" using wf by (simp add: wf_items_def)
  then have "\<forall>(r, x) \<in> set ?ord. wf_ranking x \<and> r = norm_rank x" by (auto simp: set_zip)
  ultimately have "scan_rankings bi target (average_ranks ?keyed) ?ord =
      Ok (map_option (\<lambda>x. (''top-'' @ format_average_rank (?avg x), x))
          (find (ranking_hit (py_str mn) (py_str sn) target) items))"
    using scan_rankings_find [OF _ bi(1,2), of ?ord "average_ranks ?keyed" ?avg target] by simp
  moreover note keyed_zip [OF keys [unfolded score_keyed_def]] order_rankings_wf [OF wf]
  ultimately show ?thesis
    by (simp add: find_reranked_bug_rank_def jindex_def bi split: option.splits)
qed

section \<open>A normalized result is accepted as it is\<close>

lemma AList_update_same: "map_of d k = Some v \<Longrightarrow> AList.update k v d = d"
  by (induction d) auto

lemma dict_update_same: "\<forall>(k, v) \<in> set kvs. map_of d k = Some v \<Longrightarrow> dict_update d kvs = d"
  by (induction kvs) (auto simp: dict_update_def AList_update_same)

lemma normalize_ranking_wf:
  assumes "wf_ranking x" "cand_id x \<notin> set ids" "norm_rank x \<notin> set ranks"
  shows "normalize_ranking (ids, ranks, items) (JObj x) =
    Ok (cand_id x # ids, norm_rank x # ranks, items @ [x])"
proof -
  obtain c m s b ls r where x: "map_of x ''candidate_id'' = Some (JStr c)" "c \<noteq> []"
      "map_of x ''module'' = Some (JStr m)" "map_of x ''scope'' = Some (JStr s)"
      "map_of x ''bid'' = Some (JInt b)" "map_of x ''lines'' = Some (JArr (map JInt ls))"
      "sorted ls" "distinct ls" "map_of x ''reranked_rank'' = Some (JInt r)"
    using assms(1) by (auto simp: wf_ranking_def)
  have same: "dict_update x [(''candidate_id'', JStr c), (''module'', JStr m), (''scope'', JStr s),
      (''bid'', JInt b), (''lines'', JArr (map JInt ls)), (''reranked_rank'', JInt r)] = x"
    by (rule dict_update_same) (simp add: x)
  have "list_all (\<lambda>f. map_of x f \<noteq> None) ranking_fields" by (simp add: ranking_fields_def x)
  then show ?thesis
    using assms(2,3) same by (simp add: normalize_ranking_def x cand_id_def norm_rank_def)
qed

lemma normalize_all_wf:
  assumes "\<forall>x \<in> set xs. wf_ranking x" "distinct (map cand_id xs)" "distinct (map norm_rank xs)"
    and "set ids \<inter> cand_id ` set xs = {}" "set ranks \<inter> norm_rank ` set xs = {}"
  shows "rfoldM normalize_ranking (ids, ranks, items) (map JObj xs) =
    Ok (rev (map cand_id xs) @ ids, rev (map norm_rank xs) @ ranks, items @ xs)"
  using assms
proof (induction xs arbitrary: ids ranks items)
  case (Cons x xs)
  then have "normalize_ranking (ids, ranks, items) (JObj x) =
      Ok (cand_id x # ids, norm_rank x # ranks, items @ [x])"
    by (intro normalize_ranking_wf) auto
  with Cons show ?case by simp
qed simp

lemma check_rerank_result_fixpoint:
  assumes "wf_result v" "case map_of v ''config'' of None \<Rightarrow> True | Some (JObj _) \<Rightarrow> True | _ \<Rightarrow> False"
  shows "check_rerank_result (JObj v) = Ok v"
proof -
  obtain items where v: "map_of v ''rankings'' = Some (JArr (map JObj items))" "items \<noteq> []"
      "map_of v ''top_k'' = Some (JInt (int (length items)))"
      "\<forall>x \<in> set items. wf_ranking x" "distinct (map cand_id items)"
      "map norm_rank items = map int [1..<Suc (length items)]"
    using assms(1) by (auto simp: wf_result_def)
  obtain r rs where ne: "map JObj items = r # rs" using v(2) by (cases items) auto
  have d: "distinct (map norm_rank items)" "sorted (map norm_rank items)"
    unfolding v(6) by (simp_all add: distinct_map sorted_map del: upt_Suc)
  have f: "rfoldM normalize_ranking ([], [], []) (r # rs) =
      Ok (rev (map cand_id items), rev (map norm_rank items), items)"
    using normalize_all_wf [OF v(4,5) d(1), of "[]" "[]" "[]"] unfolding ne by simp
  have top: "read_top_k v (length items) = Ok (int (length items))"
    using assms(2) v(3) by (auto simp: read_top_k_def dict_get_def split: option.splits json.splits)
  have same: "dict_update v [(''rankings'', JArr (map JObj items)), (''top_k'', JInt (int (length items)))] = v"
    by (rule dict_update_same) (simp add: v)
  have rk: "map_of v ''rankings'' = Some (JArr (r # rs))" using v(1) ne by simp
  show ?thesis
    unfolding check_rerank_result_def
    by (simp add: rk f top same Let_def v(6) sort_key_id_if_sorted [OF d(2)] del: rfoldM.simps upt_Suc)
qed

section \<open>Properties\<close>

definition sample_ranking :: "string \<Rightarrow> int \<Rightarrow> int \<Rightarrow> jobj" where
  "sample_ranking c r l = [(''candidate_id'', JStr c), (''module'', JStr ''m''), (''scope'', JStr ''s''),
     (''bid'', JInt 4), (''lines'', JArr [JInt l]), (''reranked_rank'', JInt r)]"

definition sample_result :: jobj where
  "sample_result =
     [(''rankings'', JArr [JObj (sample_ranking ''B001'' 1 9), JObj (sample_ranking ''B002'' 2 5)]),
      (''top_k'', JInt 2)]"

text \<open>C3: whatever the decoder returns, a result that \<open>load_rerank_result\<close> accepts has
  at least one ranking; the ranks of its rankings are 1 to \<open>top_k\<close>, in this order; their
  identifiers are non-empty and distinct, their numbers are integers and their lines sorted
  without repetition.\<close>

theorem load_rerank_result_wf:
  assumes "load_rerank_result loads fs p = Ok out"
  shows "wf_result out"
  using assms by (auto simp: load_rerank_result_def rbind_eq_Ok split: option.splits
      intro: check_rerank_result_Ok)

theorem load_rerank_result_wf_witness:
  "wf_result sample_result"
proof (rule load_rerank_result_wf [of "\<lambda>_. Some (JObj [
      (''rankings'', JArr [JObj (sample_ranking ''B002'' 2 5), JObj (sample_ranking ''B001'' 1 9)]),
      (''top_k'', JInt 2)])" "[(path_of ''r.json'', File [])]" "path_of ''r.json''"])
  show "load_rerank_result (\<lambda>_. Some (JObj [
      (''rankings'', JArr [JObj (sample_ranking ''B002'' 2 5), JObj (sample_ranking ''B001'' 1 9)]),
      (''top_k'', JInt 2)])) [(path_of ''r.json'', File [])] (path_of ''r.json'') = Ok sample_result"
    by code_simp
qed

text \<open>Loading is idempotent: a normalized result, whose configuration is absent or an
  object, is accepted and returned unchanged, entry for entry.\<close>

theorem load_rerank_result_fixpoint:
  assumes "read_text fs p = Ok text" and "loads text = Some (JObj v)" and "wf_result v"
    and "map_of v ''config'' = None \<or> (\<exists>c. map_of v ''config'' = Some (JObj c))"
  shows "load_rerank_result loads fs p = Ok v"
  using assms check_rerank_result_fixpoint [OF assms(3)]
  by (auto simp: load_rerank_result_def)

text \<open>C8: on a loaded result, the rank of the faulty block is the mean rank of the
  rankings that share its final score, for the first ranking of the faulty module and scope with
  a line in the window of the modified lines; without one the text says so.\<close>

theorem find_reranked_bug_rank_spec:
  assumes "wf_items items" and "score_keyed key items"
    and "map_of bug_info ''module_name'' = Some mn" and "map_of bug_info ''scope_name'' = Some sn"
    and "map_of bug_info ''modify_line'' = Some ml" and "line_set_with_window ml window = Ok target"
  shows "find_reranked_bug_rank bug_info items window =
    Ok (case find (ranking_hit (py_str mn) (py_str sn) target) items of
          None \<Rightarrow> (''over top-'' @ str_int (int (length items)), None)
        | Some x \<Rightarrow> (''top-'' @ format_average_rank
                       (mean_rank norm_rank (filter (\<lambda>y. key y = key x) items)), Some x))"
  using assms by (rule find_reranked_bug_rank_refines)

theorem find_reranked_bug_rank_spec_witness:
  "find_reranked_bug_rank
     [(''module_name'', JStr ''m''), (''scope_name'', JStr ''s''), (''modify_line'', JArr [JInt 6])]
     [sample_ranking ''B001'' 1 9, sample_ranking ''B002'' 2 5] 1
   = Ok (''top-2'', Some (sample_ranking ''B002'' 2 5))"
proof -
  let ?items = "[sample_ranking ''B001'' 1 9, sample_ranking ''B002'' 2 5]"
  have w: "wf_items ?items"
    by (auto simp: wf_items_def sample_ranking_def wf_ranking_def norm_rank_def
        intro: exI [of _ "[9]"] exI [of _ "[5]"])
  have k: "score_keyed (\<lambda>x. SRank (norm_rank x)) ?items"
    by (auto simp: score_keyed_def less_Suc_eq score_key_of_def sample_ranking_def jindex_def
        norm_rank_def dict_get_def)
  have t: "line_set_with_window (JArr [JInt 6]) 1 = Ok [5, 6, 7]" by code_simp
  have e: "(case find (ranking_hit (py_str (JStr ''m'')) (py_str (JStr ''s'')) [5, 6, 7]) ?items of
          None \<Rightarrow> (''over top-'' @ str_int (int (length ?items)), None)
        | Some x \<Rightarrow> (''top-'' @ format_average_rank
                       (mean_rank norm_rank (filter (\<lambda>y. SRank (norm_rank y) = SRank (norm_rank x)) ?items)), Some x))
      = (''top-2'', Some (sample_ranking ''B002'' 2 5))"
    by code_simp
  show ?thesis
    using find_reranked_bug_rank_spec [OF w k, of
      "[(''module_name'', JStr ''m''), (''scope_name'', JStr ''s''), (''modify_line'', JArr [JInt 6])]"
      "JStr ''m''" "JStr ''s''" "JArr [JInt 6]" 1 "[5, 6, 7]"] t unfolding e by simp
qed

end
