(* ===== verification/Candidates.thy ===== *)
theory Candidates
  imports Result_IO "HOL-Library.Sublist"
begin

text \<open>
  \<open>ibex_sbfl_llm/llm/models.py\<close> and \<open>sbfl.py\<close>: the candidate blocks offered to the model
  and how they are built from the ranked blocks of the log and the block map. The response
  models are records; the pydantic validation that produces them is an argument of the
  definitions that need it.
\<close>

section \<open>Data\<close>

record candidate =
  candidate_id :: string
  original_rank :: int
  suspiciousness :: string
  cand_module :: string
  cand_scope :: string
  cand_bid :: int
  cand_lines :: "int list"
  block_type :: string

definition to_dict :: "candidate \<Rightarrow> jobj" where
  "to_dict c =
     [(''candidate_id'', JStr (candidate_id c)), (''original_rank'', JInt (original_rank c)),
      (''suspiciousness'', JStr (suspiciousness c)), (''module'', JStr (cand_module c)),
      (''scope'', JStr (cand_scope c)), (''bid'', JInt (cand_bid c)),
      (''lines'', JArr (map JInt (cand_lines c))), (''block_type'', JStr (block_type c))]"

text \<open>A \<open>CandidateAssessment\<close>, with the reason of a \<open>ReasonedCandidateAssessment\<close>.\<close>

record assessment =
  assessed_id :: string
  score :: pyfloat
  reason :: "string option"

type_synonym assessment_response = "assessment list"

datatype structured_mode = json_schema | json_object | prompt_only

datatype api_protocol = anthropic | zai | openai_responses | openai_chat_completions

text \<open>The constraints of the response models: scores between 0 and 1, and with reasons
  requested a reason of 1 to 1000 characters in every item.\<close>

definition valid_assessment :: "bool \<Rightarrow> assessment \<Rightarrow> bool" where
  "valid_assessment include_reason a \<longleftrightarrow> fle (Fin 0) (score a) \<and> fle (score a) (Fin 1)
     \<and> (case reason a of None \<Rightarrow> \<not> include_reason
        | Some r \<Rightarrow> include_reason \<and> 1 \<le> length r \<and> length r \<le> 1000)"

section \<open>Building candidates\<close>

text \<open>\<open>xs[:limit]\<close>\<close>

definition py_prefix :: "'a list \<Rightarrow> int \<Rightarrow> 'a list" where
  "py_prefix xs limit = take (nat (if limit < 0 then int (length xs) + limit else limit)) xs"

definition make_candidate :: "ranked_block \<Rightarrow> jobj \<Rightarrow> candidate res" where
  "make_candidate raw block =
     rbind (rcatch is_number_error SbflLlmError (int_list (dict_get block ''lines'' (JArr []))))
       (\<lambda>ls. let module_name = py_str (dict_get block ''module'' (JStr [])) in
          if module_name = [] then Err SbflLlmError
          else Ok \<lparr>candidate_id = CHR ''B'' # zpad_int 3 (rank raw), original_rank = rank raw,
                   suspiciousness = sus raw, cand_module = module_name, cand_scope = scope raw,
                   cand_bid = bid raw, cand_lines = sorted_set ls,
                   block_type = py_str (dict_get block ''type'' (JStr []))\<rparr>)"

fun build_loop :: "block_map \<Rightarrow> (string \<times> int) list \<Rightarrow> ranked_block list \<Rightarrow> candidate list res" where
  "build_loop m seen [] = Ok []"
| "build_loop m seen (raw # rest) =
     (let key = (scope raw, bid raw) in
      if key \<in> set seen then build_loop m seen rest
      else case map_of m key of
             None \<Rightarrow> build_loop m (key # seen) rest
           | Some block \<Rightarrow>
               rbind (make_candidate raw block) (\<lambda>c.
               rbind (build_loop m (key # seen) rest) (\<lambda>cs. Ok (c # cs))))"

definition build_candidates :: "ranked_block list \<Rightarrow> block_map \<Rightarrow> int \<Rightarrow> candidate list res" where
  "build_candidates ranked_blocks m limit =
     rbind (build_loop m [] (py_prefix ranked_blocks limit))
       (\<lambda>cs. if cs = [] then Err SbflLlmError else Ok cs)"

section \<open>What the candidates are\<close>

text \<open>A candidate is well formed when its identifier is not empty and its lines are sorted
  without repetition.\<close>

definition wf_candidate :: "candidate \<Rightarrow> bool" where
  "wf_candidate c \<longleftrightarrow> candidate_id c \<noteq> [] \<and> sorted (cand_lines c) \<and> distinct (cand_lines c)"

definition cand_key :: "candidate \<Rightarrow> string \<times> int" where
  "cand_key c = (cand_scope c, cand_bid c)"

lemma make_candidate_Ok:
  assumes "make_candidate raw block = Ok c"
  shows "wf_candidate c" "cand_key c = (scope raw, bid raw)" "original_rank c = rank raw"
    "suspiciousness c = sus raw" "candidate_id c = CHR ''B'' # zpad_int 3 (rank raw)"
    "cand_module c \<noteq> []"
  using assms
  by (auto simp: make_candidate_def Let_def rbind_eq_Ok wf_candidate_def cand_key_def split: if_splits)

lemma build_loop_Ok:
  assumes "build_loop m seen raws = Ok cs"
  shows "distinct (map cand_key cs) \<and> set (map cand_key cs) \<inter> set seen = {}
    \<and> (\<forall>c \<in> set cs. wf_candidate c \<and> cand_module c \<noteq> [] \<and> map_of m (cand_key c) \<noteq> None
         \<and> (\<exists>raw \<in> set raws. cand_key c = (scope raw, bid raw) \<and> original_rank c = rank raw
              \<and> suspiciousness c = sus raw \<and> candidate_id c = CHR ''B'' # zpad_int 3 (rank raw)))"
  using assms
proof (induction m seen raws arbitrary: cs rule: build_loop.induct)
  case (2 m seen raw rest)
  let ?key = "(scope raw, bid raw)"
  consider "?key \<in> set seen" | "?key \<notin> set seen" "map_of m ?key = None"
    | block where "?key \<notin> set seen" "map_of m ?key = Some block"
    by (cases "map_of m ?key") auto
  then show ?case
  proof cases
    case 1
    then show ?thesis using "2.IH"(1) [OF refl] "2.prems" by (auto simp: Let_def)
  next
    case 2
    then show ?thesis using "2.IH"(2) [OF refl] "2.prems" by (fastforce simp: Let_def)
  next
    case 3
    with "2.prems" obtain c cs' where c: "make_candidate raw block = Ok c"
      "build_loop m (?key # seen) rest = Ok cs'" "cs = c # cs'"
      by (auto simp: Let_def rbind_eq_Ok)
    note mc = make_candidate_Ok [OF c(1)]
    from "2.IH"(3) [OF refl 3 c(1,2)] show ?thesis
      using mc c(3) 3 by (auto simp: cand_key_def)
  qed
qed auto

lemma build_loop_skips:
  assumes "build_loop m seen raws = Ok cs"
  shows "subseq (map original_rank cs) (map rank raws)"
  using assms
proof (induction m seen raws arbitrary: cs rule: build_loop.induct)
  case (2 m seen raw rest)
  then show ?case
    by (auto simp: Let_def rbind_eq_Ok make_candidate_Ok(3) split: if_splits option.splits)
qed simp

section \<open>Properties\<close>

lemma build_loop_length: "build_loop m seen raws = Ok cs \<Longrightarrow> length cs \<le> length raws"
  using build_loop_skips by (fastforce dest: list_emb_length)

lemma build_candidates_ids:
  assumes "build_candidates xs m limit = Ok cs" "distinct (map rank xs)"
  shows "distinct (map candidate_id cs)"
proof -
  have b: "build_loop m [] (py_prefix xs limit) = Ok cs"
    using assms(1) by (auto simp: build_candidates_def rbind_eq_Ok split: if_splits)
  have "distinct (map rank (py_prefix xs limit))"
    using assms(2) by (simp add: py_prefix_def take_map [symmetric])
  then have d: "distinct (map original_rank cs)"
    using build_loop_skips [OF b] by (metis distinct_nthsI subseq_conv_nths)
  have "map candidate_id cs = map (\<lambda>i. CHR ''B'' # zpad_int 3 i) (map original_rank cs)"
    using build_loop_Ok [OF b] by auto
  then show ?thesis using d by (auto simp: distinct_map inj_on_def zpad_int_inj)
qed

text \<open>C12: the candidates offered to the model are at least one, each a known block of the
  requested prefix of the log with a module and sorted distinct lines; no block occurs twice, the
  log order is kept, and distinct ranks give distinct identifiers.\<close>

theorem build_candidates_spec:
  assumes "build_candidates xs m limit = Ok cs"
  shows "cs \<noteq> [] \<and> distinct (map cand_key cs) \<and> (\<forall>c \<in> set cs. wf_candidate c \<and> cand_module c \<noteq> [] \<and> map_of m (cand_key c) \<noteq> None)
    \<and> subseq (map original_rank cs) (map rank (py_prefix xs limit))
    \<and> (distinct (map rank xs) \<longrightarrow> distinct (map candidate_id cs))"
proof -
  have b: "build_loop m [] (py_prefix xs limit) = Ok cs" and ne: "cs \<noteq> []"
    using assms by (auto simp: build_candidates_def rbind_eq_Ok split: if_splits)
  show ?thesis
    using build_loop_Ok [OF b] build_loop_skips [OF b] build_candidates_ids [OF assms] ne by blast
qed

definition sample_candidate_map :: block_map where
  "sample_candidate_map =
     [((''top.a'', 7), [(''scope'', JStr ''top.a''), (''module'', JStr ''ma''), (''lines'', JArr [JInt 3, JInt 2])]),
      ((''top.b'', 1), [(''scope'', JStr ''top.b''), (''module'', JStr ''m''), (''lines'', JArr [JInt 11, JInt 13])])]"

definition sample_candidates :: "candidate list" where
  "sample_candidates =
     [\<lparr>candidate_id = ''B001'', original_rank = 1, suspiciousness = ''1'', cand_module = ''ma'',
        cand_scope = ''top.a'', cand_bid = 7, cand_lines = [2, 3], block_type = []\<rparr>,
      \<lparr>candidate_id = ''B003'', original_rank = 3, suspiciousness = ''0.50'', cand_module = ''m'',
        cand_scope = ''top.b'', cand_bid = 1, cand_lines = [11, 13], block_type = []\<rparr>]"

lemma sample_candidates_built: "build_candidates sample_blocks sample_candidate_map 4 = Ok sample_candidates"
  by code_simp

theorem build_candidates_spec_witness:
  "distinct (map cand_key sample_candidates) \<and> list_all wf_candidate sample_candidates
   \<and> distinct (map rank sample_blocks) \<and> distinct (map candidate_id sample_candidates)"
proof -
  have "distinct (map rank sample_blocks)" by code_simp
  then show ?thesis using build_candidates_spec [OF sample_candidates_built] by (simp add: list_all_iff)
qed

end
