(* ===== verification/Ranking.thy ===== *)
theory Ranking
  imports Candidates
begin

text \<open>
  \<open>ibex_sbfl_llm/ranking.py\<close>: the weighted combination of model score and suspiciousness and
  the deterministic ranking, and the contract a ranking function has towards its consumers, as
  the locale \<open>ranker\<close>: its items are the candidates with three scores added, put in score
  order and numbered. The consumer's lemmas are proved once in the locale: the output is a
  permutation of the candidates, the ranks are 1 to n, and every non-empty prefix is accepted by
  \<open>load_rerank_result\<close>.
\<close>

section \<open>Model\<close>

definition parse_suspiciousness :: "candidate \<Rightarrow> pyfloat res" where
  "parse_suspiciousness c =
     (case py_float (suspiciousness c) of
        None \<Rightarrow> Err SbflLlmError
      | Some v \<Rightarrow> if \<not> isfinite v \<or> flt v (Fin 0) then Err SbflLlmError else Ok v)"

text \<open>\<open>llm_weight * llm_score + (1.0 - llm_weight) * sbfl_score\<close>\<close>

definition combine_score :: "pyfloat \<Rightarrow> pyfloat \<Rightarrow> pyfloat \<Rightarrow> pyfloat" where
  "combine_score w llm_score sbfl_score =
     fadd (fmul w llm_score) (fmul (fsub (Fin 1) w) sbfl_score)"

definition scored_item :: "candidate \<Rightarrow> pyfloat \<Rightarrow> pyfloat \<Rightarrow> pyfloat \<Rightarrow> string option \<Rightarrow> jobj" where
  "scored_item c w llm_score sbfl_score why =
     (let d = dict_update (to_dict c)
            [(''llm_score'', JFloat (fround 12 llm_score)),
             (''sbfl_score'', JFloat (fround 12 sbfl_score)),
             (''final_score'', JFloat (fround 12 (combine_score w llm_score sbfl_score)))]
      in case why of None \<Rightarrow> d | Some r \<Rightarrow> AList.update ''reason'' (JStr r) d)"

text \<open>The sort key of an item.\<close>

definition item_float :: "jobj \<Rightarrow> string \<Rightarrow> pyfloat" where
  "item_float item k = (case map_of item k of Some (JFloat f) \<Rightarrow> f | _ \<Rightarrow> NaN)"

definition item_int :: "jobj \<Rightarrow> string \<Rightarrow> int" where
  "item_int item k = (case map_of item k of Some (JInt i) \<Rightarrow> i | _ \<Rightarrow> 0)"

definition score_order :: "jobj \<Rightarrow> pyfloat \<times> pyfloat \<times> pyfloat \<times> int \<times> string" where
  "score_order item =
     (fneg (item_float item ''final_score''), fneg (item_float item ''llm_score''),
      fneg (item_float item ''sbfl_score''), item_int item ''original_rank'', cand_id item)"

definition number_ranks :: "jobj list \<Rightarrow> jobj list" where
  "number_ranks items =
     map (\<lambda>(i, item). AList.update ''reranked_rank'' (JInt (int i)) item)
       (zip [1..<Suc (length items)] items)"

definition rank_candidates :: "candidate list \<Rightarrow> assessment_response \<Rightarrow> pyfloat \<Rightarrow> jobj list res" where
  "rank_candidates candidates response llm_weight =
     (let assessments = dict_of (map (\<lambda>a. (assessed_id a, a)) response) in
      rbind (rmapM parse_suspiciousness candidates) (\<lambda>values.
        let suspiciousness_of = dict_of (zip (map candidate_id candidates) values) in
        rbind (rmapM (\<lambda>c.
                 rbind (res_of KeyError (map_of assessments (candidate_id c))) (\<lambda>a.
                 rbind (res_of KeyError (map_of suspiciousness_of (candidate_id c))) (\<lambda>u.
                   Ok (scored_item c llm_weight (score a) u (reason a)))))
               candidates)
          (\<lambda>scored. Ok (number_ranks (sort_key score_order scored)))))"

section \<open>Items\<close>

text \<open>The fields a scored item keeps of its candidate.\<close>

definition keeps_candidate :: "candidate \<Rightarrow> jobj \<Rightarrow> bool" where
  "keeps_candidate c item \<longleftrightarrow>
     map_of item ''candidate_id'' = Some (JStr (candidate_id c))
     \<and> map_of item ''module'' = Some (JStr (cand_module c))
     \<and> map_of item ''scope'' = Some (JStr (cand_scope c))
     \<and> map_of item ''bid'' = Some (JInt (cand_bid c))
     \<and> map_of item ''lines'' = Some (JArr (map JInt (cand_lines c)))
     \<and> map_of item ''original_rank'' = Some (JInt (original_rank c))"

lemma keeps_candidate_scored_item [simp]: "keeps_candidate c (scored_item c w s u why)"
  by (auto simp: keeps_candidate_def scored_item_def Let_def map_of_dict_update_last to_dict_def
      map_of_AList_update split: option.splits)

lemma keeps_candidate_number [simp]:
  "keeps_candidate c (AList.update ''reranked_rank'' v item) \<longleftrightarrow> keeps_candidate c item"
  by (simp add: keeps_candidate_def map_of_AList_update)

lemma keeps_candidate_id: "keeps_candidate c item \<Longrightarrow> cand_id item = candidate_id c"
  by (simp add: keeps_candidate_def cand_id_def)

lemma score_order_number [simp]: "score_order (AList.update ''reranked_rank'' v item) = score_order item"
  by (simp add: score_order_def item_float_def item_int_def cand_id_def map_of_AList_update)

lemma cand_id_number [simp]: "cand_id (AList.update ''reranked_rank'' v item) = cand_id item"
  by (simp add: cand_id_def map_of_AList_update)

lemma length_number_ranks [simp]: "length (number_ranks items) = length items"
  by (simp add: number_ranks_def del: upt_Suc)

lemma nth_number_ranks [simp]:
  "i < length items \<Longrightarrow>
   number_ranks items ! i = AList.update ''reranked_rank'' (JInt (int (Suc i))) (items ! i)"
  by (simp add: number_ranks_def del: upt_Suc)

lemma map_number_ranks:
  assumes "\<And>v item. f (AList.update ''reranked_rank'' v item) = f item"
  shows "map f (number_ranks items) = map f items"
  by (rule nth_equalityI) (simp_all add: assms)

lemma norm_rank_number_ranks:
  "map norm_rank (number_ranks items) = map int [1..<Suc (length items)]"
  by (rule nth_equalityI) (simp_all add: norm_rank_def map_of_AList_update del: upt_Suc)

section \<open>The contract of a ranking function\<close>

locale ranker =
  fixes rank_fn :: "'i \<Rightarrow> jobj list res"
    and cands :: "'i \<Rightarrow> candidate list"
  assumes rank_fn_items:
    "rank_fn x = Inr rs \<Longrightarrow>
     \<exists>items. rs = number_ranks (sort_key score_order items) \<and> list_all2 keeps_candidate (cands x) items"
begin

lemma ranked_length: "rank_fn x = Inr rs \<Longrightarrow> length rs = length (cands x)"
  using rank_fn_items [of x rs] by (auto dest: list_all2_lengthD)

lemma ranked_sorted: "rank_fn x = Inr rs \<Longrightarrow> sorted (map score_order rs)"
  using rank_fn_items [of x rs] by (auto simp: map_number_ranks)

lemma ranked_numbered: "rank_fn x = Inr rs \<Longrightarrow> map norm_rank rs = map int [1..<Suc (length rs)]"
  using rank_fn_items [of x rs] by (auto simp: norm_rank_number_ranks simp del: upt_Suc)

lemma ranked_permutation:
  assumes "rank_fn x = Inr rs"
  shows "mset (map cand_id rs) = mset (map candidate_id (cands x))"
proof -
  obtain items where rs: "rs = number_ranks (sort_key score_order items)"
    and l: "list_all2 keeps_candidate (cands x) items"
    using rank_fn_items [OF assms] by blast
  have "map cand_id items = map candidate_id (cands x)"
    using l by (induction rule: list_all2_induct) (simp_all add: keeps_candidate_id)
  moreover have "map cand_id rs = map cand_id (sort_key score_order items)"
    unfolding rs by (rule map_number_ranks) simp
  moreover have "mset (map cand_id (sort_key score_order items)) = mset (map cand_id items)" by simp
  ultimately show ?thesis by metis
qed

lemma ranked_keeps:
  assumes "rank_fn x = Inr rs" "r \<in> set rs"
  shows "\<exists>c \<in> set (cands x). keeps_candidate c r"
proof -
  obtain items where rs: "rs = number_ranks (sort_key score_order items)"
    and l: "list_all2 keeps_candidate (cands x) items"
    using rank_fn_items [OF assms(1)] by blast
  obtain i where i: "i < length items" "r = rs ! i" using assms(2) rs by (auto simp: in_set_conv_nth)
  have "sort_key score_order items ! i \<in> set items" using i(1) by (metis length_sort nth_mem set_sort)
  then obtain c where "c \<in> set (cands x)" "keeps_candidate c (sort_key score_order items ! i)"
    using list_all2_mem2 [OF l] by blast
  then show ?thesis using i rs by auto
qed

lemma ranked_wf:
  assumes "rank_fn x = Inr rs" "\<forall>c \<in> set (cands x). wf_candidate c" "r \<in> set rs"
  shows "wf_ranking r"
proof -
  obtain c where c: "c \<in> set (cands x)" "keeps_candidate c r" using ranked_keeps [OF assms(1,3)] by blast
  obtain items where "rs = number_ranks (sort_key score_order items)"
    using rank_fn_items [OF assms(1)] by blast
  then obtain i where "map_of r ''reranked_rank'' = Some (JInt i)"
    using assms(3) by (auto simp: in_set_conv_nth map_of_AList_update)
  with c assms(2) show ?thesis
    by (auto simp: wf_ranking_def wf_candidate_def keeps_candidate_def intro!: exI [of _ "cand_lines c"])
qed

text \<open>The first \<open>k\<close> rankings form a result the loader accepts.\<close>

lemma ranked_prefix_wf:
  assumes "rank_fn x = Inr rs" "\<forall>c \<in> set (cands x). wf_candidate c"
    and "distinct (map candidate_id (cands x))" "0 < k" "k \<le> length rs"
    and "map_of out ''rankings'' = Some (JArr (map JObj (take k rs)))"
      "map_of out ''top_k'' = Some (JInt (int k))"
  shows "wf_result out"
proof -
  have "distinct (map cand_id rs)"
    using ranked_permutation [OF assms(1)] assms(3) by (metis mset_eq_imp_distinct_iff)
  then have d: "distinct (map cand_id (take k rs))" by (simp add: take_map [symmetric])
  have n: "map norm_rank (take k rs) = map int [1..<Suc k]"
  proof -
    have "map norm_rank (take k rs) = take k (map int [1..<Suc (length rs)])"
      by (simp only: take_map [symmetric] ranked_numbered [OF assms(1)])
    also have "\<dots> = map int [1..<Suc k]" using assms(5) by (simp only: take_map) (simp add: take_upt del: upt_Suc)
    finally show ?thesis .
  qed
  show ?thesis
    unfolding wf_result_def
    using assms d n ranked_wf [OF assms(1,2)]
    by (intro exI [of _ "take k rs"]) (auto dest: in_set_takeD simp del: upt_Suc)
qed

end

lemma rank_candidates_items:
  assumes "rank_candidates candidates response w = Inr rs"
  shows "\<exists>items. rs = number_ranks (sort_key score_order items)
    \<and> list_all2 keeps_candidate candidates items"
proof -
  obtain items g where rs: "rs = number_ranks (sort_key score_order items)"
    and m: "rmapM g candidates = Inr items" and g: "\<And>c i. g c = Inr i \<Longrightarrow> keeps_candidate c i"
    using assms by (force simp: rank_candidates_def Let_def rbind_eq_Ok)
  have "list_all2 keeps_candidate candidates items"
    using m g unfolding rmapM_eq_Ok by (rule list_all2_mono)
  then show ?thesis using rs by blast
qed

interpretation online: ranker "\<lambda>(candidates, response, w). rank_candidates candidates response w" fst
  by unfold_locales (auto dest: rank_candidates_items)

section \<open>Weights at the ends of the range\<close>

lemma fmul_one: "is_double q \<Longrightarrow> fmul (Fin 1) (Fin q) = Fin q"
  and fmul_zero: "fmul (Fin 0) (Fin q) = Fin 0"
  and fadd_zero: "is_double q \<Longrightarrow> fadd (Fin q) (Fin 0) = Fin q" "is_double q \<Longrightarrow> fadd (Fin 0) (Fin q) = Fin q"
  using is_double_0 by (simp_all add: is_double_def)

lemma fsub_one: "fsub (Fin 1) (Fin 1) = Fin 0" "fsub (Fin 1) (Fin 0) = Fin 1"
proof -
  show "fsub (Fin 1) (Fin 1) = Fin 0" using is_double_0 by (simp add: fsub_def is_double_def)
  have "is_double 1" using is_double_int [of 1] by simp
  then show "fsub (Fin 1) (Fin 0) = Fin 1" by (simp add: fsub_def is_double_def)
qed

lemma combine_score_ends:
  assumes "is_double s" "is_double u"
  shows "combine_score (Fin 1) (Fin s) (Fin u) = Fin s" "combine_score (Fin 0) (Fin s) (Fin u) = Fin u"
  using assms by (simp_all only: combine_score_def fsub_one fmul_one fmul_zero fadd_zero)

end
