(* ===== verification/Offline_Ranking.thy ===== *)
theory Offline_Ranking
  imports Ranking
begin

text \<open>
  \<open>ibex_sbfl_rerank/ranking.py\<close>: the offline ranking from saved candidates and raw model
  scores. It validates the saved scores first; on scores that pass, it gives the ranking that
  \<open>ibex_sbfl_llm\<close> computes.
\<close>

section \<open>Model\<close>

definition finite_number :: "json \<Rightarrow> pyfloat res" where
  "finite_number v =
     (case v of
        JBool _ \<Rightarrow> Err RerankError
      | _ \<Rightarrow> rbind (rcatch is_number_error RerankError (to_float v))
               (\<lambda>number. if isfinite number then Ok number else Err RerankError))"

definition offline_parse_suspiciousness :: "candidate \<Rightarrow> pyfloat res" where
  "offline_parse_suspiciousness c =
     rbind (finite_number (JStr (suspiciousness c)))
       (\<lambda>v. if flt v (Fin 0) then Err RerankError else Ok v)"

definition validate_score ::
  "(string, jobj) dict \<Rightarrow> jobj \<Rightarrow> (string, jobj) dict res" where
  "validate_score result assessment =
     (let cid = py_str (dict_get assessment ''candidate_id'' (JStr [])) in
      if cid = [] then Err RerankError
      else if map_of result cid \<noteq> None then Err RerankError
      else rbind (finite_number (dict_get assessment ''score'' JNull)) (\<lambda>s.
        if \<not> (fle (Fin 0) s \<and> fle s (Fin 1)) then Err RerankError
        else Ok (AList.update cid
               (dict_update assessment [(''candidate_id'', JStr cid), (''score'', JFloat s)]) result)))"

definition validate_scores :: "candidate list \<Rightarrow> jobj list \<Rightarrow> (string, jobj) dict res" where
  "validate_scores candidates assessments =
     rbind (rfoldM validate_score [] assessments) (\<lambda>result.
       if fst ` set result \<noteq> candidate_id ` set candidates then Err RerankError else Ok result)"

definition offline_reason :: "jobj \<Rightarrow> string option" where
  "offline_reason assessment =
     (case dict_get assessment ''reason'' JNull of JNull \<Rightarrow> None | v \<Rightarrow> Some (strip (py_str v)))"

definition offline_rank_candidates :: "candidate list \<Rightarrow> jobj list \<Rightarrow> pyfloat \<Rightarrow> jobj list res" where
  "offline_rank_candidates candidates assessments llm_weight =
     (if \<not> (fle (Fin 0) llm_weight \<and> fle llm_weight (Fin 1)) then Err RerankError
      else rbind (validate_scores candidates assessments) (\<lambda>assessment_map.
        rbind (rmapM offline_parse_suspiciousness candidates) (\<lambda>values.
          let suspiciousness_of = dict_of (zip (map candidate_id candidates) values) in
          rbind (rmapM (\<lambda>c.
                   rbind (res_of KeyError (map_of assessment_map (candidate_id c))) (\<lambda>a.
                   rbind (rbind (jindex a ''score'') to_float) (\<lambda>s.
                   rbind (res_of KeyError (map_of suspiciousness_of (candidate_id c))) (\<lambda>u.
                     Ok (scored_item c llm_weight s u (offline_reason a))))))
                 candidates)
            (\<lambda>scored. Ok (number_ranks (sort_key score_order scored))))))"

section \<open>The offline ranking is a ranking\<close>

lemma offline_rank_candidates_items:
  assumes "offline_rank_candidates candidates assessments w = Inr rs"
  shows "\<exists>items. rs = number_ranks (sort_key score_order items)
    \<and> list_all2 keeps_candidate candidates items"
proof -
  obtain items g where rs: "rs = number_ranks (sort_key score_order items)"
    and m: "rmapM g candidates = Inr items" and g: "\<And>c i. g c = Inr i \<Longrightarrow> keeps_candidate c i"
    using assms by (force simp: offline_rank_candidates_def Let_def rbind_eq_Ok split: if_splits)
  have "list_all2 keeps_candidate candidates items"
    using m g unfolding rmapM_eq_Ok by (rule list_all2_mono)
  then show ?thesis using rs by blast
qed

interpretation offline: ranker
  "\<lambda>(candidates, assessments, w). offline_rank_candidates candidates assessments w" fst
  by unfold_locales (auto dest: offline_rank_candidates_items)

section \<open>Validated scores\<close>

text \<open>The saved assessment of an identifier, as the online tool would hold it.\<close>

definition saved_id :: "jobj \<Rightarrow> string" where
  "saved_id a = py_str (dict_get a ''candidate_id'' (JStr []))"

definition saved_score :: "jobj \<Rightarrow> pyfloat res" where
  "saved_score a = finite_number (dict_get a ''score'' JNull)"

definition saved_assessment :: "jobj \<Rightarrow> assessment" where
  "saved_assessment a =
     \<lparr>assessed_id = saved_id a, score = (case saved_score a of Inr s \<Rightarrow> s | _ \<Rightarrow> NaN),
      reason = offline_reason a\<rparr>"

definition good_score :: "jobj \<Rightarrow> bool" where
  "good_score a \<longleftrightarrow> saved_id a \<noteq> [] \<and> (\<exists>s. saved_score a = Inr s \<and> fle (Fin 0) s \<and> fle s (Fin 1))"

definition validated :: "jobj \<Rightarrow> jobj" where
  "validated a = dict_update a [(''candidate_id'', JStr (saved_id a)), (''score'', JFloat (score (saved_assessment a)))]"

lemma validate_score_Ok:
  "validate_score result a = Inr result' \<longleftrightarrow>
     good_score a \<and> map_of result (saved_id a) = None
     \<and> result' = AList.update (saved_id a) (validated a) result"
  by (auto simp: validate_score_def good_score_def saved_id_def saved_score_def saved_assessment_def
      validated_def Let_def rbind_eq_Ok split: if_splits)

lemma AList_update_new: "map_of d k = None \<Longrightarrow> AList.update k v d = d @ [(k, v)]"
  by (induction d) (auto split: if_splits)

lemma validate_fold:
  "rfoldM validate_score result as = Inr result' \<longleftrightarrow>
     (\<forall>a \<in> set as. good_score a \<and> saved_id a \<notin> fst ` set result) \<and> distinct (map saved_id as)
     \<and> result' = result @ map (\<lambda>a. (saved_id a, validated a)) as"
proof (induction as arbitrary: result)
  case (Cons a as)
  have none: "map_of result (saved_id a) = None \<longleftrightarrow> saved_id a \<notin> fst ` set result"
    by (rule map_of_eq_None_iff)
  have "rfoldM validate_score result (a # as) = Inr result' \<longleftrightarrow>
      good_score a \<and> saved_id a \<notin> fst ` set result
      \<and> rfoldM validate_score (result @ [(saved_id a, validated a)]) as = Inr result'"
    by (auto simp: rbind_eq_Ok validate_score_Ok AList_update_new none)
  then show ?case unfolding Cons.IH by (auto simp: image_iff)
qed auto

lemma validate_scores_Ok:
  "validate_scores cs as = Inr result \<longleftrightarrow>
     (\<forall>a \<in> set as. good_score a) \<and> distinct (map saved_id as)
     \<and> saved_id ` set as = candidate_id ` set cs
     \<and> result = map (\<lambda>a. (saved_id a, validated a)) as"
  by (auto simp: validate_scores_def rbind_eq_Ok validate_fold image_image split: if_splits)

section \<open>Agreement with the online ranking\<close>

lemma offline_suspiciousness:
  "offline_parse_suspiciousness c = Inr u \<longleftrightarrow> parse_suspiciousness c = Inr u"
  by (auto simp: offline_parse_suspiciousness_def parse_suspiciousness_def finite_number_def
      rbind_eq_Ok split: option.splits if_splits)

lemma map_of_map_saved:
  "distinct (map saved_id as) \<Longrightarrow> a \<in> set as \<Longrightarrow>
   map_of (map (\<lambda>a. (saved_id a, f a)) as) (saved_id a) = Some (f a)"
  by (induction as) (auto, metis image_eqI)

lemma map_of_dict_of: "map_of (dict_of kvs) = map_of (rev kvs)"
  by (simp add: dict_of_def map_of_dict_update)

lemma map_of_rev_distinct: "distinct (map fst kvs) \<Longrightarrow> map_of (rev kvs) = map_of kvs"
  by (metis map_of_eqI map_of_inject_set distinct_rev rev_map set_rev)

lemma offline_reason_validated [simp]: "offline_reason (validated a) = offline_reason a"
  by (simp add: offline_reason_def validated_def dict_get_def map_of_dict_update_last)

lemma score_validated: "rbind (jindex (validated a) ''score'') to_float = Inr (score (saved_assessment a))"
  by (simp add: jindex_def validated_def map_of_dict_update_last)

lemma offline_online_lookup:
  assumes "distinct (map saved_id as)" "saved_id ` set as = candidate_id ` set cs" "c \<in> set cs"
  obtains a where "a \<in> set as"
    "map_of (map (\<lambda>a. (saved_id a, validated a)) as) (candidate_id c) = Some (validated a)"
    "map_of (dict_of (map (\<lambda>a. (assessed_id a, a)) (map saved_assessment as))) (candidate_id c)
      = Some (saved_assessment a)"
proof -
  obtain a where a: "a \<in> set as" "candidate_id c = saved_id a"
    using assms(2,3) by (metis imageE image_eqI)
  have id: "assessed_id (saved_assessment a) = saved_id a" for a by (simp add: saved_assessment_def)
  have "map (\<lambda>a. (assessed_id a, a)) (map saved_assessment as) = map (\<lambda>a. (saved_id a, saved_assessment a)) as"
    by (simp add: id)
  moreover have "distinct (map fst (map (\<lambda>a. (saved_id a, saved_assessment a)) as))"
    using assms(1) by (simp add: o_def)
  ultimately have "map_of (dict_of (map (\<lambda>a. (assessed_id a, a)) (map saved_assessment as))) (candidate_id c)
      = Some (saved_assessment a)"
    using map_of_map_saved [OF assms(1) a(1), of saved_assessment] a(2)
    by (simp only: map_of_dict_of map_of_rev_distinct)
  then show ?thesis
    using that a map_of_map_saved [OF assms(1) a(1), of validated] by simp
qed

lemma offline_online:
  assumes "offline_rank_candidates cs as w = Inr rs"
  shows "rank_candidates cs (map saved_assessment as) w = Inr rs"
proof -
  obtain vals where v: "validate_scores cs as = Inr (map (\<lambda>a. (saved_id a, validated a)) as)"
    "rmapM offline_parse_suspiciousness cs = Inr vals"
    using assms by (auto simp: offline_rank_candidates_def rbind_eq_Ok validate_scores_Ok split: if_splits)
  then have d: "distinct (map saved_id as)" "saved_id ` set as = candidate_id ` set cs"
    by (auto simp: validate_scores_Ok)
  have sus: "rmapM parse_suspiciousness cs = Inr vals"
    using v(2) by (simp add: rmapM_eq_Ok offline_suspiciousness)
  let ?m = "map (\<lambda>a. (saved_id a, validated a)) as" and ?u = "dict_of (zip (map candidate_id cs) vals)"
  let ?r = "dict_of (map (\<lambda>a. (assessed_id a, a)) (map saved_assessment as))"
  have eq: "rmapM (\<lambda>c.
           rbind (res_of KeyError (map_of ?m (candidate_id c))) (\<lambda>a.
           rbind (rbind (jindex a ''score'') to_float) (\<lambda>s.
           rbind (res_of KeyError (map_of ?u (candidate_id c))) (\<lambda>u.
             Ok (scored_item c w s u (offline_reason a)))))) cs
       = rmapM (\<lambda>c.
           rbind (res_of KeyError (map_of ?r (candidate_id c))) (\<lambda>a.
           rbind (res_of KeyError (map_of ?u (candidate_id c))) (\<lambda>u.
             Ok (scored_item c w (score a) u (reason a))))) cs"
  proof (rule rmapM_cong [OF refl])
    fix c assume c: "c \<in> set cs"
    obtain a where "map_of ?m (candidate_id c) = Some (validated a)"
        "map_of ?r (candidate_id c) = Some (saved_assessment a)"
      by (rule offline_online_lookup [OF d c])
    moreover have "reason (saved_assessment a) = offline_reason a" for a by (simp add: saved_assessment_def)
    ultimately show "rbind (res_of KeyError (map_of ?m (candidate_id c))) (\<lambda>a.
           rbind (rbind (jindex a ''score'') to_float) (\<lambda>s.
           rbind (res_of KeyError (map_of ?u (candidate_id c))) (\<lambda>u.
             Ok (scored_item c w s u (offline_reason a)))))
       = rbind (res_of KeyError (map_of ?r (candidate_id c))) (\<lambda>a.
           rbind (res_of KeyError (map_of ?u (candidate_id c))) (\<lambda>u.
             Ok (scored_item c w (score a) u (reason a))))"
      by (simp only: res_of_simps rbind_Inr score_validated offline_reason_validated)
  qed
  show ?thesis
    using assms by (simp add: offline_rank_candidates_def rank_candidates_def Let_def v sus eq split: if_splits)
qed

section \<open>Properties\<close>

definition sample_response :: assessment_response where
  "sample_response =
     [\<lparr>assessed_id = ''B003'', score = Fin 1, reason = None\<rparr>,
      \<lparr>assessed_id = ''B001'', score = Fin (1 / 4), reason = None\<rparr>]"

definition sample_saved :: "jobj list" where
  "sample_saved =
     [[(''candidate_id'', JStr ''B003''), (''score'', JInt 1)],
      [(''candidate_id'', JStr ''B001''), (''score'', JStr ''0.25'')]]"

lemma sample_ranked_ids:
  "\<exists>rs. rank_candidates sample_candidates sample_response (Fin (1 / 2)) = Ok rs \<and> map cand_id rs = [''B003'', ''B001'']"
proof -
  have "(case rank_candidates sample_candidates sample_response (Fin (1 / 2)) of
      Inr rs \<Rightarrow> map cand_id rs = [''B003'', ''B001''] | _ \<Rightarrow> False)" by code_simp
  then show ?thesis by (auto split: sum.splits)
qed

lemma sample_offline_ids:
  "\<exists>rs. offline_rank_candidates sample_candidates sample_saved (Fin (1 / 2)) = Ok rs \<and> map cand_id rs = [''B003'', ''B001'']"
proof -
  have "(case offline_rank_candidates sample_candidates sample_saved (Fin (1 / 2)) of
      Inr rs \<Rightarrow> map cand_id rs = [''B003'', ''B001''] | _ \<Rightarrow> False)" by code_simp
  then show ?thesis by (auto split: sum.splits)
qed



text \<open>Ranking succeeds whenever every candidate has an assessment and a finite
  non-negative suspiciousness.\<close>

theorem rank_candidates_total:
  assumes "\<forall>c \<in> set candidates. \<exists>u. parse_suspiciousness c = Ok u"
    and "candidate_id ` set candidates \<subseteq> assessed_id ` set response"
  shows "\<exists>rs. rank_candidates candidates response w = Ok rs \<and> length rs = length candidates"
proof -
  obtain vals where v: "rmapM parse_suspiciousness candidates = Ok vals"
    using assms(1) rmapM_total [of candidates parse_suspiciousness "\<lambda>c. case parse_suspiciousness c of Inr u \<Rightarrow> u | Inl _ \<Rightarrow> NaN"]
    by fastforce
  have len: "length vals = length candidates" by (rule rmapM_Ok_length [OF v])
  let ?a = "dict_of (map (\<lambda>a. (assessed_id a, a)) response)"
    and ?u = "dict_of (zip (map candidate_id candidates) vals)"
  have a: "\<exists>a. map_of ?a (candidate_id c) = Some a" if "c \<in> set candidates" for c
  proof -
    have "candidate_id c \<in> fst ` set (rev (map (\<lambda>a. (assessed_id a, a)) response))"
      using assms(2) that by (force simp: image_image)
    then show ?thesis unfolding map_of_dict_of by (metis map_of_eq_None_iff not_None_eq)
  qed
  have u: "\<exists>u. map_of ?u (candidate_id c) = Some u" if "c \<in> set candidates" for c
  proof -
    have "map fst (zip (map candidate_id candidates) vals) = map candidate_id candidates" using len by simp
    then have "candidate_id c \<in> fst ` set (rev (zip (map candidate_id candidates) vals))"
      using that by (metis image_eqI set_map set_rev)
    then show ?thesis unfolding map_of_dict_of by (metis map_of_eq_None_iff not_None_eq)
  qed
  obtain items where "rmapM (\<lambda>c.
                 rbind (res_of KeyError (map_of ?a (candidate_id c))) (\<lambda>a.
                 rbind (res_of KeyError (map_of ?u (candidate_id c))) (\<lambda>u.
                   Ok (scored_item c w (score a) u (reason a)))))
               candidates = Ok items"
    using a u
    by (intro that [OF rmapM_total [where g = "\<lambda>c. scored_item c w (score (the (map_of ?a (candidate_id c))))
        (the (map_of ?u (candidate_id c))) (reason (the (map_of ?a (candidate_id c))))"]]) force
  then show ?thesis using rmapM_Ok_length by (auto simp: rank_candidates_def v Let_def)
qed


text \<open>C14: the offline ranking of saved scores is the online ranking of the same scores:
  whenever it succeeds, \<open>ibex_sbfl_llm\<close>'s ranking of the saved assessments, with the reasons
  stripped of white space, succeeds with the same result, item for item.\<close>

theorem offline_ranking_agrees:
  assumes "offline_rank_candidates candidates assessments w = Ok rs"
  shows "rank_candidates candidates (map saved_assessment assessments) w = Ok rs"
  using assms by (rule offline_online)

theorem offline_ranking_agrees_witness:
  "\<exists>rs. offline_rank_candidates sample_candidates sample_saved (Fin (1 / 2)) = Ok rs
    \<and> rank_candidates sample_candidates (map saved_assessment sample_saved) (Fin (1 / 2)) = Ok rs
    \<and> map cand_id rs = [''B003'', ''B001'']"
proof -
  obtain rs where rs: "offline_rank_candidates sample_candidates sample_saved (Fin (1 / 2)) = Ok rs"
    "map cand_id rs = [''B003'', ''B001'']" using sample_offline_ids by (elim exE conjE)
  show ?thesis using rs offline_ranking_agrees [OF rs(1)] by (intro exI [of _ rs] conjI)
qed

text \<open>C18: saved scores are accepted exactly when the identifiers are non-empty, without
  repetition and those of the candidates, and every score is a finite number between 0 and 1; the
  accepted map has the validated assessments in their order.\<close>

theorem validate_scores_iff:
  "validate_scores candidates assessments = Ok result \<longleftrightarrow>
     (\<forall>a \<in> set assessments. good_score a) \<and> distinct (map saved_id assessments)
     \<and> saved_id ` set assessments = candidate_id ` set candidates
     \<and> result = map (\<lambda>a. (saved_id a, validated a)) assessments"
  by (rule validate_scores_Ok)

theorem validate_scores_iff_witness:
  "\<exists>result. validate_scores sample_candidates sample_saved = Ok result
    \<and> result = map (\<lambda>a. (saved_id a, validated a)) sample_saved"
proof -
  have "(case validate_scores sample_candidates sample_saved of Inr _ \<Rightarrow> True | Inl _ \<Rightarrow> False)" by code_simp
  then obtain result where r: "validate_scores sample_candidates sample_saved = Ok result"
    by (auto split: sum.splits)
  then show ?thesis using validate_scores_iff by blast
qed

text \<open>With weight 1 the final score is the model's score and with weight 0 the
  suspiciousness, without any rounding error.\<close>

lemma combine_score_weight_ends:
  assumes "is_double s" and "is_double u"
  shows "combine_score (Fin 1) (Fin s) (Fin u) = Fin s \<and> combine_score (Fin 0) (Fin s) (Fin u) = Fin u"
  using combine_score_ends [OF assms] by simp

lemma combine_score_weight_ends_witness:
  "combine_score (Fin 1) (Fin (of_int 3 / 2)) (Fin (of_int 7)) = Fin (of_int 3 / 2)
   \<and> combine_score (Fin 0) (Fin (of_int 3 / 2)) (Fin (of_int 7)) = Fin (of_int 7)"
  by (rule combine_score_weight_ends) (rule is_double_half is_double_int, simp)+

end
