(* ===== verification/Snippets.thy ===== *)
theory Snippets
  imports Candidates
begin

text \<open>
  \<open>ibex_sbfl_llm/snippets.py\<close>: the line-numbered RTL context of the candidates. A set of line
  numbers is a list of its members; the code only iterates over it in sorted order or tests
  membership. File names of modules are plain names, without glob characters.
\<close>

section \<open>Line ranges\<close>

definition range_text :: "int \<Rightarrow> int \<Rightarrow> string" where
  "range_text start previous =
     (if start = previous then str_int start else str_int start @ ''-'' @ str_int previous)"

fun compress_loop :: "int \<Rightarrow> int \<Rightarrow> int list \<Rightarrow> string list" where
  "compress_loop start previous [] = [range_text start previous]"
| "compress_loop start previous (v # vs) =
     (if v = previous + 1 then compress_loop start v vs
      else range_text start previous # compress_loop v v vs)"

definition compress_line_ranges :: "int list \<Rightarrow> string" where
  "compress_line_ranges ls =
     (case sorted_set ls of [] \<Rightarrow> [] | v # vs \<Rightarrow> join '','' (compress_loop v v vs))"

section \<open>Regions\<close>

definition find_module_source :: "fs \<Rightarrow> path \<Rightarrow> string \<Rightarrow> path res" where
  "find_module_source fs rtl_root m =
     (let direct = path_div rtl_root (m @ ''.sv'') in
      if is_file fs direct then Ok direct
      else (case sort (rglob_name fs rtl_root (m @ ''.sv'')) of
              [p] \<Rightarrow> Ok p
            | _ \<Rightarrow> Err SbflLlmError))"

definition expanded_lines :: "int list \<Rightarrow> int \<Rightarrow> int \<Rightarrow> int list res" where
  "expanded_lines core_lines line_count radius =
     rbind (rmapM (\<lambda>line. if line < 1 \<or> line_count < line then Err SbflLlmError
                     else Ok [max 1 (line - radius)..min line_count (line + radius)]) core_lines)
       (\<lambda>rs. Ok (concat rs))"

definition numbered_line :: "nat \<Rightarrow> int \<Rightarrow> string \<Rightarrow> string" where
  "numbered_line width number text = lpad CHR '' '' width (str_int number) @ '': '' @ rstrip text"

definition omitted_line :: "int \<Rightarrow> int \<Rightarrow> string" where
  "omitted_line a b = ''... lines '' @ str_int a @ ''-'' @ str_int b @ '' omitted ...''"

definition line_at :: "string list \<Rightarrow> int \<Rightarrow> string" where
  "line_at ls number = ls ! nat (number - 1)"

fun render_loop :: "string list \<Rightarrow> nat \<Rightarrow> int option \<Rightarrow> int list \<Rightarrow> string list" where
  "render_loop ls width previous [] = []"
| "render_loop ls width previous (number # rest) =
     (let text = line_at ls number in
      if strip text = [] then render_loop ls width previous rest
      else (case previous of
              Some p \<Rightarrow>
                if p + 1 < number \<and> list_ex (\<lambda>v. strip v \<noteq> []) (drop (nat p) (take (nat (number - 1)) ls))
                then [omitted_line (p + 1) (number - 1)] else []
            | None \<Rightarrow> [])
           @ [numbered_line width number text] @ render_loop ls width (Some number) rest)"

definition render_lines :: "string list \<Rightarrow> int list \<Rightarrow> string list" where
  "render_lines ls selected =
     render_loop ls (max 4 (length (str_nat (length ls)))) None (sorted_set selected)"

definition render_selected :: "string list \<Rightarrow> int list \<Rightarrow> string" where
  "render_selected ls selected = join [NL] (render_lines ls selected)"

record region =
  region_module :: string
  region_path :: string
  candidate_ranges :: "(string, string) dict"
  region_source :: string

definition build_region :: "fs \<Rightarrow> path \<Rightarrow> string \<Rightarrow> int \<Rightarrow> string \<times> candidate list \<Rightarrow> region res" where
  "build_region fs rtl_root mode radius mc =
     (case mc of (m, module_candidates) \<Rightarrow>
       rbind (find_module_source fs rtl_root m) (\<lambda>p.
       rbind (read_text fs p) (\<lambda>text.
         let source_lines = splitlines text;
             core_lines = concat (map cand_lines module_candidates)
         in if core_lines = [] then Err SbflLlmError
            else rbind (if mode = ''full'' then Ok [1..int (length source_lines)]
                        else expanded_lines core_lines (int (length source_lines)) radius)
              (\<lambda>selected. Ok
                 \<lparr>region_module = m, region_path = path_str p,
                  candidate_ranges = dict_of (map (\<lambda>c. (candidate_id c, compress_line_ranges (cand_lines c)))
                                        module_candidates),
                  region_source = render_selected source_lines selected\<rparr>))))"

definition build_regions :: "fs \<Rightarrow> path \<Rightarrow> candidate list \<Rightarrow> string \<Rightarrow> int \<Rightarrow> region list res" where
  "build_regions fs rtl_root candidates mode radius =
     (let by_module = group_by cand_module candidates in
      rmapM (build_region fs rtl_root mode radius)
        (map (\<lambda>m. (m, dict_get by_module m [])) (sort (dict_keys by_module))))"

definition source_chars_of :: "region list \<Rightarrow> int" where
  "source_chars_of regions = int (sum_list (map (\<lambda>r. length (region_source r)) regions))"

record source_bundle =
  regions :: "region list"
  source_mode :: string
  effective_radius :: "int option"
  source_chars :: int

text \<open>The loop over \<open>range(snippet_radius, -1, -1)\<close>; it starts with \<open>n = snippet_radius + 1\<close>
  radii to try.\<close>

fun shrink_radius :: "fs \<Rightarrow> path \<Rightarrow> candidate list \<Rightarrow> int \<Rightarrow> nat \<Rightarrow> source_bundle res" where
  "shrink_radius fs rtl_root candidates max_chars 0 =
     rbind (build_regions fs rtl_root candidates ''snippets'' 0) (\<lambda>_. Err SbflLlmError)"
| "shrink_radius fs rtl_root candidates max_chars (Suc n) =
     rbind (build_regions fs rtl_root candidates ''snippets'' (int n)) (\<lambda>rs.
       let chars = source_chars_of rs in
       if chars \<le> max_chars
       then Ok \<lparr>regions = rs, source_mode = ''snippets'', effective_radius = Some (int n), source_chars = chars\<rparr>
       else shrink_radius fs rtl_root candidates max_chars n)"

definition collect_sources ::
  "fs \<Rightarrow> path \<Rightarrow> candidate list \<Rightarrow> string \<Rightarrow> int \<Rightarrow> int \<Rightarrow> source_bundle res" where
  "collect_sources fs rtl_root candidates mode max_chars snippet_radius =
     (if mode \<notin> {''snippets'', ''full'', ''auto''} then Err SbflLlmError
      else let snippets = shrink_radius fs rtl_root candidates max_chars (nat (snippet_radius + 1)) in
        if mode = ''snippets'' then snippets
        else rbind (build_regions fs rtl_root candidates ''full'' snippet_radius) (\<lambda>full.
          let full_chars = source_chars_of full in
          if full_chars \<le> max_chars
          then Ok \<lparr>regions = full, source_mode = ''full'', effective_radius = None, source_chars = full_chars\<rparr>
          else if mode = ''full'' then Err SbflLlmError
          else snippets))"

section \<open>Lines that are shown\<close>

lemma render_loop_shows:
  "number \<in> set ns \<Longrightarrow> strip (line_at ls number) \<noteq> [] \<Longrightarrow>
   numbered_line width number (line_at ls number) \<in> set (render_loop ls width previous ns)"
  by (induction ns arbitrary: previous) (auto simp: Let_def)

lemma render_lines_shows:
  "number \<in> set selected \<Longrightarrow> strip (line_at ls number) \<noteq> [] \<Longrightarrow>
   numbered_line (max 4 (length (str_nat (length ls)))) number (line_at ls number)
     \<in> set (render_lines ls selected)"
  by (simp add: render_lines_def render_loop_shows)

lemma expanded_lines_Ok:
  assumes "expanded_lines core n radius = Ok sel" "0 \<le> radius"
  shows "set core \<subseteq> set sel" "set sel \<subseteq> {1..n}"
    "\<forall>s \<in> set sel. \<exists>c \<in> set core. \<bar>s - c\<bar> \<le> radius"
proof -
  obtain rs where rs: "rmapM (\<lambda>line. if line < 1 \<or> n < line then Err SbflLlmError
                     else Ok [max 1 (line - radius)..min n (line + radius)]) core = Inr rs"
      and sel: "sel = concat rs"
    using assms(1) by (auto simp: expanded_lines_def rbind_eq_Ok)
  have l: "list_all2 (\<lambda>c r. 1 \<le> c \<and> c \<le> n \<and> r = [max 1 (c - radius)..min n (c + radius)]) core rs"
    using rs unfolding rmapM_eq_Ok by (rule list_all2_mono) (auto split: if_splits)
  show "set core \<subseteq> set sel"
  proof
    fix c assume "c \<in> set core"
    then obtain r where "r \<in> set rs" "1 \<le> c" "c \<le> n" "r = [max 1 (c - radius)..min n (c + radius)]"
      using list_all2_mem1 [OF l] by blast
    then show "c \<in> set sel" using assms(2) unfolding sel by (auto intro!: bexI [of _ r])
  qed
  have "\<exists>c \<in> set core. 1 \<le> s \<and> s \<le> n \<and> \<bar>s - c\<bar> \<le> radius" if s: "s \<in> set sel" for s
  proof -
    obtain r where r: "r \<in> set rs" "s \<in> set r" using s sel by auto
    then obtain c where "c \<in> set core" "r = [max 1 (c - radius)..min n (c + radius)]"
      using list_all2_mem2 [OF l] by blast
    with r show ?thesis by (intro bexI [of _ c]) auto
  qed
  then show "set sel \<subseteq> {1..n}" "\<forall>s \<in> set sel. \<exists>c \<in> set core. \<bar>s - c\<bar> \<le> radius" by auto
qed

section \<open>Budget\<close>

lemma shrink_radius_Ok:
  assumes "shrink_radius fs rtl cs mx n = Ok b"
  shows "\<exists>r < n. build_regions fs rtl cs ''snippets'' (int r) = Ok (regions b)
    \<and> effective_radius b = Some (int r) \<and> source_mode b = ''snippets''
    \<and> source_chars b = source_chars_of (regions b) \<and> source_chars b \<le> mx
    \<and> (\<forall>r'. r < r' \<and> r' < n \<longrightarrow>
          (\<exists>rs. build_regions fs rtl cs ''snippets'' (int r') = Ok rs \<and> mx < source_chars_of rs))"
  using assms
proof (induction n)
  case (Suc n)
  then obtain rs where rs: "build_regions fs rtl cs ''snippets'' (int n) = Ok rs"
    by (auto simp: rbind_eq_Ok)
  show ?case
  proof (cases "source_chars_of rs \<le> mx")
    case True
    with Suc.prems rs show ?thesis by (intro exI [of _ n]) auto
  next
    case False
    with Suc rs obtain r where r: "r < n" "build_regions fs rtl cs ''snippets'' (int r) = Ok (regions b)"
      "effective_radius b = Some (int r)" "source_mode b = ''snippets''"
      "source_chars b = source_chars_of (regions b)" "source_chars b \<le> mx"
      "\<forall>r'. r < r' \<and> r' < n \<longrightarrow>
          (\<exists>rs. build_regions fs rtl cs ''snippets'' (int r') = Ok rs \<and> mx < source_chars_of rs)"
      by auto
    with False rs show ?thesis by (intro exI [of _ r]) (auto simp: less_Suc_eq)
  qed
qed (simp add: rbind_eq_Ok)

lemma collect_sources_Ok:
  assumes "collect_sources fs rtl cs mode mx radius = Ok b"
  shows "source_chars b \<le> mx \<and> source_chars b = source_chars_of (regions b)
    \<and> ((source_mode b = ''full'' \<and> effective_radius b = None \<and> mode \<noteq> ''snippets''
          \<and> build_regions fs rtl cs ''full'' radius = Ok (regions b))
       \<or> (\<exists>r. 0 \<le> r \<and> r \<le> radius \<and> source_mode b = ''snippets'' \<and> effective_radius b = Some r \<and> mode \<noteq> ''full''
          \<and> build_regions fs rtl cs ''snippets'' r = Ok (regions b)
          \<and> (\<forall>r'. r < r' \<and> r' \<le> radius \<longrightarrow>
               (\<exists>rs. build_regions fs rtl cs ''snippets'' r' = Ok rs \<and> mx < source_chars_of rs))))"
proof -
  have snip: ?thesis if "shrink_radius fs rtl cs mx (nat (radius + 1)) = Ok b" "mode \<noteq> ''full''"
  proof -
    from shrink_radius_Ok [OF that(1)] obtain r where r: "r < nat (radius + 1)"
      "build_regions fs rtl cs ''snippets'' (int r) = Ok (regions b)" "effective_radius b = Some (int r)"
      "source_mode b = ''snippets''" "source_chars b = source_chars_of (regions b)" "source_chars b \<le> mx"
      "\<forall>r'. r < r' \<and> r' < nat (radius + 1) \<longrightarrow>
          (\<exists>rs. build_regions fs rtl cs ''snippets'' (int r') = Ok rs \<and> mx < source_chars_of rs)" by blast
    have larger: "\<exists>rs. build_regions fs rtl cs ''snippets'' r' = Ok rs \<and> mx < source_chars_of rs"
      if "int r < r'" "r' \<le> radius" for r'
      using that r(7) [rule_format, of "nat r'"] by auto
    show ?thesis
      using r that(2) larger by (intro conjI disjI2 exI [of _ "int r"]) auto
  qed
  show ?thesis
    using assms snip by (auto simp: collect_sources_def Let_def rbind_eq_Ok split: if_splits)
qed

lemma build_regions_region:
  assumes "build_regions fs rtl cs mode radius = Ok rs" "c \<in> set cs"
  shows "\<exists>r \<in> set rs. build_region fs rtl mode radius
    (cand_module c, filter (\<lambda>d. cand_module d = cand_module c) cs) = Ok r"
proof -
  let ?g = "group_by cand_module cs" and ?f = "filter (\<lambda>d. cand_module d = cand_module c) cs"
  have ne: "?f \<noteq> []" using assms(2) by (auto simp: filter_empty_conv)
  have m: "cand_module c \<in> set (dict_keys ?g)"
    using group_by_keys [of cand_module cs] assms(2) by (simp add: dict_keys_def)
  have "dict_get ?g (cand_module c) [] = ?f"
    using ne by (simp add: dict_get_def map_of_group_by Let_def)
  then have "(cand_module c, ?f) \<in> set (map (\<lambda>m. (m, dict_get ?g m [])) (sort (dict_keys ?g)))"
    using m by force
  then show ?thesis
    using assms(1) list_all2_mem1 unfolding build_regions_def Let_def rmapM_eq_Ok by fast
qed

definition shows_line :: "fs \<Rightarrow> path \<Rightarrow> candidate \<Rightarrow> int \<Rightarrow> region \<Rightarrow> bool" where
  "shows_line fs rtl c l r \<longleftrightarrow>
     (\<exists>p text. find_module_source fs rtl (cand_module c) = Ok p \<and> read_text fs p = Ok text
        \<and> (let ls = splitlines text in 1 \<le> l \<and> l \<le> int (length ls) \<and> strip (line_at ls l) \<noteq> []
           \<longrightarrow> (\<exists>shown. region_source r = join [NL] shown
                  \<and> numbered_line (max 4 (length (str_nat (length ls)))) l (line_at ls l) \<in> set shown)))"

lemma build_region_shows:
  assumes "build_region fs rtl mode radius (cand_module c, ds) = Ok r" "c \<in> set ds" "l \<in> set (cand_lines c)" "0 \<le> radius"
  shows "region_module r = cand_module c \<and> shows_line fs rtl c l r"
proof -
  obtain p t selected where p: "find_module_source fs rtl (cand_module c) = Ok p" "read_text fs p = Ok t"
    and sel: "(if mode = ''full'' then Ok [1..int (length (splitlines t))]
       else expanded_lines (concat (map cand_lines ds)) (int (length (splitlines t))) radius) = Ok selected"
    and r: "region_module r = cand_module c" "region_source r = render_selected (splitlines t) selected"
    using assms(1) by (auto simp: build_region_def Let_def rbind_eq_Ok split: if_splits)
  have core: "l \<in> set (concat (map cand_lines ds))" using assms(2,3) by auto
  have "l \<in> set selected" if "1 \<le> l" "l \<le> int (length (splitlines t))"
  proof (cases "mode = ''full''")
    case True
    with sel that show ?thesis by auto
  next
    case False
    with sel expanded_lines_Ok(1) [OF _ assms(4)] core show ?thesis by (simp only: if_False) blast
  qed
  then show ?thesis
    using p r render_lines_shows unfolding shows_line_def Let_def render_selected_def by blast
qed

section \<open>Properties\<close>

text \<open>C29: a returned source bundle fits the character budget, and its recorded size is
  the size of its regions. Either it is the full source, or it is the snippets of the largest
  radius up to the requested one that fits: every larger radius was tried and exceeds the
  budget.\<close>

theorem collect_sources_budget:
  assumes "collect_sources fs rtl_root candidates mode max_chars radius = Ok b"
  shows "source_chars b \<le> max_chars \<and> source_chars b = source_chars_of (regions b)
    \<and> ((source_mode b = ''full'' \<and> effective_radius b = None \<and> mode \<noteq> ''snippets''
          \<and> build_regions fs rtl_root candidates ''full'' radius = Ok (regions b))
       \<or> (\<exists>r. 0 \<le> r \<and> r \<le> radius \<and> source_mode b = ''snippets'' \<and> effective_radius b = Some r \<and> mode \<noteq> ''full''
          \<and> build_regions fs rtl_root candidates ''snippets'' r = Ok (regions b)
          \<and> (\<forall>r'. r < r' \<and> r' \<le> radius \<longrightarrow>
               (\<exists>rs. build_regions fs rtl_root candidates ''snippets'' r' = Ok rs
                  \<and> max_chars < source_chars_of rs))))"
  using assms by (rule collect_sources_Ok)

text \<open>C20: whatever the mode and however far the context shrinks, every non-blank source
  line of a candidate's block is shown, with its number, in the region of its module.\<close>

theorem collect_sources_shows_candidates:
  assumes "collect_sources fs rtl_root candidates mode max_chars radius = Ok b"
    and "c \<in> set candidates" and "l \<in> set (cand_lines c)" and "0 \<le> radius"
  shows "\<exists>r \<in> set (regions b). region_module r = cand_module c \<and> shows_line fs rtl_root c l r"
proof -
  obtain m r where m: "build_regions fs rtl_root candidates m r = Ok (regions b)" "0 \<le> r"
    using collect_sources_Ok [OF assms(1)] assms(4) by blast
  obtain g where g: "g \<in> set (regions b)"
    "build_region fs rtl_root m r (cand_module c, filter (\<lambda>d. cand_module d = cand_module c) candidates) = Ok g"
    using build_regions_region [OF m(1) assms(2)] by blast
  then show ?thesis using build_region_shows [OF g(2) _ assms(3) m(2)] assms(2) by auto
qed

definition sample_rtl :: fs where
  "sample_rtl =
     [(path_of ''rtl'', Directory),
      (path_of ''rtl/ma.sv'', File (join [NL] [''module ma;'', ''assign a = b;'', ''endmodule''])),
      (path_of ''rtl/x/m.sv'', File (concat (replicate 12 [NL]) @ ''assign q = d;''))]"

lemma sample_collected: "\<exists>b. collect_sources sample_rtl (path_of ''rtl'') sample_candidates ''auto'' 60 2 = Ok b"
proof -
  have "(case collect_sources sample_rtl (path_of ''rtl'') sample_candidates ''auto'' 60 2 of
      Inr b \<Rightarrow> True | Inl _ \<Rightarrow> False)" by code_simp
  then show ?thesis by (auto split: sum.splits)
qed

theorem collect_sources_budget_witness:
  "\<exists>b. collect_sources sample_rtl (path_of ''rtl'') sample_candidates ''auto'' 60 2 = Ok b
    \<and> source_chars b \<le> 60"
proof -
  obtain b where b: "collect_sources sample_rtl (path_of ''rtl'') sample_candidates ''auto'' 60 2 = Ok b"
    using sample_collected by (elim exE)
  then show ?thesis using collect_sources_budget [OF b] by (intro exI [of _ b]) simp
qed

theorem collect_sources_shows_candidates_witness:
  "\<exists>b. collect_sources sample_rtl (path_of ''rtl'') sample_candidates ''auto'' 60 2 = Ok b
    \<and> (\<exists>r \<in> set (regions b). region_module r = ''m''
         \<and> shows_line sample_rtl (path_of ''rtl'') (sample_candidates ! 1) 13 r)"
proof -
  obtain b where b: "collect_sources sample_rtl (path_of ''rtl'') sample_candidates ''auto'' 60 2 = Ok b"
    using sample_collected by (elim exE)
  have c: "sample_candidates ! 1 \<in> set sample_candidates" "13 \<in> set (cand_lines (sample_candidates ! 1))"
    "cand_module (sample_candidates ! 1) = ''m''"
    by (simp_all add: sample_candidates_def)
  show ?thesis using collect_sources_shows_candidates [OF b c(1,2)] b c(3) by (intro exI [of _ b]) simp
qed

end
