(* ===== verification/Offline_Artifacts.thy ===== *)
theory Offline_Artifacts
  imports Offline_Ranking Snippets
begin

text \<open>
  \<open>ibex_sbfl_rerank/artifacts.py\<close>: candidates and assessments read back from a saved prompt and
  its result. The line ranges the prompt prints for a candidate are read back as its lines.
\<close>

section \<open>Model\<close>

definition CANDIDATE_HEADING :: string where
  "CANDIDATE_HEADING = ''# SBFL candidates''"

definition FENCED_TEXT_RE :: re where
  "FENCED_TEXT_RE = Seqs [Lit ''```'', Opt (Lit ''json''), Many is_space, Cap ''1'' (Few (\<lambda>_. True)),
     Many is_space, Lit ''```'']"

definition FENCED_ARRAY_RE :: re where
  "FENCED_ARRAY_RE = Seqs [Lit ''```json'', Many is_space,
     Cap ''1'' (Seqs [Lit ''['', Few (\<lambda>_. True), Lit '']'']), Many is_space, Lit ''```'']"

definition json_object_from_text :: "decoder \<Rightarrow> string \<Rightarrow> jobj res" where
  "json_object_from_text loads text =
     (let stripped0 = strip text;
          stripped = (case re_fullmatch FENCED_TEXT_RE stripped0 of
                        Some e \<Rightarrow> the (group e ''1'') | None \<Rightarrow> stripped0)
      in rbind (case loads stripped of
             Some v \<Rightarrow> Ok v
           | None \<Rightarrow>
               (case (find_sub ''{'' stripped, rfind_char CHR ''}'' stripped) of
                  (Some start, Some stop) \<Rightarrow>
                    if stop \<le> start then Err RerankError
                    else res_of RerankError (loads (drop start (take (stop + 1) stripped)))
                | _ \<Rightarrow> Err RerankError))
           (\<lambda>v. case v of JObj d \<Rightarrow> Ok d | _ \<Rightarrow> Err RerankError))"

text \<open>\<open>part.split("-", 1)\<close> of a part with a dash.\<close>

definition expand_part :: "string \<Rightarrow> int list res" where
  "expand_part part =
     (if CHR ''-'' \<in> set part
      then (let first_text = takeWhile (\<lambda>c. c \<noteq> CHR ''-'') part;
                last_text = tl (dropWhile (\<lambda>c. c \<noteq> CHR ''-'') part)
            in case (py_int first_text, py_int last_text) of
                 (Some first, Some last1) \<Rightarrow> if last1 < first then Err RerankError else Ok [first..last1]
               | _ \<Rightarrow> Err RerankError)
      else rbind (res_of RerankError (py_int part)) (\<lambda>i. Ok [i]))"

definition expand_line_ranges :: "json \<Rightarrow> int list res" where
  "expand_line_ranges v =
     (case v of
        JStr s \<Rightarrow>
          rbind (rmapM expand_part (filter (\<lambda>p. p \<noteq> []) (map strip (split_char CHR '','' s))))
            (\<lambda>rs. let ls = concat rs in if ls = [] then Err RerankError else Ok (sorted_set ls))
      | _ \<Rightarrow> Err RerankError)"

definition candidate_fields :: "string list" where
  "candidate_fields = [''candidate_id'', ''original_rank'', ''suspiciousness'', ''module'', ''scope'',
     ''bid'', ''block_type'', ''line_ranges'']"

type_synonym prompt_state = "string list \<times> int list \<times> candidate list"

definition add_prompt_candidate :: "prompt_state \<Rightarrow> json \<Rightarrow> prompt_state res" where
  "add_prompt_candidate st raw =
     (case (st, raw) of
        ((seen_ids, seen_ranks, candidates), JObj raw) \<Rightarrow>
          if \<not> list_all (\<lambda>f. map_of raw f \<noteq> None) candidate_fields then Err RerankError
          else (let cid = py_str (the (map_of raw ''candidate_id'')) in
            rbind (rcatch is_number_error RerankError
               (rbind (to_int (the (map_of raw ''original_rank''))) (\<lambda>r.
                rbind (to_int (the (map_of raw ''bid''))) (\<lambda>b. Ok (r, b)))))
              (\<lambda>(orank, bid1).
                 if cid = [] \<or> cid \<in> set seen_ids then Err RerankError
                 else if orank \<le> 0 \<or> orank \<in> set seen_ranks then Err RerankError
                 else rbind (expand_line_ranges (the (map_of raw ''line_ranges''))) (\<lambda>ls.
                   Ok (cid # seen_ids, orank # seen_ranks, candidates @
                     [\<lparr>candidate_id = cid, original_rank = orank,
                       suspiciousness = py_str (the (map_of raw ''suspiciousness'')),
                       cand_module = py_str (the (map_of raw ''module'')),
                       cand_scope = py_str (the (map_of raw ''scope'')), cand_bid = bid1,
                       cand_lines = ls, block_type = py_str (the (map_of raw ''block_type''))\<rparr>]))))
      | _ \<Rightarrow> Err RerankError)"

definition candidates_of_json :: "json \<Rightarrow> candidate list res" where
  "candidates_of_json v =
     (case v of
        JArr (r # rs) \<Rightarrow> rbind (rfoldM add_prompt_candidate ([], [], []) (r # rs)) (\<lambda>(_, _, cs). Ok cs)
      | _ \<Rightarrow> Err RerankError)"

definition parse_prompt_candidates :: "decoder \<Rightarrow> fs \<Rightarrow> path \<Rightarrow> candidate list res" where
  "parse_prompt_candidates loads fs prompt_path =
     rbind (rcatch is_os_error RerankError (read_text fs prompt_path)) (\<lambda>prompt.
       case find_sub CANDIDATE_HEADING prompt of
         None \<Rightarrow> Err RerankError
       | Some i \<Rightarrow>
           (let candidate_section = drop (i + length CANDIDATE_HEADING) prompt in
            case re_search FENCED_ARRAY_RE candidate_section of
              None \<Rightarrow> Err RerankError
            | Some e \<Rightarrow> rbind (res_of RerankError (loads (the (group e ''1'')))) candidates_of_json))"

definition load_saved_result :: "decoder \<Rightarrow> fs \<Rightarrow> path \<Rightarrow> jobj res" where
  "load_saved_result loads fs p =
     rbind (rcatch is_os_error RerankError (read_text fs p)) (\<lambda>text.
       case loads text of Some (JObj d) \<Rightarrow> Ok d | _ \<Rightarrow> Err RerankError)"

definition parse_raw_assessments :: "decoder \<Rightarrow> jobj \<Rightarrow> jobj list res" where
  "parse_raw_assessments loads result =
     rbind (case dict_get result ''raw_model_response'' JNull of
              JStr s \<Rightarrow> json_object_from_text loads s
            | JObj d \<Rightarrow> Ok d
            | _ \<Rightarrow> Err RerankError)
       (\<lambda>response.
          case dict_get response ''assessments'' JNull of
            JArr (a # as) \<Rightarrow> rmapM (\<lambda>v. case v of JObj d \<Rightarrow> Ok d | _ \<Rightarrow> Err RerankError) (a # as)
          | _ \<Rightarrow> Err RerankError)"

section \<open>Line ranges are read back\<close>

lemma str_int_no_dash: "0 \<le> i \<Longrightarrow> CHR ''-'' \<notin> set (str_int i)"
  using str_int_nonneg_digits by (fastforce simp: is_digit_def code_def)

lemma expand_range_text:
  assumes "0 \<le> a" "a \<le> b"
  shows "expand_part (range_text a b) = Ok [a..b]"
proof (cases "a = b")
  case True
  then show ?thesis using str_int_no_dash [OF assms(1)] by (simp add: expand_part_def range_text_def)
next
  case False
  let ?p = "\<lambda>c. c \<noteq> CHR ''-''"
  have nd: "\<forall>c \<in> set (str_int a). ?p c" using str_int_no_dash [OF assms(1)] by metis
  then have "takeWhile ?p (str_int a @ ''-'' @ str_int b) = str_int a"
    "dropWhile ?p (str_int a @ ''-'' @ str_int b) = ''-'' @ str_int b"
    by (simp_all add: takeWhile_append2 dropWhile_append2)
  then show ?thesis using False assms by (simp add: expand_part_def range_text_def Let_def)
qed

lemma compress_loop_expand:
  assumes "0 \<le> a" "a \<le> b" "sorted vs" "distinct vs" "\<forall>v \<in> set vs. b < v"
  shows "rmapM expand_part (compress_loop a b vs) = Ok rs \<longrightarrow> concat rs = [a..b] @ vs"
    and "\<exists>rs. rmapM expand_part (compress_loop a b vs) = Ok rs"
proof -
  have "\<exists>rs. rmapM expand_part (compress_loop a b vs) = Ok rs \<and> concat rs = [a..b] @ vs"
    using assms
  proof (induction vs arbitrary: a b)
    case Nil
    then show ?case by (simp add: expand_range_text)
  next
    case (Cons v vs)
    show ?case
    proof (cases "v = b + 1")
      case True
      have "[a..v] = [a..b] @ [v]" using True Cons.prems(2) by (simp add: upto_rec2)
      moreover have "\<exists>rs. rmapM expand_part (compress_loop a v vs) = Ok rs \<and> concat rs = [a..v] @ vs"
        using Cons.prems True by (intro Cons.IH) (auto simp: order_less_le)
      ultimately show ?thesis using True by auto
    next
      case False
      have "\<exists>rs. rmapM expand_part (compress_loop v v vs) = Ok rs \<and> concat rs = [v..v] @ vs"
        using Cons.prems by (intro Cons.IH) (auto simp: order_less_le)
      then show ?thesis using False Cons.prems by (auto simp: expand_range_text)
    qed
  qed
  then show "\<exists>rs. rmapM expand_part (compress_loop a b vs) = Ok rs"
    "rmapM expand_part (compress_loop a b vs) = Ok rs \<longrightarrow> concat rs = [a..b] @ vs" by auto
qed

lemma range_text_chars: "0 \<le> a \<Longrightarrow> 0 \<le> b \<Longrightarrow> c \<in> set (range_text a b) \<Longrightarrow> is_digit c \<or> c = CHR ''-''"
  by (auto simp: range_text_def dest: str_int_nonneg_digits split: if_splits)

lemma compress_loop_parts:
  assumes "0 \<le> a" "0 \<le> b" "\<forall>v \<in> set vs. 0 \<le> v" "w \<in> set (compress_loop a b vs)"
  shows "w \<noteq> [] \<and> (\<forall>c \<in> set w. is_digit c \<or> c = CHR ''-'')"
  using assms
proof (induction vs arbitrary: a b)
  case Nil
  then show ?case using range_text_chars by (auto simp: range_text_def)
next
  case (Cons v vs)
  have r: "range_text a b \<noteq> []" by (simp add: range_text_def)
  show ?case
    using Cons.IH [of a v] Cons.IH [of v v] Cons.prems r range_text_chars [of a b]
    by (auto split: if_splits)
qed

lemma compress_loop_nonempty [simp]: "compress_loop a b vs \<noteq> []"
  by (induction vs arbitrary: a b) auto

lemma expand_compress:
  assumes "ls \<noteq> []" "\<forall>l \<in> set ls. 0 \<le> l"
  shows "expand_line_ranges (JStr (compress_line_ranges ls)) = Ok (sorted_set ls)"
proof -
  obtain v vs where v: "sorted_set ls = v # vs" using assms(1) by (cases "sorted_set ls") auto
  have sd: "sorted (v # vs)" "distinct (v # vs)" using v sorted_sorted_set distinct_sorted_set by metis+
  have pos: "\<forall>x \<in> set (v # vs). 0 \<le> x" using assms(2) v by (metis set_sorted_set)
  let ?ps = "compress_loop v v vs"
  have parts: "w \<noteq> [] \<and> (\<forall>c \<in> set w. is_digit c \<or> c = CHR ''-'')" if "w \<in> set ?ps" for w
    using compress_loop_parts [OF _ _ _ that] pos by auto
  have strip_part: "strip w = w" if "w \<in> set ?ps" for w
  proof (rule strip_no_space)
    fix c assume "c \<in> set w"
    then have "is_digit c \<or> c = CHR ''-''" using parts [OF that] by blast
    then show "\<not> is_space c" using digit_not_space by (auto simp: is_space_def code_def)
  qed
  have "CHR '','' \<notin> set w" if "w \<in> set ?ps" for w
    using parts [OF that] by (auto simp: is_digit_def code_def)
  then have "split_char CHR '','' (join '','' ?ps) = ?ps" by (intro split_char_join) simp_all
  moreover have "map strip ?ps = ?ps" using strip_part by (simp add: map_idI)
  moreover have "filter (\<lambda>p. p \<noteq> []) ?ps = ?ps" using parts by (simp add: filter_id_conv)
  moreover obtain rs where "rmapM expand_part ?ps = Ok rs" "concat rs = v # vs"
    using compress_loop_expand [of v v vs] sd pos by (auto simp: order_less_le)
  ultimately show ?thesis
    using v sd by (simp add: expand_line_ranges_def compress_line_ranges_def del: concat_eq_Nil_conv)
qed

text \<open>Sorted sets of line numbers, printed by the prompt and read by the offline tool.\<close>

interpretation line_text: codec compress_line_ranges
    "\<lambda>s. case expand_line_ranges (JStr s) of Inr ls \<Rightarrow> Some ls | Inl _ \<Rightarrow> None"
    "\<lambda>ls. ls \<noteq> [] \<and> sorted ls \<and> distinct ls \<and> (\<forall>l \<in> set ls. 0 \<le> l)"
  by unfold_locales (simp add: expand_compress)

section \<open>The candidates of a prompt\<close>

definition prompt_inv :: "prompt_state \<Rightarrow> bool" where
  "prompt_inv st \<longleftrightarrow> (case st of (ids, ranks, cs) \<Rightarrow>
     distinct (map candidate_id cs) \<and> distinct (map original_rank cs)
     \<and> set ids = candidate_id ` set cs \<and> set ranks = original_rank ` set cs
     \<and> (\<forall>c \<in> set cs. wf_candidate c \<and> cand_lines c \<noteq> [] \<and> 0 < original_rank c))"

lemma expand_line_ranges_sorted:
  "expand_line_ranges v = Ok ls \<Longrightarrow> sorted ls \<and> distinct ls \<and> ls \<noteq> []"
  by (auto simp: expand_line_ranges_def rbind_eq_Ok Let_def split: json.splits if_splits)

lemma prompt_inv_step:
  assumes "prompt_inv st" "add_prompt_candidate st raw = Ok st'"
  shows "prompt_inv st' \<and> snd (snd st') \<noteq> []"
proof -
  obtain ids ranks cs where st: "st = (ids, ranks, cs)" by (cases st)
  obtain d where "raw = JObj d" using assms(2) by (cases raw) (auto simp: add_prompt_candidate_def st)
  then obtain c where c: "st' = (candidate_id c # ids, original_rank c # ranks, cs @ [c])"
      "candidate_id c \<noteq> []" "candidate_id c \<notin> set ids" "0 < original_rank c" "original_rank c \<notin> set ranks"
      "sorted (cand_lines c) \<and> distinct (cand_lines c) \<and> cand_lines c \<noteq> []"
    using assms(2) expand_line_ranges_sorted
    by (fastforce simp: add_prompt_candidate_def st Let_def rbind_eq_Ok split: if_splits)
  with assms(1) show ?thesis by (auto simp: prompt_inv_def st wf_candidate_def)
qed

lemma candidates_of_json_inv:
  assumes "candidates_of_json v = Ok cs"
  shows "cs \<noteq> [] \<and> (\<exists>ids ranks. prompt_inv (ids, ranks, cs))"
proof -
  obtain r rs ids ranks where f: "rfoldM add_prompt_candidate ([], [], []) (r # rs) = Ok (ids, ranks, cs)"
    using assms by (auto simp: candidates_of_json_def rbind_eq_Ok split: json.splits list.splits simp del: rfoldM.simps)
  obtain st1 where st1: "add_prompt_candidate ([], [], []) r = Ok st1" "rfoldM add_prompt_candidate st1 rs = Ok (ids, ranks, cs)"
    using f by (auto simp: rbind_eq_Ok)
  have "prompt_inv ([], [], [])" by (simp add: prompt_inv_def)
  then have i1: "prompt_inv st1 \<and> snd (snd st1) \<noteq> []" using prompt_inv_step st1(1) by blast
  have "prompt_inv (ids, ranks, cs) \<and> snd (snd (ids, ranks, cs)) \<noteq> []"
    by (rule rfoldM_invariant [OF st1(2), where P = "\<lambda>st. prompt_inv st \<and> snd (snd st) \<noteq> []"])
      (use i1 prompt_inv_step in blast)+
  then show ?thesis by auto
qed

section \<open>Properties\<close>

text \<open>C28: the line ranges the prompt prints for a candidate are read back by the offline
  tool as the sorted set of its lines, for every non-empty set of non-negative lines.\<close>

theorem expand_compress_line_ranges:
  assumes "ls \<noteq> []" and "\<forall>l \<in> set ls. 0 \<le> l"
  shows "expand_line_ranges (JStr (compress_line_ranges ls)) = Ok (sorted_set ls)"
  using assms by (rule expand_compress)

theorem expand_compress_line_ranges_witness:
  "compress_line_ranges [7, 3, 4, 5, 4] = ''3-5,7''
   \<and> expand_line_ranges (JStr (compress_line_ranges [7, 3, 4, 5, 4])) = Ok [3, 4, 5, 7]"
proof -
  have "compress_line_ranges [7, 3, 4, 5, 4] = ''3-5,7''" by code_simp
  moreover have "sorted_set [7, 3, 4, 5, 4] = [3, 4, 5, 7 :: int]" by code_simp
  ultimately show ?thesis using expand_compress_line_ranges [of "[7, 3, 4, 5, 4]"] by simp
qed

text \<open>The candidates read from a saved prompt are at least one; their identifiers
  are non-empty and distinct, their original ranks positive and distinct, and each has a
  non-empty sorted list of distinct lines.\<close>

theorem parse_prompt_candidates_wf:
  assumes "parse_prompt_candidates loads fs p = Ok cs"
  shows "cs \<noteq> [] \<and> distinct (map candidate_id cs) \<and> distinct (map original_rank cs)
    \<and> (\<forall>c \<in> set cs. wf_candidate c \<and> cand_lines c \<noteq> [] \<and> 0 < original_rank c)"
proof -
  obtain v where "candidates_of_json v = Ok cs"
    using assms by (auto simp: parse_prompt_candidates_def Let_def rbind_eq_Ok split: option.splits)
  from candidates_of_json_inv [OF this] show ?thesis by (auto simp: prompt_inv_def)
qed

definition sample_prompt_json :: json where
  "sample_prompt_json = JArr [JObj [(''candidate_id'', JStr ''B001''), (''original_rank'', JInt 1),
     (''suspiciousness'', JStr ''1''), (''module'', JStr ''m''), (''scope'', JStr ''s''), (''bid'', JInt 2),
     (''block_type'', JStr []), (''line_ranges'', JStr ''3-4'')]]"

end
