(* ===== verification/Llm_Client.thy ===== *)
theory Llm_Client
  imports Offline_Artifacts
begin

text \<open>
  \<open>ibex_sbfl_llm/prompting.py\<close>, \<open>llm/gpt.py\<close>, \<open>llm/glm.py\<close>, \<open>llm/claude.py\<close> and
  \<open>llm/llm_client.py\<close>: the prompts, the payloads sent to the model services, and the retry
  loop around a request.

  Arguments stand for what is outside the repository's Python code: the prompt templates
  (\<open>load_prompt\<close>), the JSON encoder of the two calls of \<open>json.dumps\<close>, SHA-256, the schema
  and the validation of pydantic, and the service itself, which answers the \<open>n\<close>-th request with
  an error or a response. An SDK response object is the JSON object of its attributes; an SDK
  exception is the record of what the client reads of it.
\<close>

section \<open>Prompts\<close>

definition GENERIC_TEST_INFO :: string where
  "GENERIC_TEST_INFO = ''Differential processor testing observed an architectural mismatch. '' @
     ''No more specific failure report was supplied; infer cautiously from the SBFL evidence '' @
     ''and the provided RTL, and use `insufficient_evidence` when appropriate.''"

definition resolve_test_info ::
  "(path \<Rightarrow> path) \<Rightarrow> fs \<Rightarrow> path \<Rightarrow> string option \<Rightarrow> path option \<Rightarrow> (string \<times> string) res" where
  "resolve_test_info resolve fs sbfl_dir explicit_text explicit_file =
     (case explicit_text of
        Some (c # cs) \<Rightarrow> Ok (strip (c # cs), ''command_line'')
      | _ \<Rightarrow>
        (case explicit_file of
           Some f \<Rightarrow> (let p = resolve f in rbind (read_text fs p) (\<lambda>t. Ok (strip t, path_str p)))
         | None \<Rightarrow>
             (case find (is_file fs) (map (path_div sbfl_dir)
                     [''test_info.md'', ''test_info.txt'', ''test_info.json'']) of
                Some p \<Rightarrow> rbind (read_text fs p) (\<lambda>t. Ok (strip t, path_str p))
              | None \<Rightarrow> Ok (GENERIC_TEST_INFO, ''generic''))))"

definition compact_candidate :: "candidate \<Rightarrow> jobj" where
  "compact_candidate c =
     [(''candidate_id'', JStr (candidate_id c)), (''original_rank'', JInt (original_rank c)),
      (''suspiciousness'', JStr (suspiciousness c)), (''module'', JStr (cand_module c)),
      (''scope'', JStr (cand_scope c)), (''bid'', JInt (cand_bid c)),
      (''block_type'', JStr (block_type c)),
      (''line_ranges'', JStr (compress_line_ranges (cand_lines c)))]"

definition source_section :: "(json \<Rightarrow> string) \<Rightarrow> region \<Rightarrow> string" where
  "source_section dumps_sorted r =
     ''## Module `'' @ region_module r @ ''` (`'' @ path_name (path_of (region_path r)) @ ''`)'' @ [NL, NL] @
     ''Candidate line mappings: `'' @
       dumps_sorted (JObj (map (\<lambda>(k, v). (k, JStr v)) (candidate_ranges r))) @ ''`'' @ [NL, NL] @
     ''```systemverilog'' @ [NL] @ region_source r @ [NL] @ ''```''"

definition build_user_prompt ::
  "(string \<Rightarrow> string) \<Rightarrow> (json \<Rightarrow> string) \<Rightarrow> (json \<Rightarrow> string) \<Rightarrow> candidate list \<Rightarrow> source_bundle
   \<Rightarrow> string \<Rightarrow> bool \<Rightarrow> string" where
  "build_user_prompt load_prompt dumps_sorted dumps_indent candidates sources test_info include_reason =
     (let replacements =
            [(''{test_info}'', test_info),
             (''{candidates_json}'', dumps_indent (JArr (map (\<lambda>c. JObj (compact_candidate c)) candidates))),
             (''{source_sections}'', join [NL, NL] (map (source_section dumps_sorted) (regions sources)))]
      in foldl (\<lambda>prompt (k, v). replace_all k v prompt)
           (load_prompt (if include_reason then ''rerank_with_reason.md'' else ''rerank.md'')) replacements)"

definition build_repair_prompt ::
  "(string \<Rightarrow> string) \<Rightarrow> string \<Rightarrow> candidate list \<Rightarrow> bool \<Rightarrow> string" where
  "build_repair_prompt load_prompt validation_error candidates include_reason =
     (let response_fields = (if include_reason then ''`candidate_id`, `score`, and `reason`''
                             else ''`candidate_id` and `score`'')
      in replace_all ''{response_fields}'' response_fields
           (replace_all ''{candidate_ids}'' (join '', '' (map candidate_id candidates))
              (replace_all ''{validation_error}'' validation_error (load_prompt ''repair.md''))))"

definition prompt_metadata :: "(string \<Rightarrow> string) \<Rightarrow> string \<Rightarrow> string \<Rightarrow> jobj" where
  "prompt_metadata sha system_prompt user_prompt =
     [(''system_prompt_sha256'', JStr (sha system_prompt)),
      (''user_prompt_sha256'', JStr (sha user_prompt)),
      (''prompt_sha256'', JStr (sha (system_prompt @ [NL, NL] @ user_prompt)))]"

section \<open>Providers\<close>

record provider_request =
  req_model :: string
  system_prompt :: string
  input_items :: "jobj list"
  temperature :: "pyfloat option"
  max_output_tokens :: int
  reasoning_effort :: string
  include_reason :: bool

text \<open>\<open>GptClient\<close> and \<open>GlmClient\<close> normalize their base address alike.\<close>

definition normalize_base_url :: "string \<Rightarrow> string" where
  "normalize_base_url base_url =
     (let v = rstrip_by (\<lambda>c. c = CHR ''/'') base_url in
      if endswith v ''/chat/completions'' then removesuffix v ''/chat/completions''
      else if endswith v ''/responses'' then removesuffix v ''/responses'' else v)"

definition claude_base_url :: "string \<Rightarrow> string" where
  "claude_base_url base_url =
     removesuffix (removesuffix (rstrip_by (\<lambda>c. c = CHR ''/'') base_url) ''/messages'') ''/v1''"

definition text_format :: "(bool \<Rightarrow> json) \<Rightarrow> structured_mode \<Rightarrow> bool \<Rightarrow> jobj option" where
  "text_format schema mode reasons =
     (case mode of
        json_schema \<Rightarrow> Some [(''type'', JStr ''json_schema''), (''name'', JStr ''candidate_assessments''),
                         (''strict'', JBool True), (''schema'', schema reasons)]
      | json_object \<Rightarrow> Some [(''type'', JStr ''json_object'')]
      | prompt_only \<Rightarrow> None)"

definition chat_response_format :: "(bool \<Rightarrow> json) \<Rightarrow> structured_mode \<Rightarrow> bool \<Rightarrow> jobj option" where
  "chat_response_format schema mode reasons =
     (case text_format schema mode reasons of
        None \<Rightarrow> None
      | Some f \<Rightarrow>
          if map_of f ''type'' = Some (JStr ''json_object'') then Some f
          else Some [(''type'', JStr ''json_schema''),
                     (''json_schema'', JObj [(''name'', the (map_of f ''name'')),
                        (''strict'', the (map_of f ''strict'')), (''schema'', the (map_of f ''schema''))])])"

definition opt_field :: "string \<Rightarrow> json option \<Rightarrow> jobj \<Rightarrow> jobj" where
  "opt_field k v d = (case v of None \<Rightarrow> d | Some x \<Rightarrow> AList.update k x d)"

definition message :: "string \<Rightarrow> string \<Rightarrow> jobj" where
  "message role content = [(''role'', JStr role), (''content'', JStr content)]"

definition gpt_response_payload :: "(bool \<Rightarrow> json) \<Rightarrow> provider_request \<Rightarrow> structured_mode \<Rightarrow> jobj" where
  "gpt_response_payload schema r mode =
     opt_field ''temperature'' (map_option JFloat (temperature r))
      (opt_field ''text'' (map_option (\<lambda>f. JObj [(''format'', JObj f)]) (text_format schema mode (include_reason r)))
        [(''model'', JStr (req_model r)), (''reasoning'', JObj [(''effort'', JStr (reasoning_effort r))]),
         (''instructions'', JStr (system_prompt r)), (''input'', JArr (map JObj (input_items r))),
         (''store'', JBool False)])"

definition gpt_chat_payload :: "(bool \<Rightarrow> json) \<Rightarrow> provider_request \<Rightarrow> structured_mode \<Rightarrow> jobj" where
  "gpt_chat_payload schema r mode =
     opt_field ''temperature'' (map_option JFloat (temperature r))
      (opt_field ''response_format'' (map_option JObj (chat_response_format schema mode (include_reason r)))
        [(''model'', JStr (req_model r)), (''reasoning_effort'', JStr (reasoning_effort r)),
         (''messages'', JArr (map JObj (message ''system'' (system_prompt r) # input_items r)))])"

definition glm_payload :: "provider_request \<Rightarrow> structured_mode \<Rightarrow> jobj" where
  "glm_payload r mode =
     opt_field ''temperature'' (map_option JFloat (temperature r))
      (opt_field ''response_format''
         (if mode = json_object then Some (JObj [(''type'', JStr ''json_object'')]) else None)
        [(''model'', JStr (req_model r)),
         (''messages'', JArr (map JObj (message ''system'' (system_prompt r) # input_items r))),
         (''max_tokens'', JInt (max_output_tokens r)), (''thinking'', JObj [(''type'', JStr ''enabled'')])])"

definition claude_payload :: "(bool \<Rightarrow> json) \<Rightarrow> (json \<Rightarrow> json) \<Rightarrow> provider_request \<Rightarrow> structured_mode \<Rightarrow> jobj" where
  "claude_payload schema transform r mode =
     opt_field ''temperature'' (map_option JFloat (temperature r))
        [(''model'', JStr (req_model r)), (''max_tokens'', JInt (max_output_tokens r)),
         (''system'', JStr (system_prompt r)), (''messages'', JArr (map JObj (input_items r))),
         (''output_config'', JObj ((''effort'', JStr (reasoning_effort r)) #
            (if mode = json_schema
             then [(''format'', JObj [(''type'', JStr ''json_schema''),
                     (''schema'', transform (schema (include_reason r)))])] else [])))]"

text \<open>\<open>structured_modes\<close> of the three clients; another setting is a \<open>KeyError\<close>.\<close>

definition gpt_modes :: "string \<Rightarrow> structured_mode list res" where
  "gpt_modes structured_output = res_of KeyError (map_of
     [(''strict'', [json_schema]), (''auto'', [json_schema, json_object, prompt_only]),
      (''off'', [prompt_only])] structured_output)"

definition glm_modes :: "string \<Rightarrow> structured_mode list res" where
  "glm_modes structured_output = res_of KeyError (map_of
     [(''strict'', [json_object]), (''auto'', [json_object, prompt_only]), (''off'', [prompt_only])]
     structured_output)"

definition claude_modes :: "string \<Rightarrow> structured_mode list res" where
  "claude_modes structured_output = res_of KeyError (map_of
     [(''strict'', [json_schema]), (''auto'', [json_schema, prompt_only]), (''off'', [prompt_only])]
     structured_output)"

text \<open>\<open>getattr(x, k, d)\<close> of an SDK object.\<close>

definition attr :: "json \<Rightarrow> string \<Rightarrow> json \<Rightarrow> json" where
  "attr v k d = (case v of JObj o1 \<Rightarrow> dict_get o1 k d | _ \<Rightarrow> d)"

definition str_or_empty :: "json \<Rightarrow> string" where
  "str_or_empty v = (case v of JStr s \<Rightarrow> s | _ \<Rightarrow> [])"

definition chat_output_text :: "json \<Rightarrow> string" where
  "chat_output_text response =
     (case attr response ''choices'' JNull of
        JArr (choice # _) \<Rightarrow> str_or_empty (attr (attr choice ''message'' JNull) ''content'' (JStr []))
      | _ \<Rightarrow> [])"

definition gpt_output_text :: "api_protocol \<Rightarrow> json \<Rightarrow> string" where
  "gpt_output_text protocol response =
     (if protocol = openai_responses then str_or_empty (attr response ''output_text'' (JStr []))
      else chat_output_text response)"

definition claude_output_text :: "json \<Rightarrow> string" where
  "claude_output_text response =
     (case attr response ''content'' JNull of
        JArr blocks \<Rightarrow> concat (map (\<lambda>b.
           if attr b ''type'' JNull = JStr ''text'' then str_or_empty (attr b ''text'' JNull) else []) blocks)
      | _ \<Rightarrow> [])"

section \<open>A provider of the client\<close>

record api_error =
  err_status :: "int option"
  err_response_status :: "int option"
  err_text :: string
  err_type :: string

type_synonym service = "nat \<Rightarrow> jobj \<Rightarrow> api_error + json"

record provider =
  protocol :: api_protocol
  structured_modes :: "string \<Rightarrow> structured_mode list res"
  payload :: "provider_request \<Rightarrow> structured_mode \<Rightarrow> jobj"
  output_text :: "json \<Rightarrow> string"

definition build_provider :: "(bool \<Rightarrow> json) \<Rightarrow> (json \<Rightarrow> json) \<Rightarrow> api_protocol \<Rightarrow> provider" where
  "build_provider schema transform p =
     (case p of
        anthropic \<Rightarrow> \<lparr>protocol = p, structured_modes = claude_modes,
            payload = claude_payload schema transform, output_text = claude_output_text\<rparr>
      | zai \<Rightarrow> \<lparr>protocol = p, structured_modes = glm_modes, payload = glm_payload,
            output_text = chat_output_text\<rparr>
      | openai_responses \<Rightarrow> \<lparr>protocol = p, structured_modes = gpt_modes,
            payload = gpt_response_payload schema, output_text = gpt_output_text p\<rparr>
      | openai_chat_completions \<Rightarrow> \<lparr>protocol = p, structured_modes = gpt_modes,
            payload = gpt_chat_payload schema, output_text = gpt_output_text p\<rparr>)"

definition resolve_api_protocol :: "string \<Rightarrow> api_protocol option \<Rightarrow> api_protocol" where
  "resolve_api_protocol model requested =
     (case requested of
        Some p \<Rightarrow> p
      | None \<Rightarrow>
          (let name = last (split_char CHR ''/'' (lower model)) in
           if startswith name ''claude-'' then anthropic
           else if startswith name ''glm-'' then zai
           else if startswith name ''gpt-'' then openai_responses
           else openai_chat_completions))"

definition status_code :: "api_error \<Rightarrow> int option" where
  "status_code e = (case err_status e of Some v \<Rightarrow> Some v | None \<Rightarrow> err_response_status e)"

definition structured_output_unsupported :: "api_error \<Rightarrow> bool" where
  "structured_output_unsupported e \<longleftrightarrow>
     status_code e \<in> {Some 400, Some 404, Some 422}
     \<and> list_ex (contains (lower (err_text e)))
         [''text.format'', ''json_schema'', ''json schema'', ''json mode'', ''json_object'',
          ''response_format'', ''structured output'', ''output_config'']"

definition transient :: "api_error \<Rightarrow> bool" where
  "transient e =
     (case status_code e of
        Some s \<Rightarrow> s = 429 \<or> 500 \<le> s
      | None \<Rightarrow> list_ex (contains (lower (err_type e))) [''timeout'', ''connection'', ''ratelimit''])"

text \<open>\<open>isinstance(x, int)\<close> holds of the Booleans too.\<close>

fun as_int :: "json \<Rightarrow> int option" where
  "as_int (JInt i) = Some i"
| "as_int (JBool b) = Some (if b then 1 else 0)"
| "as_int _ = None"

definition usage_dict :: "json \<Rightarrow> (string, int) dict" where
  "usage_dict response =
     (let usage = attr response ''usage'' JNull in
      if usage = JNull then []
      else let first_int = (\<lambda>ks. case filter (\<lambda>v. v \<noteq> None) (map (\<lambda>k. as_int (attr usage k JNull)) ks) of
                                   [] \<Rightarrow> None | v # _ \<Rightarrow> v);
               result = concat (map (\<lambda>(k, ks). case first_int ks of None \<Rightarrow> [] | Some i \<Rightarrow> [(k, i)])
                 [(''input_tokens'', [''input_tokens'', ''prompt_tokens'']),
                  (''output_tokens'', [''output_tokens'', ''completion_tokens'']),
                  (''total_tokens'', [''total_tokens''])])
           in case (map_of result ''total_tokens'', map_of result ''input_tokens'', map_of result ''output_tokens'') of
                (None, Some i, Some j) \<Rightarrow> result @ [(''total_tokens'', i + j)]
              | _ \<Rightarrow> result)"

section \<open>Validation\<close>

text \<open>The validator of the response model: the text of a \<open>ValidationError\<close>, or the
  assessments. Messages of the client's own errors are those of the code; lists of identifiers
  are printed by \<open>repr\<close>.\<close>

type_synonym validator = "bool \<Rightarrow> jobj \<Rightarrow> string + assessment list"

definition extract_json_object :: "decoder \<Rightarrow> (string \<Rightarrow> string) \<Rightarrow> string \<Rightarrow> jobj res" where
  "extract_json_object loads decode_error text =
     (let stripped0 = strip text;
          stripped = (case re_fullmatch FENCED_TEXT_RE stripped0 of
                        Some e \<Rightarrow> the (group e ''1'') | None \<Rightarrow> stripped0)
      in rbind (case loads stripped of
             Some v \<Rightarrow> Ok v
           | None \<Rightarrow>
               (case (find_sub ''{'' stripped, rfind_char CHR ''}'' stripped) of
                  (Some start, Some stop) \<Rightarrow>
                    if stop \<le> start
                    then Err (ModelResponseError ''model response does not contain a JSON object'')
                    else (let part = drop start (take (stop + 1) stripped) in
                      res_of (ModelResponseError (''model returned invalid JSON: '' @ decode_error part))
                        (loads part))
                | _ \<Rightarrow> Err (ModelResponseError ''model response does not contain a JSON object'')))
           (\<lambda>v. case v of JObj d \<Rightarrow> Ok d
                 | _ \<Rightarrow> Err (ModelResponseError ''model response JSON must be an object'')))"

definition repr_list :: "string list \<Rightarrow> string" where
  "repr_list ss = py_repr (JArr (map JStr ss))"

definition check_ids :: "candidate list \<Rightarrow> assessment list \<Rightarrow> unit res" where
  "check_ids candidates response =
     (let returned_ids = map assessed_id response; candidate_ids = map candidate_id candidates;
          duplicates = sorted_set (filter (\<lambda>v. 1 < count_list returned_ids v) returned_ids);
          unknown = sorted_set (filter (\<lambda>v. v \<notin> set candidate_ids) returned_ids);
          missing = sorted_set (filter (\<lambda>v. v \<notin> set returned_ids) candidate_ids)
      in if duplicates \<noteq> [] then Err (ModelResponseError (''duplicate candidate IDs: '' @ repr_list duplicates))
         else if unknown \<noteq> [] \<or> missing \<noteq> []
         then Err (ModelResponseError (''candidate set mismatch; unknown='' @ repr_list unknown @
                '', missing='' @ repr_list missing))
         else Ok ())"

definition validate_assessments ::
  "decoder \<Rightarrow> (string \<Rightarrow> string) \<Rightarrow> validator \<Rightarrow> string \<Rightarrow> candidate list \<Rightarrow> bool \<Rightarrow> assessment list res" where
  "validate_assessments loads decode_error model_validate text candidates reasons =
     rbind (extract_json_object loads decode_error text) (\<lambda>d.
     rbind (case model_validate reasons d of
              Inl m \<Rightarrow> Err (ModelResponseError (''response schema validation failed: '' @ m))
            | Inr r \<Rightarrow> Ok r) (\<lambda>response.
     rbind (check_ids candidates response) (\<lambda>_.
       Ok (if reasons then map (reason_update (map_option strip)) response else response))))"

section \<open>The request loop\<close>

record call_args =
  arg_model :: string
  arg_system_prompt :: string
  arg_user_prompt :: string
  arg_candidates :: "candidate list"
  arg_temperature :: "pyfloat option"
  arg_retries :: int
  arg_retry_delay :: pyfloat
  arg_structured_output :: string
  arg_max_output_tokens :: int
  arg_reasoning_effort :: string
  arg_include_reason :: bool

text \<open>What the loop uses of the outside: the JSON decoder and the text of its errors, the response
  validation, the templates, the service, the random part of a delay and the clock.\<close>

record outside =
  out_loads :: decoder
  out_decode_error :: "string \<Rightarrow> string"
  out_validate :: validator
  out_prompt :: "string \<Rightarrow> string"
  out_service :: service
  out_jitter :: "nat \<Rightarrow> pyfloat \<Rightarrow> pyfloat"
  out_elapsed :: "nat \<Rightarrow> pyfloat"

record call_state =
  mode_index :: nat
  items :: "jobj list"
  attempts :: nat
  transient_failures :: int
  validation_failures :: int
  sleeps :: "pyfloat list"

record api_result =
  response :: "assessment list"
  raw_text :: string
  response_id :: "string option"
  usage :: "(string, int) dict"
  structured_output :: structured_mode
  result_attempts :: nat
  elapsed_seconds :: pyfloat
  api :: api_protocol

definition make_request :: "call_args \<Rightarrow> jobj list \<Rightarrow> provider_request" where
  "make_request a its =
     \<lparr>req_model = arg_model a, system_prompt = arg_system_prompt a, input_items = its,
      temperature = arg_temperature a, max_output_tokens = arg_max_output_tokens a,
      reasoning_effort = arg_reasoning_effort a, include_reason = arg_include_reason a\<rparr>"

definition response_id_of :: "json \<Rightarrow> string option" where
  "response_id_of resp = (let s = py_str (attr resp ''id'' (JStr [])) in if s = [] then None else Some s)"

text \<open>\<open>retry_delay * 2 ** (failures - 1)\<close>, and the wait after a rejected response.\<close>

definition backoff :: "pyfloat \<Rightarrow> int \<Rightarrow> pyfloat" where
  "backoff delay failures = fmul delay (rnd (2 ^ nat (failures - 1)))"

definition repair_items :: "outside \<Rightarrow> call_args \<Rightarrow> string \<Rightarrow> string \<Rightarrow> jobj list" where
  "repair_items w a raw msg =
     [message ''assistant'' raw,
      message ''user'' (build_repair_prompt (out_prompt w) msg (arg_candidates a) (arg_include_reason a))]"

function call_loop ::
  "outside \<Rightarrow> provider \<Rightarrow> call_args \<Rightarrow> structured_mode list \<Rightarrow> call_state \<Rightarrow> api_result res \<times> call_state" where
  "call_loop w prov a modes st =
     (let mode = modes ! mode_index st;
          st1 = st\<lparr>attempts := attempts st + 1\<rparr>
      in case out_service w (attempts st) (payload prov (make_request a (items st)) mode) of
           Inl e \<Rightarrow>
             if mode_index st + 1 < length modes \<and> structured_output_unsupported e
             then call_loop w prov a modes (st1\<lparr>mode_index := mode_index st + 1\<rparr>)
             else if transient e \<and> transient_failures st < arg_retries a
             then (let failures = transient_failures st + 1;
                       delay = backoff (arg_retry_delay a) failures
                   in call_loop w prov a modes (st1\<lparr>transient_failures := failures,
                        sleeps := sleeps st @ [fadd delay (out_jitter w (attempts st) delay)]\<rparr>))
             else (Err SbflLlmError, st1)
         | Inr resp \<Rightarrow>
             (let raw = output_text prov resp in
              if strip raw = [] then (Err SbflLlmError, st1)
              else case validate_assessments (out_loads w) (out_decode_error w) (out_validate w) raw
                          (arg_candidates a) (arg_include_reason a) of
                     Inr v \<Rightarrow>
                       (Ok \<lparr>response = v, raw_text = raw, response_id = response_id_of resp,
                            usage = usage_dict resp, structured_output = mode,
                            result_attempts = attempts st1, elapsed_seconds = out_elapsed w (attempts st1),
                            api = protocol prov\<rparr>, st1)
                   | Inl (ModelResponseError msg) \<Rightarrow>
                       if arg_retries a \<le> validation_failures st then (Err (ModelResponseError msg), st1)
                       else (let failures = validation_failures st + 1
                             in call_loop w prov a modes (st1\<lparr>validation_failures := failures,
                                  items := items st @ repair_items w a raw msg,
                                  sleeps := sleeps st @ [fmul (arg_retry_delay a) (rnd (of_int failures))]\<rparr>))
                   | Inl e \<Rightarrow> (Err e, st1)))"
  by pat_completeness auto
termination
  by (relation "measure (\<lambda>(w, prov, a, modes, st). (length modes - mode_index st)
        + nat (arg_retries a - transient_failures st) + nat (arg_retries a - validation_failures st))")
    auto

declare call_loop.simps [simp del]

definition initial_state :: "call_args \<Rightarrow> call_state" where
  "initial_state a =
     \<lparr>mode_index = 0, items = [message ''user'' (arg_user_prompt a)], attempts = 0,
      transient_failures = 0, validation_failures = 0, sleeps = []\<rparr>"

definition call_model ::
  "outside \<Rightarrow> (bool \<Rightarrow> json) \<Rightarrow> (json \<Rightarrow> json) \<Rightarrow> api_protocol \<Rightarrow> call_args \<Rightarrow> api_result res \<times> call_state" where
  "call_model w schema transform p a =
     (let prov = build_provider schema transform p in
      case structured_modes prov (arg_structured_output a) of
        Inl e \<Rightarrow> (Err e, initial_state a)
      | Inr modes \<Rightarrow> call_loop w prov a modes (initial_state a))"

text \<open>One round of the loop: it ends, or it continues with exactly one of the three counters
  advanced.\<close>

inductive call_continues ::
  "outside \<Rightarrow> provider \<Rightarrow> call_args \<Rightarrow> structured_mode list \<Rightarrow> call_state \<Rightarrow> call_state \<Rightarrow> bool"
  for w prov a modes where
  next_mode: "mode_index st + 1 < length modes \<Longrightarrow> structured_output_unsupported e \<Longrightarrow>
    call_continues w prov a modes st
      (st\<lparr>attempts := attempts st + 1, mode_index := mode_index st + 1\<rparr>)"
| retry: "transient e \<Longrightarrow> transient_failures st < arg_retries a \<Longrightarrow>
    call_continues w prov a modes st
      (st\<lparr>attempts := attempts st + 1, transient_failures := transient_failures st + 1,
          sleeps := sleeps st @ [d]\<rparr>)"
| repair: "validation_failures st < arg_retries a \<Longrightarrow>
    validate_assessments (out_loads w) (out_decode_error w) (out_validate w) raw
      (arg_candidates a) (arg_include_reason a) = Inl (ModelResponseError msg) \<Longrightarrow>
    call_continues w prov a modes st
      (st\<lparr>attempts := attempts st + 1, validation_failures := validation_failures st + 1,
          items := items st @ repair_items w a raw msg, sleeps := sleeps st @ [d]\<rparr>)"

inductive_cases call_continuesE: "call_continues w prov a modes st st'"

definition call_ends ::
  "outside \<Rightarrow> provider \<Rightarrow> call_args \<Rightarrow> structured_mode list \<Rightarrow> call_state \<Rightarrow> api_result res \<Rightarrow> bool" where
  "call_ends w prov a modes st r \<longleftrightarrow>
     (case r of
        Inl e \<Rightarrow> e = SbflLlmError
          \<or> (\<exists>raw. validate_assessments (out_loads w) (out_decode_error w) (out_validate w) raw
                (arg_candidates a) (arg_include_reason a) = Inl e)
      | Inr res \<Rightarrow>
          validate_assessments (out_loads w) (out_decode_error w) (out_validate w) (raw_text res)
            (arg_candidates a) (arg_include_reason a) = Inr (response res)
          \<and> strip (raw_text res) \<noteq> [] \<and> structured_output res = modes ! mode_index st
          \<and> result_attempts res = attempts st + 1 \<and> api res = protocol prov)"

lemma call_loop_round:
  "(\<exists>st1. call_continues w prov a modes st st1 \<and> call_loop w prov a modes st = call_loop w prov a modes st1)
   \<or> (\<exists>r. call_ends w prov a modes st r
        \<and> call_loop w prov a modes st = (r, st\<lparr>attempts := attempts st + 1\<rparr>))"
proof (cases "out_service w (attempts st) (payload prov (make_request a (items st)) (modes ! mode_index st))")
  case (Inl e)
  then show ?thesis
    using next_mode [of st modes e w prov a] retry [of e st a w prov modes]
    by (subst (1 3) call_loop.simps) (auto simp: Let_def call_ends_def)
next
  case (Inr resp)
  let ?raw = "output_text prov resp"
  let ?v = "validate_assessments (out_loads w) (out_decode_error w) (out_validate w) ?raw
      (arg_candidates a) (arg_include_reason a)"
  show ?thesis
  proof (cases "strip ?raw = []")
    case True
    with Inr show ?thesis by (subst (1 3) call_loop.simps) (auto simp: Let_def call_ends_def)
  next
    case False
    show ?thesis
    proof (cases ?v)
      case (Inr v)
      with False \<open>out_service _ _ _ = Inr resp\<close> show ?thesis
        by (subst (1 3) call_loop.simps) (auto simp: Let_def call_ends_def)
    next
      case (Inl e)
      show ?thesis
      proof (cases "\<exists>msg. e = ModelResponseError msg \<and> validation_failures st < arg_retries a")
        case True
        then obtain msg where m: "e = ModelResponseError msg" "validation_failures st < arg_retries a" by blast
        with Inl False \<open>out_service _ _ _ = Inr resp\<close> show ?thesis
          using repair [of st a w ?raw msg prov modes]
          by (subst (1 3) call_loop.simps) (auto simp: Let_def)
      next
        case ne: False
        with Inl False \<open>out_service _ _ _ = Inr resp\<close> show ?thesis
          by (subst (1 3) call_loop.simps) (auto simp: Let_def call_ends_def split: exn.splits)
      qed
    qed
  qed
qed

definition rounds_left :: "call_args \<Rightarrow> structured_mode list \<Rightarrow> call_state \<Rightarrow> nat" where
  "rounds_left a modes st = (length modes - mode_index st)
     + nat (arg_retries a - transient_failures st) + nat (arg_retries a - validation_failures st)"

lemma call_continues_decreases:
  "call_continues w prov a modes st st1 \<Longrightarrow> mode_index st < length modes \<Longrightarrow>
   rounds_left a modes st1 < rounds_left a modes st \<and> mode_index st1 < length modes
   \<and> attempts st1 = attempts st + 1
   \<and> length (sleeps st1) + mode_index st1 + attempts st = length (sleeps st) + mode_index st + attempts st1"
  by (elim call_continuesE) (auto simp: rounds_left_def)

text \<open>The loop reaches an ending state after finitely many rounds, and every state on the way is
  reached by continuing rounds.\<close>

lemma call_loop_runs:
  assumes "mode_index st < length modes"
  shows "\<exists>st1 r. (call_continues w prov a modes)\<^sup>*\<^sup>* st st1 \<and> call_ends w prov a modes st1 r
    \<and> call_loop w prov a modes st = (r, st1\<lparr>attempts := attempts st1 + 1\<rparr>)
    \<and> mode_index st1 < length modes \<and> attempts st1 + rounds_left a modes st1 \<le> attempts st + rounds_left a modes st
    \<and> length (sleeps st1) + mode_index st1 + attempts st = length (sleeps st) + mode_index st + attempts st1"
  using assms
proof (induction "rounds_left a modes st" arbitrary: st rule: less_induct)
  case less
  from call_loop_round [of w prov a modes st]
  show ?case
  proof (elim disjE exE conjE)
    fix st1 assume c: "call_continues w prov a modes st st1"
      and eq: "call_loop w prov a modes st = call_loop w prov a modes st1"
    note d = call_continues_decreases [OF c less.prems]
    obtain st2 r where 2: "(call_continues w prov a modes)\<^sup>*\<^sup>* st1 st2" "call_ends w prov a modes st2 r"
      "call_loop w prov a modes st1 = (r, st2\<lparr>attempts := attempts st2 + 1\<rparr>)" "mode_index st2 < length modes"
      "attempts st2 + rounds_left a modes st2 \<le> attempts st1 + rounds_left a modes st1"
      "length (sleeps st2) + mode_index st2 + attempts st1 = length (sleeps st1) + mode_index st1 + attempts st2"
      using less.hyps [of st1] d by blast
    show ?thesis
      using c 2 d eq by (intro exI [of _ st2] exI [of _ r]) (auto intro: converse_rtranclp_into_rtranclp)
  next
    fix r assume "call_ends w prov a modes st r"
      "call_loop w prov a modes st = (r, st\<lparr>attempts := attempts st + 1\<rparr>)"
    then show ?thesis using less.prems by (intro exI [of _ st] exI [of _ r]) auto
  qed
qed

section \<open>The contract of a provider\<close>

text \<open>
  What the client relies on in \<open>structured_modes\<close>: it knows the three settings of the command
  line, and gives at least one and at most three distinct modes. The behaviour of the client is
  proved once from this, for any payload builder and any service.
\<close>

locale model_provider =
  fixes modes_of :: "string \<Rightarrow> structured_mode list res"
  assumes modes_known: "s \<in> {''strict'', ''auto'', ''off''} \<Longrightarrow> \<exists>ms. modes_of s = Inr ms"
    and modes_shape: "modes_of s = Inr ms \<Longrightarrow> ms \<noteq> [] \<and> distinct ms \<and> length ms \<le> 3"
    and modes_off: "modes_of ''off'' = Inr [prompt_only]"
begin

lemma client_run:
  assumes "structured_modes prov = modes_of" "modes_of s = Inr ms"
  obtains st1 r where "call_loop w prov a ms (initial_state a) = (r, st1\<lparr>attempts := attempts st1 + 1\<rparr>)"
    "call_ends w prov a ms st1 r" "mode_index st1 < length ms"
    "attempts st1 + 1 \<le> length ms + 2 * nat (arg_retries a)"
    "length (sleeps st1) + mode_index st1 = attempts st1"
proof -
  have ms: "ms \<noteq> []" using modes_shape [OF assms(2)] by simp
  then have i: "mode_index (initial_state a) < length ms" by (simp add: initial_state_def)
  from call_loop_runs [OF i, of w prov a] obtain st1 r where
    r: "call_loop w prov a ms (initial_state a) = (r, st1\<lparr>attempts := attempts st1 + 1\<rparr>)"
    "call_ends w prov a ms st1 r" "mode_index st1 < length ms"
    "attempts st1 + rounds_left a ms st1 \<le> attempts (initial_state a) + rounds_left a ms (initial_state a)"
    "length (sleeps st1) + mode_index st1 + attempts (initial_state a)
      = length (sleeps (initial_state a)) + mode_index (initial_state a) + attempts st1"
    by blast
  have "1 \<le> rounds_left a ms st1" using r(3) by (simp add: rounds_left_def)
  then have "attempts st1 + 1 \<le> length ms + 2 * nat (arg_retries a)"
    using r(4) by (simp add: rounds_left_def initial_state_def)
  moreover have "length (sleeps st1) + mode_index st1 = attempts st1"
    using r(5) by (simp add: initial_state_def)
  ultimately show ?thesis using that r by blast
qed

lemma client_bound:
  assumes "structured_modes prov = modes_of" "modes_of s = Inr ms"
    and "call_loop w prov a ms (initial_state a) = (r, st)"
  shows "1 \<le> attempts st \<and> attempts st \<le> 3 + 2 * nat (arg_retries a)
    \<and> length (sleeps st) \<le> 2 * nat (arg_retries a) + 2"
proof -
  obtain st1 r1 where c: "call_loop w prov a ms (initial_state a) = (r1, st1\<lparr>attempts := attempts st1 + 1\<rparr>)"
    "attempts st1 + 1 \<le> length ms + 2 * nat (arg_retries a)" "length (sleeps st1) + mode_index st1 = attempts st1"
    using client_run [OF assms(1,2), of w a] by blast
  then have "st = st1\<lparr>attempts := attempts st1 + 1\<rparr>" using assms(3) by simp
  with c modes_shape [OF assms(2)] show ?thesis by auto
qed

end

interpretation gpt: model_provider gpt_modes
  by unfold_locales (auto simp: gpt_modes_def split: if_splits)

interpretation glm: model_provider glm_modes
  by unfold_locales (auto simp: glm_modes_def split: if_splits)

interpretation claude: model_provider claude_modes
  by unfold_locales (auto simp: claude_modes_def split: if_splits)

text \<open>Whatever the protocol, the built provider keeps the contract.\<close>

interpretation built: model_provider "structured_modes (build_provider schema transform p)"
  by (cases p)
    (simp_all add: build_provider_def gpt.model_provider_axioms glm.model_provider_axioms
      claude.model_provider_axioms)

section \<open>Validated responses\<close>

lemma count_list_one_distinct: "(\<forall>x \<in> set xs. count_list xs x \<le> 1) \<longleftrightarrow> distinct xs"
proof (induction xs)
  case (Cons x xs)
  have "count_list xs x = 0 \<longleftrightarrow> x \<notin> set xs" by (simp add: count_list_0_iff)
  with Cons show ?case by (auto split: if_splits)
qed simp

lemma check_ids_Ok:
  "check_ids cs rs = Inr () \<longleftrightarrow>
     distinct (map assessed_id rs) \<and> assessed_id ` set rs = candidate_id ` set cs"
proof -
  have "filter (\<lambda>v. 1 < count_list (map assessed_id rs) v) (map assessed_id rs) = [] \<longleftrightarrow> distinct (map assessed_id rs)"
    using count_list_one_distinct [of "map assessed_id rs"] by (auto simp: filter_empty_conv not_less)
  then show ?thesis
    by (auto simp: check_ids_def Let_def filter_empty_conv)
qed

lemma validate_assessments_Ok:
  assumes "validate_assessments loads de validator raw cs reasons = Inr v"
  shows "distinct (map assessed_id v) \<and> assessed_id ` set v = candidate_id ` set cs"
proof -
  obtain rs where rs: "check_ids cs rs = Inr ()"
      "v = (if reasons then map (reason_update (map_option strip)) rs else rs)"
    using assms by (auto simp: validate_assessments_def rbind_eq_Ok)
  have "map assessed_id v = map assessed_id rs" by (simp add: rs(2))
  then show ?thesis using rs(1) check_ids_Ok by (metis set_map)
qed

lemma validate_assessments_Err:
  assumes "validate_assessments loads de validator raw cs reasons = Inl e"
  shows "\<exists>m. e = ModelResponseError m"
proof -
  have "extract_json_object loads de raw = Inl e \<Longrightarrow> \<exists>m. e = ModelResponseError m"
    by (auto simp: extract_json_object_def Let_def rbind_eq_Err res_of_def split: option.splits if_splits json.splits)
  moreover have "check_ids cs rs = Inl e \<Longrightarrow> \<exists>m. e = ModelResponseError m" for rs
    by (auto simp: check_ids_def Let_def split: if_splits)
  ultimately show ?thesis
    using assms unfolding validate_assessments_def rbind_eq_Err by (fastforce split: sum.splits)
qed

section \<open>Properties\<close>

lemma call_model_run:
  assumes "arg_structured_output a \<in> {''strict'', ''auto'', ''off''}"
  obtains ms where "structured_modes (build_provider schema transform p) (arg_structured_output a) = Inr ms"
    "call_model w schema transform p a = call_loop w (build_provider schema transform p) a ms (initial_state a)"
  using built.modes_known [OF assms, of schema transform p] by (auto simp: call_model_def Let_def)

text \<open>C30: for every service, however it answers, a call of the model ends after at most
  three requests more than twice the number of retries; it makes at least one request, and waits
  at most twice the number of retries plus two times.\<close>

theorem call_model_bounded:
  assumes "arg_structured_output a \<in> {''strict'', ''auto'', ''off''}"
    and "call_model w schema transform p a = (r, st)"
  shows "1 \<le> attempts st \<and> attempts st \<le> 3 + 2 * nat (arg_retries a)
    \<and> length (sleeps st) \<le> 2 * nat (arg_retries a) + 2"
proof -
  obtain ms where ms: "structured_modes (build_provider schema transform p) (arg_structured_output a) = Inr ms"
    "call_model w schema transform p a = call_loop w (build_provider schema transform p) a ms (initial_state a)"
    by (rule call_model_run [OF assms(1)])
  have "call_loop w (build_provider schema transform p) a ms (initial_state a) = (r, st)"
    using ms(2) assms(2) by simp
  then show ?thesis by (rule built.client_bound [OF refl ms(1)])
qed


definition sample_outside :: outside where
  "sample_outside =
     \<lparr>out_loads = (\<lambda>_. Some (JObj [])), out_decode_error = (\<lambda>_. []),
      out_validate = (\<lambda>_ _. Inr sample_response), out_prompt = (\<lambda>_. ''{validation_error}''),
      out_service = (\<lambda>n _. if n = 0
        then Inl \<lparr>err_status = Some 400, err_response_status = None, err_text = ''bad response_format'', err_type = ''BadRequestError''\<rparr>
        else Inr (JObj [(''output_text'', JStr ''{}''), (''id'', JStr ''r1'')])),
      out_jitter = (\<lambda>_ d. Fin 0), out_elapsed = (\<lambda>_. Fin 1)\<rparr>"

definition sample_call :: call_args where
  "sample_call =
     \<lparr>arg_model = ''gpt-5'', arg_system_prompt = ''s'', arg_user_prompt = ''u'', arg_candidates = sample_candidates,
      arg_temperature = None, arg_retries = 1, arg_retry_delay = Fin 1, arg_structured_output = ''auto'',
      arg_max_output_tokens = 10, arg_reasoning_effort = ''high'', arg_include_reason = False\<rparr>"

abbreviation sample_called :: "api_result res \<times> call_state" where
  "sample_called \<equiv> call_model sample_outside (\<lambda>_. JNull) (\<lambda>v. v) openai_responses sample_call"

lemma sample_called_ok:
  "\<exists>res st. sample_called = (Inr res, st) \<and> attempts st = 2 \<and> structured_output res = json_object"
proof -
  have "(case sample_called of (Inr res, st) \<Rightarrow> attempts st = 2 \<and> structured_output res = json_object | _ \<Rightarrow> False)"
    by code_simp
  then show ?thesis by (auto split: prod.splits sum.splits)
qed

lemma sample_setting: "arg_structured_output sample_call \<in> {''strict'', ''auto'', ''off''}"
  by (simp add: sample_call_def)

theorem call_model_bounded_witness:
  "\<exists>r st. sample_called = (r, st) \<and> attempts st \<le> 3 + 2 * nat (arg_retries sample_call) \<and> attempts st = 2"
proof -
  obtain res st where r: "sample_called = (Inr res, st)" "attempts st = 2" using sample_called_ok by blast
  show ?thesis using call_model_bounded [OF sample_setting r(1)] r by blast
qed


text \<open>The client and the offline tool extract the same JSON object from a response
  text, so a saved response that was accepted online is decoded to the same object offline.\<close>

theorem extract_json_object_agrees:
  "extract_json_object loads decode_error text = Ok d \<longleftrightarrow> json_object_from_text loads text = Ok d"
proof -
  define t where "t = (case re_fullmatch FENCED_TEXT_RE (strip text) of
      Some e \<Rightarrow> the (group e ''1'') | None \<Rightarrow> strip text)"
  show ?thesis
    unfolding extract_json_object_def json_object_from_text_def Let_def t_def [symmetric] rbind_eq_Ok
    by (cases "loads t"; cases "find_sub ''{'' t"; cases "rfind_char CHR ''}'' t")
      (auto split: json.splits if_splits)
qed

text \<open>The base address of a service is normalized to a fixed point: trailing slashes and one
  endpoint suffix are dropped, and an address without them is kept.\<close>

lemma normalize_base_url_plain:
  assumes "\<not> endswith s ''/''" and "\<not> endswith s ''/chat/completions''" and "\<not> endswith s ''/responses''"
  shows "normalize_base_url s = s
    \<and> normalize_base_url (s @ replicate n CHR ''/'') = s
    \<and> normalize_base_url (s @ ''/chat/completions'') = s
    \<and> normalize_base_url (s @ ''/responses'') = s"
proof -
  have last: "s = [] \<or> last s \<noteq> CHR ''/''"
    using assms(1) by (cases s rule: rev_cases) auto
  then have r: "rstrip_by (\<lambda>c. c = CHR ''/'') (s @ replicate n CHR ''/'') = s" for n
    by (cases s rule: rev_cases) (simp_all add: rstrip_by_def dropWhile_append)
  have app: "rstrip_by (\<lambda>c. c = CHR ''/'') (s @ t) = s @ t" if "t \<noteq> []" "last t \<noteq> CHR ''/''" for t
    by (rule rstrip_by_append_id) (use that in simp_all)
  have ne: "\<not> endswith (s @ ''/responses'') ''/chat/completions''"
    by (auto simp: endswith_iff dest: arg_cong [where f = last])
  show ?thesis
    using r [of 0] r assms(2,3) app [of "''/chat/completions''"] app [of "''/responses''"] ne
    by (simp add: normalize_base_url_def removesuffix_def)
qed

lemma normalize_base_url_plain_witness:
  "normalize_base_url (''https://api.openai.com/v1'' @ ''/responses'') = ''https://api.openai.com/v1''"
  using normalize_base_url_plain [of "''https://api.openai.com/v1''" 0]
  by (simp add: endswith_def)

end
