(* ===== verification/Patching.thy ===== *)
theory Patching
  imports Llm_Client
begin

text \<open>
  \<open>ibex_sbfl_llm/patching.py\<close> and \<open>io_utils.py\<close>: discovery and vetting of the bug patch, and the
  temporary RTL workspace it is applied in. \<open>git apply\<close> is an argument: it maps the file system,
  its working directory, the patch and the options to a return code and the changed file system.
  So are the fresh temporary directory, \<open>expanduser\<close>, \<open>resolve\<close> and SHA-256.
\<close>

section \<open>Discovery and vetting\<close>

definition DIFF_LINE_RE :: re where
  "DIFF_LINE_RE = Seqs [Lit ''[DIFF]'', Some1 is_space, Cap ''path'' (Seqs [One any_char, Few any_char]),
     Many is_space, Eos]"

definition PATCH_HEADER_RE :: re where
  "PATCH_HEADER_RE = Seqs [Alt (Lit ''---'') (Lit ''+++''), Some1 is_space, Cap ''path'' (Some1 (\<lambda>c. \<not> is_space c))]"

definition diff_lines :: "string \<Rightarrow> string list" where
  "diff_lines text = concat (map (\<lambda>line. case re_match DIFF_LINE_RE (strip line) of
       Some e \<Rightarrow> [the (group e ''path'')] | None \<Rightarrow> []) (splitlines text))"

definition discover_patch :: "(path \<Rightarrow> path) \<Rightarrow> (path \<Rightarrow> path) \<Rightarrow> fs \<Rightarrow> path \<Rightarrow> path option res" where
  "discover_patch expanduser resolve fs run_log =
     (if \<not> is_file fs run_log then Ok None
      else rbind (read_text fs run_log) (\<lambda>text.
        let matches = diff_lines text in
        if matches = [] then Ok None
        else case uniq matches of
               [u] \<Rightarrow> (let raw_path = expanduser (path_of u);
                          raw_path = (if path_is_absolute raw_path then raw_path
                                      else path_join (path_parent run_log) raw_path)
                      in Ok (Some (resolve raw_path)))
             | _ \<Rightarrow> Err PatchError))"

text \<open>One line of the patch: skipped, refused, or a changed file.\<close>

definition changed_file :: "string \<Rightarrow> string option res" where
  "changed_file line =
     (case re_match PATCH_HEADER_RE line of
        None \<Rightarrow> Ok None
      | Some e \<Rightarrow>
          (let raw = the (group e ''path'') in
           if raw = ''/dev/null'' then Ok None
           else (let raw = (if startswith raw ''a/'' \<or> startswith raw ''b/'' then drop 2 raw else raw);
                     p = path_of raw
                 in if path_is_absolute p \<or> ''..'' \<in> set (path_parts p) then Err PatchError
                    else if length (path_parts p) < 2 \<or> hd (path_parts p) \<noteq> ''rtl'' then Err PatchError
                    else Ok (Some (path_str p)))))"

definition patch_changed_files :: "fs \<Rightarrow> path \<Rightarrow> string list res" where
  "patch_changed_files fs patch_path =
     rbind (read_text fs patch_path) (\<lambda>text.
     rbind (rmapM changed_file (splitlines text)) (\<lambda>found.
       let changed = uniq (concat (map (\<lambda>x. case x of None \<Rightarrow> [] | Some f \<Rightarrow> [f]) found))
       in if changed = [] then Err PatchError else Ok changed))"

section \<open>The workspace\<close>

record patch_workspace =
  rtl_root :: path
  patch_path :: "path option"
  patch_sha256 :: "string option"
  patch_state :: string
  changed_files :: "string list"
  before_hashes :: "(string, string) dict"
  after_hashes :: "(string, string) dict"

type_synonym git_apply = "fs \<Rightarrow> path \<Rightarrow> path \<Rightarrow> string list \<Rightarrow> int \<times> fs"

definition run_git_apply :: "git_apply \<Rightarrow> path \<Rightarrow> path \<Rightarrow> string list \<Rightarrow> (fs, int) eff" where
  "run_git_apply git workspace patch args fs = (case git fs workspace patch args of (rc, fs') \<Rightarrow> (Ok rc, fs'))"

definition hash_changed :: "(string \<Rightarrow> string) \<Rightarrow> fs \<Rightarrow> path \<Rightarrow> string list \<Rightarrow> (string, string) dict" where
  "hash_changed sha fs workspace changed =
     concat (map (\<lambda>rel. case read_text fs (path_div workspace rel) of
        Inr content \<Rightarrow> [(rel, sha content)] | Inl _ \<Rightarrow> []) changed)"

text \<open>\<open>shutil.copytree\<close>: every entry at or below the source, under the new root.\<close>

definition at_or_below :: "path \<Rightarrow> path \<Rightarrow> bool" where
  "at_or_below p q \<longleftrightarrow> q = p \<or> is_below p q"

definition copytree :: "path \<Rightarrow> path \<Rightarrow> fs \<Rightarrow> fs" where
  "copytree src dst fs =
     fold (\<lambda>(q, n) fs'. AList.update (Path (path_root dst) (path_parts dst @ drop (length (path_parts src)) (path_parts q))) n fs')
       (filter (\<lambda>(q, n). at_or_below src q) fs) fs"

definition remove_tree :: "path \<Rightarrow> fs \<Rightarrow> fs" where
  "remove_tree p fs = filter (\<lambda>(q, n). \<not> at_or_below p q) fs"

definition prepare_in ::
  "git_apply \<Rightarrow> (string \<Rightarrow> string) \<Rightarrow> path \<Rightarrow> path \<Rightarrow> path \<Rightarrow> string list \<Rightarrow> (fs, patch_workspace) eff" where
  "prepare_in git sha temporary rtl patch changed =
     (let workspace = path_div temporary ''workspace''; copied_rtl = path_div workspace ''rtl'' in
      ebind (eupd (mkdir_parents workspace)) (\<lambda>_.
      ebind (eupd (\<lambda>fs. Ok (copytree rtl copied_rtl fs))) (\<lambda>_.
      ebind (eget (\<lambda>fs. hash_changed sha fs workspace changed)) (\<lambda>before.
      ebind (run_git_apply git workspace patch [''--check'']) (\<lambda>check.
      ebind (if check = 0
             then ebind (run_git_apply git workspace patch []) (\<lambda>applied.
                    if applied \<noteq> 0 then eraise PatchError else eret ''applied'')
             else ebind (run_git_apply git workspace patch [''--reverse'', ''--check'']) (\<lambda>rev.
                    if rev \<noteq> 0 then eraise PatchError else eret ''already_patched'')) (\<lambda>state.
      ebind (eget (\<lambda>fs. hash_changed sha fs workspace changed)) (\<lambda>after.
        if state = ''applied'' \<and> before = after then eraise PatchError
        else ebind (eget (\<lambda>fs. read_text fs patch)) (\<lambda>content.
             ebind (elift content) (\<lambda>c.
               eret \<lparr>rtl_root = copied_rtl, patch_path = Some patch, patch_sha256 = Some (sha c),
                     patch_state = state, changed_files = changed, before_hashes = before,
                     after_hashes = after\<rparr>)))))))))"

text \<open>The \<open>with\<close> block: the body runs inside the workspace; the temporary directory is removed on
  every way out.\<close>

definition prepare_rtl_workspace ::
  "git_apply \<Rightarrow> (string \<Rightarrow> string) \<Rightarrow> (path \<Rightarrow> path) \<Rightarrow> (path \<Rightarrow> path) \<Rightarrow> (fs \<Rightarrow> path) \<Rightarrow> path \<Rightarrow> path
   \<Rightarrow> path option \<Rightarrow> bool \<Rightarrow> (patch_workspace \<Rightarrow> (fs, 'a) eff) \<Rightarrow> (fs, 'a) eff" where
  "prepare_rtl_workspace git sha expanduser resolve mkdtemp rtl0 sbfl_dir explicit_patch allow_unpatched body fs =
     (let rtl = resolve rtl0 in
      if \<not> is_dir fs rtl then (Err PatchError, fs)
      else case (case explicit_patch of
                   Some p \<Rightarrow> Ok (Some (resolve p))
                 | None \<Rightarrow> discover_patch expanduser resolve fs (path_div sbfl_dir ''run.log'')) of
             Inl e \<Rightarrow> (Err e, fs)
           | Inr None \<Rightarrow>
               if \<not> allow_unpatched then (Err PatchError, fs)
               else body \<lparr>rtl_root = rtl, patch_path = None, patch_sha256 = None,
                      patch_state = ''not_available'', changed_files = [], before_hashes = [], after_hashes = []\<rparr> fs
           | Inr (Some patch) \<Rightarrow>
               if \<not> is_file fs patch then (Err PatchError, fs)
               else (case patch_changed_files fs patch of
                       Inl e \<Rightarrow> (Err e, fs)
                     | Inr changed \<Rightarrow>
                         (let temporary = mkdtemp fs in
                          efinally
                            (ebind (eupd (\<lambda>fs. Ok (AList.update temporary Directory fs))) (\<lambda>_.
                             ebind (prepare_in git sha temporary rtl patch changed) body))
                            (eupd (\<lambda>fs. Ok (remove_tree temporary fs))) fs)))"

section \<open>Atomic writes\<close>

text \<open>\<open>atomic_write_text\<close>, and \<open>atomic_write_json\<close> of the encoded value with a final newline.\<close>

definition atomic_write_text :: "path \<Rightarrow> string \<Rightarrow> (fs, unit) eff" where
  "atomic_write_text p v =
     ebind (eupd (mkdir_parents (path_parent p))) (\<lambda>_.
     ebind (elift (path_with_name p (''.'' @ path_name p @ ''.tmp''))) (\<lambda>temporary.
     ebind (eupd (write_text temporary v)) (\<lambda>_. eupd (replace_file temporary p))))"

definition atomic_write_json :: "(json \<Rightarrow> string) \<Rightarrow> path \<Rightarrow> json \<Rightarrow> (fs, unit) eff" where
  "atomic_write_json dumps p v = atomic_write_text p (dumps v @ [NL])"

section \<open>Vetted patches\<close>

definition safe_rtl_file :: "string \<Rightarrow> bool" where
  "safe_rtl_file f \<longleftrightarrow> (\<exists>w ws. path_of f = Path [] (''rtl'' # w # ws) \<and> ''..'' \<notin> set (w # ws) \<and> path_str (path_of f) = f)"

lemma changed_file_safe:
  assumes "changed_file line = Ok (Some f)"
  shows "safe_rtl_file f"
proof -
  obtain raw where p: "\<not> path_is_absolute (path_of raw)" "''..'' \<notin> set (path_parts (path_of raw))"
    "\<not> length (path_parts (path_of raw)) < 2" "hd (path_parts (path_of raw)) = ''rtl''" "f = path_str (path_of raw)"
    using assms by (auto simp: changed_file_def Let_def split: option.splits if_splits)
  have f: "path_of f = path_of raw" using p(5) path_of_wf by simp
  obtain a b cs where "path_parts (path_of raw) = a # b # cs"
    using p(3) by (cases "path_parts (path_of raw)"; cases "tl (path_parts (path_of raw))") auto
  with p have "path_of raw = Path [] (''rtl'' # b # cs) \<and> ''..'' \<notin> set (b # cs)"
    by (cases "path_of raw") (auto simp: path_is_absolute_def)
  then show ?thesis using f p(5) unfolding safe_rtl_file_def by metis
qed

lemma patch_changed_files_Ok:
  assumes "patch_changed_files fs p = Ok changed"
  shows "changed \<noteq> [] \<and> distinct changed \<and> (\<forall>f \<in> set changed. safe_rtl_file f)"
proof -
  obtain t found where f: "rmapM changed_file (splitlines t) = Ok found" "changed \<noteq> []"
    "changed = uniq (concat (map (\<lambda>x. case x of None \<Rightarrow> [] | Some f \<Rightarrow> [f]) found))"
    using assms by (auto simp: patch_changed_files_def Let_def rbind_eq_Ok split: if_splits)
  have "Some x \<in> set found" if "x \<in> set changed" for x
    using that f(3) by (auto split: option.splits)
  then have "safe_rtl_file x" if "x \<in> set changed" for x
    using that rmapM_Ok_mem [OF f(1)] changed_file_safe by metis
  then show ?thesis using f by simp
qed

section \<open>The source tree is left alone\<close>

text \<open>What \<open>git apply\<close> in a directory promises: it changes nothing outside it.\<close>

definition git_local :: "git_apply \<Rightarrow> bool" where
  "git_local git \<longleftrightarrow> (\<forall>fs ws patch args q. \<not> at_or_below ws q \<longrightarrow>
     map_of (snd (git fs ws patch args)) q = map_of fs q)"

definition same_outside :: "path \<Rightarrow> fs \<Rightarrow> fs \<Rightarrow> bool" where
  "same_outside p fs fs' \<longleftrightarrow> (\<forall>q. \<not> at_or_below p q \<longrightarrow> map_of fs' q = map_of fs q)"

lemma same_outside_refl [simp]: "same_outside p fs fs"
  by (simp add: same_outside_def)

lemma same_outside_trans: "same_outside p a b \<Longrightarrow> same_outside p b c \<Longrightarrow> same_outside p a c"
  by (simp add: same_outside_def)

lemma same_outside_update: "at_or_below p q \<Longrightarrow> same_outside p fs (AList.update q n fs)"
  by (auto simp: same_outside_def map_of_AList_update)

lemma at_or_below_parts:
  "at_or_below (Path r ws) (Path r' vs) \<longleftrightarrow> r = r' \<and> take (length ws) vs = ws"
proof (cases "length vs \<le> length ws")
  case True
  then show ?thesis by (auto simp: at_or_below_def is_below_def)
next
  case False
  then have "vs \<noteq> ws" by auto
  with False show ?thesis by (simp add: at_or_below_def is_below_def)
qed

lemma at_or_below_append: "at_or_below (Path r ws) (Path r (ws @ vs))"
  by (simp add: at_or_below_parts)

lemma at_or_below_ex: "at_or_below (Path r ws) (Path r' vs) \<longleftrightarrow> r = r' \<and> (\<exists>us. vs = ws @ us)"
  unfolding at_or_below_parts by (metis append_eq_conv_conj)

lemma at_or_below_trans: "at_or_below p q \<Longrightarrow> at_or_below q x \<Longrightarrow> at_or_below p x"
  by (cases p; cases q; cases x) (auto simp: at_or_below_ex)

lemma copytree_outside: "at_or_below p dst \<Longrightarrow> same_outside p fs (copytree src dst fs)"
proof -
  assume d: "at_or_below p dst"
  let ?f = "\<lambda>(q, n) fs'. AList.update (Path (path_root dst) (path_parts dst @ drop (length (path_parts src)) (path_parts q))) n fs'"
  have upd: "same_outside p fs' (?f x fs')" for x fs'
  proof -
    have "at_or_below dst (Path (path_root dst) (path_parts dst @ vs))" for vs
      by (cases dst) (simp add: at_or_below_parts)
    then show ?thesis using d at_or_below_trans same_outside_update by (cases x) fastforce
  qed
  have "same_outside p fs' (fold ?f xs fs')" for xs fs'
    by (induction xs arbitrary: fs') (use upd same_outside_trans in \<open>simp, fastforce\<close>)
  then show ?thesis unfolding copytree_def .
qed

lemma remove_tree_lookup: "map_of (remove_tree p fs) q = (if at_or_below p q then None else map_of fs q)"
  unfolding remove_tree_def by (induction fs) auto

lemma mkdir_parents_outside:
  assumes "mkdir_parents p fs = Ok fs'"
    and "\<forall>q \<in> set (ancestors (path_root p) [] (path_parts p)). \<not> at_or_below t q \<longrightarrow> is_dir fs q"
  shows "same_outside t fs fs'"
  using assms(1) unfolding mkdir_parents_def
proof (rule rfoldM_invariant [where P = "same_outside t fs"])
  fix s q s'
  assume q: "q \<in> set (ancestors (path_root p) [] (path_parts p))" and s: "same_outside t fs s"
    and step: "(if is_file s q then Err (if q = p then FileExistsError else OSError)
      else Ok (if is_dir s q then s else AList.update q Directory s)) = Ok s'"
  show "same_outside t fs s'"
  proof (cases "at_or_below t q")
    case True
    then show ?thesis using step s same_outside_trans same_outside_update by (fastforce split: if_splits)
  next
    case False
    then have "is_dir s q" using assms(2) q s by (auto simp: is_dir_def same_outside_def)
    then show ?thesis using step s by (auto split: if_splits)
  qed
qed simp

lemma path_div_name:
  "wf_path (Path [] [w]) \<Longrightarrow> path_div p w = Path (path_root p) (path_parts p @ [w])"
  using path_of_str [of "Path [] [w]"]
  by (simp add: path_div_def path_join_def path_str_def wf_path_def split: if_splits)

lemma path_div_workspace: "path_div p ''workspace'' = Path (path_root p) (path_parts p @ [''workspace''])"
  and path_div_rtl: "path_div p ''rtl'' = Path (path_root p) (path_parts p @ [''rtl''])"
  by (simp_all add: path_div_name wf_path_def)

lemma ebind_state:
  assumes "\<And>s. R s (snd (m s))" "\<And>x s. R s (snd (f x s))" "\<And>a b c. R a b \<Longrightarrow> R b c \<Longrightarrow> R a c"
  shows "R s (snd (ebind m f s))"
  using assms(1) [of s] assms(2,3) unfolding ebind_def by (cases "m s") (auto split: sum.splits)

lemma run_git_outside:
  assumes "git_local git" "at_or_below t ws"
  shows "same_outside t s (snd (run_git_apply git ws patch args s))"
proof -
  have "\<not> at_or_below ws q" if "\<not> at_or_below t q" for q using that assms(2) at_or_below_trans by blast
  then show ?thesis
    using assms(1) by (auto simp: run_git_apply_def same_outside_def git_local_def split: prod.splits)
      (metis snd_conv)
qed

lemma eget_state: "snd (eget f s) = s" and eret_state: "snd (eret x s) = s" and eraise_state: "snd (eraise e s) = s"
  and elift_state: "snd (elift r s) = s"
  by simp_all

lemmas no_effect = eget_state eret_state eraise_state elift_state

text \<open>What \<open>tempfile.TemporaryDirectory\<close> promises: a new directory in an existing one.\<close>

definition fresh_dir :: "fs \<Rightarrow> path \<Rightarrow> bool" where
  "fresh_dir fs t \<longleftrightarrow> path_parts t \<noteq> [] \<and> (\<forall>q. at_or_below t q \<longrightarrow> map_of fs q = None)
     \<and> (\<forall>q \<in> set (ancestors (path_root t) [] (butlast (path_parts t))). is_dir fs q)"

lemma ancestors_append:
  "ancestors r d (xs @ ys) = ancestors r d xs @ ancestors r (d @ xs) ys"
  by (induction xs arbitrary: d) simp_all

lemma prepare_in_outside:
  assumes "git_local git" "fresh_dir fs t" "fs1 = AList.update t Directory fs"
  shows "same_outside t fs1 (snd (prepare_in git sha t rtl patch changed fs1))"
proof -
  let ?ws = "path_div t ''workspace''"
  have ws: "at_or_below t ?ws" "at_or_below t (path_div ?ws ''rtl'')"
    by (cases t; simp add: path_div_workspace path_div_rtl at_or_below_parts)+
  note run = run_git_outside [OF assms(1) ws(1)]
  have mk: "same_outside t fs1 (snd (eupd (mkdir_parents ?ws) fs1))"
  proof -
    have "is_dir fs1 q" if q: "q \<in> set (ancestors (path_root ?ws) [] (path_parts ?ws))" "\<not> at_or_below t q" for q
    proof -
      obtain u v where t: "path_parts t = u @ [v]" using assms(2) by (cases "path_parts t" rule: rev_cases) (auto simp: fresh_dir_def)
      have "q \<in> set (ancestors (path_root t) [] u) \<or> q = Path (path_root t) (u @ [v]) \<or> q = ?ws"
        using q(1) by (auto simp: path_div_workspace t ancestors_append)
      moreover have "Path (path_root t) (u @ [v]) = t" by (simp add: t [symmetric])
      ultimately have "q \<in> set (ancestors (path_root t) [] u)" using q(2) ws(1) by (auto simp: at_or_below_def)
      then have "is_dir fs q" using assms(2) t by (simp add: fresh_dir_def)
      then show ?thesis using q(2) assms(3) by (auto simp: is_dir_def map_of_AList_update)
    qed
    then show ?thesis using mkdir_parents_outside [of ?ws fs1 _ t] by (auto simp: eupd_def split: sum.splits)
  qed
  have rest: "same_outside t s (snd (ebind (eupd (\<lambda>fs. Ok (copytree rtl (path_div ?ws ''rtl'') fs))) f s))"
    if "\<And>x s. same_outside t s (snd (f x s))" for f :: "unit \<Rightarrow> (fs, patch_workspace) eff" and s
    by (rule ebind_state [where R = "same_outside t"])
      (use that copytree_outside [OF ws(2)] same_outside_trans in \<open>auto simp: eupd_def\<close>)
  have step: "same_outside t s (snd (ebind m f s))"
    if "\<And>s. same_outside t s (snd (m s))" "\<And>x s. same_outside t s (snd (f x s))" for m :: "(fs, 'a) eff" and f :: "'a \<Rightarrow> (fs, 'b) eff" and s
    by (rule ebind_state [where R = "same_outside t"]) (use that same_outside_trans in auto)
  have first: "same_outside t fs1 (snd (ebind (eupd (mkdir_parents ?ws)) f fs1))"
    if "\<And>x s. same_outside t s (snd (f x s))" for f :: "unit \<Rightarrow> (fs, patch_workspace) eff"
    using mk that same_outside_trans unfolding ebind_def by (cases "eupd (mkdir_parents ?ws) fs1") (auto split: sum.splits)
  show ?thesis
    unfolding prepare_in_def Let_def
    by (intro first rest step) (auto simp: no_effect run intro!: ebind_state [where R = "same_outside t"] elim: same_outside_trans)
qed

section \<open>Properties\<close>


definition sample_patch_fs :: fs where
  "sample_patch_fs =
     [(path_of ''/rtl'', Directory), (path_of ''/rtl/m.sv'', File ''x''),
      (path_of ''/b.diff'', File (join [NL] [''--- a/rtl/m.sv'', ''+++ b/rtl/./m.sv'', ''@@ -1 +1 @@'']))]"

lemma sample_changed: "patch_changed_files sample_patch_fs (path_of ''/b.diff'') = Ok [''rtl/m.sv'']"
  by code_simp


text \<open>C22: preparing the patched RTL workspace and leaving it restores the file system,
  whether or not the patch applied: every path looks up as before, so neither the source tree nor
  the temporary directory keeps a trace.\<close>

theorem prepare_rtl_workspace_restores:
  assumes "git_local git" and "fresh_dir fs (mkdtemp fs)"
    and "prepare_rtl_workspace git sha expanduser resolve mkdtemp rtl sbfl_dir patch allow eret fs = (r, fs')"
  shows "map_of fs' q = map_of fs q"
proof -
  let ?t = "mkdtemp fs" and ?fs1 = "AList.update (mkdtemp fs) Directory fs"
  consider "fs' = fs"
    | changed p where "fs' = snd (efinally
         (ebind (eupd (\<lambda>fs. Ok (AList.update ?t Directory fs))) (\<lambda>_.
          ebind (prepare_in git sha ?t (resolve rtl) p changed) eret))
         (eupd (\<lambda>fs. Ok (remove_tree ?t fs))) fs)"
    using assms(3) unfolding prepare_rtl_workspace_def Let_def
    by (auto split: if_splits sum.splits option.splits) (metis snd_conv)+
  then show ?thesis
  proof cases
    case 2
    have leave: "ebind m eret s = m s" for m :: "(fs, 'a) eff" and s
      by (auto simp: ebind_def split: prod.splits sum.splits)
    have "fs' = remove_tree ?t (snd (prepare_in git sha ?t (resolve rtl) p changed ?fs1))"
      unfolding 2 by (simp add: efinally_def leave ebind_def [of "eupd _"] eupd_def split: prod.splits)
    moreover have "same_outside ?t ?fs1 (snd (prepare_in git sha ?t (resolve rtl) p changed ?fs1))"
      by (rule prepare_in_outside [OF assms(1,2) refl])
    moreover have "same_outside ?t fs ?fs1" by (rule same_outside_update) (simp add: at_or_below_def)
    moreover have "at_or_below ?t q \<Longrightarrow> map_of fs q = None" using assms(2) by (simp add: fresh_dir_def)
    ultimately show ?thesis by (auto simp: remove_tree_lookup same_outside_def)
  qed simp
qed

theorem prepare_rtl_workspace_restores_witness:
  "map_of (snd (prepare_rtl_workspace (\<lambda>fs ws p args. (0, fs)) (\<lambda>s. s) (\<lambda>p. p) (\<lambda>p. p)
      (\<lambda>_. path_of ''/tmp0'') (path_of ''/rtl'') (path_of ''/log'') (Some (path_of ''/b.diff'')) False eret
      sample_patch_fs)) (path_of ''/rtl/m.sv'') = Some (File ''x'')"
proof -
  let ?run = "prepare_rtl_workspace (\<lambda>fs ws p args. (0, fs)) (\<lambda>s. s) (\<lambda>p. p) (\<lambda>p. p)
      (\<lambda>_. path_of ''/tmp0'') (path_of ''/rtl'') (path_of ''/log'') (Some (path_of ''/b.diff'')) False eret
      sample_patch_fs :: patch_workspace res \<times> fs"
  have g: "git_local (\<lambda>fs ws p args. (0, fs))" by (simp add: git_local_def)
  have t: "path_of ''/tmp0'' = Path ''/'' [''tmp0'']" by code_simp
  have keys: "map fst sample_patch_fs = [Path ''/'' [''rtl''], Path ''/'' [''rtl'', ''m.sv''], Path ''/'' [''b.diff'']]"
    by code_simp
  have "map_of sample_patch_fs q = None" if "at_or_below (path_of ''/tmp0'') q" for q
  proof (rule ccontr)
    assume "map_of sample_patch_fs q \<noteq> None"
    then have "q \<in> set (map fst sample_patch_fs)" by (simp add: map_of_eq_None_iff)
    then show False using that unfolding keys t by (auto simp: at_or_below_parts)
  qed
  then have f: "fresh_dir sample_patch_fs ((\<lambda>_. path_of ''/tmp0'') sample_patch_fs)"
    unfolding fresh_dir_def by (simp add: t)
  obtain r fs' where run: "?run = (r, fs')" by (cases ?run)
  have "map_of fs' (path_of ''/rtl/m.sv'') = map_of sample_patch_fs (path_of ''/rtl/m.sv'')"
    by (rule prepare_rtl_workspace_restores [where mkdtemp = "\<lambda>_. path_of ''/tmp0''", OF g f run])
  moreover have "map_of sample_patch_fs (path_of ''/rtl/m.sv'') = Some (File ''x'')" by code_simp
  ultimately show ?thesis unfolding run by simp
qed

text \<open>An atomic write that succeeds leaves the target with exactly the new text and no
  temporary file; every other file keeps its text.\<close>

theorem atomic_write_text_spec:
  assumes "atomic_write_text p v fs = (Ok u, fs')" and "q \<noteq> p"
    and "path_with_name p (''.'' @ path_name p @ ''.tmp'') = Ok t"
  shows "read_text fs' p = Ok v \<and> read_text fs' t = Err OSError
    \<and> (q \<noteq> t \<longrightarrow> (\<forall>s. read_text fs q = Ok s \<longrightarrow> read_text fs' q = Ok s))"
proof -
  obtain fs1 fs2 where f: "mkdir_parents (path_parent p) fs = Ok fs1" "write_text t v fs1 = Ok fs2"
    "replace_file t p fs2 = Ok fs'"
    using assms(1,3) by (auto simp: atomic_write_text_def ebind_def eupd_def split: sum.splits prod.splits)
  have "path_name t = ''.'' @ path_name p @ ''.tmp''"
    using assms(3) by (auto simp: path_with_name_def path_name_def split: if_splits)
  then have "length (path_name t) \<noteq> length (path_name p)" by simp
  then have tp: "t \<noteq> p" by blast
  have keep: "read_text fs1 q = Ok s" if "read_text fs q = Ok s" for s
    using f(1) unfolding mkdir_parents_def
  proof (rule rfoldM_invariant [where P = "\<lambda>fs. read_text fs q = Ok s"])
    fix s1 x s2 assume "read_text s1 q = Ok s"
      "(if is_file s1 x then Err (if x = path_parent p then FileExistsError else OSError)
        else Ok (if is_dir s1 x then s1 else AList.update x Directory s1)) = Ok s2"
    then show "read_text s2 q = Ok s"
      by (auto simp: read_text_def map_of_AList_update is_file_def split: if_splits option.splits node.splits)
  qed (rule that)
  show ?thesis
    using read_text_replace [OF f(3) tp] read_text_write [OF f(2)] keep assms(2) tp by auto
qed

end
