(* ===== verification/Py_Shlex.thy ===== *)
theory Py_Shlex
  imports Py_Json
begin

text \<open>
  \<open>shlex.quote\<close>, \<open>shlex.join\<close> and \<open>shlex.split\<close> of the standard library. The splitter is the
  POSIX machine of \<open>shlex.read_token\<close> with \<open>whitespace_split\<close> set and no comment characters;
  a token is emitted when white space or the end follows it and it is not empty or was quoted.
\<close>

section \<open>Quoting\<close>

definition is_word_char :: "char \<Rightarrow> bool" where
  "is_word_char c \<longleftrightarrow> is_ascii_alnum c \<or> c = CHR ''_''"

definition shell_safe :: "char \<Rightarrow> bool" where
  "shell_safe c \<longleftrightarrow> is_word_char c \<or> c \<in> set ''@%+=:,./-''"

definition shlex_quote :: "string \<Rightarrow> string" where
  "shlex_quote s =
     (if s = [] then [SQ, SQ]
      else if list_all shell_safe s then s
      else [SQ] @ concat (map (\<lambda>c. if c = SQ then [SQ, DQ, SQ, DQ, SQ] else [c]) s) @ [SQ])"

definition shlex_join :: "string list \<Rightarrow> string" where
  "shlex_join args = join '' '' (map shlex_quote args)"

section \<open>Splitting\<close>

datatype shlex_state = Between | Word | Quoted char | Escaped "char option"

text \<open>The state, the token so far, whether it has a quoted part, and the tokens emitted.
  \<open>Escaped q\<close> remembers the quote the backslash stood in.\<close>

type_synonym shlex_machine = "shlex_state \<times> string \<times> bool \<times> string list"

definition shlex_space :: "char \<Rightarrow> bool" where
  "shlex_space c \<longleftrightarrow> c = CHR '' '' \<or> c = TAB \<or> c = CR \<or> c = NL"

definition is_quote :: "char \<Rightarrow> bool" where
  "is_quote c \<longleftrightarrow> c = SQ \<or> c = DQ"

definition emit :: "string \<Rightarrow> bool \<Rightarrow> string list \<Rightarrow> string list" where
  "emit token quoted out = (if token \<noteq> [] \<or> quoted then out @ [token] else out)"

fun shlex_step :: "shlex_machine \<Rightarrow> char \<Rightarrow> shlex_machine" where
  "shlex_step (Between, token, quoted, out) c =
     (if shlex_space c then (Between, [], False, emit token quoted out)
      else if c = BS then (Escaped None, token, quoted, out)
      else if is_quote c then (Quoted c, token, True, out)
      else (Word, [c], quoted, out))"
| "shlex_step (Word, token, quoted, out) c =
     (if shlex_space c then (Between, [], False, emit token quoted out)
      else if is_quote c then (Quoted c, token, True, out)
      else if c = BS then (Escaped None, token, quoted, out)
      else (Word, token @ [c], quoted, out))"
| "shlex_step (Quoted q, token, quoted, out) c =
     (if c = q then (Word, token, True, out)
      else if c = BS \<and> q = DQ then (Escaped (Some q), token, True, out)
      else (Quoted q, token @ [c], True, out))"
| "shlex_step (Escaped None, token, quoted, out) c = (Word, token @ [c], quoted, out)"
| "shlex_step (Escaped (Some q), token, quoted, out) c =
     (Quoted q, token @ (if c \<noteq> BS \<and> c \<noteq> q then [BS, c] else [c]), quoted, out)"

fun shlex_finish :: "shlex_machine \<Rightarrow> string list res" where
  "shlex_finish (Between, token, quoted, out) = Ok (emit token quoted out)"
| "shlex_finish (Word, token, quoted, out) = Ok (emit token quoted out)"
| "shlex_finish (Quoted q, token, quoted, out) = Err ValueError"
| "shlex_finish (Escaped q, token, quoted, out) = Err ValueError"

definition shlex_run :: "shlex_machine \<Rightarrow> string \<Rightarrow> shlex_machine" where
  "shlex_run m s = foldl shlex_step m s"

definition shlex_split :: "string \<Rightarrow> string list res" where
  "shlex_split s = shlex_finish (shlex_run (Between, [], False, []) s)"

section \<open>Splitting a joined command line\<close>

lemma shlex_run_simps [simp]:
  "shlex_run m [] = m" "shlex_run m (c # cs) = shlex_run (shlex_step m c) cs"
  "shlex_run m (xs @ ys) = shlex_run (shlex_run m xs) ys"
  by (simp_all add: shlex_run_def)

lemma shell_safe_plain:
  assumes "shell_safe c"
  shows "\<not> shlex_space c" "\<not> is_quote c" "c \<noteq> BS"
proof -
  have "shell_safe c \<longrightarrow> \<not> shlex_space c \<and> \<not> is_quote c \<and> c \<noteq> BS"
    unfolding shell_safe_def is_word_char_def shlex_space_def is_quote_def
    by (auto simp: is_ascii_alnum_def is_digit_def is_upper_az_def is_lower_az_def code_def
        SQ_def DQ_def BS_def TAB_def CR_def NL_def)
  with assms show "\<not> shlex_space c" "\<not> is_quote c" "c \<noteq> BS" by blast+
qed

lemma shlex_run_word:
  "list_all shell_safe s \<Longrightarrow> shlex_run (Word, t, q, out) s = (Word, t @ s, q, out)"
  by (induction s arbitrary: t) (auto simp: shell_safe_plain)

lemma quote_chars: "SQ \<noteq> DQ" "DQ \<noteq> SQ" "is_quote SQ" "is_quote DQ" "\<not> shlex_space SQ" "\<not> shlex_space DQ"
    "SQ \<noteq> BS" "DQ \<noteq> BS" "shlex_space (CHR '' '')"
  by (simp_all add: SQ_def DQ_def BS_def is_quote_def shlex_space_def TAB_def CR_def NL_def)

lemma shlex_run_single:
  "shlex_run (Quoted SQ, t, True, out) (concat (map (\<lambda>c. if c = SQ then [SQ, DQ, SQ, DQ, SQ] else [c]) s))
   = (Quoted SQ, t @ s, True, out)"
  by (induction s arbitrary: t) (auto simp: quote_chars)

text \<open>After a quoted argument the machine stands in a word that holds it, and emits it.\<close>

lemma shlex_run_quote:
  "\<exists>q. shlex_run (Between, [], False, out) (shlex_quote s) = (Word, s, q, out) \<and> (s \<noteq> [] \<or> q)"
proof -
  consider "s = []" | "s \<noteq> []" "list_all shell_safe s" | "s \<noteq> []" "\<not> list_all shell_safe s" by blast
  then show ?thesis
  proof cases
    case 1
    then show ?thesis by (auto simp: shlex_quote_def quote_chars)
  next
    case 2
    then obtain c cs where "s = c # cs" by (cases s) auto
    with 2 show ?thesis by (auto simp: shlex_quote_def shell_safe_plain shlex_run_word intro!: exI [of _ False])
  next
    case 3
    then show ?thesis by (auto simp: shlex_quote_def quote_chars shlex_run_single)
  qed
qed

lemma emit_word: "s \<noteq> [] \<or> q \<Longrightarrow> emit s q out = out @ [s]"
  by (simp add: emit_def)

lemma shlex_run_join:
  "shlex_finish (shlex_run (Between, [], False, out) (shlex_join args)) = Ok (out @ args)"
proof (induction args arbitrary: out)
  case Nil
  then show ?case by (simp add: shlex_join_def emit_def)
next
  case (Cons s args)
  obtain q where q: "shlex_run (Between, [], False, out) (shlex_quote s) = (Word, s, q, out)" "s \<noteq> [] \<or> q"
    using shlex_run_quote by blast
  show ?case
  proof (cases "args = []")
    case True
    with q show ?thesis by (simp add: shlex_join_def emit_word)
  next
    case False
    with q Cons.IH [of "out @ [s]"] show ?thesis
      by (simp add: shlex_join_def join_Cons quote_chars emit_word)
  qed
qed

lemma shlex_split_join: "shlex_split (shlex_join args) = Ok args"
  using shlex_run_join [of "[]" args] by (simp add: shlex_split_def)

interpretation command_line: codec shlex_join "\<lambda>s. case shlex_split s of Inr args \<Rightarrow> Some args | Inl _ \<Rightarrow> None"
    "\<lambda>_. True"
  by unfold_locales (simp add: shlex_split_join)

end
