(* ===== verification/Batch_Config.thy ===== *)
theory Batch_Config
  imports Py_Shlex Py_System
begin

text \<open>
  \<open>ibex_sbfl_batch/config.py\<close> and \<open>info.py\<close>: the configurations of the batch commands with
  their defaults, the case and result records, and the report of a configuration at start-up.
  A decimal default is the double Python reads for it.
\<close>

section \<open>Configurations\<close>

definition DEFAULT_SBFL_BIN :: string where
  "DEFAULT_SBFL_BIN = ''build/lowrisc_ibex_ibex_simple_system_sbfl_0/sim-verilator/Vibex_simple_system''"

definition DEFAULT_COVERAGE :: string where
  "DEFAULT_COVERAGE = ''verilator.branch,verilator.line''"

definition DEFAULT_STATE :: string where
  "DEFAULT_STATE = ''PCState,ArchIntRegState,CSRState''"

definition DEFAULT_RTL :: string where
  "DEFAULT_RTL = ''rtl/''"

definition DEFAULT_INCLUDES :: string where
  "DEFAULT_INCLUDES = ''vendor/lowrisc_ip/ip/prim/rtl/,vendor/lowrisc_ip/dv/sv/dv_utils/''"

definition DEFAULT_TOP_MODULE :: string where
  "DEFAULT_TOP_MODULE = ''ibex_core''"

definition DEFAULT_TOP_SCOPE :: string where
  "DEFAULT_TOP_SCOPE = ''TOP.ibex_simple_system.u_top.u_ibex_top.u_ibex_core''"

definition DEFAULT_SIMULATOR_ARGS :: "string list" where
  "DEFAULT_SIMULATOR_ARGS = [''-c'', ''5000000'']"

record execution_config =
  x_ibex_home :: path
  x_logs_root :: path
  x_tmp_root :: path
  x_jobs :: int
  x_sbfl_bin :: string
  x_keep_workdir :: bool
  x_disassemble :: bool
  x_objdump_bin :: string
  x_dry_run :: bool

record generation_config =
  g_mode :: string
  g_coverage :: string
  g_state :: string
  g_max_run_timeout :: int
  g_max_iters :: int
  g_top_pass :: int
  g_selection :: string
  g_selection_diversity_weight :: pyfloat
  g_selection_pool_factor :: int
  g_top_sus :: int
  g_tracker_window_size :: int
  g_cover_distance_weight :: pyfloat
  g_reduce_insts :: bool
  g_reduce_cover :: bool
  g_input_path :: "path option"
  g_save_corpus :: bool
  g_checkpoint_interval :: "int option"
  g_gen_only :: bool
  g_save_reduce :: bool
  g_save_intermediate :: bool
  g_rtl_path :: string
  g_include_paths :: string
  g_top_module :: string
  g_top_scope :: string
  g_metric :: string
  g_mutator_window_size :: int
  g_mutator_weight_strategy :: string
  g_max_corpus_size :: int
  g_init_seed_rate :: pyfloat
  g_mutate_rate :: pyfloat
  g_priority_alpha :: pyfloat
  g_failed_reward :: pyfloat
  g_simulator_args :: "string list"

definition ExecutionConfig :: "path \<Rightarrow> path \<Rightarrow> path \<Rightarrow> int \<Rightarrow> execution_config" where
  "ExecutionConfig ibex_home logs_root tmp_root jobs =
     \<lparr>x_ibex_home = ibex_home, x_logs_root = logs_root, x_tmp_root = tmp_root, x_jobs = jobs,
      x_sbfl_bin = DEFAULT_SBFL_BIN, x_keep_workdir = False, x_disassemble = False,
      x_objdump_bin = ''riscv32-unknown-elf-objdump'', x_dry_run = False\<rparr>"

definition GenerationConfig :: "string \<Rightarrow> generation_config" where
  "GenerationConfig mode =
     \<lparr>g_mode = mode, g_coverage = DEFAULT_COVERAGE, g_state = DEFAULT_STATE, g_max_run_timeout = 180,
      g_max_iters = 20, g_top_pass = 120, g_selection = ''sort'',
      g_selection_diversity_weight = rnd (4 / 10), g_selection_pool_factor = 3, g_top_sus = 50,
      g_tracker_window_size = 20, g_cover_distance_weight = rnd (5 / 10), g_reduce_insts = False,
      g_reduce_cover = False, g_input_path = None, g_save_corpus = False, g_checkpoint_interval = None,
      g_gen_only = False, g_save_reduce = False, g_save_intermediate = False, g_rtl_path = DEFAULT_RTL,
      g_include_paths = DEFAULT_INCLUDES, g_top_module = DEFAULT_TOP_MODULE, g_top_scope = DEFAULT_TOP_SCOPE,
      g_metric = ''ochiai'', g_mutator_window_size = 5, g_mutator_weight_strategy = ''uniform'',
      g_max_corpus_size = 500, g_init_seed_rate = rnd (2 / 10), g_mutate_rate = rnd (2 / 10),
      g_priority_alpha = rnd (1 / 10), g_failed_reward = rnd 5, g_simulator_args = DEFAULT_SIMULATOR_ARGS\<rparr>"

record analysis_config =
  a_top_pass :: int
  a_selection :: string
  a_selection_diversity_weight :: pyfloat
  a_selection_pool_factor :: int
  a_reduce_cover :: bool
  a_top_sus :: int
  a_metric :: string
  a_cover_distance_weight :: pyfloat
  a_save_intermediate :: bool
  a_rtl_path :: string
  a_include_paths :: string
  a_top_module :: string
  a_top_scope :: string
  a_simulator_args :: "string list"

definition AnalysisConfig :: analysis_config where
  "AnalysisConfig =
     \<lparr>a_top_pass = 120, a_selection = ''sort'', a_selection_diversity_weight = rnd (4 / 10),
      a_selection_pool_factor = 5, a_reduce_cover = False, a_top_sus = 50, a_metric = ''ochiai'',
      a_cover_distance_weight = rnd (5 / 10), a_save_intermediate = False, a_rtl_path = DEFAULT_RTL,
      a_include_paths = DEFAULT_INCLUDES, a_top_module = DEFAULT_TOP_MODULE,
      a_top_scope = DEFAULT_TOP_SCOPE, a_simulator_args = []\<rparr>"

record case_spec =
  k_index :: string
  k_rel_dir :: string
  k_diff :: path
  k_case_dir :: path
  k_diff_name :: string
  k_corpus :: "path option"
  k_old_logdir :: "path option"

record case_result =
  r_case :: case_spec
  r_status :: string
  r_return_code :: int
  r_elapsed :: string
  r_logdir :: path
  r_workdir :: path

section \<open>Start-up report\<close>

datatype info_value =
    INone | IBool bool | IPath path | ISeq "string list" | IInt int | IFloat pyfloat | IStr string

fun format_info_value :: "info_value \<Rightarrow> string" where
  "format_info_value INone = ''<none>''"
| "format_info_value (IBool b) = (if b then ''true'' else ''false'')"
| "format_info_value (IPath p) = path_str p"
| "format_info_value (ISeq xs) = (if xs = [] then ''<empty>'' else shlex_join xs)"
| "format_info_value (IInt i) = str_int i"
| "format_info_value (IFloat x) = frepr x"
| "format_info_value (IStr s) = s"

definition print_info :: "string \<Rightarrow> info_value \<Rightarrow> string" where
  "print_info name v = ''[INFO] '' @ rpad CHR '' '' 36 name @ '': '' @ format_info_value v"

definition opt_info :: "('a \<Rightarrow> info_value) \<Rightarrow> 'a option \<Rightarrow> info_value" where
  "opt_info f x = (case x of None \<Rightarrow> INone | Some y \<Rightarrow> f y)"

text \<open>\<open>fields(config)\<close> with their values, in the order of the class.\<close>

definition execution_fields :: "execution_config \<Rightarrow> (string \<times> info_value) list" where
  "execution_fields c =
     [(''ibex_home'', IPath (x_ibex_home c)), (''logs_root'', IPath (x_logs_root c)),
      (''tmp_root'', IPath (x_tmp_root c)), (''jobs'', IInt (x_jobs c)), (''sbfl_bin'', IStr (x_sbfl_bin c)),
      (''keep_workdir'', IBool (x_keep_workdir c)), (''disassemble'', IBool (x_disassemble c)),
      (''objdump_bin'', IStr (x_objdump_bin c)), (''dry_run'', IBool (x_dry_run c))]"

definition generation_fields :: "generation_config \<Rightarrow> (string \<times> info_value) list" where
  "generation_fields c =
     [(''mode'', IStr (g_mode c)), (''coverage'', IStr (g_coverage c)), (''state'', IStr (g_state c)),
      (''max_run_timeout'', IInt (g_max_run_timeout c)), (''max_iters'', IInt (g_max_iters c)),
      (''top_pass'', IInt (g_top_pass c)), (''selection'', IStr (g_selection c)),
      (''selection_diversity_weight'', IFloat (g_selection_diversity_weight c)),
      (''selection_pool_factor'', IInt (g_selection_pool_factor c)), (''top_sus'', IInt (g_top_sus c)),
      (''tracker_window_size'', IInt (g_tracker_window_size c)),
      (''cover_distance_weight'', IFloat (g_cover_distance_weight c)),
      (''reduce_insts'', IBool (g_reduce_insts c)), (''reduce_cover'', IBool (g_reduce_cover c)),
      (''input_path'', opt_info IPath (g_input_path c)), (''save_corpus'', IBool (g_save_corpus c)),
      (''checkpoint_interval'', opt_info IInt (g_checkpoint_interval c)), (''gen_only'', IBool (g_gen_only c)),
      (''save_reduce'', IBool (g_save_reduce c)), (''save_intermediate'', IBool (g_save_intermediate c)),
      (''rtl_path'', IStr (g_rtl_path c)), (''include_paths'', IStr (g_include_paths c)),
      (''top_module'', IStr (g_top_module c)), (''top_scope'', IStr (g_top_scope c)), (''metric'', IStr (g_metric c)),
      (''mutator_window_size'', IInt (g_mutator_window_size c)),
      (''mutator_weight_strategy'', IStr (g_mutator_weight_strategy c)),
      (''max_corpus_size'', IInt (g_max_corpus_size c)), (''init_seed_rate'', IFloat (g_init_seed_rate c)),
      (''mutate_rate'', IFloat (g_mutate_rate c)), (''priority_alpha'', IFloat (g_priority_alpha c)),
      (''failed_reward'', IFloat (g_failed_reward c)), (''simulator_args'', ISeq (g_simulator_args c))]"

definition analysis_fields :: "analysis_config \<Rightarrow> (string \<times> info_value) list" where
  "analysis_fields c =
     [(''top_pass'', IInt (a_top_pass c)), (''selection'', IStr (a_selection c)),
      (''selection_diversity_weight'', IFloat (a_selection_diversity_weight c)),
      (''selection_pool_factor'', IInt (a_selection_pool_factor c)), (''reduce_cover'', IBool (a_reduce_cover c)),
      (''top_sus'', IInt (a_top_sus c)), (''metric'', IStr (a_metric c)),
      (''cover_distance_weight'', IFloat (a_cover_distance_weight c)),
      (''save_intermediate'', IBool (a_save_intermediate c)), (''rtl_path'', IStr (a_rtl_path c)),
      (''include_paths'', IStr (a_include_paths c)), (''top_module'', IStr (a_top_module c)),
      (''top_scope'', IStr (a_top_scope c)), (''simulator_args'', ISeq (a_simulator_args c))]"

definition print_config :: "string \<Rightarrow> (string \<times> info_value) list \<Rightarrow> string list" where
  "print_config prefix flds = map (\<lambda>(n, v). print_info (prefix @ ''.'' @ n) v) flds"

end
