(* ===== verification/Py_Csv.thy ===== *)
theory Py_Csv
  imports Py_Text
begin

text \<open>
  The tab-separated files of the tools: \<open>csv.writer\<close> with its default dialect and a tab as the
  delimiter, and \<open>csv.reader\<close> as the character machine of Python's \<open>_csv\<close> module, without
  escape characters and with double quotes doubled. A file is opened with \<open>newline=""\<close>, so
  the machine sees its characters unchanged. \<open>DictReader\<close> takes the first non-blank row as the
  field names; a missing field is absent here, and superfluous fields, which it files under the
  key \<open>None\<close>, are dropped, as no caller reads that key.
\<close>

section \<open>Writing\<close>

definition QUOTE :: char where "QUOTE = CHR 0x22"

definition needs_quote :: "string \<Rightarrow> bool" where
  "needs_quote s \<longleftrightarrow> list_ex (\<lambda>c. c = TAB \<or> c = QUOTE \<or> c = CR \<or> c = NL) s"

definition double_quotes :: "string \<Rightarrow> string" where
  "double_quotes s = concat (map (\<lambda>c. if c = QUOTE then [QUOTE, QUOTE] else [c]) s)"

definition csv_field :: "string \<Rightarrow> string" where
  "csv_field s = (if needs_quote s then [QUOTE] @ double_quotes s @ [QUOTE] else s)"

definition csv_row :: "string list \<Rightarrow> string" where
  "csv_row fields =
     (if fields = [[]] then [QUOTE, QUOTE] else join [TAB] (map csv_field fields)) @ [CR, NL]"

definition csv_text :: "string list list \<Rightarrow> string" where
  "csv_text rows = concat (map csv_row rows)"

text \<open>\<open>csv.writer\<close> with a newline as the line terminator.\<close>

definition csv_line :: "string list \<Rightarrow> string" where
  "csv_line cols = (if cols = [[]] then [QUOTE, QUOTE] else join [TAB] (map csv_field cols)) @ [NL]"

section \<open>Reading\<close>

datatype csv_state = StartRecord | StartField | InField | InQuoted | QuoteInQuoted | EatCrnl

text \<open>The state, the current field, the fields of the current record and the records so far.
  A record that ends before any character was read is the empty record.\<close>

type_synonym csv_machine = "csv_state \<times> string \<times> string list \<times> string list list"

fun csv_step :: "csv_machine \<Rightarrow> char \<Rightarrow> csv_machine" where
  "csv_step (EatCrnl, f, fs, rs) c =
     (if c = NL then (StartRecord, [], [], rs)
      else if c = CR then (EatCrnl, [], [], rs @ [[]])
      else if c = QUOTE then (InQuoted, [], [], rs)
      else if c = TAB then (StartField, [], [[]], rs)
      else (InField, [c], [], rs))"
| "csv_step (StartRecord, f, fs, rs) c =
     (if c = NL then (StartRecord, [], [], rs @ [[]])
      else if c = CR then (EatCrnl, [], [], rs @ [[]])
      else if c = QUOTE then (InQuoted, [], [], rs)
      else if c = TAB then (StartField, [], [[]], rs)
      else (InField, [c], [], rs))"
| "csv_step (StartField, f, fs, rs) c =
     (if c = NL then (StartRecord, [], [], rs @ [fs @ [[]]])
      else if c = CR then (EatCrnl, [], [], rs @ [fs @ [[]]])
      else if c = QUOTE then (InQuoted, [], fs, rs)
      else if c = TAB then (StartField, [], fs @ [[]], rs)
      else (InField, [c], fs, rs))"
| "csv_step (InField, f, fs, rs) c =
     (if c = NL then (StartRecord, [], [], rs @ [fs @ [f]])
      else if c = CR then (EatCrnl, [], [], rs @ [fs @ [f]])
      else if c = TAB then (StartField, [], fs @ [f], rs)
      else (InField, f @ [c], fs, rs))"
| "csv_step (InQuoted, f, fs, rs) c =
     (if c = QUOTE then (QuoteInQuoted, f, fs, rs) else (InQuoted, f @ [c], fs, rs))"
| "csv_step (QuoteInQuoted, f, fs, rs) c =
     (if c = QUOTE then (InQuoted, f @ [QUOTE], fs, rs)
      else if c = TAB then (StartField, [], fs @ [f], rs)
      else if c = NL then (StartRecord, [], [], rs @ [fs @ [f]])
      else if c = CR then (EatCrnl, [], [], rs @ [fs @ [f]])
      else (InField, f @ [c], fs, rs))"

definition csv_run :: "csv_machine \<Rightarrow> string \<Rightarrow> csv_machine" where
  "csv_run m s = foldl csv_step m s"

definition csv_finish :: "csv_machine \<Rightarrow> string list list" where
  "csv_finish m =
     (case m of (st, f, fs, rs) \<Rightarrow> if st = StartRecord \<or> st = EatCrnl then rs else rs @ [fs @ [f]])"

definition csv_parse :: "string \<Rightarrow> string list list" where
  "csv_parse s = csv_finish (csv_run (StartRecord, [], [], []) s)"

definition dict_reader :: "string list list \<Rightarrow> (string, string) dict list" where
  "dict_reader rows =
     (case filter (\<lambda>r. r \<noteq> []) rows of
        [] \<Rightarrow> []
      | header # body \<Rightarrow> map (\<lambda>r. dict_of (zip header r)) body)"

section \<open>A written table is read back\<close>

lemma csv_run_append: "csv_run m (xs @ ys) = csv_run (csv_run m xs) ys"
  and csv_run_Nil [simp]: "csv_run m [] = m"
  and csv_run_Cons [simp]: "csv_run m (c # cs) = csv_run (csv_step m c) cs"
  by (simp_all add: csv_run_def)

lemma special_distinct [simp]: "QUOTE \<noteq> TAB" "QUOTE \<noteq> CR" "QUOTE \<noteq> NL" "TAB \<noteq> CR" "TAB \<noteq> NL" "CR \<noteq> NL"
  "TAB \<noteq> QUOTE" "CR \<noteq> QUOTE" "NL \<noteq> QUOTE" "CR \<noteq> TAB" "NL \<noteq> TAB" "NL \<noteq> CR"
  by (simp_all add: QUOTE_def TAB_def CR_def NL_def)

lemma csv_run_plain:
  "\<not> needs_quote s \<Longrightarrow> csv_run (InField, f, fs, rs) s = (InField, f @ s, fs, rs)"
  by (induction s arbitrary: f) (auto simp: needs_quote_def)

lemma csv_run_quoted:
  "csv_run (InQuoted, f, fs, rs) (double_quotes s) = (InQuoted, f @ s, fs, rs)"
  by (induction s arbitrary: f) (auto simp: double_quotes_def)

text \<open>The machine after a written field: it holds the field, whichever way it was written.\<close>

definition holds_field :: "csv_machine \<Rightarrow> string \<Rightarrow> string list \<Rightarrow> string list list \<Rightarrow> bool" where
  "holds_field m s fs rs \<longleftrightarrow>
     m = (InField, s, fs, rs) \<or> m = (QuoteInQuoted, s, fs, rs) \<or> m = (StartField, [], fs, rs) \<and> s = []"

lemma csv_run_field:
  assumes "st = StartField \<or> (st = StartRecord \<and> fs = [] \<and> s \<noteq> [])"
  shows "holds_field (csv_run (st, [], fs, rs) (csv_field s)) s fs rs"
proof (cases "needs_quote s")
  case True
  then show ?thesis
    using assms csv_run_quoted [of "[]" fs rs s]
    by (auto simp: csv_field_def csv_run_append holds_field_def)
next
  case False
  show ?thesis
  proof (cases s)
    case Nil
    then show ?thesis using assms by (auto simp: csv_field_def needs_quote_def holds_field_def)
  next
    case (Cons c cs)
    with False have "\<not> needs_quote cs" "c \<noteq> TAB" "c \<noteq> QUOTE" "c \<noteq> CR" "c \<noteq> NL" by (auto simp: needs_quote_def)
    then show ?thesis
      using assms False Cons csv_run_plain [of cs "[c]" fs rs] by (auto simp: csv_field_def holds_field_def)
  qed
qed

lemma csv_step_tab: "holds_field m s fs rs \<Longrightarrow> csv_step m TAB = (StartField, [], fs @ [s], rs)"
  by (auto simp: holds_field_def)

lemma csv_run_crnl:
  "holds_field m s fs rs \<Longrightarrow> csv_run m [CR, NL] = (StartRecord, [], [], rs @ [fs @ [s]])"
  by (auto simp: holds_field_def)

lemma csv_run_fields:
  assumes "ss \<noteq> []" "st = StartField \<or> (st = StartRecord \<and> fs = [] \<and> hd ss \<noteq> [])"
  shows "csv_run (st, [], fs, rs) (join [TAB] (map csv_field ss) @ [CR, NL])
    = (StartRecord, [], [], rs @ [fs @ ss])"
  using assms
proof (induction ss arbitrary: st fs)
  case (Cons s ss)
  have f: "st = StartField \<or> (st = StartRecord \<and> fs = [] \<and> s \<noteq> [])" using Cons.prems(2) by auto
  have m: "holds_field (csv_run (st, [], fs, rs) (csv_field s)) s fs rs" by (rule csv_run_field [OF f])
  show ?case
  proof (cases "ss = []")
    case True
    with m show ?thesis by (simp add: csv_run_append csv_run_crnl del: csv_run_Cons csv_run_Nil)
  next
    case False
    with Cons.IH [of StartField "fs @ [s]"]
    have "csv_run (StartField, [], fs @ [s], rs) (join [TAB] (map csv_field ss) @ [CR, NL])
        = (StartRecord, [], [], rs @ [fs @ s # ss])" by simp
    with False m show ?thesis
      by (simp add: join_Cons csv_run_append csv_step_tab)
  qed
qed simp

lemma csv_run_row:
  assumes "ss \<noteq> []" "hd ss \<noteq> []"
  shows "csv_run (StartRecord, [], [], rs) (csv_row ss) = (StartRecord, [], [], rs @ [ss])"
  using csv_run_fields [OF assms(1), of StartRecord "[]" rs] assms(2)
  by (auto simp: csv_row_def)

lemma csv_run_text:
  "\<forall>r \<in> set rows. r \<noteq> [] \<and> hd r \<noteq> [] \<Longrightarrow>
   csv_run (StartRecord, [], [], rs) (csv_text rows) = (StartRecord, [], [], rs @ rows)"
  by (induction rows arbitrary: rs) (auto simp: csv_text_def csv_run_append csv_run_row)

lemma csv_parse_text:
  "\<forall>r \<in> set rows. r \<noteq> [] \<and> hd r \<noteq> [] \<Longrightarrow> csv_parse (csv_text rows) = rows"
  using csv_run_text [of rows "[]"] by (simp add: csv_parse_def csv_finish_def)

text \<open>Tables whose rows start with a non-empty field.\<close>

interpretation csv_table: codec csv_text "\<lambda>s. Some (csv_parse s)"
    "\<lambda>rows. \<forall>r \<in> set rows. r \<noteq> [] \<and> hd r \<noteq> []"
  by unfold_locales (simp add: csv_parse_text)

end
