(* ===== verification/Logparse.thy ===== *)
theory Logparse
  imports Batch_Config Py_Csv
begin

text \<open>
  \<open>ibex_sbfl_batch/logparse.py\<close> and \<open>rerun.py\<close>: what a later command reads back from the logs
  of an earlier one. \<open>Path.expanduser\<close> and \<open>Path.resolve\<close> depend on the user and the working
  directory and are parameters, as is \<open>str\<close> of a built-in exception.
\<close>

section \<open>Logged commands\<close>

fun find_index :: "'a \<Rightarrow> 'a list \<Rightarrow> nat option" where
  "find_index x [] = None"
| "find_index x (y # ys) = (if x = y then Some 0 else map_option Suc (find_index x ys))"

text \<open>The last command of a run log: the loop over its lines keeps the latest.\<close>

definition run_prefix :: string where "run_prefix = ''[RUN] ''"

definition last_command :: "string list \<Rightarrow> string" where
  "last_command ls =
     fold (\<lambda>line command. if startswith line ''[RUN] /'' then removeprefix line run_prefix else command) ls []"

definition last_run_argv :: "(exn \<Rightarrow> string) \<Rightarrow> fs \<Rightarrow> path \<Rightarrow> string list res" where
  "last_run_argv describe fs run_log =
     (case read_text fs run_log of
        Inl e \<Rightarrow> if is_os_error e
                then Err (SbflBatchError (''cannot read run log '' @ path_str run_log @ '': '' @ describe e))
                else Err e
      | Inr content \<Rightarrow>
          (let command = last_command (splitlines content) in
           if command = [] then Err (SbflBatchError (''no executable [RUN] command found in '' @ path_str run_log))
           else (case shlex_split command of
               Inl e \<Rightarrow> if is_value_error e
                 then Err (SbflBatchError (''cannot parse [RUN] command in '' @ path_str run_log @ '': '' @ describe e))
                 else Err e
             | Inr argv \<Rightarrow> Ok argv)))"

definition option_value :: "string list \<Rightarrow> string \<Rightarrow> string option \<Rightarrow> string option res" where
  "option_value argv opt dflt =
     (case find_index opt argv of
        None \<Rightarrow> Ok dflt
      | Some i \<Rightarrow>
          if length argv \<le> i + 1 then Err (SbflBatchError (''logged option '' @ opt @ '' has no value''))
          else Ok (Some (argv ! (i + 1))))"

definition has_flag :: "string list \<Rightarrow> string \<Rightarrow> bool" where
  "has_flag argv flag \<longleftrightarrow> flag \<in> set argv"

definition generation_modes :: "(string, string) dict" where
  "generation_modes = [(''psbfl'', ''psbfl''), (''random'', ''random''), (''wit-hw'', ''withw'')]"

definition generation_mode :: "string list \<Rightarrow> string res" where
  "generation_mode argv =
     (case find_index ''generation'' argv of
        None \<Rightarrow> Err (SbflBatchError ''logged command has no generation subcommand'')
      | Some g \<Rightarrow>
          (let after = drop (g + 1) argv;
               body = (case find_index ''--'' after of None \<Rightarrow> after | Some n \<Rightarrow> take n after)
           in (case find (\<lambda>a. map_of generation_modes a \<noteq> None) (rev body) of
                 Some a \<Rightarrow> Ok (the (map_of generation_modes a))
               | None \<Rightarrow> Err (SbflBatchError ''cannot determine generation mode from logged command''))))"

definition trailing_args :: "string list \<Rightarrow> string list \<Rightarrow> string list" where
  "trailing_args argv fallback = (case find_index ''--'' argv of None \<Rightarrow> fallback | Some i \<Rightarrow> drop (i + 1) argv)"

definition required_option :: "string list \<Rightarrow> string \<Rightarrow> string res" where
  "required_option argv opt =
     rbind (option_value argv opt None) (\<lambda>v. case v of
       None \<Rightarrow> Err (SbflBatchError (''logged command has no '' @ opt @ '' option'')) | Some x \<Rightarrow> Ok x)"

section \<open>Cases of an earlier run\<close>

definition or_else :: "string \<Rightarrow> string \<Rightarrow> string" where
  "or_else s t = (if s = [] then t else s)"

definition status_case ::
  "(path \<Rightarrow> path) \<Rightarrow> (path \<Rightarrow> path) \<Rightarrow> fs \<Rightarrow> path \<Rightarrow> bool \<Rightarrow> (string, string) dict \<Rightarrow> case_spec option" where
  "status_case expanduser resolve fs run_dir require_corpus row =
     (let index = dict_get row ''case_index'' []; diff_text = dict_get row ''diff'' [];
          old_logdir_text = dict_get row ''logdir'' [] in
      if index = [] \<or> diff_text = [] \<or> old_logdir_text = [] then None
      else (let old_logdir = path_div run_dir (path_name (path_of old_logdir_text));
                corpus = path_div old_logdir ''saved_corpus'';
                diff = resolve (expanduser (path_of diff_text));
                case_dir = dict_get row ''case_dir'' [] in
            if require_corpus \<and> \<not> is_file fs corpus then None
            else Some \<lparr>k_index = index,
                   k_rel_dir = or_else (dict_get row ''rel_dir'' []) (path_name (path_parent diff)),
                   k_diff = diff,
                   k_case_dir = resolve (if case_dir = [] then path_parent diff else path_of case_dir),
                   k_diff_name = or_else (dict_get row ''diff_name'' []) (path_name diff),
                   k_corpus = Some (resolve corpus), k_old_logdir = Some (resolve old_logdir)\<rparr>))"

definition read_status_cases ::
  "(path \<Rightarrow> path) \<Rightarrow> (path \<Rightarrow> path) \<Rightarrow> fs \<Rightarrow> path \<Rightarrow> bool \<Rightarrow> case_spec list res" where
  "read_status_cases expanduser resolve fs run_dir require_corpus =
     (let status_file = path_div run_dir ''run_status.tsv'' in
      if \<not> is_file fs status_file then Err (SbflBatchError (''run status not found: '' @ path_str status_file))
      else rbind (read_text fs status_file) (\<lambda>content.
        let cases = List.map_filter (status_case expanduser resolve fs run_dir require_corpus)
                      (dict_reader (csv_parse content))
        in if cases = [] then Err (SbflBatchError (''no usable cases found in '' @ path_str status_file))
           else Ok cases))"

section \<open>Resuming generation\<close>

definition integer_option :: "string list \<Rightarrow> string \<Rightarrow> int \<Rightarrow> int res" where
  "integer_option argv opt dflt =
     rbind (option_value argv opt (Some (str_int dflt))) (\<lambda>v. res_of ValueError (py_int (the v)))"

definition floating_option :: "string list \<Rightarrow> string \<Rightarrow> pyfloat \<Rightarrow> pyfloat res" where
  "floating_option argv opt dflt =
     rbind (option_value argv opt (Some (frepr dflt))) (\<lambda>v. res_of ValueError (py_float (the v)))"

definition text_option :: "string list \<Rightarrow> string \<Rightarrow> string \<Rightarrow> string res" where
  "text_option argv opt dflt = rbind (option_value argv opt (Some dflt)) (\<lambda>v. Ok (the v))"

text \<open>The options of the command line; an absent option is \<open>None\<close>.\<close>

record rerun_args =
  ra_input_logs :: string
  ra_max_iters :: int
  ra_save_corpus :: bool
  ra_no_checkpoint_interval :: bool
  ra_checkpoint_interval :: "int option"
  ra_max_run_timeout :: "int option"
  ra_top_pass :: "int option"
  ra_selection :: "string option"
  ra_selection_diversity_weight :: "pyfloat option"
  ra_selection_pool_factor :: "int option"
  ra_top_sus :: "int option"
  ra_cover_distance_weight :: "pyfloat option"
  ra_reduce_cover :: "bool option"
  ra_gen_only :: "bool option"
  ra_save_intermediate :: "bool option"
  ra_rtl_path :: string
  ra_include_paths :: string
  ra_top_module :: "string option"
  ra_top_scope :: "string option"
  ra_metric :: "string option"
  ra_mutator_window_size :: "int option"
  ra_mutator_weight_strategy :: "string option"
  ra_max_corpus_size :: "int option"
  ra_init_seed_rate :: "pyfloat option"
  ra_mutate_rate :: "pyfloat option"
  ra_priority_alpha :: "pyfloat option"
  ra_failed_reward :: "pyfloat option"
  ra_simulator_args :: "string list option"

definition rerun_command ::
  "(exn \<Rightarrow> string) \<Rightarrow> fs \<Rightarrow> case_spec \<Rightarrow> (path \<times> string list) res" where
  "rerun_command describe fs c =
     (case k_old_logdir c of
        None \<Rightarrow> Err AssertionError
      | Some d \<Rightarrow>
          (let run_log = path_div d ''run.log'' in
           if \<not> is_file fs run_log
           then Err (SbflBatchError (''run.log not found for case '' @ k_index c @ '': '' @ path_str run_log))
           else if \<not> is_file fs (k_diff c)
           then Err (SbflBatchError (''original diff not found for case '' @ k_index c @ '': '' @ path_str (k_diff c)))
           else rbind (last_run_argv describe fs run_log) (\<lambda>argv. Ok (run_log, argv))))"

text \<open>The command line options that do not apply to a mode, in the order of the tables.\<close>

definition given :: "string \<Rightarrow> 'a option \<Rightarrow> string list" where
  "given name v = (case v of None \<Rightarrow> [] | Some _ \<Rightarrow> [name])"

definition psbfl_given :: "rerun_args \<Rightarrow> string list" where
  "psbfl_given a = given ''mutator_window_size'' (ra_mutator_window_size a) @
     given ''mutator_weight_strategy'' (ra_mutator_weight_strategy a)"

definition withw_given :: "rerun_args \<Rightarrow> string list" where
  "withw_given a = given ''max_corpus_size'' (ra_max_corpus_size a) @ given ''init_seed_rate'' (ra_init_seed_rate a) @
     given ''mutate_rate'' (ra_mutate_rate a) @ given ''priority_alpha'' (ra_priority_alpha a) @
     given ''failed_reward'' (ra_failed_reward a)"

definition wrong_options :: "string \<Rightarrow> rerun_args \<Rightarrow> string list" where
  "wrong_options mode a =
     (if mode = ''psbfl'' then withw_given a
      else if mode = ''withw'' then psbfl_given a
      else psbfl_given a @ withw_given a)"

type_synonym critical = "string \<times> string \<times> string \<times> int"

definition critical_settings :: "string list \<Rightarrow> critical res" where
  "critical_settings argv =
     rbind (generation_mode argv) (\<lambda>mode.
     rbind (required_option argv ''-c'') (\<lambda>coverage.
     rbind (required_option argv ''-s'') (\<lambda>state.
     rbind (integer_option argv ''--tracker-window-size'' 20) (\<lambda>tracker.
       Ok (mode, coverage, state, tracker)))))"

definition critical_text :: "critical \<Rightarrow> string" where
  "critical_text c =
     (case c of (m, cov, st, t) \<Rightarrow>
        ''('' @ join '', '' [repr_str m, repr_str cov, repr_str st, str_int t] @ '')'')"

fun check_commands :: "critical \<Rightarrow> (path \<times> string list) list \<Rightarrow> unit res" where
  "check_commands expected [] = Ok ()"
| "check_commands expected ((run_log, argv) # rest) =
     rbind (critical_settings argv) (\<lambda>observed.
       if observed \<noteq> expected
       then Err (SbflBatchError (''checkpoint-critical settings differ in '' @ path_str run_log @ '': expected='' @
              critical_text expected @ '', observed='' @ critical_text observed))
       else check_commands expected rest)"

definition resumed_interval :: "rerun_args \<Rightarrow> string list \<Rightarrow> int option res" where
  "resumed_interval a argv =
     rbind (option_value argv ''--checkpoint-interval'' None) (\<lambda>v.
     rbind (case v of None \<Rightarrow> Ok None | Some t \<Rightarrow> rbind (res_of ValueError (py_int t)) (\<lambda>n. Ok (Some n))) (\<lambda>logged.
       let interval = (if ra_no_checkpoint_interval a then None
                       else if ra_checkpoint_interval a \<noteq> None then ra_checkpoint_interval a else logged)
       in if ra_save_corpus a then Ok interval
          else if ra_checkpoint_interval a \<noteq> None
          then Err (SbflBatchError ''--checkpoint-interval conflicts with --no-save-corpus'')
          else Ok None))"

definition override :: "'a option \<Rightarrow> 'a res \<Rightarrow> 'a res" where
  "override v inherited = rbind inherited (\<lambda>x. Ok (case v of None \<Rightarrow> x | Some y \<Rightarrow> y))"

definition resumed_config :: "rerun_args \<Rightarrow> string list \<Rightarrow> critical \<Rightarrow> int option \<Rightarrow> generation_config res" where
  "resumed_config a first crit interval =
     (case crit of (mode, coverage, state, tracker) \<Rightarrow>
       rbind (override (ra_max_run_timeout a) (integer_option first ''--max-run-timeout'' 10)) (\<lambda>timeout.
       rbind (override (ra_top_pass a) (integer_option first ''--top-pass'' 10)) (\<lambda>top_pass.
       rbind (override (ra_selection a) (text_option first ''--selection'' ''sort'')) (\<lambda>selection.
       rbind (override (ra_selection_diversity_weight a)
                (floating_option first ''--selection-diversity-weight'' (rnd (4 / 10)))) (\<lambda>diversity.
       rbind (override (ra_selection_pool_factor a) (integer_option first ''--selection-pool-factor'' 3)) (\<lambda>pool.
       rbind (override (ra_top_sus a) (integer_option first ''--top-sus'' 10)) (\<lambda>top_sus.
       rbind (override (ra_cover_distance_weight a)
                (floating_option first ''--cover-distance-weight'' (rnd (5 / 10)))) (\<lambda>cover.
       rbind (override (ra_top_module a) (text_option first ''--top-module'' ''ibex_core'')) (\<lambda>top_module.
       rbind (override (ra_top_scope a) (text_option first ''--top-scope'' DEFAULT_TOP_SCOPE)) (\<lambda>top_scope.
       rbind (override (ra_metric a) (text_option first ''--metric'' ''ochiai'')) (\<lambda>metric.
       rbind (override (ra_mutator_window_size a) (integer_option first ''--mutator-window-size'' 20)) (\<lambda>window.
       rbind (override (ra_mutator_weight_strategy a)
                (text_option first ''--mutator-weight-strategy'' ''uniform'')) (\<lambda>strategy.
       rbind (override (ra_max_corpus_size a) (integer_option first ''--max-corpus-size'' 50)) (\<lambda>corpus_size.
       rbind (override (ra_init_seed_rate a) (floating_option first ''--init-seed-rate'' (rnd (2 / 10)))) (\<lambda>seed.
       rbind (override (ra_mutate_rate a) (floating_option first ''--mutate-rate'' (rnd (2 / 10)))) (\<lambda>mutate.
       rbind (override (ra_priority_alpha a) (floating_option first ''--priority-alpha'' (rnd (1 / 10)))) (\<lambda>alpha.
       rbind (override (ra_failed_reward a) (floating_option first ''--failed-reward'' (rnd 5))) (\<lambda>reward.
         Ok ((GenerationConfig mode)
           \<lparr>g_coverage := coverage, g_state := state, g_max_run_timeout := timeout, g_max_iters := ra_max_iters a,
            g_top_pass := top_pass, g_selection := selection, g_selection_diversity_weight := diversity,
            g_selection_pool_factor := pool, g_top_sus := top_sus, g_tracker_window_size := tracker,
            g_cover_distance_weight := cover,
            g_reduce_cover := (case ra_reduce_cover a of None \<Rightarrow> has_flag first ''--reduce-cover'' | Some b \<Rightarrow> b),
            g_save_corpus := ra_save_corpus a, g_checkpoint_interval := interval,
            g_gen_only := (case ra_gen_only a of None \<Rightarrow> has_flag first ''--gen-only'' | Some b \<Rightarrow> b),
            g_save_intermediate :=
              (case ra_save_intermediate a of None \<Rightarrow> has_flag first ''--save-intermediate'' | Some b \<Rightarrow> b),
            g_rtl_path := ra_rtl_path a, g_include_paths := ra_include_paths a, g_top_module := top_module,
            g_top_scope := top_scope, g_metric := metric, g_mutator_window_size := window,
            g_mutator_weight_strategy := strategy, g_max_corpus_size := corpus_size, g_init_seed_rate := seed,
            g_mutate_rate := mutate, g_priority_alpha := alpha, g_failed_reward := reward,
            g_simulator_args := (case ra_simulator_args a of None \<Rightarrow> DEFAULT_SIMULATOR_ARGS | Some s \<Rightarrow> s)\<rparr>)))))))))))))))))))"

definition prepare_rerun ::
  "(exn \<Rightarrow> string) \<Rightarrow> (path \<Rightarrow> path) \<Rightarrow> (path \<Rightarrow> path) \<Rightarrow> fs \<Rightarrow> rerun_args
     \<Rightarrow> (generation_config \<times> case_spec list) res" where
  "prepare_rerun describe expanduser resolve fs a =
     (let run_dir = resolve (expanduser (path_of (ra_input_logs a))) in
      rbind (read_status_cases expanduser resolve fs run_dir True) (\<lambda>cases.
      rbind (rmapM (rerun_command describe fs) cases) (\<lambda>commands.
      rbind (if commands = [] then Err IndexError else Ok (snd (hd commands))) (\<lambda>first.
      rbind (generation_mode first) (\<lambda>mode.
        let wrong = wrong_options mode a in
        if wrong \<noteq> [] then Err (SbflBatchError (''options do not apply to inherited '' @ mode @ '' mode: '' @ join '', '' wrong))
        else
          rbind (critical_settings first) (\<lambda>expected.
          rbind (check_commands expected commands) (\<lambda>_.
          rbind (resumed_interval a first) (\<lambda>interval.
          rbind (resumed_config a first expected interval) (\<lambda>config. Ok (config, cases))))))))))"

end
