(* ===== verification/Runner.thy ===== *)
theory Runner
  imports Logparse Artifacts
begin

text \<open>
  \<open>ibex_sbfl_batch/workspace.py\<close> and \<open>runner.py\<close>: the isolated work directory of a case, the
  command line of its generation run, the steps of a case with their status, and the batch.
  Child processes, the clock, the run id, \<open>shutil.which\<close> and the executable bit of a file are
  parameters. \<open>exec argv cwd output\<close> runs a command to its return code and may change files.
  The file system has no symbolic links. Cases of a batch work in their own directories; the
  batch runs them in the order in which the pool completes them.
\<close>

section \<open>Loops\<close>

fun eforeach :: "('a \<Rightarrow> ('s, unit) eff) \<Rightarrow> 'a list \<Rightarrow> ('s, unit) eff" where
  "eforeach f [] = eret ()"
| "eforeach f (x # xs) = ebind (f x) (\<lambda>_. eforeach f xs)"

section \<open>Files\<close>

text \<open>\<open>p.mkdir(parents=True)\<close>: the directory must be new.\<close>

definition mkdir_new :: "path \<Rightarrow> fs \<Rightarrow> fs res" where
  "mkdir_new p fs = (if path_exists fs p then Err FileExistsError else mkdir_parents p fs)"

definition append_text :: "path \<Rightarrow> string \<Rightarrow> fs \<Rightarrow> fs res" where
  "append_text p s fs = write_text p ((case read_text fs p of Inr old \<Rightarrow> old | Inl _ \<Rightarrow> []) @ s) fs"

definition rmtree :: "path \<Rightarrow> fs \<Rightarrow> fs" where
  "rmtree p fs = filter (\<lambda>(q, n). q \<noteq> p \<and> \<not> is_below p q) fs"

definition is_relative_to :: "path \<Rightarrow> path \<Rightarrow> bool" where
  "is_relative_to p q \<longleftrightarrow> (case path_relative_to p q of Inr _ \<Rightarrow> True | Inl _ \<Rightarrow> False)"

section \<open>Work directories\<close>

definition WORKDIR_DIRECTORIES :: "string list" where
  "WORKDIR_DIRECTORIES = [''dv'', ''vendor'', ''rtl'', ''shared'', ''examples'', ''util'', ''lint'']"

definition WORKDIR_FILES :: "string list" where
  "WORKDIR_FILES = [''Cargo.lock'', ''Cargo.toml'']"

definition FUSESOC_COMMAND :: "string list" where
  "FUSESOC_COMMAND = [''fusesoc'', ''--cores-root=.'', ''run'', ''--target=sim'', ''--setup'', ''--build'',
     ''lowrisc:ibex:ibex_simple_system_sbfl'', ''--RV32E=0'', ''--RV32M=ibex_pkg::RV32MFast'']"

type_synonym executor = "string list \<Rightarrow> path \<Rightarrow> path \<Rightarrow> (fs, int) eff"

definition process_run :: "executor \<Rightarrow> string list \<Rightarrow> path \<Rightarrow> path \<Rightarrow> (fs, int) eff" where
  "process_run exec argv cwd output =
     ebind (eupd (mkdir_parents (path_parent output))) (\<lambda>_.
     ebind (eupd (write_text output [])) (\<lambda>_. exec argv cwd output))"

definition require_commands :: "(string \<Rightarrow> bool) \<Rightarrow> string list \<Rightarrow> unit res" where
  "require_commands which names =
     (let missing = filter (\<lambda>n. \<not> which n) names in
      if missing = [] then Ok ()
      else Err (SbflBatchError (''required commands not found in PATH: '' @ join '', '' missing)))"

text \<open>A path below \<open>a\<close>, moved below \<open>b\<close>.\<close>

definition rebase_path :: "path \<Rightarrow> path \<Rightarrow> path \<Rightarrow> path" where
  "rebase_path a b q = Path (path_root b) (path_parts b @ drop (length (path_parts a)) (path_parts q))"

definition copytree :: "path \<Rightarrow> path \<Rightarrow> fs \<Rightarrow> fs res" where
  "copytree src dst fs =
     (if path_exists fs dst then Err FileExistsError
      else rbind (mkdir_parents dst fs) (\<lambda>fs1.
        Ok (dict_update fs1 (map (\<lambda>(q, n). (rebase_path src dst q, n)) (filter (\<lambda>(q, n). is_below src q) fs)))))"

definition copy_source :: "path \<Rightarrow> path \<Rightarrow> fs \<Rightarrow> fs res" where
  "copy_source src dst fs =
     (if is_dir fs src then copytree src dst fs
      else rbind (read_text fs src) (\<lambda>s. write_text dst s fs))"

definition copy_workdir :: "path \<Rightarrow> path \<Rightarrow> (fs, unit) eff" where
  "copy_workdir ibex_home destination =
     ebind (eupd (mkdir_new destination)) (\<lambda>_.
     ebind (eforeach (\<lambda>name. eupd (\<lambda>fs.
         let src = path_div ibex_home name in
         if \<not> path_exists fs src
         then Err (SbflBatchError (''required workdir source not found: '' @ path_str src))
         else copy_source src (path_div destination name) fs)) WORKDIR_DIRECTORIES) (\<lambda>_.
     ebind (eforeach (\<lambda>name. eupd (\<lambda>fs.
         let src = path_div ibex_home name in
         if \<not> is_file fs src
         then Err (SbflBatchError (''required workdir file not found: '' @ path_str src))
         else copy_source src (path_div destination name) fs)) WORKDIR_FILES) (\<lambda>_.
     ebind (eget (\<lambda>fs. sort (glob_suffix fs ibex_home ''.core''))) (\<lambda>cores.
       if cores = [] then eraise (SbflBatchError (''no root-level .core files found under: '' @ path_str ibex_home))
       else eforeach (\<lambda>src. eupd (copy_source src (path_div destination (path_name src)))) cores))))"

definition resolve_workdir_path :: "path \<Rightarrow> string \<Rightarrow> path" where
  "resolve_workdir_path workdir p =
     (let candidate = path_of p in if path_is_absolute candidate then candidate else path_join workdir candidate)"

definition command_line_text :: "path \<Rightarrow> string list \<Rightarrow> string" where
  "command_line_text executable argv = ''[RUN] '' @ shlex_join (path_str executable # argv) @ [NL]"

definition write_command :: "path \<Rightarrow> path \<Rightarrow> string list \<Rightarrow> (fs, unit) eff" where
  "write_command run_log executable argv = eupd (append_text run_log (command_line_text executable argv))"

definition path_with_suffix :: "path \<Rightarrow> string \<Rightarrow> path res" where
  "path_with_suffix p suffix = path_with_name p (path_stem p @ suffix)"

text \<open>One disassembly: its text goes to a fresh \<open>.dis\<close> file, which a failed run removes.\<close>

definition disassemble_one :: "executor \<Rightarrow> path \<Rightarrow> string \<Rightarrow> path \<Rightarrow> path \<Rightarrow> (fs, unit) eff" where
  "disassemble_one exec cwd objdump_bin output elf =
     ebind (elift (path_with_suffix elf ''.dis'')) (\<lambda>disassembly.
     ebind (eupd (append_text output (''[OBJDUMP] '' @ path_str elf @ '' -> '' @ path_str disassembly @ [NL]))) (\<lambda>_.
     ebind (eupd (write_text disassembly [])) (\<lambda>_.
     ebind (exec [objdump_bin, ''-SD'', path_str elf] cwd disassembly) (\<lambda>rc.
       if rc \<noteq> 0 then eupd (unlink disassembly) else eret ()))))"

definition disassemble_elfs ::
  "(string \<Rightarrow> bool) \<Rightarrow> executor \<Rightarrow> path \<Rightarrow> path \<Rightarrow> string \<Rightarrow> path \<Rightarrow> (fs, unit) eff" where
  "disassemble_elfs which exec cwd root_dir objdump_bin output =
     (if \<not> which objdump_bin
      then eupd (append_text output (''[WARN] '' @ objdump_bin @ '' not found in PATH, skip disassemble'' @ [NL]))
      else ebind (eget (\<lambda>fs. sort (filter (\<lambda>q. is_below root_dir q \<and> lower (path_suffix q) = ''.elf'') (map fst fs))))
             (eforeach (disassemble_one exec cwd objdump_bin output)))"

text \<open>\<open>str(exc)\<close>: the message of the tool's own errors, the system's text otherwise.\<close>

definition exc_text :: "(exn \<Rightarrow> string) \<Rightarrow> exn \<Rightarrow> string" where
  "exc_text describe e = (case e of SbflBatchError m \<Rightarrow> m | _ \<Rightarrow> describe e)"

section \<open>Names and times\<close>

definition GENERATION_FIELDS :: "string list" where
  "GENERATION_FIELDS = [''case_index'', ''rel_dir'', ''diff_name'', ''case_dir'', ''diff'', ''status'', ''rc'',
     ''elapsed_time'', ''logdir'', ''workdir'']"

definition name_char :: "char \<Rightarrow> bool" where
  "name_char c \<longleftrightarrow> is_ascii_alnum c \<or> c \<in> set ''._-''"

definition safe_name :: "string \<Rightarrow> string" where
  "safe_name s = or_else (map (\<lambda>c. if name_char c then c else CHR ''_'') s) ''root''"

fun round_float :: "pyfloat \<Rightarrow> int res" where
  "round_float (Fin a) = Ok (round_half_even a)"
| "round_float NaN = Err ValueError"
| "round_float _ = Err OverflowError"

definition elapsed_text :: "int \<Rightarrow> string" where
  "elapsed_text ms =
     (let hours = ms div 3600000; m1 = ms mod 3600000; minutes = m1 div 60000; m2 = m1 mod 60000;
          secs = m2 div 1000; m3 = m2 mod 1000 in
      zpad_int 2 hours @ '':'' @ zpad_int 2 minutes @ '':'' @ zpad_int 2 secs @ '':'' @ zpad_int 3 m3)"

definition format_elapsed :: "pyfloat \<Rightarrow> string res" where
  "format_elapsed seconds =
     rbind (round_float (fmul seconds (Fin 1000))) (\<lambda>r. Ok (elapsed_text (max 0 r)))"

section \<open>Cases\<close>

definition all_case :: "path \<Rightarrow> nat \<times> path \<Rightarrow> case_spec res" where
  "all_case target = (\<lambda>(i, diff).
     rbind (path_relative_to (path_parent diff) target) (\<lambda>rel.
       Ok \<lparr>k_index = str_int (int i), k_rel_dir = or_else (path_str rel) (path_name (path_parent diff)),
           k_diff = diff, k_case_dir = path_parent diff, k_diff_name = path_name diff,
           k_corpus = None, k_old_logdir = None\<rparr>))"

definition single_case :: "path \<Rightarrow> case_spec" where
  "single_case diff =
     \<lparr>k_index = ''0'', k_rel_dir = path_name (path_parent diff), k_diff = diff, k_case_dir = path_parent diff,
      k_diff_name = path_name diff, k_corpus = None, k_old_logdir = None\<rparr>"

definition discover_cases :: "(path \<Rightarrow> path) \<Rightarrow> fs \<Rightarrow> string \<Rightarrow> path \<Rightarrow> case_spec list res" where
  "discover_cases resolve fs target_mode target0 =
     (let target = resolve target0 in
      if target_mode = ''all'' then
        if \<not> is_dir fs target then Err (SbflBatchError (''bugset root not found: '' @ path_str target))
        else rmapM (all_case target) (List.enumerate 0 (sort (rglob_suffix fs target ''.sv.diff'')))
      else if is_file fs target \<and> endswith (path_name target) ''.sv.diff'' then Ok [single_case target]
      else if is_dir fs target then
        (case sort (rglob_suffix fs target ''.sv.diff'') of
           [] \<Rightarrow> Err (SbflBatchError (''no .sv.diff found under: '' @ path_str target))
         | diff # _ \<Rightarrow> Ok [single_case diff])
      else Err (SbflBatchError (''case target is neither .sv.diff nor directory: '' @ path_str target)))"

section \<open>The generation runner\<close>

record runner =
  n_execution :: execution_config
  n_generation :: generation_config
  n_cases :: "case_spec list"
  n_additional :: bool
  n_run_tmp :: path
  n_work_root :: path
  n_run_log_root :: path
  n_summary_file :: path

definition GenerationRunner ::
  "string \<Rightarrow> execution_config \<Rightarrow> generation_config \<Rightarrow> case_spec list \<Rightarrow> bool \<Rightarrow> runner" where
  "GenerationRunner run_id execution generation cases additional =
     (let run_tmp = path_div (x_tmp_root execution) run_id;
          run_log_root = path_div (x_logs_root execution) run_id in
      \<lparr>n_execution = execution, n_generation = generation, n_cases = cases, n_additional = additional,
       n_run_tmp = run_tmp, n_work_root = path_div run_tmp ''work'', n_run_log_root = run_log_root,
       n_summary_file = path_div run_log_root ''run_status.tsv''\<rparr>)"

definition in_unit :: "pyfloat \<Rightarrow> bool" where
  "in_unit x \<longleftrightarrow> fle (Fin 0) x \<and> fle x (Fin 1)"

definition batch_check :: "bool \<Rightarrow> string \<Rightarrow> unit res" where
  "batch_check b msg = rguard b (SbflBatchError msg)"

fun checks :: "(bool \<times> string) list \<Rightarrow> unit res" where
  "checks [] = Ok ()"
| "checks ((b, msg) # rest) = rbind (batch_check b msg) (\<lambda>_. checks rest)"

definition weight_strategies :: "string list" where
  "weight_strategies = [''uniform'', ''tail_linear'', ''tail_quad'', ''head_linear'', ''head_quad'']"

definition mode_checks :: "generation_config \<Rightarrow> (bool \<times> string) list" where
  "mode_checks cfg =
     (if g_mode cfg = ''psbfl'' then
        [(0 < g_mutator_window_size cfg, ''mutator window size must be positive''),
         (g_mutator_weight_strategy cfg \<in> set weight_strategies,
          ''invalid mutator weight strategy: '' @ g_mutator_weight_strategy cfg)]
      else if g_mode cfg = ''withw'' then
        [(0 < g_max_corpus_size cfg, ''max corpus size must be positive''),
         (in_unit (g_init_seed_rate cfg), ''init seed rate must be in range [0, 1]''),
         (in_unit (g_mutate_rate cfg), ''mutate rate must be in range [0, 1]''),
         (in_unit (g_priority_alpha cfg), ''priority alpha must be in range [0, 1]''),
         (\<not> flt (g_failed_reward cfg) (Fin 0), ''failed reward must be non-negative'')]
      else [])"

definition interval_checks :: "generation_config \<Rightarrow> (bool \<times> string) list" where
  "interval_checks cfg =
     (case g_checkpoint_interval cfg of
        None \<Rightarrow> []
      | Some n \<Rightarrow> [(0 < n, ''checkpoint interval must be positive''),
                  (g_save_corpus cfg, ''--checkpoint-interval requires --save-corpus'')])"

definition validate :: "fs \<Rightarrow> runner \<Rightarrow> unit res" where
  "validate fs self =
     (let cfg = n_generation self; x = n_execution self in
      checks ([(0 < x_jobs x, ''jobs must be a positive integer''),
          (is_dir fs (path_div (x_ibex_home x) ''rtl''), ''IBEX_HOME seems wrong: '' @ path_str (x_ibex_home x)),
          (\<not> is_relative_to (n_run_tmp self) (x_ibex_home x), ''temporary directory must not be inside IBEX_HOME''),
          (g_selection cfg \<in> {''random'', ''sort'', ''diverse''}, ''invalid selection: '' @ g_selection cfg),
          (in_unit (g_selection_diversity_weight cfg), ''selection diversity weight must be in range [0, 1]''),
          (in_unit (g_cover_distance_weight cfg), ''cover distance weight must be in range [0, 1]''),
          (0 < g_selection_pool_factor cfg, ''selection pool factor must be positive''),
          (0 < g_max_run_timeout cfg \<and> 0 < g_tracker_window_size cfg, ''timeout and tracker window must be positive''),
          (0 \<le> g_top_sus cfg, ''top-sus must be non-negative'')] @
        interval_checks cfg @
        [(g_save_reduce cfg \<longrightarrow> g_reduce_insts cfg, ''--save-reduce requires --reduce-insts''),
         (g_mode cfg \<in> {''psbfl'', ''random'', ''withw''}, ''unsupported generation mode: '' @ g_mode cfg)] @
        mode_checks cfg @
        [(n_cases self \<noteq> [], ''no bug cases selected'')]))"

definition initialize :: "(string \<Rightarrow> bool) \<Rightarrow> runner \<Rightarrow> (fs, unit) eff" where
  "initialize which self =
     ebind (eget (\<lambda>fs. validate fs self)) (\<lambda>v. ebind (elift v) (\<lambda>_.
     ebind (elift (if x_dry_run (n_execution self) then Ok ()
                   else require_commands which [''fusesoc'', ''patch'', ''git''])) (\<lambda>_.
     ebind (eupd (mkdir_new (n_work_root self))) (\<lambda>_.
     ebind (eupd (mkdir_new (n_run_log_root self))) (\<lambda>_.
       eupd (write_text (n_summary_file self) (csv_row GENERATION_FIELDS)))))))"

definition case_name :: "case_spec \<Rightarrow> string" where
  "case_name c = k_index c @ ''_'' @ safe_name (k_rel_dir c) @ ''_'' @
     safe_name (removesuffix (k_diff_name c) ''.sv.diff'')"

definition case_paths :: "runner \<Rightarrow> case_spec \<Rightarrow> path \<times> path" where
  "case_paths self c =
     (path_div (n_run_log_root self) (case_name c), path_div (n_work_root self) (case_name c))"

definition flag :: "bool \<Rightarrow> string \<Rightarrow> string list" where
  "flag b name = (if b then [name] else [])"

definition input_args :: "generation_config \<Rightarrow> case_spec \<Rightarrow> string list res" where
  "input_args cfg c =
     (case k_corpus c of
        Some p \<Rightarrow> Ok [''--resume-corpus'', path_str p]
      | None \<Rightarrow> (case g_input_path cfg of
            Some p \<Rightarrow> Ok [''--input'', path_str p]
          | None \<Rightarrow> Err (SbflBatchError ''generation requires an input or resume corpus'')))"

definition mode_args :: "generation_config \<Rightarrow> string list res" where
  "mode_args cfg =
     (if g_mode cfg = ''psbfl'' then
        Ok [''psbfl'', ''--mutator-window-size'', str_int (g_mutator_window_size cfg),
            ''--mutator-weight-strategy'', g_mutator_weight_strategy cfg]
      else if g_mode cfg = ''random'' then Ok [''random'']
      else if g_mode cfg = ''withw'' then
        Ok [''wit-hw'', ''--max-corpus-size'', str_int (g_max_corpus_size cfg),
            ''--init-seed-rate'', frepr (g_init_seed_rate cfg), ''--mutate-rate'', frepr (g_mutate_rate cfg),
            ''--priority-alpha'', frepr (g_priority_alpha cfg), ''--failed-reward'', frepr (g_failed_reward cfg)]
      else Err (SbflBatchError (''unsupported generation mode: '' @ g_mode cfg)))"

definition budget_args :: "generation_config \<Rightarrow> path \<Rightarrow> string list" where
  "budget_args cfg logdir =
     [''--max-run-timeout'', str_int (g_max_run_timeout cfg), ''--max-iters'', str_int (g_max_iters cfg),
      ''--top-pass'', str_int (g_top_pass cfg), ''--selection'', g_selection cfg,
      ''--selection-diversity-weight'', frepr (g_selection_diversity_weight cfg),
      ''--selection-pool-factor'', str_int (g_selection_pool_factor cfg), ''--top-sus'', str_int (g_top_sus cfg),
      ''--tracker-window-size'', str_int (g_tracker_window_size cfg),
      ''--cover-distance-weight'', frepr (g_cover_distance_weight cfg), ''--output'', path_str logdir]"

definition saving_args :: "generation_config \<Rightarrow> path \<Rightarrow> string list" where
  "saving_args cfg logdir =
     (if g_save_corpus cfg then [''--save-corpus'', path_str (path_div logdir ''saved_corpus'')] else []) @
     (case g_checkpoint_interval cfg of None \<Rightarrow> [] | Some n \<Rightarrow> [''--checkpoint-interval'', str_int n]) @
     flag (g_gen_only cfg) ''--gen-only'' @ flag (g_save_reduce cfg) ''--save-reduce'' @
     flag (g_save_intermediate cfg) ''--save-intermediate''"

definition rtl_args :: "generation_config \<Rightarrow> path \<Rightarrow> string list" where
  "rtl_args cfg workdir =
     [''--rtl-path'', path_str (resolve_workdir_path workdir (g_rtl_path cfg)),
      ''--include-paths'',
      join '','' (map (\<lambda>p. path_str (resolve_workdir_path workdir p)) (split_char CHR '','' (g_include_paths cfg))),
      ''--top-module'', g_top_module cfg, ''--top-scope'', g_top_scope cfg, ''--metric'', g_metric cfg]"

definition generation_args :: "generation_config \<Rightarrow> case_spec \<Rightarrow> path \<Rightarrow> path \<Rightarrow> string list res" where
  "generation_args cfg c logdir workdir =
     rbind (input_args cfg c) (\<lambda>inp.
     rbind (mode_args cfg) (\<lambda>mode.
       Ok ([''-c'', g_coverage cfg, ''-s'', g_state cfg, ''generation''] @
           flag (g_reduce_insts cfg) ''--reduce-insts'' @ flag (g_reduce_cover cfg) ''--reduce-cover'' @
           budget_args cfg logdir @ inp @ saving_args cfg logdir @ rtl_args cfg workdir @ mode @
           (if g_simulator_args cfg = [] then [] else ''--'' # g_simulator_args cfg))))"

definition status_line :: "string \<Rightarrow> case_spec \<Rightarrow> int \<Rightarrow> string \<Rightarrow> string" where
  "status_line status c rc elapsed =
     ''['' @ status @ ''] '' @ k_rel_dir c @ ''/'' @ k_diff_name c @ '', status='' @ str_int rc @
     '', elapsed='' @ elapsed @ [NL]"

definition finish ::
  "pyfloat \<Rightarrow> case_spec \<Rightarrow> string \<Rightarrow> int \<Rightarrow> path \<Rightarrow> path \<Rightarrow> (fs, case_result) eff" where
  "finish seconds c status rc logdir workdir =
     ebind (elift (format_elapsed seconds)) (\<lambda>elapsed.
     ebind (eupd (append_text (path_div logdir ''status.txt'') (status_line status c rc elapsed))) (\<lambda>_.
     ebind (eupd (append_text (path_div logdir ''run.log'') (''[TIME] elapsed='' @ elapsed @ [NL]))) (\<lambda>_.
       eret \<lparr>r_case = c, r_status = status, r_return_code = rc, r_elapsed = elapsed, r_logdir = logdir,
             r_workdir = workdir\<rparr>)))"

definition run_log_header :: "case_spec \<Rightarrow> path \<Rightarrow> path \<Rightarrow> string" where
  "run_log_header c logdir workdir =
     join [NL] [''[CASE] '' @ k_index c, ''[REL ] '' @ k_rel_dir c, ''[DIR ] '' @ path_str (k_case_dir c),
       ''[DIFF] '' @ path_str (k_diff c),
       ''[CORP] '' @ (case k_corpus c of None \<Rightarrow> [] | Some p \<Rightarrow> path_str p),
       ''[LOG ] '' @ path_str logdir, ''[WORK] '' @ path_str workdir, []]"

record environment =
  v_exec :: executor
  v_which :: "string \<Rightarrow> bool"
  v_executable :: "fs \<Rightarrow> path \<Rightarrow> bool"
  v_describe :: "exn \<Rightarrow> string"
  v_cwd :: path

text \<open>The steps of a case after its log is opened, up to the clean-up.\<close>

definition generate :: "environment \<Rightarrow> runner \<Rightarrow> (string \<Rightarrow> int \<Rightarrow> (fs, case_result) eff) \<Rightarrow> case_spec \<Rightarrow>
    path \<Rightarrow> path \<Rightarrow> (fs, case_result) eff" where
  "generate env self fin c logdir workdir =
     (let executable = resolve_workdir_path workdir (x_sbfl_bin (n_execution self));
          run_log = path_div logdir ''run.log'' in
      ebind (process_run (v_exec env) [''patch'', ''-p1'', ''--forward'', ''--batch'', ''--input'', path_str (k_diff c)]
               workdir (path_div logdir ''patch.log'')) (\<lambda>rc.
      if rc \<noteq> 0 then fin ''APPLY_FAIL'' rc else
      ebind (process_run (v_exec env) FUSESOC_COMMAND workdir (path_div logdir ''build.log'')) (\<lambda>rc.
      if rc \<noteq> 0 then fin ''BUILD_FAIL'' rc else
      ebind (eget (\<lambda>fs. is_file fs executable \<and> v_executable env fs executable)) (\<lambda>usable.
      if \<not> usable then
        ebind (eupd (append_text run_log (''[ERROR] SBFL binary missing: '' @ path_str executable @ [NL]))) (\<lambda>_.
          fin ''SBFL_BIN_MISSING'' 1)
      else
      ebind (elift (generation_args (n_generation self) c logdir workdir)) (\<lambda>argv.
      ebind (write_command run_log executable argv) (\<lambda>_.
      ebind (process_run (v_exec env) (path_str executable # argv) workdir (path_div logdir ''sbfl.log'')) (\<lambda>rc.
      ebind (if x_disassemble (n_execution self) then
               ebind (eupd (write_text (path_div logdir ''objdump.log'') [])) (\<lambda>_.
                 disassemble_elfs (v_which env) (v_exec env) (v_cwd env) logdir (x_objdump_bin (n_execution self))
                   (path_div logdir ''objdump.log''))
             else eret ()) (\<lambda>_.
        fin (if rc = 0 then ''OK'' else ''SBFL_FAIL'') rc))))))))"

definition run_case_body :: "environment \<Rightarrow> runner \<Rightarrow> (string \<Rightarrow> int \<Rightarrow> (fs, case_result) eff) \<Rightarrow> case_spec \<Rightarrow>
    path \<Rightarrow> path \<Rightarrow> (fs, case_result) eff" where
  "run_case_body env self fin c logdir workdir =
     ebind (eget (\<lambda>fs. is_file fs (k_diff c))) (\<lambda>has_diff.
     if \<not> has_diff then fin ''DIFF_MISSING'' 1 else
     ebind (eget (\<lambda>fs. case k_corpus c of None \<Rightarrow> True | Some p \<Rightarrow> is_file fs p)) (\<lambda>has_corpus.
     if \<not> has_corpus then fin ''CORPUS_MISSING'' 1 else
     if x_dry_run (n_execution self) then
       ebind (elift (generation_args (n_generation self) c logdir workdir)) (\<lambda>argv.
       ebind (write_command (path_div logdir ''run.log'')
                (resolve_workdir_path workdir (x_sbfl_bin (n_execution self))) argv) (\<lambda>_.
         fin ''OK'' 0))
     else
     ebind (ecatch (ebind (copy_workdir (x_ibex_home (n_execution self)) workdir) (\<lambda>_. eret None))
              (\<lambda>e. if is_os_error e \<or> is_sbfl_batch_error e then Some (eret (Some e)) else None)) (\<lambda>failed.
     case failed of
       Some e \<Rightarrow> ebind (eupd (write_text (path_div logdir ''copy.log'') (exc_text (v_describe env) e @ [NL]))) (\<lambda>_. fin ''COPY_FAIL'' 1)
     | None \<Rightarrow> generate env self fin c logdir workdir)))"

definition clean_workdir :: "runner \<Rightarrow> path \<Rightarrow> path \<Rightarrow> (fs, unit) eff" where
  "clean_workdir self run_log workdir =
     ebind (eget (\<lambda>fs. is_dir fs workdir \<and> \<not> x_keep_workdir (n_execution self))) (\<lambda>remove.
     if remove then
       ebind (eupd (append_text run_log (''[CLEAN] remove workdir: '' @ path_str workdir @ [NL]))) (\<lambda>_.
         eupd (\<lambda>fs. Ok (rmtree workdir fs)))
     else eret ())"

definition run_case :: "environment \<Rightarrow> runner \<Rightarrow> pyfloat \<Rightarrow> case_spec \<Rightarrow> (fs, case_result) eff" where
  "run_case env self seconds c =
     (case case_paths self c of (logdir, workdir) \<Rightarrow>
       ebind (eupd (mkdir_new logdir)) (\<lambda>_.
       ebind (eupd (write_text (path_div logdir ''run.log'') (run_log_header c logdir workdir))) (\<lambda>_.
         efinally (run_case_body env self (\<lambda>status rc. finish seconds c status rc logdir workdir) c logdir workdir)
           (clean_workdir self (path_div logdir ''run.log'') workdir))))"

definition result_row :: "case_result \<Rightarrow> string list" where
  "result_row r =
     [k_index (r_case r), k_rel_dir (r_case r), k_diff_name (r_case r), path_str (k_case_dir (r_case r)),
      path_str (k_diff (r_case r)), r_status r, str_int (r_return_code r), r_elapsed r, path_str (r_logdir r),
      path_str (r_workdir r)]"

definition append_result :: "runner \<Rightarrow> case_result \<Rightarrow> (fs, unit) eff" where
  "append_result self r = eupd (append_text (n_summary_file self) (csv_row (result_row r)))"

fun run_pool :: "environment \<Rightarrow> runner \<Rightarrow> (pyfloat \<times> case_spec) list \<Rightarrow> (fs, case_result list) eff" where
  "run_pool env self [] = eret []"
| "run_pool env self ((seconds, c) # rest) =
     ebind (run_case env self seconds c) (\<lambda>r.
     ebind (append_result self r) (\<lambda>_.
     ebind (run_pool env self rest) (\<lambda>rs. eret (r # rs))))"

definition failed_count :: "case_result list \<Rightarrow> int" where
  "failed_count rs = count_if (\<lambda>r. r_status r \<noteq> ''OK'') rs"

definition report_lines :: "runner \<Rightarrow> string list" where
  "report_lines self =
     [print_info ''command'' (IStr (if n_additional self then ''rerun'' else ''generation'')),
      print_info ''cases'' (IInt (int (length (n_cases self)))),
      print_info ''resume_corpus_cases'' (IInt (count_if (\<lambda>c. k_corpus c \<noteq> None) (n_cases self))),
      print_info ''additional_iterations'' (IBool (n_additional self))] @
     print_config ''execution'' (execution_fields (n_execution self)) @
     [print_info ''resolved.run_logs'' (IPath (n_run_log_root self)),
      print_info ''resolved.run_tmp'' (IPath (n_run_tmp self)),
      print_info ''resolved.status_file'' (IPath (n_summary_file self))] @
     print_config ''generation'' (generation_fields (n_generation self))"

text \<open>\<open>order\<close> lists the cases with their durations in the order in which the pool completes them.\<close>

definition runner_run ::
  "environment \<Rightarrow> runner \<Rightarrow> (pyfloat \<times> case_spec) list \<Rightarrow> (fs, int \<times> string list) eff" where
  "runner_run env self order =
     ebind (initialize (v_which env) self) (\<lambda>_.
     ebind (run_pool env self order) (\<lambda>results.
       eret (if failed_count results \<noteq> 0 then 1 else 0,
         report_lines self @
         [''[SUMMARY] total='' @ str_int (int (length results)) @ '', failed='' @ str_int (failed_count results),
          ''[SUMMARY] status file: '' @ path_str (n_summary_file self)])))"

end
