(* ===== verification/Runner_Props.thy ===== *)
theory Runner_Props
  imports Runner
begin

text \<open>
  Properties of the generation runner and of the logs it leaves: status lines and commands are
  read back, a case reports its outcome and cleans up, cases have directories of their own, and a
  resumed batch inherits the settings its checkpoints depend on.
\<close>

section \<open>A status line is read back\<close>

lemma length_str_nat: "0 < k \<Longrightarrow> n < 10 ^ k \<Longrightarrow> length (str_nat n) \<le> k"
proof (induction n arbitrary: k rule: str_nat.induct)
  case (1 n)
  then show ?case
  proof (cases k)
    case (Suc j)
    show ?thesis
    proof (cases "n < 10")
      case False
      with 1 Suc have "n div 10 < 10 ^ j" "0 < j"
        by (auto simp: less_mult_imp_div_less mult.commute intro: Suc_leI gr0I)
      with 1 Suc False show ?thesis by (simp add: str_nat.simps [of n])
    qed (use Suc in \<open>simp add: str_nat.simps [of n]\<close>)
  qed simp
qed

lemma zpad_int_digits: "0 \<le> i \<Longrightarrow> \<forall>c \<in> set (zpad_int n i). is_digit c"
  and zpad_int_nonempty: "0 \<le> i \<Longrightarrow> zpad_int n i \<noteq> []"
  by (auto simp: zpad_int_def dest: lpad_digits simp: lpad_nonempty)

lemma length_zpad_int: "0 < n \<Longrightarrow> 0 \<le> i \<Longrightarrow> i < 10 ^ n \<Longrightarrow> length (zpad_int n i) = n"
  using length_str_nat [of n "nat i"] by (simp add: zpad_int_def lpad_def nat_less_iff)


text \<open>The printed duration has the shape the status expression expects.\<close>

lemma elapsed_text_match:
  assumes "0 \<le> ms"
  shows "first_match (Seqs [Some1 is_digit, Lit '':'', Exactly 2 is_digit, Lit '':'', Exactly 2 is_digit, Lit '':'',
      Exactly 3 is_digit]) (elapsed_text ms) e [] e"
proof -
  define m1 m2 where "m1 = ms mod 3600000" and "m2 = m1 mod 60000"
  have h: "0 \<le> ms div 3600000" and mi: "0 \<le> m1 div 60000" "m1 div 60000 < 10 ^ 2"
    and se: "0 \<le> m2 div 1000" "m2 div 1000 < 10 ^ 2" and th: "0 \<le> m2 mod 1000" "m2 mod 1000 < 10 ^ 3"
    using assms unfolding m1_def m2_def by (auto simp: pos_imp_zdiv_nonneg_iff)
  have l: "elapsed_text ms = zpad_int 2 (ms div 3600000) @ '':'' @ zpad_int 2 (m1 div 60000) @ '':'' @
      zpad_int 2 (m2 div 1000) @ '':'' @ zpad_int 3 (m2 mod 1000) @ []"
    by (simp add: elapsed_text_def m1_def m2_def Let_def)
  have colon: "\<not> is_digit (CHR '':'')" by (simp add: is_digit_def code_def)
  show ?thesis unfolding l Seqs.simps
    by (intro first_match_Seq [OF first_match_Some1] first_match_Seq [OF first_match_Lit]
        first_match_Seq [OF first_match_Exactly] first_match_Exactly)
      (simp_all add: colon zpad_int_nonempty [OF h] zpad_int_digits [OF h] zpad_int_digits [OF mi(1)]
        zpad_int_digits [OF se(1)] zpad_int_digits [OF th(1)] length_zpad_int [OF _ mi] length_zpad_int [OF _ se]
        length_zpad_int [OF _ th])
qed


definition status_kind :: "string \<Rightarrow> bool" where
  "status_kind s \<longleftrightarrow> s \<noteq> [] \<and> (\<forall>c \<in> set s. is_upper_az c \<or> c = CHR ''_'')"

definition plain_ref :: "string \<Rightarrow> bool" where
  "plain_ref s \<longleftrightarrow> s \<noteq> [] \<and> (\<forall>c \<in> set s. c \<noteq> CHR '','' \<and> \<not> is_space c)"

lemma char_facts: "\<not> is_space (CHR ''['')" "is_space (CHR '' '')" "\<not> is_space (CHR '','')" "\<not> is_digit (CHR '','')"
    "\<not> is_space (CHR ''s'')" "\<not> is_space (CHR ''e'')" "\<not> is_upper_az (CHR '']'')" "is_space NL"
  by (simp_all add: is_space_def is_digit_def is_upper_az_def code_def NL_def)

lemma first_match_str_int:
  assumes "s = [] \<or> \<not> is_digit (hd s)"
  shows "first_match (Cap n (Seqs [Opt (Lit ''-''), Some1 is_digit])) (str_int i @ s) e s ((n, str_int i) # e)"
proof (rule first_match_Cap)
  have ds: "\<forall>c \<in> set (str_nat k). is_digit c" for k by (auto dest: str_nat_digits)
  show "first_match (Seqs [Opt (Lit ''-''), Some1 is_digit]) (str_int i @ s) e s e"
  proof (cases "i < 0")
    case True
    then have "str_int i @ s = ''-'' @ str_nat (nat (- i)) @ s" by (simp add: str_int_def)
    moreover have "first_match (Some1 is_digit) (str_nat (nat (- i)) @ s) e s e"
      by (rule first_match_Some1) (simp_all add: assms ds)
    ultimately show ?thesis
      using first_match_Seq [OF first_match_Opt [OF first_match_Lit [of "''-''"]]] by simp
  next
    case False
    then obtain d ds' where d: "str_int i = d # ds'" "is_digit d"
      using str_nat_Cons [of "nat i"] by (auto simp: str_int_def)
    then have "d \<noteq> CHR ''-''" by (auto simp: is_digit_def code_def)
    then have "rx (Lit ''-'') (str_int i @ s) e = []" by (simp add: d)
    then have "first_match (Opt (Lit ''-'')) (str_int i @ s) e (str_int i @ s) e" by (rule first_match_Opt_none)
    moreover have "first_match (Some1 is_digit) (str_int i @ s) e s e"
      using False by (intro first_match_Some1) (simp_all add: str_int_def ds assms)
    ultimately show ?thesis by (simp add: first_match_Seq)
  qed
qed

lemma status_part_match:
  assumes "s = [] \<or> \<not> is_digit (hd s)"
  shows "first_match (Opt (Seqs [Lit '','', Many is_space, Lit ''status='',
           Cap ''status'' (Seqs [Opt (Lit ''-''), Some1 is_digit])]))
      ('','' @ '' '' @ ''status='' @ str_int rc @ s) e s ((''status'', str_int rc) # e)"
proof -
  have sp: "first_match (Many is_space) ('' '' @ ''status='' @ str_int rc @ s) e (''status='' @ str_int rc @ s) e"
    by (rule first_match_Many) (simp_all add: char_facts)
  have "first_match (Seq (Lit '','') (Seq (Many is_space) (Seq (Lit ''status='')
           (Cap ''status'' (Seqs [Opt (Lit ''-''), Some1 is_digit])))))
      ('','' @ '' '' @ ''status='' @ str_int rc @ s) e s ((''status'', str_int rc) # e)"
    by (rule first_match_Seq first_match_Lit sp first_match_str_int assms)+
  then show ?thesis by (simp only: Seqs.simps first_match_Opt)
qed

lemma elapsed_part_match:
  assumes "0 \<le> ms"
  shows "first_match (Opt (Seqs [Lit '','', Many is_space, Lit ''elapsed='',
           Cap ''elapsed'' (Seqs [Some1 is_digit, Lit '':'', Exactly 2 is_digit, Lit '':'',
                   Exactly 2 is_digit, Lit '':'', Exactly 3 is_digit])]))
      ('','' @ '' '' @ ''elapsed='' @ elapsed_text ms) e [] ((''elapsed'', elapsed_text ms) # e)"
proof -
  have sp: "first_match (Many is_space) ('' '' @ ''elapsed='' @ elapsed_text ms) e (''elapsed='' @ elapsed_text ms) e"
    by (rule first_match_Many) (simp_all add: char_facts)
  have el: "first_match (Cap ''elapsed'' (Seqs [Some1 is_digit, Lit '':'', Exactly 2 is_digit, Lit '':'',
                   Exactly 2 is_digit, Lit '':'', Exactly 3 is_digit])) (elapsed_text ms) e []
      ((''elapsed'', elapsed_text ms) # e)"
    using first_match_Cap [of _ "elapsed_text ms" "[]"] elapsed_text_match [OF assms] by simp
  have "first_match (Seq (Lit '','') (Seq (Many is_space) (Seq (Lit ''elapsed='')
           (Cap ''elapsed'' (Seqs [Some1 is_digit, Lit '':'', Exactly 2 is_digit, Lit '':'',
                   Exactly 2 is_digit, Lit '':'', Exactly 3 is_digit])))))
      ('','' @ '' '' @ ''elapsed='' @ elapsed_text ms) e [] ((''elapsed'', elapsed_text ms) # e)"
    by (rule first_match_Seq first_match_Lit sp el)+
  then show ?thesis by (simp only: Seqs.simps first_match_Opt)
qed

lemma status_re_match:
  assumes k: "status_kind kind" and r: "plain_ref bugcase" and ms: "0 \<le> ms"
  shows "re_match STATUS_RE (''['' @ kind @ '']'' @ '' '' @ bugcase @ '','' @ '' '' @ ''status='' @ str_int rc @
      '','' @ '' '' @ ''elapsed='' @ elapsed_text ms)
    = Some [(''elapsed'', elapsed_text ms), (''status'', str_int rc), (''bugcase'', bugcase), (''kind'', kind)]"
proof -
  have kc: "first_match (Cap ''kind'' (Some1 (\<lambda>c. is_upper_az c \<or> c = CHR ''_'' \<or> c = CHR '' ''))) (kind @ '']'' @ s) e
      ('']'' @ s) ((''kind'', kind) # e)" for s e
    using k by (intro first_match_Cap first_match_Some1) (auto simp: status_kind_def char_facts)
  have rc: "first_match (Cap ''bugcase'' (Some1 (\<lambda>c. c \<noteq> CHR '','' \<and> \<not> is_space c))) (bugcase @ '','' @ s) e
      ('','' @ s) ((''bugcase'', bugcase) # e)" for s e
    using r by (intro first_match_Cap first_match_Some1) (auto simp: plain_ref_def char_facts)
  have sp: "first_match (Some1 is_space) ('' '' @ bugcase @ s) e (bugcase @ s) e" for s e
    using r by (intro first_match_Some1) (auto simp: plain_ref_def char_facts hd_append)
  have last_part: "first_match (Opt (Seqs [Lit '','', Many is_space, Lit ''elapsed_ms='', Cap ''elapsed_ms'' (Some1 is_digit)]))
      [] e [] e" for e by (rule first_match_Opt_none) simp
  have many: "first_match (Many is_space) [] e [] e" for e using first_match_Many [of "[]"] by simp
  have "re_match STATUS_RE (''['' @ kind @ '']'' @ '' '' @ bugcase @ '','' @ ('' '' @ ''status='' @ str_int rc @
      '','' @ '' '' @ ''elapsed='' @ elapsed_text ms))
    = Some [(''elapsed'', elapsed_text ms), (''status'', str_int rc), (''bugcase'', bugcase), (''kind'', kind)]"
    unfolding STATUS_RE_def
    apply (rule first_match_re_match)
    apply (simp only: Seqs.simps)
    apply (rule first_match_Seq [OF first_match_Lit])
    apply (rule first_match_Seq [OF kc])
    apply (rule first_match_Seq [OF first_match_Lit])
    apply (rule first_match_Seq [OF sp])
    apply (rule first_match_Seq [OF rc])
    apply (rule first_match_Seq [OF status_part_match [unfolded Seqs.simps]])
     apply (simp add: char_facts)
    apply (rule first_match_Seq [OF elapsed_part_match [OF ms, unfolded Seqs.simps]])
    apply (rule first_match_Seq [OF last_part [unfolded Seqs.simps]])
    apply (rule first_match_Seq [OF many first_match_Eos])
    done
  then show ?thesis by simp
qed

lemma path_div_simple:
  "path_of s = Path [] [s] \<Longrightarrow> path_div p s = Path (path_root p) (path_parts p @ [s])"
  by (simp add: path_div_def path_join_def)

lemma path_of_names: "path_of ''status.txt'' = Path [] [''status.txt'']" "path_of ''run.log'' = Path [] [''run.log'']"
  by (code_simp, code_simp)

lemma status_not_run_log: "path_div p ''status.txt'' \<noteq> path_div p ''run.log''"
  by (simp add: path_div_simple path_of_names)

lemma append_text_read:
  "append_text p s fs = Ok fs' \<Longrightarrow>
   read_text fs' q = (if q = p then Ok ((case read_text fs p of Inr old \<Rightarrow> old | Inl _ \<Rightarrow> []) @ s) else read_text fs q)"
  by (simp add: append_text_def read_text_write)

lemma finish_Ok:
  assumes "finish seconds c status rc logdir workdir fs = (Ok r, fs')"
  obtains ms where "0 \<le> ms" "r_elapsed r = elapsed_text ms" "r_case r = c" "r_status r = status"
    "r_return_code r = rc" "r_logdir r = logdir" "r_workdir r = workdir"
    "read_text fs' (path_div logdir ''status.txt'') =
       Ok ((case read_text fs (path_div logdir ''status.txt'') of Inr old \<Rightarrow> old | Inl _ \<Rightarrow> []) @
           status_line status c rc (elapsed_text ms))"
proof -
  from assms obtain x fs1 where
    r: "r = \<lparr>r_case = c, r_status = status, r_return_code = rc, r_elapsed = elapsed_text (max 0 x), r_logdir = logdir,
             r_workdir = workdir\<rparr>"
    and a: "append_text (path_div logdir ''status.txt'') (status_line status c rc (elapsed_text (max 0 x))) fs = Ok fs1"
    and b: "append_text (path_div logdir ''run.log'') (''[TIME] elapsed='' @ elapsed_text (max 0 x) @ [NL]) fs1 = Ok fs'"
    unfolding finish_def format_elapsed_def
    by (auto simp: ebind_result_Ok eupd_Ok rbind_eq_Ok elift_def eret_def)
  then show thesis
    using append_text_read [OF a] append_text_read [OF b] status_not_run_log [of logdir]
    by (intro that [of "max 0 x"]) (auto simp: status_not_run_log)
qed

text \<open>C26: a status line written when a case ends is read back by the summaries as the case, whether
  it succeeded, and its status with the return code.\<close>

theorem finish_parse_status:
  assumes "finish seconds c status rc logdir workdir fs = (Ok r, fs')"
    and "\<not> is_file fs (path_div logdir ''status.txt'')"
    and "status_kind status" and "plain_ref (k_rel_dir c @ ''/'' @ k_diff_name c)"
  shows "parse_status fs' (path_div logdir ''status.txt'') =
    Ok (Some (k_rel_dir c @ ''/'' @ k_diff_name c, status = ''OK'',
      if status = ''OK'' then ''OK'' else status @ ''('' @ str_int rc @ '')''))"
proof -
  obtain ms where ms: "0 \<le> ms" and cont: "read_text fs' (path_div logdir ''status.txt'') =
       Ok ((case read_text fs (path_div logdir ''status.txt'') of Inr old \<Rightarrow> old | Inl _ \<Rightarrow> []) @
           status_line status c rc (elapsed_text ms))"
    using finish_Ok [OF assms(1)] by blast
  have none: "(case read_text fs (path_div logdir ''status.txt'') of Inr old \<Rightarrow> old | Inl _ \<Rightarrow> []) = []"
    using assms(2) by (auto simp: is_file_read split: sum.splits)
  let ?line = "''['' @ status @ '']'' @ '' '' @ (k_rel_dir c @ ''/'' @ k_diff_name c) @ '','' @ '' '' @ ''status='' @ str_int rc @
      '','' @ '' '' @ ''elapsed='' @ elapsed_text ms"
  have line: "status_line status c rc (elapsed_text ms) = ?line @ [NL]" by (simp add: status_line_def)
  let ?th = "zpad_int 3 (ms mod 3600000 mod 60000 mod 1000)"
  have "?th \<noteq> []" "is_digit (last ?th)"
    using zpad_int_nonempty [of "ms mod 3600000 mod 60000 mod 1000" 3] zpad_int_digits [of "ms mod 3600000 mod 60000 mod 1000" 3]
    by auto
  then have "elapsed_text ms \<noteq> []" "is_digit (last (elapsed_text ms))" by (auto simp: elapsed_text_def Let_def)
  then have "strip ?line = ?line" by (intro strip_id) (auto simp: char_facts digit_not_space)
  then have st: "strip (?line @ [NL]) = ?line" by (simp only: strip_snoc_space [OF char_facts(8)])
  have kind: "replace_char CHR '' '' CHR ''_'' (strip status) = status"
  proof -
    have ns: "\<not> is_space d \<and> d \<noteq> CHR '' ''" if "d \<in> set status" for d
      using assms(3) that by (auto simp: status_kind_def is_space_def is_upper_az_def code_def)
    then have "strip status = status" by (intro strip_no_space) auto
    with ns show ?thesis by (auto simp: replace_char_def intro!: map_idI)
  qed
  show ?thesis
    using status_re_match [OF assms(3,4) ms, of rc] kind
    by (simp only: parse_status_def cont none line rbind_Inr append.left_neutral st)
      (simp add: group_def)
qed

theorem finish_parse_status_witness:
  "\<exists>r fs'. finish (Fin 2) (single_case (path_of ''s/1/m.sv.diff'')) ''BUILD_FAIL'' 3 (path_of ''l'') (path_of ''w'')
       [(path_of ''l'', Directory)] = (Ok r, fs')
     \<and> parse_status fs' (path_div (path_of ''l'') ''status.txt'') = Ok (Some (''1/m.sv.diff'', False, ''BUILD_FAIL(3)''))"
proof -
  let ?c = "single_case (path_of ''s/1/m.sv.diff'')" and ?fs = "[(path_of ''l'', Directory)]"
  let ?run = "finish (Fin 2) ?c ''BUILD_FAIL'' 3 (path_of ''l'') (path_of ''w'') ?fs"
  have "case fst ?run of Inr r \<Rightarrow> True | Inl e \<Rightarrow> False" by code_simp
  then obtain r fs' where run: "?run = (Ok r, fs')" by (cases ?run) (auto split: sum.splits)
  have "\<not> is_file ?fs (path_div (path_of ''l'') ''status.txt'')" by code_simp
  moreover have "status_kind ''BUILD_FAIL''" "plain_ref (k_rel_dir ?c @ ''/'' @ k_diff_name ?c)" by code_simp+
  moreover have "k_rel_dir ?c @ ''/'' @ k_diff_name ?c = ''1/m.sv.diff''" "str_int 3 = ''3''" by code_simp+
  ultimately show ?thesis using finish_parse_status [OF run] run by simp
qed

section \<open>The outcome of a case\<close>

text \<open>\<open>yields P m\<close>: whenever \<open>m\<close> returns, its value satisfies \<open>P\<close>.\<close>

definition yields :: "('a \<Rightarrow> bool) \<Rightarrow> ('s, 'a) eff \<Rightarrow> bool" where
  "yields P m \<longleftrightarrow> (\<forall>s x s'. m s = (Ok x, s') \<longrightarrow> P x)"

named_theorems yields_rules

lemma yields_ebind [yields_rules]: "(\<And>x. yields P (f x)) \<Longrightarrow> yields P (ebind m f)"
  by (auto simp: yields_def ebind_result_Ok)

lemma yields_if [yields_rules]: "(b \<Longrightarrow> yields P m) \<Longrightarrow> (\<not> b \<Longrightarrow> yields P k) \<Longrightarrow> yields P (if b then m else k)"
  by simp

lemma yields_case_option [yields_rules]:
  "(x = None \<Longrightarrow> yields P m) \<Longrightarrow> (\<And>y. x = Some y \<Longrightarrow> yields P (f y)) \<Longrightarrow> yields P (case x of None \<Rightarrow> m | Some y \<Rightarrow> f y)"
  by (cases x) auto

definition outcome :: "case_spec \<Rightarrow> path \<Rightarrow> path \<Rightarrow> case_result \<Rightarrow> bool" where
  "outcome c logdir workdir r \<longleftrightarrow> r_case r = c \<and> r_logdir r = logdir \<and> r_workdir r = workdir
     \<and> (r_return_code r = 0 \<longleftrightarrow> r_status r = ''OK'') \<and> status_kind (r_status r)"

definition statuses :: "string list" where
  "statuses = [''DIFF_MISSING'', ''CORPUS_MISSING'', ''COPY_FAIL'', ''APPLY_FAIL'', ''BUILD_FAIL'', ''SBFL_BIN_MISSING'',
     ''SBFL_FAIL'', ''RUN_LOG_MISSING'', ''CONFIG_FAIL'', ''ANALYSIS_FAIL'', ''OK'']"

lemma status_kinds: "list_all status_kind statuses"
  by code_simp

lemma finish_outcome [yields_rules]:
  assumes "rc = 0 \<longleftrightarrow> status = ''OK''" "status \<in> set statuses"
  shows "yields (outcome c logdir workdir) (finish seconds c status rc logdir workdir)"
  using assms status_kinds unfolding yields_def outcome_def list_all_iff
  by (auto elim!: finish_Ok)

lemma run_case_body_outcome:
  "yields (outcome c logdir workdir)
     (run_case_body env self (\<lambda>status rc. finish seconds c status rc logdir workdir) c logdir workdir)"
  unfolding run_case_body_def generate_def Let_def
  by (intro yields_rules) (auto simp: statuses_def)

text \<open>Removing the work directory.\<close>

lemma map_of_rmtree: "map_of (rmtree p fs) q = (if q = p \<or> is_below p q then None else map_of fs q)"
  by (induction fs) (auto simp: rmtree_def)

lemma clean_workdir_gone:
  assumes "clean_workdir self run_log workdir fs = (Ok u, fs')" "\<not> x_keep_workdir (n_execution self)"
    "path_parts workdir \<noteq> []"
  shows "\<not> is_dir fs' workdir"
  using assms by (auto simp: clean_workdir_def ebind_result_Ok eupd_Ok is_dir_def map_of_rmtree split: if_splits)

lemma split_by_covers: "d \<in> set s \<Longrightarrow> \<not> p d \<Longrightarrow> \<exists>w \<in> set (split_by p s). d \<in> set w"
proof (induction s)
  case (Cons x xs)
  then show ?case by (cases "split_by p xs") auto
qed simp

lemma path_of_has_parts:
  assumes "CHR ''_'' \<in> set s"
  shows "path_parts (path_of s) \<noteq> []"
proof -
  obtain w where w: "w \<in> set (split_char CHR ''/'' s)" "CHR ''_'' \<in> set w"
    using split_by_covers [OF assms, of "\<lambda>c. c = CHR ''/''"] by (auto simp: split_char_def)
  then have "w \<noteq> [] \<and> w \<noteq> ''.''" by auto
  with w show ?thesis by (auto simp: path_of_def filter_empty_conv)
qed

lemma case_workdir_parts: "path_parts (snd (case_paths self c)) \<noteq> []"
  using path_of_has_parts [of "case_name c"]
  by (auto simp: case_paths_def case_name_def path_div_def path_join_def)

text \<open>The protocol of a case, shared by the runners: the steps of the case, then the clean-up, whatever
  the steps did. A runner that keeps to it reports a sound outcome and leaves no directory.\<close>

locale case_protocol =
  fixes paths :: "case_spec \<Rightarrow> path \<times> path"
    and run :: "pyfloat \<Rightarrow> case_spec \<Rightarrow> (fs, case_result) eff"
    and body :: "pyfloat \<Rightarrow> case_spec \<Rightarrow> (fs, case_result) eff"
    and clean :: "case_spec \<Rightarrow> (fs, unit) eff"
    and keep :: bool
  assumes run_steps: "run seconds c s = (Ok r, s') \<Longrightarrow>
      \<exists>s1 s2 u. body seconds c s1 = (Ok r, s2) \<and> clean c s2 = (Ok u, s')"
    and body_yields: "yields (outcome c (fst (paths c)) (snd (paths c))) (body seconds c)"
    and clean_removes: "clean c s = (Ok u, s') \<Longrightarrow> \<not> keep \<Longrightarrow> \<not> is_dir s' (snd (paths c))"
begin

lemma run_outcome:
  assumes "run seconds c fs = (Ok r, fs')"
  shows "r_case r = c \<and> (r_logdir r, r_workdir r) = paths c
    \<and> (r_return_code r = 0 \<longleftrightarrow> r_status r = ''OK'') \<and> status_kind (r_status r)
    \<and> (\<not> keep \<longrightarrow> \<not> is_dir fs' (r_workdir r))"
proof -
  obtain s1 s2 u where "body seconds c s1 = (Ok r, s2)" and clean: "clean c s2 = (Ok u, fs')"
    using run_steps [OF assms] by blast
  then have "outcome c (fst (paths c)) (snd (paths c)) r" using body_yields unfolding yields_def by blast
  then show ?thesis using clean_removes [OF clean] by (auto simp: outcome_def)
qed

end

interpretation generation: case_protocol "case_paths self" "run_case env self"
    "\<lambda>seconds c. run_case_body env self (\<lambda>status rc. finish seconds c status rc (fst (case_paths self c)) (snd (case_paths self c)))
       c (fst (case_paths self c)) (snd (case_paths self c))"
    "\<lambda>c. clean_workdir self (path_div (fst (case_paths self c)) ''run.log'') (snd (case_paths self c))"
    "x_keep_workdir (n_execution self)"
  for env self
proof
  fix seconds c s r s'
  assume "run_case env self seconds c s = (Ok r, s')"
  then show "\<exists>s1 s2 u. run_case_body env self (\<lambda>status rc. finish seconds c status rc (fst (case_paths self c))
        (snd (case_paths self c))) c (fst (case_paths self c)) (snd (case_paths self c)) s1 = (Ok r, s2)
      \<and> clean_workdir self (path_div (fst (case_paths self c)) ''run.log'') (snd (case_paths self c)) s2 = (Ok u, s')"
    by (auto simp: run_case_def ebind_result_Ok efinally_Ok split: prod.splits)
qed (auto intro: run_case_body_outcome dest: clean_workdir_gone [OF _ _ case_workdir_parts])

text \<open>C4: a case that returns reports its own directories, has the status OK exactly when its return
  code is 0, and leaves no work directory behind unless it was asked to keep it.\<close>

theorem run_case_outcome:
  assumes "run_case env self seconds c fs = (Ok r, fs')"
  shows "r_case r = c \<and> (r_logdir r, r_workdir r) = case_paths self c
    \<and> (r_return_code r = 0 \<longleftrightarrow> r_status r = ''OK'') \<and> status_kind (r_status r)
    \<and> (\<not> x_keep_workdir (n_execution self) \<longrightarrow> \<not> is_dir fs' (r_workdir r))"
  using assms by (rule generation.run_outcome)

section \<open>Directories of a batch\<close>

lemma takeWhile_append_stop: "(\<And>x. x \<in> set xs \<Longrightarrow> p x) \<Longrightarrow> \<not> p y \<Longrightarrow> takeWhile p (xs @ y # ys) = xs"
  by (induction xs) auto

text \<open>An index without an underscore or a slash, as \<open>discover_cases\<close> numbers them.\<close>

definition plain_index :: "string \<Rightarrow> bool" where
  "plain_index i \<longleftrightarrow> (\<forall>d \<in> set i. d \<noteq> CHR ''_'' \<and> d \<noteq> CHR ''/'')"

lemma case_name_index:
  "plain_index (k_index c) \<Longrightarrow> takeWhile (\<lambda>d. d \<noteq> CHR ''_'') (case_name c) = k_index c"
  by (auto simp: case_name_def plain_index_def intro!: takeWhile_append_stop)

lemma safe_name_chars: "d \<in> set (safe_name s) \<Longrightarrow> d \<noteq> CHR ''/''"
  by (auto simp: safe_name_def or_else_def name_char_def is_ascii_alnum_def char_class_defs code_def split: if_splits)

lemma case_name_no_slash: "plain_index (k_index c) \<Longrightarrow> CHR ''/'' \<notin> set (case_name c)"
  by (auto simp: case_name_def plain_index_def dest: safe_name_chars)

lemma path_of_name:
  assumes "CHR ''/'' \<notin> set s" "s \<noteq> []" "s \<noteq> ''.''"
  shows "path_of s = Path [] [s]"
proof -
  have "\<not> startswith s ''/''" "\<not> startswith s ''//''" using assms(1) by (auto simp: startswith_iff)
  moreover have "split_char CHR ''/'' s = [s]"
    using assms(1) unfolding split_char_def by (intro split_by_no_sep) auto
  ultimately show ?thesis using assms by (simp add: path_of_def)
qed

lemma path_of_case_name: "plain_index (k_index c) \<Longrightarrow> path_of (case_name c) = Path [] [case_name c]"
proof (rule path_of_name)
  have "CHR ''_'' \<in> set (case_name c)" by (simp add: case_name_def)
  then show "case_name c \<noteq> []" "case_name c \<noteq> ''.''" by auto
qed (rule case_name_no_slash)

lemma case_paths_plain:
  "plain_index (k_index c) \<Longrightarrow> case_paths self c =
    (Path (path_root (n_run_log_root self)) (path_parts (n_run_log_root self) @ [case_name c]),
     Path (path_root (n_work_root self)) (path_parts (n_work_root self) @ [case_name c]))"
  by (simp add: case_paths_def path_div_simple path_of_case_name)

lemma str_int_plain_index: "0 \<le> i \<Longrightarrow> plain_index (str_int i)"
  by (auto simp: plain_index_def is_digit_def code_def dest!: str_int_nonneg_digits)

lemma discover_all_indices:
  assumes "discover_cases resolve fs ''all'' target = Ok cases"
  shows "map k_index cases = map (\<lambda>i. str_int (int i)) [0..<length cases]"
proof -
  from assms obtain ds where "rmapM (all_case (resolve target)) (List.enumerate 0 ds) = Ok cases"
    by (auto simp: discover_cases_def Let_def split: if_splits)
  then have r: "list_all2 (\<lambda>x y. all_case (resolve target) x = Ok y) (List.enumerate 0 ds) cases"
    by (simp add: rmapM_eq_Ok)
  then have l: "length cases = length ds" by (auto dest: list_all2_lengthD)
  have "k_index (cases ! i) = str_int (int i)" if "i < length cases" for i
    using list_all2_nthD2 [OF r that] l that
    by (auto simp: all_case_def rbind_eq_Ok nth_enumerate_eq dest!: arg_cong [where f = k_index])
  then show ?thesis by (intro nth_equalityI) auto
qed

text \<open>The cases discovered under a bug set have distinct plain indices, so the batch that runs them
  in parallel gives every case directories of its own.\<close>

theorem discover_cases_own_directories:
  assumes "discover_cases resolve fs ''all'' target = Ok cases"
  shows "distinct (map (\<lambda>c. fst (case_paths self c)) cases) \<and> distinct (map (\<lambda>c. snd (case_paths self c)) cases)"
proof -
  note ix = discover_all_indices [OF assms]
  have d: "distinct (map k_index cases)" unfolding ix by (auto simp: distinct_map inj_on_def str_int_inj)
  have p: "plain_index (k_index c)" if "c \<in> set cases" for c
  proof -
    have "k_index c \<in> set (map k_index cases)" using that by simp
    then show ?thesis unfolding ix by (auto simp: str_int_plain_index)
  qed
  have "case_name c \<noteq> case_name d" if "c \<in> set cases" "d \<in> set cases" "k_index c \<noteq> k_index d" for c d
    using case_name_index [OF p] that by metis
  then have "inj_on case_name (set cases)" using d by (auto simp: inj_on_def distinct_map)
  then have "distinct (map case_name cases)" using d by (auto simp: distinct_map)
  then show ?thesis using p by (auto simp: distinct_map inj_on_def case_paths_plain)
qed

definition demo_env :: environment where
  "demo_env = \<lparr>v_exec = (\<lambda>_ _ _ s. (Ok 0, s)), v_which = (\<lambda>_. True), v_executable = (\<lambda>_ _. True),
     v_describe = (\<lambda>_. []), v_cwd = path_of ''/''\<rparr>"

definition demo_generation :: generation_config where
  "demo_generation =
     \<lparr>g_mode = ''random'', g_coverage = ''line'', g_state = ''PC'', g_max_run_timeout = 1, g_max_iters = 1, g_top_pass = 1,
      g_selection = ''sort'', g_selection_diversity_weight = Fin 0, g_selection_pool_factor = 1, g_top_sus = 1,
      g_tracker_window_size = 4, g_cover_distance_weight = Fin 0, g_reduce_insts = False,
      g_reduce_cover = False, g_input_path = Some (path_of ''/n''), g_save_corpus = False, g_checkpoint_interval = None,
      g_gen_only = False, g_save_reduce = False, g_save_intermediate = False, g_rtl_path = ''rtl'',
      g_include_paths = ''v'', g_top_module = ''m'', g_top_scope = ''s'',
      g_metric = ''ochiai'', g_mutator_window_size = 1, g_mutator_weight_strategy = ''uniform'',
      g_max_corpus_size = 1, g_init_seed_rate = Fin 0, g_mutate_rate = Fin 0,
      g_priority_alpha = Fin 0, g_failed_reward = Fin 0, g_simulator_args = []\<rparr>"

definition demo_runner :: runner where
  "demo_runner = GenerationRunner ''id'' (ExecutionConfig (path_of ''/i'') (path_of ''/l'') (path_of ''/t'') 1)
     demo_generation [] False"

theorem run_case_outcome_witness:
  "\<exists>r fs'. run_case demo_env demo_runner (Fin 0) (single_case (path_of ''/b/x.sv.diff'')) [] = (Ok r, fs')
     \<and> r_status r = ''DIFF_MISSING'' \<and> r_return_code r \<noteq> 0 \<and> \<not> is_dir fs' (r_workdir r)"
proof -
  let ?run = "run_case demo_env demo_runner (Fin 0) (single_case (path_of ''/b/x.sv.diff'')) []"
  have "case fst ?run of Inr r \<Rightarrow> r_status r = ''DIFF_MISSING'' | Inl e \<Rightarrow> False" by code_simp
  then obtain r fs' where run: "?run = (Ok r, fs')" and st: "r_status r = ''DIFF_MISSING''"
    by (cases ?run) (auto split: sum.splits)
  have "\<not> x_keep_workdir (n_execution demo_runner)"
    by (simp add: demo_runner_def GenerationRunner_def ExecutionConfig_def Let_def)
  with run_case_outcome [OF run] run st show ?thesis by simp
qed

definition demo_bugs :: fs where
  "demo_bugs = [(path_of ''/b'', Directory), (path_of ''/b/a'', Directory), (path_of ''/b/a/x.sv.diff'', File []),
     (path_of ''/b/y.sv.diff'', File [])]"

section \<open>A difference at the root of a bug set\<close>

text \<open>The text of a relative path is never empty, so the fall-back name is never used: a difference
  directly under the bug set has the directory \<open>.\<close>, and the summaries, which refuse that
  directory, count its case as an error whatever its run did.\<close>

lemma all_case_rel_dir:
  assumes "all_case target (i, diff) = Ok c"
  shows "\<exists>rel. path_relative_to (path_parent diff) target = Ok rel \<and> k_rel_dir c = path_str rel"
  using assms by (auto simp: all_case_def rbind_eq_Ok or_else_def dest!: arg_cong [where f = k_rel_dir])

text \<open>A difference directly under the bug set is given the directory \<open>.\<close>, so its case reference
  is one the summaries cannot resolve.\<close>

theorem root_case_unresolved:
  assumes "all_case target (i, diff) = Ok c" "path_parent diff = target" "CHR ''/'' \<notin> set (k_diff_name c)"
  shows "k_rel_dir c = ''.'' \<and> resolve_bugcase_ref fs bugset_root (k_rel_dir c @ ''/'' @ k_diff_name c) = None"
proof -
  obtain rel where "path_relative_to (path_parent diff) target = Ok rel" and "k_rel_dir c = path_str rel"
    using all_case_rel_dir [OF assms(1)] by blast
  with assms(2) have rd: "k_rel_dir c = ''.''" by (auto simp: path_relative_to_def path_str_def)
  have "split_char CHR ''/'' (k_diff_name c) = [k_diff_name c]"
    using assms(3) unfolding split_char_def by (intro split_by_no_sep) auto
  then have "split_char CHR ''/'' (''.'' @ ''/'' @ k_diff_name c) = [''.'', k_diff_name c]"
    by (simp add: split_char_def)
  then have "path_parts (path_parent (path_of (''./'' @ k_diff_name c))) = []"
    and "path_root (path_parent (path_of (''./'' @ k_diff_name c))) = []"
    by (auto simp: path_of_def path_parent_def startswith_Cons)
  then have "path_str (path_parent (path_of (''./'' @ k_diff_name c))) = ''.''" by (simp add: path_str_def)
  then show ?thesis by (simp add: rd resolve_bugcase_ref_def Let_def)
qed

section \<open>A logged command is read back\<close>

lemma splitlines_append: "splitlines (a @ NL # s) = splitlines (a @ [NL]) @ splitlines s"
proof (induction a rule: splitlines.induct)
  case 1
  then show ?case using splitlines_append_NL [of "[]"] by simp
next
  case (2 c cs)
  have nl: "is_eol NL" "NL \<noteq> CR" by (simp_all add: is_eol_def NL_def CR_def code_def)
  show ?case
  proof (cases "cs = []")
    case True
    then show ?thesis using splitlines_append_NL [of "[]" s] splitlines_append_NL [of "[c]" s] nl by auto
  next
    case False
    then have h: "hd (cs @ NL # s) = hd cs" "hd (cs @ [NL]) = hd cs" "tl (cs @ NL # s) = tl cs @ NL # s"
      "tl (cs @ [NL]) = tl cs @ [NL]" by simp_all
    have ne: "splitlines (cs @ [NL]) \<noteq> []" by (cases cs) (auto split: list.splits)
    show ?thesis
      using 2 False ne by (auto simp: h split: list.splits)
  qed
qed

lemma splitlines_after:
  assumes "old = [] \<or> last old = NL"
  shows "splitlines (old @ s) = splitlines old @ splitlines s"
proof (cases "old = []")
  case False
  with assms obtain a where "old = a @ [NL]" by (metis append_butlast_last_id)
  then show ?thesis using splitlines_append [of a s] by simp
qed simp

lemma last_command_append:
  "last_command (ls @ l # rest) =
     (if list_ex (\<lambda>l. startswith l ''[RUN] /'') rest then last_command rest
      else if startswith l ''[RUN] /'' then removeprefix l run_prefix else last_command ls)"
proof -
  let ?f = "\<lambda>line command. if startswith line ''[RUN] /'' then removeprefix line run_prefix else command"
  have skip: "\<not> list_ex (\<lambda>l. startswith l ''[RUN] /'') xs \<Longrightarrow> fold ?f xs a = a" for xs a
    by (induction xs arbitrary: a) auto
  have same: "list_ex (\<lambda>l. startswith l ''[RUN] /'') xs \<Longrightarrow> fold ?f xs a = fold ?f xs b" for xs a b
  proof (induction xs arbitrary: a b)
    case (Cons x xs)
    then show ?case by (cases "list_ex (\<lambda>l. startswith l ''[RUN] /'') xs") (auto simp: skip)
  qed simp
  show ?thesis
    unfolding last_command_def by (auto simp: skip dest: same)
qed

lemma shlex_quote_chars: "d \<in> set (shlex_quote s) \<Longrightarrow> d \<in> set s \<or> d = SQ \<or> d = DQ"
  by (auto simp: shlex_quote_def split: if_splits)

lemma set_join: "d \<in> set (join sep ws) \<Longrightarrow> d \<in> set sep \<or> (\<exists>w \<in> set ws. d \<in> set w)"
  by (induction sep ws rule: join.induct) auto

definition no_eol :: "string \<Rightarrow> bool" where
  "no_eol s \<longleftrightarrow> (\<forall>d \<in> set s. \<not> is_eol d)"

lemma shlex_join_no_eol: "list_all no_eol args \<Longrightarrow> no_eol (shlex_join args)"
proof -
  have "\<not> is_eol SQ" "\<not> is_eol DQ" "\<not> is_eol (CHR '' '')" by (simp_all add: is_eol_def SQ_def DQ_def code_def)
  then show "list_all no_eol args \<Longrightarrow> no_eol (shlex_join args)"
    unfolding no_eol_def shlex_join_def list_all_iff
    by (auto dest!: set_join shlex_quote_chars)
qed

lemma shlex_join_Cons: "\<exists>t. shlex_join (a # args) = shlex_quote a @ t"
  by (cases args) (auto simp: shlex_join_def join_Cons)

text \<open>The command a run logs is the command a later run reads back, whatever its arguments hold
  except line ends, and whatever lines follow it, if the executable has an absolute path of
  plain characters.\<close>

theorem logged_command_read_back:
  assumes "read_text fs run_log = Ok (old @ command_line_text executable argv @ rest)"
    and "old = [] \<or> last old = NL"
    and "startswith (path_str executable) ''/''" "list_all shell_safe (path_str executable)"
    and "list_all no_eol argv"
    and "\<not> list_ex (\<lambda>l. startswith l ''[RUN] /'') (splitlines rest)"
  shows "last_run_argv describe fs run_log = Ok (path_str executable # argv)"
proof -
  let ?cmd = "shlex_join (path_str executable # argv)"
  have safe_eol: "\<not> is_eol d" if "shell_safe d" for d
    using that by (auto simp: shell_safe_def is_word_char_def is_ascii_alnum_def char_class_defs code_def)
  have ne: "no_eol ?cmd"
    using assms(4,5) safe_eol by (intro shlex_join_no_eol) (auto simp: list_all_iff no_eol_def)
  have q: "shlex_quote (path_str executable) = path_str executable"
    using assms(4) by (simp add: shlex_quote_def)
  then obtain t where t: "?cmd = path_str executable @ t" using shlex_join_Cons by metis
  obtain u where u: "path_str executable = ''/'' @ u" using assms(3) by (auto simp: startswith_iff)
  have lines: "splitlines (old @ command_line_text executable argv @ rest)
      = splitlines old @ (''[RUN] '' @ ?cmd) # splitlines rest"
  proof -
    have "command_line_text executable argv @ rest = (''[RUN] '' @ ?cmd) @ NL # rest"
      by (simp add: command_line_text_def)
    moreover have "\<not> is_eol d" if "d \<in> set (''[RUN] '' @ ?cmd)" for d
      using that ne by (auto simp: no_eol_def is_eol_def code_def)
    ultimately show ?thesis
      using splitlines_append_NL [of "''[RUN] '' @ ?cmd" rest] splitlines_after [OF assms(2)] by simp
  qed
  have cmd: "?cmd = ''/'' @ (u @ t)" using t u by (metis append.assoc)
  have run: "startswith (''[RUN] '' @ ?cmd) ''[RUN] /''" by (simp only: cmd) (simp add: startswith_def)
  have "removeprefix (''[RUN] '' @ ?cmd) run_prefix = ?cmd"
    unfolding run_prefix_def by (rule removeprefix_append)
  then have "last_command (splitlines (old @ command_line_text executable argv @ rest)) = ?cmd"
    unfolding lines last_command_append using assms(6) run by simp
  moreover have "?cmd \<noteq> []" by (simp only: cmd) simp
  ultimately show ?thesis
    using assms(1) by (simp add: last_run_argv_def shlex_split_join Let_def)
qed

text \<open>An executable whose path needs quoting is logged as a line that no later run recognizes as
  a command.\<close>

theorem quoted_executable_not_found:
  assumes "read_text fs run_log = Ok (command_line_text executable argv)"
    and "\<not> list_all shell_safe (path_str executable)"
    and "list_all no_eol (path_str executable # argv)"
  shows "last_run_argv describe fs run_log =
    Err (SbflBatchError (''no executable [RUN] command found in '' @ path_str run_log))"
proof -
  let ?cmd = "shlex_join (path_str executable # argv)"
  obtain t where t: "?cmd = SQ # t"
  proof -
    have "\<exists>v. shlex_quote (path_str executable) = SQ # v"
      using assms(2) by (auto simp: shlex_quote_def)
    then show thesis using that shlex_join_Cons [of "path_str executable" argv] by auto
  qed
  have "\<not> is_eol d" if "d \<in> set (''[RUN] '' @ ?cmd)" for d
    using that shlex_join_no_eol [OF assms(3)] by (auto simp: no_eol_def is_eol_def code_def)
  then have "splitlines (command_line_text executable argv) = [''[RUN] '' @ ?cmd]"
    using splitlines_append_NL [of "''[RUN] '' @ ?cmd" "[]"] by (simp add: command_line_text_def)
  moreover have "\<not> startswith (''[RUN] '' @ ?cmd) ''[RUN] /''" by (simp add: t startswith_def SQ_def)
  ultimately show ?thesis
    using assms(1) by (simp add: last_run_argv_def last_command_def Let_def)
qed


section \<open>A resumed run inherits the checkpoint-critical settings\<close>

lemma find_index_append_notin:
  "x \<notin> set xs \<Longrightarrow> find_index x (xs @ ys) = map_option (\<lambda>i. length xs + i) (find_index x ys)"
  by (cases "find_index x ys"; induction xs) auto

lemma option_value_after:
  "opt \<notin> set xs \<Longrightarrow> option_value (xs @ opt # v # ys) opt d = Ok (Some v)"
  by (simp add: option_value_def find_index_append_notin nth_append)

lemma frepr_pos_digit: "\<exists>d ds. frepr_pos q = d # ds \<and> is_digit d"
proof -
  obtain c n where cn: "shortest_digits q (decpt q) 1 16 = (c, n)" by fastforce
  define w where "w = (let r = rstrip_by (\<lambda>x. x = CHR ''0'') (str_nat (nat c)) in if r = [] then ''0'' else r)"
  have z: "is_digit (CHR ''0'')" by (simp add: is_digit_def code_def)
  have "set w \<subseteq> set (str_nat (nat c)) \<union> {CHR ''0''}"
    by (auto simp: w_def rstrip_by_def Let_def dest: set_dropWhileD)
  then have "\<forall>d \<in> set w. is_digit d" using z by (auto dest: str_nat_digits)
  moreover have "w \<noteq> []" by (auto simp: w_def Let_def)
  ultimately obtain d ds where w: "w = d # ds" "is_digit d" by (cases w) auto
  have "\<exists>e es. repr_digits w k = e # es \<and> is_digit e" for k
    using w z by (auto simp: repr_digits_def take_Cons' split: if_splits)
  then show ?thesis by (simp add: frepr_pos_def Let_def cn [unfolded One_nat_def] w_def [symmetric, unfolded Let_def])
qed

text \<open>The text of a number: a digit, possibly after a sign, or one of the special values.\<close>

lemma frepr_shape:
  "\<exists>d ds. (frepr x = d # ds \<and> is_digit d) \<or> (frepr x = CHR ''-'' # d # ds \<and> is_digit d) \<or> frepr x \<in> {''inf'', ''-inf'', ''nan''}"
proof (cases x)
  case (Fin q)
  have z: "is_digit (CHR ''0'')" by (simp add: is_digit_def code_def)
  show ?thesis using Fin z frepr_pos_digit [of q] frepr_pos_digit [of "- q"] by auto
qed auto

lemma str_int_shape: "\<exists>d ds. (str_int i = d # ds \<and> is_digit d) \<or> (str_int i = CHR ''-'' # d # ds \<and> is_digit d)"
  using str_nat_Cons [of "nat i"] str_nat_Cons [of "nat (- i)"] by (auto simp: str_int_def)

text \<open>The words of the command line that the readers look for.\<close>

definition key_words :: "string list" where
  "key_words = [''-c'', ''-s'', ''generation'', ''--'', ''--tracker-window-size'', ''psbfl'', ''random'', ''wit-hw'']"

lemma number_not_key: "str_int i \<notin> set key_words" "frepr x \<notin> set key_words"
proof -
  have nd: "\<not> is_digit (CHR ''-'')" "\<not> is_digit (CHR ''g'')" "\<not> is_digit (CHR ''c'')" "\<not> is_digit (CHR ''s'')"
    "\<not> is_digit (CHR ''p'')" "\<not> is_digit (CHR ''r'')" "\<not> is_digit (CHR ''w'')"
    by (simp_all add: is_digit_def code_def)
  show "str_int i \<notin> set key_words" using str_int_shape [of i] nd by (auto simp: key_words_def)
  show "frepr x \<notin> set key_words" using frepr_shape [of x] nd by (auto simp: key_words_def)
qed

text \<open>The texts of a run that its command line carries as words of their own. The selection may
  also be \<open>random\<close>: the reader looks for the mode from the end.\<close>

definition free_words :: "generation_config \<Rightarrow> case_spec \<Rightarrow> path \<Rightarrow> path \<Rightarrow> string list" where
  "free_words cfg c logdir workdir =
     [g_coverage cfg, g_state cfg, path_str logdir, path_str (path_div logdir ''saved_corpus''),
      path_str (resolve_workdir_path workdir (g_rtl_path cfg)),
      join '','' (map (\<lambda>p. path_str (resolve_workdir_path workdir p)) (split_char CHR '','' (g_include_paths cfg))),
      g_top_module cfg, g_top_scope cfg, g_metric cfg, g_mutator_weight_strategy cfg] @
     (case k_corpus c of Some p \<Rightarrow> [path_str p] | None \<Rightarrow> (case g_input_path cfg of Some p \<Rightarrow> [path_str p] | None \<Rightarrow> [])) @
     (if g_selection cfg = ''random'' then [] else [g_selection cfg])"

definition plain_word :: "string \<Rightarrow> bool" where
  "plain_word w \<longleftrightarrow> w \<notin> set key_words"

abbreviation plain_words :: "string list \<Rightarrow> bool" where
  "plain_words \<equiv> list_all plain_word"

lemma plain_wordD:
  assumes "plain_word w"
  shows "w \<noteq> ''--''" "w \<noteq> ''-c''" "w \<noteq> ''-s''" "w \<noteq> ''generation''" "w \<noteq> ''--tracker-window-size''"
    "map_of generation_modes w = None" "''--'' \<noteq> w" "''-c'' \<noteq> w" "''-s'' \<noteq> w" "''generation'' \<noteq> w"
    "''--tracker-window-size'' \<noteq> w"
  using assms by (auto simp: plain_word_def key_words_def generation_modes_def)

definition middle_args :: "generation_config \<Rightarrow> string list \<Rightarrow> path \<Rightarrow> path \<Rightarrow> string list" where
  "middle_args cfg inp logdir workdir =
     flag (g_reduce_insts cfg) ''--reduce-insts'' @ flag (g_reduce_cover cfg) ''--reduce-cover'' @
     budget_args cfg logdir @ inp @ saving_args cfg logdir @ rtl_args cfg workdir"

lemma generation_args_parts:
  assumes "generation_args cfg c logdir workdir = Ok argv"
  obtains inp mode where "input_args cfg c = Ok inp" "mode_args cfg = Ok mode"
    "argv = [''-c'', g_coverage cfg, ''-s'', g_state cfg, ''generation''] @ middle_args cfg inp logdir workdir @ mode @
       (if g_simulator_args cfg = [] then [] else ''--'' # g_simulator_args cfg)"
  using assms by (auto simp: generation_args_def middle_args_def elim!: rbind_OkE)

lemma numbers_plain: "plain_word (str_int i)" "plain_word (frepr x)"
  by (simp_all add: plain_word_def number_not_key)

lemmas number_simps = plain_wordD [OF numbers_plain(1)] plain_wordD [OF numbers_plain(2)]

lemma free_words_plain:
  assumes "plain_words (free_words cfg c logdir workdir)"
  shows "plain_word (g_coverage cfg)" "plain_word (g_state cfg)" "plain_word (path_str logdir)"
    "plain_word (path_str (path_div logdir ''saved_corpus''))"
    "plain_word (path_str (resolve_workdir_path workdir (g_rtl_path cfg)))"
    "plain_word (join '','' (map (\<lambda>p. path_str (resolve_workdir_path workdir p)) (split_char CHR '','' (g_include_paths cfg))))"
    "plain_word (g_top_module cfg)" "plain_word (g_top_scope cfg)" "plain_word (g_metric cfg)"
    "plain_word (g_mutator_weight_strategy cfg)"
    "g_selection cfg = ''random'' \<or> plain_word (g_selection cfg)"
    "k_corpus c = Some p \<Longrightarrow> plain_word (path_str p)"
    "k_corpus c = None \<Longrightarrow> g_input_path cfg = Some p \<Longrightarrow> plain_word (path_str p)"
  using assms unfolding free_words_def by (simp_all split: if_splits)

lemma selection_plain:
  assumes "plain_words (free_words cfg c logdir workdir)"
  shows "g_selection cfg \<noteq> ''--''" "g_selection cfg \<noteq> ''--tracker-window-size''"
  using free_words_plain(11) [OF assms] plain_wordD by auto

lemma middle_no_end:
  assumes "plain_words (free_words cfg c logdir workdir)" "input_args cfg c = Ok inp"
  shows "''--'' \<notin> set (middle_args cfg inp logdir workdir)"
proof -
  note f = free_words_plain [OF assms(1)]
  have "''--'' \<notin> set inp"
    using assms(2) f(12,13) by (auto simp: input_args_def plain_wordD split: option.splits)
  moreover have "''--'' \<notin> set (budget_args cfg logdir)"
    using plain_wordD(1) [OF f(3)] selection_plain(1) [OF assms(1)]
    by (simp add: budget_args_def number_simps)
  moreover have "''--'' \<notin> set (saving_args cfg logdir)"
    using plain_wordD(1) [OF f(4)] by (auto simp: saving_args_def flag_def number_simps split: option.splits)
  moreover have "''--'' \<notin> set (rtl_args cfg workdir)"
    using plain_wordD(1) [OF f(5)] plain_wordD(1) [OF f(6)] plain_wordD(1) [OF f(7)] plain_wordD(1) [OF f(8)]
      plain_wordD(1) [OF f(9)] by (simp add: rtl_args_def)
  ultimately show ?thesis by (simp add: middle_args_def flag_def)
qed

lemma mode_args_found:
  assumes "mode_args cfg = Ok mode" "plain_word (g_mutator_weight_strategy cfg)"
  shows "''--'' \<notin> set mode \<and> (\<exists>a. find (\<lambda>a. map_of generation_modes a \<noteq> None) (rev mode) = Some a
    \<and> map_of generation_modes a = Some (g_mode cfg))"
proof -
  have known: "map_of generation_modes ''psbfl'' = Some ''psbfl''" "map_of generation_modes ''random'' = Some ''random''"
    "map_of generation_modes ''wit-hw'' = Some ''withw''" "map_of generation_modes ''--mutator-window-size'' = None"
    "map_of generation_modes ''--mutator-weight-strategy'' = None" "map_of generation_modes ''--max-corpus-size'' = None"
    "map_of generation_modes ''--init-seed-rate'' = None" "map_of generation_modes ''--mutate-rate'' = None"
    "map_of generation_modes ''--priority-alpha'' = None" "map_of generation_modes ''--failed-reward'' = None"
    by (simp_all add: generation_modes_def)
  note p = plain_wordD(1,6) [OF assms(2)]
  consider "g_mode cfg = ''psbfl''" | "g_mode cfg = ''random''" | "g_mode cfg = ''withw''"
    using assms(1) by (auto simp: mode_args_def split: if_splits)
  then show ?thesis
    by cases (use assms(1) p in \<open>simp_all add: mode_args_def known number_simps\<close>,
      auto simp: known number_simps)
qed

lemma find_rev_append: "find P (rev ys) = Some a \<Longrightarrow> find P (rev (xs @ ys)) = Some a"
  by (simp add: find_append)

lemma generation_mode_of_args:
  assumes "''generation'' \<notin> set pre" "''--'' \<notin> set (mid @ mode)"
    and "find (\<lambda>a. map_of generation_modes a \<noteq> None) (rev mode) = Some a" "map_of generation_modes a = Some m"
    and "sim = [] \<or> (\<exists>t. sim = ''--'' # t)"
  shows "generation_mode (pre @ ''generation'' # mid @ mode @ sim) = Ok m"
proof -
  have "find_index ''generation'' (pre @ ''generation'' # mid @ mode @ sim) = Some (length pre)"
    using assms(1) by (simp add: find_index_append_notin)
  moreover have "(case find_index ''--'' (mid @ mode @ sim) of None \<Rightarrow> mid @ mode @ sim
      | Some n \<Rightarrow> take n (mid @ mode @ sim)) = mid @ mode"
    using assms(2,5) find_index_append_notin [of "''--''" "mid @ mode" sim] by auto
  ultimately show ?thesis
    using find_rev_append [OF assms(3), of mid] assms(4) by (simp add: generation_mode_def Let_def)
qed

text \<open>A resumed run reads from the logged command line of a run exactly the settings that its
  checkpoint depends on: the mode, the coverage, the state and the tracker window.\<close>

theorem generation_args_critical:
  assumes "generation_args cfg c logdir workdir = Ok argv"
    and "plain_words (executable # free_words cfg c logdir workdir)"
  shows "critical_settings (executable # argv)
    = Ok (g_mode cfg, g_coverage cfg, g_state cfg, g_tracker_window_size cfg)"
proof -
  obtain inp mode where inp: "input_args cfg c = Ok inp" and mode: "mode_args cfg = Ok mode"
    and argv: "argv = [''-c'', g_coverage cfg, ''-s'', g_state cfg, ''generation''] @ middle_args cfg inp logdir workdir @ mode @
       (if g_simulator_args cfg = [] then [] else ''--'' # g_simulator_args cfg)"
    using generation_args_parts [OF assms(1)] by blast
  let ?sim = "if g_simulator_args cfg = [] then [] else ''--'' # g_simulator_args cfg"
  let ?pre = "[executable, ''-c'', g_coverage cfg, ''-s'', g_state cfg]"
  have pw: "plain_words (free_words cfg c logdir workdir)" and ex: "plain_word executable" using assms(2) by auto
  note f = free_words_plain [OF pw]
  obtain a where a: "''--'' \<notin> set mode" "find (\<lambda>a. map_of generation_modes a \<noteq> None) (rev mode) = Some a"
      "map_of generation_modes a = Some (g_mode cfg)"
    using mode_args_found [OF mode f(10)] by blast
  have m: "generation_mode (executable # argv) = Ok (g_mode cfg)"
  proof -
    have "''generation'' \<notin> set ?pre"
      using plain_wordD(4) [OF ex] plain_wordD(4) [OF f(1)] plain_wordD(4) [OF f(2)] by auto
    moreover have "''--'' \<notin> set (middle_args cfg inp logdir workdir @ mode)" using middle_no_end [OF pw inp] a(1) by simp
    ultimately show ?thesis using generation_mode_of_args [OF _ _ a(2,3), of ?pre _ ?sim] unfolding argv by simp
  qed
  have c: "option_value (executable # argv) ''-c'' None = Ok (Some (g_coverage cfg))"
    using option_value_after [of "''-c''" "[executable]"] plain_wordD(2) [OF ex] unfolding argv by simp
  have s: "option_value (executable # argv) ''-s'' None = Ok (Some (g_state cfg))"
    using option_value_after [of "''-s''" "[executable, ''-c'', g_coverage cfg]"] plain_wordD(3) [OF ex] plain_wordD(3) [OF f(1)]
    unfolding argv by simp
  have t: "option_value (executable # argv) ''--tracker-window-size'' d = Ok (Some (str_int (g_tracker_window_size cfg)))" for d
  proof -
    define head where "head = ?pre @ [''generation''] @ flag (g_reduce_insts cfg) ''--reduce-insts'' @
        flag (g_reduce_cover cfg) ''--reduce-cover'' @ take 14 (budget_args cfg logdir)"
    obtain tail where "executable # argv = head @ ''--tracker-window-size'' # str_int (g_tracker_window_size cfg) # tail"
      unfolding argv middle_args_def head_def by (simp add: budget_args_def)
    moreover have "''--tracker-window-size'' \<notin> set head"
      using plain_wordD(5) [OF ex] plain_wordD(5) [OF f(1)] plain_wordD(5) [OF f(2)] selection_plain(2) [OF pw]
      unfolding head_def by (simp add: budget_args_def flag_def number_simps)
    ultimately show ?thesis by (simp add: option_value_after)
  qed
  show ?thesis
    using m c s t by (simp add: critical_settings_def required_option_def integer_option_def py_int_str_int)
qed

lemma check_commands_same:
  "check_commands expected commands = Ok u \<Longrightarrow> (lg, argv) \<in> set commands \<Longrightarrow> critical_settings argv = Ok expected"
  by (induction expected commands rule: check_commands.induct) (auto simp: rbind_eq_Ok split: if_splits)

lemma resumed_interval_saved:
  "resumed_interval a argv = Ok i \<Longrightarrow> i \<noteq> None \<Longrightarrow> ra_save_corpus a"
  by (auto simp: resumed_interval_def Let_def elim!: rbind_OkE split: if_splits)

lemma resumed_config_settings:
  assumes "resumed_config a first crit interval = Ok cfg"
  shows "(g_mode cfg, g_coverage cfg, g_state cfg, g_tracker_window_size cfg) = crit
    \<and> g_checkpoint_interval cfg = interval \<and> g_save_corpus cfg = ra_save_corpus a"
proof -
  obtain m c s t where "crit = (m, c, s, t)" by (cases crit)
  with assms show ?thesis
    unfolding resumed_config_def by (auto simp: GenerationConfig_def elim!: rbind_OkE)
qed

text \<open>C32: a resumed batch is consistent: every case it resumes was logged with the mode, coverage,
  state and tracker window of the new configuration, a checkpoint interval is only set when the
  corpus is saved, and no option of another generation mode was given.\<close>

theorem prepare_rerun_consistent:
  assumes "prepare_rerun describe expanduser resolve fs a = Ok (cfg, cases)"
  shows "cases \<noteq> []
    \<and> (\<forall>c \<in> set cases. \<exists>lg argv. rerun_command describe fs c = Ok (lg, argv)
        \<and> critical_settings argv = Ok (g_mode cfg, g_coverage cfg, g_state cfg, g_tracker_window_size cfg))
    \<and> (g_checkpoint_interval cfg \<noteq> None \<longrightarrow> g_save_corpus cfg)
    \<and> wrong_options (g_mode cfg) a = []"
proof -
  from assms obtain commands first expected interval where
      cmds: "rmapM (rerun_command describe fs) cases = Ok commands"
    and ne: "commands \<noteq> []" "first = snd (hd commands)"
    and ex: "critical_settings first = Ok expected" "check_commands expected commands = Ok ()"
    and wrong: "\<exists>mode. generation_mode first = Ok mode \<and> wrong_options mode a = []"
    and iv: "resumed_interval a first = Ok interval"
    and cfg: "resumed_config a first expected interval = Ok cfg"
    unfolding prepare_rerun_def Let_def by (auto elim!: rbind_OkE split: if_splits)
  note st = resumed_config_settings [OF cfg]
  have "fst expected = g_mode cfg" using st by (cases expected) auto
  moreover have "generation_mode first = Ok (fst expected)"
    using ex(1) by (auto simp: critical_settings_def elim!: rbind_OkE)
  ultimately have wrong': "wrong_options (g_mode cfg) a = []" using wrong by auto
  have la: "list_all2 (\<lambda>x y. rerun_command describe fs x = Ok y) cases commands"
    using cmds by (simp add: rmapM_eq_Ok)
  have "\<exists>lg argv. rerun_command describe fs c = Ok (lg, argv) \<and> critical_settings argv = Ok expected"
    if "c \<in> set cases" for c
    using list_all2_mem1 [OF la that] check_commands_same [OF ex(2)] by auto
  moreover have "cases \<noteq> []" using la ne(1) by auto
  ultimately show ?thesis using st resumed_interval_saved [OF iv] wrong' by auto
qed

definition demo_argv :: "string list" where
  "demo_argv = [''/x'', ''-c'', ''line'', ''-s'', ''PC'', ''generation'', ''--selection-diversity-weight'', ''0'',
     ''--cover-distance-weight'', ''0'', ''--init-seed-rate'', ''0'', ''--mutate-rate'', ''0'', ''--priority-alpha'', ''0'',
     ''--failed-reward'', ''0'', ''random'']"

definition demo_run :: fs where
  "demo_run = [(path_of ''/l'', Directory), (path_of ''/l/0'', Directory), (path_of ''/d'', File []),
     (path_of ''/l/run_status.tsv'', File (csv_text [[''case_index'', ''diff'', ''logdir''], [''0'', ''/d'', ''/l/0'']])),
     (path_of ''/l/0/saved_corpus'', File []),
     (path_of ''/l/0/run.log'', File (''[RUN] '' @ join '' '' demo_argv @ [NL]))]"

definition demo_args :: rerun_args where
  "demo_args = \<lparr>ra_input_logs = ''/l'', ra_max_iters = 1, ra_save_corpus = True, ra_no_checkpoint_interval = False,
     ra_checkpoint_interval = Some 2, ra_max_run_timeout = None, ra_top_pass = None, ra_selection = None,
     ra_selection_diversity_weight = None, ra_selection_pool_factor = None, ra_top_sus = None,
     ra_cover_distance_weight = None, ra_reduce_cover = None, ra_gen_only = None, ra_save_intermediate = None,
     ra_rtl_path = ''rtl'', ra_include_paths = ''v'', ra_top_module = None, ra_top_scope = None, ra_metric = None,
     ra_mutator_window_size = None, ra_mutator_weight_strategy = None, ra_max_corpus_size = None,
     ra_init_seed_rate = None, ra_mutate_rate = None, ra_priority_alpha = None, ra_failed_reward = None,
     ra_simulator_args = None\<rparr>"

lemma floating_given:
  "option_value argv opt None = Ok (Some ''0'') \<Longrightarrow> floating_option argv opt d = Ok (Fin 0)"
proof -
  assume a: "option_value argv opt None = Ok (Some ''0'')"
  then have "option_value argv opt (Some (frepr d)) = Ok (Some ''0'')"
    by (auto simp: option_value_def split: option.splits if_splits)
  moreover have "py_float ''0'' = Some (Fin 0)" by code_simp
  ultimately show ?thesis by (simp add: floating_option_def)
qed

lemma demo_floats:
  "floating_option demo_argv ''--selection-diversity-weight'' d = Ok (Fin 0)"
  "floating_option demo_argv ''--cover-distance-weight'' d = Ok (Fin 0)"
  "floating_option demo_argv ''--init-seed-rate'' d = Ok (Fin 0)" "floating_option demo_argv ''--mutate-rate'' d = Ok (Fin 0)"
  "floating_option demo_argv ''--priority-alpha'' d = Ok (Fin 0)" "floating_option demo_argv ''--failed-reward'' d = Ok (Fin 0)"
  by (rule floating_given, code_simp)+

lemma demo_others:
  "integer_option demo_argv ''--max-run-timeout'' 10 = Ok 10" "integer_option demo_argv ''--top-pass'' 10 = Ok 10"
  "integer_option demo_argv ''--selection-pool-factor'' 3 = Ok 3" "integer_option demo_argv ''--top-sus'' 10 = Ok 10"
  "integer_option demo_argv ''--mutator-window-size'' 20 = Ok 20" "integer_option demo_argv ''--max-corpus-size'' 50 = Ok 50"
  "text_option demo_argv ''--selection'' w = Ok w" "text_option demo_argv ''--top-module'' w = Ok w"
  "text_option demo_argv ''--top-scope'' w = Ok w" "text_option demo_argv ''--metric'' w = Ok w"
  "text_option demo_argv ''--mutator-weight-strategy'' w = Ok w"
  by (code_simp | simp add: text_option_def option_value_def demo_argv_def)+

lemma demo_resumed: "\<exists>cfg. resumed_config demo_args demo_argv crit interval = Ok cfg"
  by (cases crit) (simp add: resumed_config_def override_def demo_floats demo_others)

theorem prepare_rerun_consistent_witness:
  "\<exists>cfg cases. prepare_rerun (\<lambda>_. []) (\<lambda>p. p) (\<lambda>p. p) demo_run demo_args = Ok (cfg, cases)
     \<and> cases \<noteq> [] \<and> g_save_corpus cfg"
proof -
  have pl: "path_of (ra_input_logs demo_args) = path_of ''/l''" by (simp add: demo_args_def)
  have "case read_status_cases (\<lambda>p. p) (\<lambda>p. p) demo_run (path_of ''/l'') True of
        Inr cs \<Rightarrow> cs \<noteq> [] \<and> rmapM (rerun_command (\<lambda>_. []) demo_run) cs = Ok [(path_of ''/l/0/run.log'', demo_argv)]
      | Inl e \<Rightarrow> False" by code_simp
  then obtain cs where cs: "read_status_cases (\<lambda>p. p) (\<lambda>p. p) demo_run (path_of ''/l'') True = Ok cs"
      "rmapM (rerun_command (\<lambda>_. []) demo_run) cs = Ok [(path_of ''/l/0/run.log'', demo_argv)]"
    by (auto split: sum.splits)
  have crit: "critical_settings demo_argv = Ok (''random'', ''line'', ''PC'', 20)" by code_simp
  have mode: "generation_mode demo_argv = Ok ''random''" by code_simp
  have iv: "resumed_interval demo_args demo_argv = Ok (Some 2)" by code_simp
  have wrong: "wrong_options ''random'' demo_args = []" by code_simp
  obtain cfg where cfg: "resumed_config demo_args demo_argv (''random'', ''line'', ''PC'', 20) (Some 2) = Ok cfg"
    using demo_resumed by blast
  have run: "prepare_rerun (\<lambda>_. []) (\<lambda>p. p) (\<lambda>p. p) demo_run demo_args = Ok (cfg, cs)"
    by (simp add: prepare_rerun_def pl cs crit mode iv wrong cfg)
  moreover have "g_checkpoint_interval cfg = Some 2" using resumed_config_settings [OF cfg] by simp
  ultimately show ?thesis using prepare_rerun_consistent [OF run] by blast
qed

end
