(* ===== verification/Analysis.thy ===== *)
theory Analysis
  imports Runner_Props
begin

text \<open>
  \<open>ibex_sbfl_batch/analysis.py\<close>: re-analysing the saved corpora of an earlier batch. The
  configuration is inherited from the first logged command that can be read; coverage, state and
  tracker window come from the log of each case.
\<close>

definition ANALYSIS_FIELDS :: "string list" where
  "ANALYSIS_FIELDS = [''case_index'', ''rel_dir'', ''diff_name'', ''case_dir'', ''diff'', ''corpus'', ''status'', ''rc'',
     ''elapsed_time'', ''logdir'', ''workdir'']"

section \<open>Configuration\<close>

record analysis_args =
  aa_input_logs :: string
  aa_top_pass :: "int option"
  aa_selection :: "string option"
  aa_selection_diversity_weight :: "pyfloat option"
  aa_selection_pool_factor :: "int option"
  aa_reduce_cover :: "bool option"
  aa_top_sus :: "int option"
  aa_metric :: "string option"
  aa_cover_distance_weight :: "pyfloat option"
  aa_save_intermediate :: "bool option"
  aa_rtl_path :: string
  aa_include_paths :: string
  aa_top_module :: "string option"
  aa_top_scope :: "string option"
  aa_simulator_args :: "string list option"

text \<open>The first case whose log holds a command; a log without one is passed over.\<close>

fun first_command :: "(exn \<Rightarrow> string) \<Rightarrow> fs \<Rightarrow> case_spec list \<Rightarrow> string list option res" where
  "first_command describe fs [] = Ok None"
| "first_command describe fs (c # rest) =
     (case k_old_logdir c of
        None \<Rightarrow> Err AssertionError
      | Some d \<Rightarrow>
          (let run_log = path_div d ''run.log'' in
           if \<not> is_file fs run_log then first_command describe fs rest
           else (case last_run_argv describe fs run_log of
               Inr argv \<Rightarrow> Ok (Some argv)
             | Inl e \<Rightarrow> if is_sbfl_batch_error e then first_command describe fs rest else Err e)))"

definition inherited_analysis :: "analysis_args \<Rightarrow> string list \<Rightarrow> analysis_config res" where
  "inherited_analysis a first =
     rbind (override (aa_top_pass a) (integer_option first ''--top-pass'' 10)) (\<lambda>top_pass.
     rbind (override (aa_selection a) (text_option first ''--selection'' ''sort'')) (\<lambda>selection.
     rbind (override (aa_selection_diversity_weight a)
              (floating_option first ''--selection-diversity-weight'' (rnd (4 / 10)))) (\<lambda>diversity.
     rbind (override (aa_selection_pool_factor a) (integer_option first ''--selection-pool-factor'' 3)) (\<lambda>pool.
     rbind (override (aa_top_sus a) (integer_option first ''--top-sus'' 10)) (\<lambda>top_sus.
     rbind (override (aa_metric a) (text_option first ''--metric'' ''ochiai'')) (\<lambda>metric.
     rbind (override (aa_cover_distance_weight a)
              (floating_option first ''--cover-distance-weight'' (rnd (5 / 10)))) (\<lambda>cover.
     rbind (override (aa_top_module a) (text_option first ''--top-module'' ''ibex_core'')) (\<lambda>top_module.
     rbind (override (aa_top_scope a) (text_option first ''--top-scope'' DEFAULT_TOP_SCOPE)) (\<lambda>top_scope.
       Ok \<lparr>a_top_pass = top_pass, a_selection = selection, a_selection_diversity_weight = diversity,
           a_selection_pool_factor = pool,
           a_reduce_cover = (case aa_reduce_cover a of None \<Rightarrow> has_flag first ''--reduce-cover'' | Some b \<Rightarrow> b),
           a_top_sus = top_sus, a_metric = metric, a_cover_distance_weight = cover,
           a_save_intermediate =
             (case aa_save_intermediate a of None \<Rightarrow> has_flag first ''--save-intermediate'' | Some b \<Rightarrow> b),
           a_rtl_path = aa_rtl_path a, a_include_paths = aa_include_paths a, a_top_module = top_module,
           a_top_scope = top_scope,
           a_simulator_args = (case aa_simulator_args a of Some s \<Rightarrow> s
             | None \<Rightarrow> trailing_args first [''-c'', ''5000000''])\<rparr>)))))))))"

definition analysis_checks :: "analysis_config \<Rightarrow> unit res" where
  "analysis_checks cfg =
     checks [(a_selection cfg \<in> {''random'', ''sort'', ''diverse''}, ''invalid selection: '' @ a_selection cfg),
       (0 \<le> a_top_pass cfg \<and> 0 \<le> a_top_sus cfg \<and> 0 < a_selection_pool_factor cfg,
        ''invalid top-pass, top-sus, or selection pool factor''),
       (in_unit (a_selection_diversity_weight cfg), ''selection diversity weight must be in range [0, 1]''),
       (in_unit (a_cover_distance_weight cfg), ''cover distance weight must be in range [0, 1]'')]"

definition prepare_analysis ::
  "(exn \<Rightarrow> string) \<Rightarrow> (path \<Rightarrow> path) \<Rightarrow> (path \<Rightarrow> path) \<Rightarrow> fs \<Rightarrow> analysis_args \<Rightarrow> (analysis_config \<times> case_spec list) res" where
  "prepare_analysis describe expanduser resolve fs a =
     rbind (read_status_cases expanduser resolve fs (resolve (expanduser (path_of (aa_input_logs a)))) False) (\<lambda>cases.
     rbind (first_command describe fs cases) (\<lambda>first.
     case first of
       None \<Rightarrow> Err (SbflBatchError (''no executable [RUN] command found under '' @ aa_input_logs a))
     | Some argv \<Rightarrow>
         rbind (inherited_analysis a argv) (\<lambda>cfg.
         rbind (analysis_checks cfg) (\<lambda>_. Ok (cfg, cases)))))"

section \<open>The analysis runner\<close>

record analysis_runner =
  y_execution :: execution_config
  y_analysis :: analysis_config
  y_cases :: "case_spec list"
  y_run_tmp :: path
  y_work_root :: path
  y_run_log_root :: path
  y_summary_file :: path

definition AnalysisRunner :: "string \<Rightarrow> execution_config \<Rightarrow> analysis_config \<Rightarrow> case_spec list \<Rightarrow> analysis_runner" where
  "AnalysisRunner run_id execution analysis cases =
     (let run_tmp = path_div (x_tmp_root execution) run_id;
          run_log_root = path_div (x_logs_root execution) run_id in
      \<lparr>y_execution = execution, y_analysis = analysis, y_cases = cases, y_run_tmp = run_tmp,
       y_work_root = path_div run_tmp ''work'', y_run_log_root = run_log_root,
       y_summary_file = path_div run_log_root ''run_status.tsv''\<rparr>)"

definition analysis_initialize :: "(string \<Rightarrow> bool) \<Rightarrow> analysis_runner \<Rightarrow> (fs, unit) eff" where
  "analysis_initialize which self =
     (let x = y_execution self in
      ebind (eget (\<lambda>fs. checks
          [(0 < x_jobs x, ''jobs must be a positive integer''),
           (is_dir fs (path_div (x_ibex_home x) ''rtl''), ''IBEX_HOME seems wrong: '' @ path_str (x_ibex_home x)),
           (\<not> is_relative_to (y_run_tmp self) (x_ibex_home x), ''temporary directory must not be inside IBEX_HOME'')]))
        (\<lambda>v. ebind (elift v) (\<lambda>_.
      ebind (elift (if x_dry_run x then Ok () else require_commands which [''fusesoc'', ''patch''])) (\<lambda>_.
      ebind (eupd (mkdir_new (y_work_root self))) (\<lambda>_.
      ebind (eupd (mkdir_new (y_run_log_root self))) (\<lambda>_.
        eupd (write_text (y_summary_file self) (csv_row ANALYSIS_FIELDS))))))))"

definition analysis_paths :: "analysis_runner \<Rightarrow> case_spec \<Rightarrow> path \<times> path" where
  "analysis_paths self c =
     (path_div (y_run_log_root self) (case_name c), path_div (y_work_root self) (case_name c))"

definition analysis_rtl_args :: "analysis_config \<Rightarrow> string list" where
  "analysis_rtl_args cfg =
     (if a_rtl_path cfg = [] then []
      else [''--rtl-path'', a_rtl_path cfg, ''--include-paths'', a_include_paths cfg,
            ''--top-module'', a_top_module cfg, ''--top-scope'', a_top_scope cfg])"

definition analysis_args_of ::
  "(exn \<Rightarrow> string) \<Rightarrow> fs \<Rightarrow> analysis_config \<Rightarrow> case_spec \<Rightarrow> path \<Rightarrow> string list res" where
  "analysis_args_of describe fs cfg c logdir =
     (case (k_old_logdir c, k_corpus c) of
        (Some d, Some corpus) \<Rightarrow>
          rbind (last_run_argv describe fs (path_div d ''run.log'')) (\<lambda>command.
          rbind (required_option command ''-c'') (\<lambda>coverage.
          rbind (required_option command ''-s'') (\<lambda>state.
          rbind (integer_option command ''--tracker-window-size'' 20) (\<lambda>tracker.
            Ok ([''-c'', coverage, ''-s'', state, ''analysis'', ''--input'', path_str corpus, ''--output'', path_str logdir,
                 ''--tracker-window-size'', str_int tracker,
                 ''--cover-distance-weight'', frepr (a_cover_distance_weight cfg),
                 ''--top-pass'', str_int (a_top_pass cfg), ''--selection'', a_selection cfg,
                 ''--selection-diversity-weight'', frepr (a_selection_diversity_weight cfg),
                 ''--selection-pool-factor'', str_int (a_selection_pool_factor cfg),
                 ''--top-sus'', str_int (a_top_sus cfg), ''--metric'', a_metric cfg] @
                flag (a_reduce_cover cfg) ''--reduce-cover'' @ flag (a_save_intermediate cfg) ''--save-intermediate'' @
                analysis_rtl_args cfg @
                (if a_simulator_args cfg = [] then [] else ''--'' # a_simulator_args cfg))))))
      | _ \<Rightarrow> Err AssertionError)"

definition analysis_log_header :: "case_spec \<Rightarrow> path \<Rightarrow> string" where
  "analysis_log_header c workdir =
     (let opt = (\<lambda>p. case p of None \<Rightarrow> ''None'' | Some q \<Rightarrow> path_str q) in
      ''[CASE] '' @ k_index c @ [NL] @ ''[REL ] '' @ k_rel_dir c @ [NL] @ ''[DIFF] '' @ path_str (k_diff c) @ [NL] @
      ''[OLD ] '' @ opt (k_old_logdir c) @ [NL] @ ''[CORP] '' @ opt (k_corpus c) @ [NL] @
      ''[WORK] '' @ path_str workdir @ [NL])"

definition analyse :: "environment \<Rightarrow> execution_config \<Rightarrow> (string \<Rightarrow> int \<Rightarrow> (fs, case_result) eff) \<Rightarrow> case_spec \<Rightarrow>
    path \<Rightarrow> path \<Rightarrow> path \<Rightarrow> string list \<Rightarrow> (fs, case_result) eff" where
  "analyse env x fin c logdir workdir executable argv =
     ebind (process_run (v_exec env) [''patch'', ''-p1'', ''--forward'', ''--batch'', ''--input'', path_str (k_diff c)]
              workdir (path_div logdir ''patch.log'')) (\<lambda>rc.
     if rc \<noteq> 0 then fin ''APPLY_FAIL'' rc else
     ebind (process_run (v_exec env) FUSESOC_COMMAND workdir (path_div logdir ''build.log'')) (\<lambda>rc.
     if rc \<noteq> 0 then fin ''BUILD_FAIL'' rc else
     ebind (eget (\<lambda>fs. is_file fs executable \<and> v_executable env fs executable)) (\<lambda>usable.
     if \<not> usable then fin ''SBFL_BIN_MISSING'' 1 else
     ebind (write_command (path_div logdir ''run.log'') executable argv) (\<lambda>_.
     ebind (process_run (v_exec env) (path_str executable # argv) workdir (path_div logdir ''analysis.log'')) (\<lambda>rc.
     ebind (if x_disassemble x then
              ebind (eupd (write_text (path_div logdir ''objdump.log'') [])) (\<lambda>_.
                disassemble_elfs (v_which env) (v_exec env) (v_cwd env) logdir (x_objdump_bin x)
                  (path_div logdir ''objdump.log''))
            else eret ()) (\<lambda>_.
       fin (if rc = 0 then ''OK'' else ''ANALYSIS_FAIL'') rc))))))"

definition analysis_case_body :: "environment \<Rightarrow> analysis_runner \<Rightarrow> (string \<Rightarrow> int \<Rightarrow> (fs, case_result) eff) \<Rightarrow> case_spec \<Rightarrow>
    path \<Rightarrow> path \<Rightarrow> (fs, case_result) eff" where
  "analysis_case_body env self fin c logdir workdir =
     (let executable = resolve_workdir_path workdir (x_sbfl_bin (y_execution self));
          run_log = path_div logdir ''run.log'' in
      ebind (eget (\<lambda>fs. case k_corpus c of None \<Rightarrow> False | Some p \<Rightarrow> is_file fs p)) (\<lambda>has_corpus.
      if \<not> has_corpus then fin ''CORPUS_MISSING'' 1 else
      ebind (eget (\<lambda>fs. case k_old_logdir c of None \<Rightarrow> False | Some d \<Rightarrow> is_file fs (path_div d ''run.log''))) (\<lambda>has_log.
      if \<not> has_log then fin ''RUN_LOG_MISSING'' 1 else
      ebind (eget (\<lambda>fs. is_file fs (k_diff c))) (\<lambda>has_diff.
      if \<not> has_diff then fin ''DIFF_MISSING'' 1 else
      ebind (eget (\<lambda>fs. analysis_args_of (v_describe env) fs (y_analysis self) c logdir)) (\<lambda>args.
      case args of
        Inl e \<Rightarrow>
          if is_sbfl_batch_error e then
            ebind (eupd (append_text run_log (''[ERROR] '' @ exc_text (v_describe env) e @ [NL]))) (\<lambda>_. fin ''CONFIG_FAIL'' 1)
          else eraise e
      | Inr argv \<Rightarrow>
          if x_dry_run (y_execution self) then
            ebind (write_command run_log executable argv) (\<lambda>_. fin ''OK'' 0)
          else
          ebind (ecatch (ebind (copy_workdir (x_ibex_home (y_execution self)) workdir) (\<lambda>_. eret None))
                   (\<lambda>e. if is_os_error e \<or> is_sbfl_batch_error e then Some (eret (Some e)) else None)) (\<lambda>failed.
          case failed of
            Some e \<Rightarrow> ebind (eupd (write_text (path_div logdir ''copy.log'') (exc_text (v_describe env) e @ [NL])))
                        (\<lambda>_. fin ''COPY_FAIL'' 1)
          | None \<Rightarrow> analyse env (y_execution self) fin c logdir workdir executable argv))))))"

definition analysis_clean :: "analysis_runner \<Rightarrow> path \<Rightarrow> path \<Rightarrow> (fs, unit) eff" where
  "analysis_clean self run_log workdir =
     ebind (eget (\<lambda>fs. is_dir fs workdir \<and> \<not> x_keep_workdir (y_execution self))) (\<lambda>remove.
     if remove then
       ebind (eupd (append_text run_log (''[CLEAN] remove workdir: '' @ path_str workdir @ [NL]))) (\<lambda>_.
         eupd (\<lambda>fs. Ok (rmtree workdir fs)))
     else eret ())"

definition analysis_finish ::
  "pyfloat \<Rightarrow> case_spec \<Rightarrow> string \<Rightarrow> int \<Rightarrow> path \<Rightarrow> path \<Rightarrow> (fs, case_result) eff" where
  "analysis_finish seconds c status rc logdir workdir =
     ebind (elift (format_elapsed seconds)) (\<lambda>elapsed.
     ebind (eupd (append_text (path_div logdir ''status.txt'')
       (''['' @ status @ ''] '' @ k_rel_dir c @ ''/'' @ k_diff_name c @ '', status='' @ str_int rc @
        '', elapsed='' @ elapsed @ [NL]))) (\<lambda>_.
     ebind (eupd (append_text (path_div logdir ''run.log'') (''[TIME] elapsed='' @ elapsed @ [NL]))) (\<lambda>_.
       eret \<lparr>r_case = c, r_status = status, r_return_code = rc, r_elapsed = elapsed, r_logdir = logdir,
             r_workdir = workdir\<rparr>)))"

definition analysis_case :: "environment \<Rightarrow> analysis_runner \<Rightarrow> pyfloat \<Rightarrow> case_spec \<Rightarrow> (fs, case_result) eff" where
  "analysis_case env self seconds c =
     (case analysis_paths self c of (logdir, workdir) \<Rightarrow>
       ebind (eupd (mkdir_new logdir)) (\<lambda>_.
       ebind (eupd (write_text (path_div logdir ''run.log'') (analysis_log_header c workdir))) (\<lambda>_.
         efinally (analysis_case_body env self (\<lambda>status rc. analysis_finish seconds c status rc logdir workdir) c
                     logdir workdir)
           (analysis_clean self (path_div logdir ''run.log'') workdir))))"

definition analysis_result_row :: "case_result \<Rightarrow> string list" where
  "analysis_result_row r =
     [k_index (r_case r), k_rel_dir (r_case r), k_diff_name (r_case r), path_str (k_case_dir (r_case r)),
      path_str (k_diff (r_case r)), (case k_corpus (r_case r) of None \<Rightarrow> [] | Some p \<Rightarrow> path_str p),
      r_status r, str_int (r_return_code r), r_elapsed r, path_str (r_logdir r), path_str (r_workdir r)]"

definition analysis_append :: "analysis_runner \<Rightarrow> case_result \<Rightarrow> (fs, unit) eff" where
  "analysis_append self r = eupd (append_text (y_summary_file self) (csv_row (analysis_result_row r)))"

fun analysis_pool :: "environment \<Rightarrow> analysis_runner \<Rightarrow> (pyfloat \<times> case_spec) list \<Rightarrow> (fs, case_result list) eff" where
  "analysis_pool env self [] = eret []"
| "analysis_pool env self ((seconds, c) # rest) =
     ebind (analysis_case env self seconds c) (\<lambda>r.
     ebind (analysis_append self r) (\<lambda>_.
     ebind (analysis_pool env self rest) (\<lambda>rs. eret (r # rs))))"

definition analysis_report :: "analysis_runner \<Rightarrow> string list" where
  "analysis_report self =
     [print_info ''command'' (IStr ''analysis''),
      print_info ''cases'' (IInt (int (length (y_cases self)))),
      print_info ''corpus_cases'' (IInt (count_if (\<lambda>c. k_corpus c \<noteq> None) (y_cases self))),
      print_info ''case_runtime_inputs'' (IStr ''coverage/state/tracker from each original run.log'')] @
     print_config ''execution'' (execution_fields (y_execution self)) @
     [print_info ''resolved.run_logs'' (IPath (y_run_log_root self)),
      print_info ''resolved.run_tmp'' (IPath (y_run_tmp self)),
      print_info ''resolved.status_file'' (IPath (y_summary_file self))] @
     print_config ''analysis'' (analysis_fields (y_analysis self))"

definition analysis_run ::
  "environment \<Rightarrow> analysis_runner \<Rightarrow> (pyfloat \<times> case_spec) list \<Rightarrow> (fs, int \<times> string list) eff" where
  "analysis_run env self order =
     ebind (analysis_initialize (v_which env) self) (\<lambda>_.
     ebind (analysis_pool env self order) (\<lambda>results.
       eret (if failed_count results \<noteq> 0 then 1 else 0,
         analysis_report self @
         [''[SUMMARY] total='' @ str_int (int (length results)) @ '', failed='' @ str_int (failed_count results),
          ''[SUMMARY] status file: '' @ path_str (y_summary_file self)])))"

section \<open>The outcome of an analysis case\<close>

lemma analysis_finish_eq: "analysis_finish = finish"
  by (intro ext) (simp add: analysis_finish_def finish_def status_line_def)

lemma analysis_case_body_outcome:
  "yields (outcome c logdir workdir)
     (analysis_case_body env self (\<lambda>status rc. analysis_finish seconds c status rc logdir workdir) c logdir workdir)"
proof -
  have r: "yields P (eraise e)" for P :: "case_result \<Rightarrow> bool" and e by (simp add: yields_def)
  have s: "yields P (case x of Inl e \<Rightarrow> f e | Inr y \<Rightarrow> g y)"
    if "\<And>e. yields P (f e)" "\<And>y. yields P (g y)" for P :: "case_result \<Rightarrow> bool" and x :: "'z res" and f g
    using that by (cases x) auto
  show ?thesis
    unfolding analysis_case_body_def analyse_def Let_def analysis_finish_eq
    by (intro yields_rules r s) (auto simp: statuses_def)
qed

lemma analysis_workdir_parts: "path_parts (snd (analysis_paths self c)) \<noteq> []"
  using path_of_has_parts [of "case_name c"]
  by (auto simp: analysis_paths_def case_name_def path_div_def path_join_def)

lemma analysis_clean_gone:
  assumes "analysis_clean self run_log workdir fs = (Ok u, fs')" "\<not> x_keep_workdir (y_execution self)"
    "path_parts workdir \<noteq> []"
  shows "\<not> is_dir fs' workdir"
  using assms by (auto simp: analysis_clean_def ebind_result_Ok eupd_Ok is_dir_def map_of_rmtree split: if_splits)

interpretation reanalysis: case_protocol "analysis_paths self" "analysis_case env self"
    "\<lambda>seconds c. analysis_case_body env self
       (\<lambda>status rc. analysis_finish seconds c status rc (fst (analysis_paths self c)) (snd (analysis_paths self c)))
       c (fst (analysis_paths self c)) (snd (analysis_paths self c))"
    "\<lambda>c. analysis_clean self (path_div (fst (analysis_paths self c)) ''run.log'') (snd (analysis_paths self c))"
    "x_keep_workdir (y_execution self)"
  for env self
proof
  fix seconds c s r s'
  assume "analysis_case env self seconds c s = (Ok r, s')"
  then show "\<exists>s1 s2 u. analysis_case_body env self
       (\<lambda>status rc. analysis_finish seconds c status rc (fst (analysis_paths self c)) (snd (analysis_paths self c)))
       c (fst (analysis_paths self c)) (snd (analysis_paths self c)) s1 = (Ok r, s2)
      \<and> analysis_clean self (path_div (fst (analysis_paths self c)) ''run.log'') (snd (analysis_paths self c)) s2 = (Ok u, s')"
    by (auto simp: analysis_case_def ebind_result_Ok efinally_Ok split: prod.splits)
qed (auto intro: analysis_case_body_outcome dest: analysis_clean_gone [OF _ _ analysis_workdir_parts])

text \<open>An analysis case that returns reports its own directories, has the status OK exactly when its
  return code is 0, and leaves no work directory unless it was asked to keep it.\<close>

theorem analysis_case_outcome:
  assumes "analysis_case env self seconds c fs = (Ok r, fs')"
  shows "r_case r = c \<and> (r_logdir r, r_workdir r) = analysis_paths self c
    \<and> (r_return_code r = 0 \<longleftrightarrow> r_status r = ''OK'') \<and> status_kind (r_status r)
    \<and> (\<not> x_keep_workdir (y_execution self) \<longrightarrow> \<not> is_dir fs' (r_workdir r))"
  using assms by (rule reanalysis.run_outcome)

definition demo_analysis :: analysis_runner where
  "demo_analysis = AnalysisRunner ''id'' (ExecutionConfig (path_of ''/i'') (path_of ''/l'') (path_of ''/t'') 1)
     \<lparr>a_top_pass = 1, a_selection = ''sort'', a_selection_diversity_weight = Fin 0, a_selection_pool_factor = 1,
      a_reduce_cover = False, a_top_sus = 1, a_metric = ''ochiai'', a_cover_distance_weight = Fin 0,
      a_save_intermediate = False, a_rtl_path = [], a_include_paths = [], a_top_module = ''m'', a_top_scope = ''s'',
      a_simulator_args = []\<rparr> []"

end
