(* ===== verification/Sweep.thy ===== *)
theory Sweep
  imports Runner
begin

text \<open>
  \<open>ibex_sbfl_batch/sweep.py\<close>: the sweep over the Cartesian product of its parameters. The
  temporary directory of the system, the interpreter, the location of the scripts and the child
  processes are parameters; \<open>start command output\<close> is \<open>_run_logged\<close>'s child: it raises
  \<open>OSError\<close> when it cannot be started, and otherwise runs to its return code.
\<close>

section \<open>Parameters\<close>

definition WEIGHT_STRATEGIES :: "string list" where
  "WEIGHT_STRATEGIES = [''uniform'', ''tail_linear'', ''tail_quad'', ''head_linear'', ''head_quad'']"

definition STATUS_FIELDS :: "string list" where
  "STATUS_FIELDS = [''top_pass'', ''mutator_weight_strategy'', ''mutator_window_size'', ''status'', ''run_rc'',
     ''summary_rc'', ''elapsed_time'', ''logs_root'', ''tmp_root'', ''run_log'', ''summary_log'', ''summary_tsv'']"

definition EMPTY_SUMMARY_FIELDS :: "string list" where
  "EMPTY_SUMMARY_FIELDS = [''top_pass'', ''mutator_weight_strategy'', ''mutator_window_size'', ''bugset'', ''diff'',
     ''status'', ''top-k'', ''sus'', ''elapsed_time'', ''fuzzing_time'']"

definition split_values :: "string list option \<Rightarrow> string list \<Rightarrow> string list" where
  "split_values vals dflt =
     (let found = concat (map (\<lambda>v. split_ws (replace_char CHR '','' CHR '' '' v)) (case vals of None \<Rightarrow> [] | Some vs \<Rightarrow> vs))
      in if found = [] then dflt else found)"

fun reject_duplicates :: "string \<Rightarrow> ('a \<Rightarrow> string) \<Rightarrow> 'a list \<Rightarrow> 'a list \<Rightarrow> unit res" where
  "reject_duplicates name show_value seen [] = Ok ()"
| "reject_duplicates name show_value seen (v # vs) =
     (if v \<in> set seen then Err (SbflBatchError (''duplicate '' @ name @ '': '' @ show_value v))
      else reject_duplicates name show_value (v # seen) vs)"

text \<open>\<open>value.isascii() and value.isdigit()\<close>, then \<open>int(value)\<close>.\<close>

definition positive_int :: "string \<Rightarrow> string \<Rightarrow> int res" where
  "positive_int name v =
     (let bad = SbflBatchError (name @ '' must be a positive integer: '' @ v) in
      if \<not> list_all is_ascii v \<or> v = [] \<or> \<not> list_all is_digit v then Err bad
      else rbind (res_of ValueError (py_int v)) (\<lambda>n. if n \<le> 0 then Err bad else Ok n))"

definition positive_ints :: "string \<Rightarrow> string list \<Rightarrow> int list res" where
  "positive_ints name vals =
     rbind (rmapM (positive_int name) vals) (\<lambda>ns.
     rbind (reject_duplicates name str_int [] ns) (\<lambda>_. Ok ns))"

definition resolve_file :: "(path \<Rightarrow> path) \<Rightarrow> (path \<Rightarrow> path) \<Rightarrow> fs \<Rightarrow> path \<Rightarrow> string \<Rightarrow> path res" where
  "resolve_file expanduser resolve fs p description =
     (let resolved = resolve (expanduser p) in
      if is_file fs resolved then Ok resolved
      else Err (SbflBatchError (description @ '' not found: '' @ path_str resolved)))"

definition infer_summary_bugset_root ::
  "(path \<Rightarrow> path) \<Rightarrow> (path \<Rightarrow> path) \<Rightarrow> fs \<Rightarrow> string \<Rightarrow> path \<Rightarrow> path option \<Rightarrow> path res" where
  "infer_summary_bugset_root expanduser resolve fs mode target explicit =
     rbind (case explicit of
         Some p \<Rightarrow> Ok (resolve (expanduser p))
       | None \<Rightarrow>
           if mode = ''all'' then Ok target
           else if is_file fs target \<and> endswith (path_name target) ''.sv.diff'' then Ok (path_parent (path_parent target))
           else if is_dir fs target then
             (case sort (rglob_suffix fs target ''.sv.diff'') of
                [] \<Rightarrow> Err (SbflBatchError (''cannot infer summary bugset root; no .sv.diff found under: '' @ path_str target))
              | d # _ \<Rightarrow> Ok (path_parent (path_parent (resolve d))))
           else Err (SbflBatchError (''cannot infer summary bugset root for target: '' @ path_str target)))
       (\<lambda>r. if is_dir fs r then Ok r else Err (SbflBatchError (''summary bugset root not found: '' @ path_str r)))"

record sweep_args =
  sa_all_cases :: "path option"
  sa_case :: path
  sa_top_pass_values :: "string list option"
  sa_window_size_values :: "string list option"
  sa_weight_strategy_values :: "string list option"
  sa_sweep_jobs :: int
  sa_jobs :: "int option"
  sa_tmp :: "path option"
  sa_logs :: path
  sa_workdir :: "path option"
  sa_line_window :: int
  sa_summary_bugset_root :: "path option"
  sa_run_script :: "path option"
  sa_summarize_script :: "path option"

record sweep_config =
  w_mode :: string
  w_target :: path
  w_top_passes :: "int list"
  w_window_sizes :: "int list"
  w_weight_strategies :: "string list"
  w_sweep_jobs :: int
  w_inner_jobs :: "int option"
  w_tmp_root :: path
  w_logs_root :: path
  w_workdir :: "path option"
  w_line_window :: int
  w_summary_bugset_root :: path
  w_run_script :: path
  w_summarize_script :: path
  w_forwarded_args :: "string list"

record sweep_system =
  z_expanduser :: "path \<Rightarrow> path"
  z_resolve :: "path \<Rightarrow> path"
  z_tempdir :: path
  z_scripts :: path
  z_python :: string

text \<open>The values a sweep ranges over, checked in the order of the code.\<close>

definition sweep_values :: "sweep_args \<Rightarrow> (int list \<times> int list \<times> string list) res" where
  "sweep_values a =
     rbind (positive_ints ''top pass'' (split_values (sa_top_pass_values a) [])) (\<lambda>tops.
     rbind (positive_ints ''mutator window size'' (split_values (sa_window_size_values a) [])) (\<lambda>windows.
       let strategies = split_values (sa_weight_strategy_values a) [''uniform''];
           invalid = filter (\<lambda>s. s \<notin> set WEIGHT_STRATEGIES) strategies in
       if invalid \<noteq> [] then
         Err (SbflBatchError (''invalid mutator weight strategy: '' @ hd invalid @ ''; expected one of: '' @
           join '', '' (sort WEIGHT_STRATEGIES)))
       else
       rbind (reject_duplicates ''mutator weight strategy'' id [] strategies) (\<lambda>_. Ok (tops, windows, strategies))))"

definition sweep_limits :: "sweep_args \<Rightarrow> unit res" where
  "sweep_limits a =
     checks [(0 < sa_sweep_jobs a, ''sweep jobs must be a positive integer: '' @ str_int (sa_sweep_jobs a)),
       (case sa_jobs a of None \<Rightarrow> True | Some j \<Rightarrow> 0 < j,
        ''jobs must be a positive integer: '' @ (case sa_jobs a of None \<Rightarrow> ''None'' | Some j \<Rightarrow> str_int j)),
       (0 \<le> sa_line_window a, ''line window must be a non-negative integer: '' @ str_int (sa_line_window a))]"

definition from_args :: "sweep_system \<Rightarrow> sweep_args \<Rightarrow> string list \<Rightarrow> (fs, sweep_config) eff" where
  "from_args y a forwarded =
     (let mode = (if sa_all_cases a \<noteq> None then ''all'' else ''case'');
          target_arg = (case sa_all_cases a of Some p \<Rightarrow> p | None \<Rightarrow> sa_case a);
          target = z_resolve y (z_expanduser y target_arg) in
      ebind (eget (\<lambda>fs. path_exists fs target)) (\<lambda>exists.
      if \<not> exists then eraise (SbflBatchError (''target not found: '' @ path_str target)) else
      ebind (elift (sweep_values a)) (\<lambda>(tops, windows, strategies).
      ebind (elift (sweep_limits a)) (\<lambda>_.
      ebind (eget (\<lambda>fs. resolve_file (z_expanduser y) (z_resolve y) fs
          (case sa_run_script a of Some p \<Rightarrow> p | None \<Rightarrow> path_div (z_scripts y) ''run_bugset_psbfl.py'') ''run script'')) (\<lambda>r1.
      ebind (elift r1) (\<lambda>run_script.
      ebind (eget (\<lambda>fs. resolve_file (z_expanduser y) (z_resolve y) fs
          (case sa_summarize_script a of Some p \<Rightarrow> p | None \<Rightarrow> path_div (z_scripts y) ''summarize_sbfl_blocks.py'')
          ''summarize script'')) (\<lambda>r2.
      ebind (elift r2) (\<lambda>summarize_script.
      let tmp_root = z_resolve y (case sa_tmp a of Some p \<Rightarrow> p | None \<Rightarrow> path_div (z_tempdir y) ''run_args_sweep_sbfl'');
          logs_root = z_resolve y (z_expanduser y (sa_logs a)) in
      ebind (eupd (mkdir_parents tmp_root)) (\<lambda>_.
      ebind (eupd (mkdir_parents logs_root)) (\<lambda>_.
      ebind (eget (\<lambda>fs. infer_summary_bugset_root (z_expanduser y) (z_resolve y) fs mode target (sa_summary_bugset_root a))) (\<lambda>r3.
      ebind (elift r3) (\<lambda>summary_root.
        eret \<lparr>w_mode = mode, w_target = target, w_top_passes = tops, w_window_sizes = windows,
              w_weight_strategies = strategies, w_sweep_jobs = sa_sweep_jobs a, w_inner_jobs = sa_jobs a,
              w_tmp_root = tmp_root, w_logs_root = logs_root,
              w_workdir = map_option (\<lambda>p. z_resolve y (z_expanduser y p)) (sa_workdir a),
              w_line_window = sa_line_window a, w_summary_bugset_root = summary_root,
              w_run_script = run_script, w_summarize_script = summarize_script,
              w_forwarded_args = forwarded\<rparr>))))))))))))"

section \<open>Points\<close>

record sweep_point =
  p_top_pass :: int
  p_weight_strategy :: string
  p_window_size :: int

record sweep_result =
  u_point :: sweep_point
  u_status :: string
  u_run_rc :: int
  u_summary_rc :: int
  u_elapsed_time :: string
  u_logs_root :: path
  u_tmp_root :: path
  u_run_log :: path
  u_summary_log :: path
  u_summary_tsv :: path

definition status_row :: "sweep_result \<Rightarrow> string list" where
  "status_row r =
     [str_int (p_top_pass (u_point r)), p_weight_strategy (u_point r), str_int (p_window_size (u_point r)), u_status r,
      str_int (u_run_rc r), str_int (u_summary_rc r), u_elapsed_time r, path_str (u_logs_root r), path_str (u_tmp_root r),
      path_str (u_run_log r), path_str (u_summary_log r), path_str (u_summary_tsv r)]"

text \<open>\<open>_format_elapsed_ms\<close> divides a number of milliseconds as \<open>format_elapsed\<close> does.\<close>

definition format_elapsed_ms :: "int \<Rightarrow> string" where
  "format_elapsed_ms total_ms =
     (let hours = total_ms div 3600000; m1 = total_ms mod 3600000; minutes = m1 div 60000; m2 = m1 mod 60000;
          secs = m2 div 1000; m3 = m2 mod 1000 in
      zpad_int 2 hours @ '':'' @ zpad_int 2 minutes @ '':'' @ zpad_int 2 secs @ '':'' @ zpad_int 3 m3)"

definition points :: "sweep_config \<Rightarrow> sweep_point list" where
  "points c =
     concat (map (\<lambda>t. concat (map (\<lambda>s. map (\<lambda>w. \<lparr>p_top_pass = t, p_weight_strategy = s, p_window_size = w\<rparr>)
       (w_window_sizes c)) (w_weight_strategies c))) (w_top_passes c))"

record sweep_runner =
  q_config :: sweep_config
  q_logs_root :: path
  q_tmp_root :: path
  q_status_file :: path
  q_combined_summary :: path

definition SweepRunner :: "string \<Rightarrow> sweep_config \<Rightarrow> sweep_runner" where
  "SweepRunner run_id config =
     (let logs = path_div (w_logs_root config) run_id in
      \<lparr>q_config = config, q_logs_root = logs, q_tmp_root = path_div (w_tmp_root config) run_id,
       q_status_file = path_div logs ''sweep_status.tsv'',
       q_combined_summary = path_div logs ''args_sweep_sbfl_block_summary.tsv''\<rparr>)"

type_synonym starter = "string list \<Rightarrow> path \<Rightarrow> (fs, int) eff"

definition run_logged :: "(exn \<Rightarrow> string) \<Rightarrow> starter \<Rightarrow> string list \<Rightarrow> path \<Rightarrow> bool \<Rightarrow> (fs, int) eff" where
  "run_logged describe start command p appending =
     ebind (eupd (if appending then append_text p [] else write_text p [])) (\<lambda>_.
     ecatch (start command p) (\<lambda>e. if is_os_error e then
       Some (ebind (eupd (append_text p (''[ERROR] failed to start '' @ shlex_join command @ '': '' @ describe e @ [NL])))
               (\<lambda>_. eret 127))
       else None))"

definition commands :: "sweep_system \<Rightarrow> sweep_runner \<Rightarrow> sweep_point \<Rightarrow> path \<Rightarrow> path \<Rightarrow> path \<Rightarrow> string list \<times> string list" where
  "commands y self pt sweep_logs sweep_tmp summary_tsv =
     (let c = q_config self in
      ([z_python y, path_str (w_run_script c), ''--'' @ w_mode c, path_str (w_target c), ''--top-pass'',
        str_int (p_top_pass pt), ''--mutator-weight-strategy'', p_weight_strategy pt, ''--mutator-window-size'',
        str_int (p_window_size pt), ''-t'', path_str sweep_tmp, ''-l'', path_str sweep_logs] @
       (case w_inner_jobs c of None \<Rightarrow> [] | Some j \<Rightarrow> [''-j'', str_int j]) @
       (case w_workdir c of None \<Rightarrow> [] | Some p \<Rightarrow> [''-w'', path_str p]) @ w_forwarded_args c,
       [z_python y, path_str (w_summarize_script c), path_str (w_summary_bugset_root c), path_str sweep_logs,
        ''-o'', path_str summary_tsv, ''--line-window'', str_int (w_line_window c)]))"

definition point_dir :: "sweep_point \<Rightarrow> path" where
  "point_dir pt =
     path_div (path_div (path_of (''top_pass_'' @ str_int (p_top_pass pt))) (''strategy_'' @ p_weight_strategy pt))
       (''window_'' @ str_int (p_window_size pt))"

definition point_log_header :: "sweep_point \<Rightarrow> string list \<Rightarrow> string" where
  "point_log_header pt run_command =
     ''[TOP-PASS] top-pass='' @ str_int (p_top_pass pt) @ [NL] @
     ''[MUTATOR-STRATEGY] mutator-weight-strategy='' @ p_weight_strategy pt @ [NL] @
     ''[MUTATOR-WINDOW] mutator-window-size='' @ str_int (p_window_size pt) @ [NL] @
     ''[RUN] '' @ shlex_join run_command @ [NL]"

definition point_status :: "int \<Rightarrow> int \<Rightarrow> string" where
  "point_status run_rc summary_rc =
     (if run_rc = 0 \<and> summary_rc = 0 then ''OK'' else if summary_rc \<noteq> 0 then ''SUMMARY_FAIL'' else ''RUN_FAIL'')"

definition append_status :: "sweep_runner \<Rightarrow> sweep_result \<Rightarrow> (fs, unit) eff" where
  "append_status self r = eupd (append_text (q_status_file self) (csv_line (status_row r)))"

text \<open>One point. \<open>stop_before\<close> and \<open>stop_between\<close> are the two readings of the stop flag.\<close>

definition run_point :: "(exn \<Rightarrow> string) \<Rightarrow> starter \<Rightarrow> sweep_system \<Rightarrow> sweep_runner \<Rightarrow> bool \<Rightarrow> bool \<Rightarrow> pyfloat \<Rightarrow>
    sweep_point \<Rightarrow> (fs, sweep_result) eff" where
  "run_point describe start y self stop_before stop_between seconds pt =
     (if stop_before then eraise (SbflBatchError ''sweep interrupted'') else
      let sweep_root = path_join (q_logs_root self) (point_dir pt);
          sweep_logs = path_div sweep_root ''sbfl_logs'';
          sweep_tmp = path_join (q_tmp_root self) (point_dir pt);
          run_log = path_div sweep_root ''run_bugset_psbfl.log'';
          summary_log = path_div sweep_root ''summarize_sbfl_blocks.log'';
          summary_tsv = path_div sweep_root ''sbfl_block_summary.tsv'' in
      ebind (eupd (mkdir_parents sweep_logs)) (\<lambda>_.
      ebind (eupd (mkdir_parents sweep_tmp)) (\<lambda>_.
      case commands y self pt sweep_logs sweep_tmp summary_tsv of (run_command, summary_command) \<Rightarrow>
      ebind (eupd (write_text run_log (point_log_header pt run_command))) (\<lambda>_.
      ebind (run_logged describe start run_command run_log True) (\<lambda>run_rc.
      ebind (eupd (append_text run_log (''[RUN_RC] '' @ str_int run_rc @ [NL] @ ''[SUMMARY] '' @
          shlex_join summary_command @ [NL]))) (\<lambda>_.
      ebind (if stop_between then eret 130 else run_logged describe start summary_command summary_log False) (\<lambda>summary_rc.
      ebind (elift (round_float (fmul seconds (Fin 1000)))) (\<lambda>ms.
      let r = \<lparr>u_point = pt, u_status = point_status run_rc summary_rc, u_run_rc = run_rc, u_summary_rc = summary_rc,
               u_elapsed_time = format_elapsed_ms ms, u_logs_root = sweep_logs, u_tmp_root = sweep_tmp,
               u_run_log = run_log, u_summary_log = summary_log, u_summary_tsv = summary_tsv\<rparr> in
      ebind (append_status self r) (\<lambda>_. eret r)))))))))"

section \<open>The combined summary\<close>

text \<open>The rows of one summary file under the parameters of its point; the header goes out once.\<close>

definition combine_one :: "fs \<Rightarrow> bool \<times> string \<Rightarrow> (string, string) dict \<Rightarrow> (bool \<times> string) res" where
  "combine_one fs acc status =
     (case acc of (header_written, out) \<Rightarrow>
       rbind (res_of KeyError (map_of status ''summary_tsv'')) (\<lambda>summary_path.
       if \<not> is_file fs (path_of summary_path) then Ok acc
       else rbind (read_text fs (path_of summary_path)) (\<lambda>content.
         case csv_parse content of
           [] \<Rightarrow> Ok acc
         | header # rows \<Rightarrow>
             rbind (res_of KeyError (map_of status ''top_pass'')) (\<lambda>t.
             rbind (res_of KeyError (map_of status ''mutator_weight_strategy'')) (\<lambda>s.
             rbind (res_of KeyError (map_of status ''mutator_window_size'')) (\<lambda>w.
               Ok (True, out @ (if header_written then [] else csv_line (take 3 STATUS_FIELDS @ header)) @
                     concat (map (\<lambda>r. csv_line ([t, s, w] @ r)) rows))))))))"

definition combined_text :: "fs \<Rightarrow> (string, string) dict list \<Rightarrow> string res" where
  "combined_text fs statuses =
     rbind (rfoldM (combine_one fs) (False, []) statuses) (\<lambda>(header_written, out).
       Ok (if header_written then out else out @ csv_line EMPTY_SUMMARY_FIELDS))"

definition write_combined_summary :: "sweep_runner \<Rightarrow> (fs, unit) eff" where
  "write_combined_summary self =
     ebind (eupd (write_text (q_combined_summary self) [])) (\<lambda>_.
     ebind (eget (\<lambda>fs. rbind (read_text fs (q_status_file self)) (\<lambda>content.
        combined_text fs (dict_reader (csv_parse content))))) (\<lambda>t.
     ebind (elift t) (\<lambda>s. eupd (write_text (q_combined_summary self) s))))"

section \<open>The sweep\<close>

fun run_points :: "(exn \<Rightarrow> string) \<Rightarrow> starter \<Rightarrow> sweep_system \<Rightarrow> sweep_runner \<Rightarrow> (pyfloat \<times> sweep_point) list \<Rightarrow>
    (fs, sweep_result list) eff" where
  "run_points describe start y self [] = eret []"
| "run_points describe start y self ((seconds, pt) # rest) =
     ebind (run_point describe start y self False False seconds pt) (\<lambda>r.
     ebind (run_points describe start y self rest) (\<lambda>rs. eret (r # rs)))"

definition sweep_fields :: "sweep_config \<Rightarrow> (string \<times> info_value) list" where
  "sweep_fields c =
     [(''mode'', IStr (w_mode c)), (''target'', IPath (w_target c)), (''top_passes'', ISeq (map str_int (w_top_passes c))),
      (''window_sizes'', ISeq (map str_int (w_window_sizes c))), (''weight_strategies'', ISeq (w_weight_strategies c)),
      (''sweep_jobs'', IInt (w_sweep_jobs c)), (''inner_jobs'', opt_info IInt (w_inner_jobs c)),
      (''tmp_root'', IPath (w_tmp_root c)), (''logs_root'', IPath (w_logs_root c)),
      (''workdir'', opt_info IPath (w_workdir c)), (''line_window'', IInt (w_line_window c)),
      (''summary_bugset_root'', IPath (w_summary_bugset_root c)), (''run_script'', IPath (w_run_script c)),
      (''summarize_script'', IPath (w_summarize_script c)), (''forwarded_args'', ISeq (w_forwarded_args c))]"

text \<open>A sweep that is not interrupted; \<open>order\<close> is the order in which the pool completes the points.\<close>

definition sweep_run :: "(exn \<Rightarrow> string) \<Rightarrow> starter \<Rightarrow> sweep_system \<Rightarrow> sweep_runner \<Rightarrow> (pyfloat \<times> sweep_point) list \<Rightarrow>
    (fs, int \<times> string list) eff" where
  "sweep_run describe start y self order =
     ebind (eupd (mkdir_new (q_logs_root self))) (\<lambda>_.
     ebind (eupd (mkdir_new (q_tmp_root self))) (\<lambda>_.
     ebind (eupd (write_text (q_status_file self) (csv_line STATUS_FIELDS))) (\<lambda>_.
     ebind (run_points describe start y self order) (\<lambda>results.
     ebind (write_combined_summary self) (\<lambda>_.
       let failed = count_if (\<lambda>r. u_status r \<noteq> ''OK'') results in
       eret (if failed \<noteq> 0 then 1 else 0,
         [print_info ''command'' (IStr ''sweep'')] @ print_config ''sweep'' (sweep_fields (q_config self)) @
         [print_info ''resolved.run_logs'' (IPath (q_logs_root self)),
          print_info ''resolved.run_tmp'' (IPath (q_tmp_root self)),
          print_info ''resolved.status_file'' (IPath (q_status_file self)),
          print_info ''resolved.combined_summary'' (IPath (q_combined_summary self)),
          replicate 60 CHR ''='',
          ''[SUMMARY] sweep runs      : '' @ str_int (int (length results)),
          ''[SUMMARY] failed          : '' @ str_int failed,
          ''[SUMMARY] status file     : '' @ path_str (q_status_file self),
          ''[SUMMARY] combined summary: '' @ path_str (q_combined_summary self),
          ''[SUMMARY] logs root       : '' @ path_str (q_logs_root self),
          replicate 60 CHR ''='']))))))"

section \<open>Interrupting a sweep\<close>

text \<open>
  The pool of a sweep under an interrupt. Worker threads take submitted points one after another
  and run their children; \<open>KeyboardInterrupt\<close> leaves the \<open>with\<close> statement of the executor, whose
  exit waits until every submitted point has run, and only then does the handler call \<open>stop\<close>,
  which sets the stop flag and signals the children registered at that moment.
\<close>

datatype sweep_phase = Collecting | Leaving | Stopped | Returned

record sweep_pool =
  o_phase :: sweep_phase
  o_queued :: "sweep_point list"
  o_running :: "sweep_point list"
  o_finished :: "sweep_point list"
  o_stopping :: bool
  o_signalled :: "sweep_point list"

definition submitted :: "sweep_config \<Rightarrow> sweep_pool" where
  "submitted c = \<lparr>o_phase = Collecting, o_queued = points c, o_running = [], o_finished = [], o_stopping = False,
     o_signalled = []\<rparr>"

inductive pool_step :: "sweep_config \<Rightarrow> sweep_pool \<Rightarrow> sweep_pool \<Rightarrow> bool" for c where
  take_point: "o_queued s = pt # rest \<Longrightarrow> int (length (o_running s)) < w_sweep_jobs c \<Longrightarrow> o_phase s \<in> {Collecting, Leaving} \<Longrightarrow>
    pool_step c s (s \<lparr>o_queued := rest, o_running := pt # o_running s\<rparr>)"
| finish_point: "o_running s = xs @ pt # ys \<Longrightarrow>
    pool_step c s (s \<lparr>o_running := xs @ ys, o_finished := o_finished s @ [pt]\<rparr>)"
| interrupt: "o_phase s = Collecting \<Longrightarrow> pool_step c s (s \<lparr>o_phase := Leaving\<rparr>)"
| stop: "o_phase s = Leaving \<Longrightarrow> o_queued s = [] \<Longrightarrow> o_running s = [] \<Longrightarrow>
    pool_step c s (s \<lparr>o_phase := Stopped, o_stopping := True, o_signalled := o_running s\<rparr>)"
| return: "o_phase s = Collecting \<Longrightarrow> o_queued s = [] \<Longrightarrow> o_running s = [] \<Longrightarrow>
    pool_step c s (s \<lparr>o_phase := Returned\<rparr>)"

inductive pool_reaches :: "sweep_config \<Rightarrow> sweep_pool \<Rightarrow> bool" for c where
  submit: "pool_reaches c (submitted c)"
| step: "pool_reaches c s \<Longrightarrow> pool_step c s s' \<Longrightarrow> pool_reaches c s'"

inductive_cases pool_stepE: "pool_step c s s'"

text \<open>Every point is queued, running or finished exactly once; the stop flag is set only when the
  pool has run dry.\<close>

definition pool_inv :: "sweep_config \<Rightarrow> sweep_pool \<Rightarrow> bool" where
  "pool_inv c s \<longleftrightarrow> mset (o_queued s) + mset (o_running s) + mset (o_finished s) = mset (points c)
     \<and> o_signalled s = [] \<and> (o_stopping s \<longleftrightarrow> o_phase s = Stopped)
     \<and> (o_phase s \<in> {Stopped, Returned} \<longrightarrow> o_queued s = [] \<and> o_running s = [])
     \<and> int (length (o_running s)) \<le> max 0 (w_sweep_jobs c)"

lemma pool_inv_submitted: "pool_inv c (submitted c)"
  by (simp add: pool_inv_def submitted_def)

lemma pool_inv_step: "pool_inv c s \<Longrightarrow> pool_step c s s' \<Longrightarrow> pool_inv c s'"
  by (erule pool_stepE) (auto simp: pool_inv_def)

lemma pool_reaches_inv: "pool_reaches c s \<Longrightarrow> pool_inv c s"
  by (induction rule: pool_reaches.induct) (auto intro: pool_inv_submitted pool_inv_step)

text \<open>An interrupt does not shorten a sweep: after one interrupt, whenever \<open>stop\<close> has been called, every point has
  already run to its end, and no child was signalled.\<close>

theorem interrupt_runs_every_point:
  assumes "pool_reaches c s" "o_phase s = Stopped"
  shows "mset (o_finished s) = mset (points c) \<and> o_signalled s = []"
  using pool_reaches_inv [OF assms(1)] assms(2) by (auto simp: pool_inv_def)

definition demo_sweep :: sweep_config where
  "demo_sweep = \<lparr>w_mode = ''all'', w_target = path_of ''/b'', w_top_passes = [5], w_window_sizes = [1],
     w_weight_strategies = [''uniform''], w_sweep_jobs = 1, w_inner_jobs = None, w_tmp_root = path_of ''/t'',
     w_logs_root = path_of ''/l'', w_workdir = None, w_line_window = 0, w_summary_bugset_root = path_of ''/b'',
     w_run_script = path_of ''/r'', w_summarize_script = path_of ''/s'', w_forwarded_args = []\<rparr>"

lemma demo_interrupted:
  "pool_reaches demo_sweep (submitted demo_sweep
     \<lparr>o_phase := Stopped, o_queued := [], o_finished := points demo_sweep, o_stopping := True\<rparr>)"
proof -
  let ?pt = "\<lparr>p_top_pass = 5, p_weight_strategy = ''uniform'', p_window_size = 1\<rparr>"
  have pts: "points demo_sweep = [?pt]" by (simp add: points_def demo_sweep_def)
  have jobs: "w_sweep_jobs demo_sweep = 1" by (simp add: demo_sweep_def)
  let ?s0 = "submitted demo_sweep"
  let ?s1 = "?s0 \<lparr>o_phase := Leaving\<rparr>"
  let ?s2 = "?s1 \<lparr>o_queued := [], o_running := [?pt]\<rparr>"
  let ?s3 = "?s2 \<lparr>o_running := [], o_finished := [?pt]\<rparr>"
  note d = submitted_def pts jobs
  have a: "pool_step demo_sweep ?s0 ?s1" by (rule pool_step.interrupt) (simp add: d)
  have b: "pool_step demo_sweep ?s1 ?s2"
    using pool_step.take_point [of ?s1 ?pt "[]" demo_sweep] by (simp add: d)
  have e: "pool_step demo_sweep ?s2 ?s3"
    using pool_step.finish_point [of ?s2 "[]" ?pt "[]" demo_sweep] by (simp add: d)
  have f: "pool_step demo_sweep ?s3 (?s3 \<lparr>o_phase := Stopped, o_stopping := True, o_signalled := o_running ?s3\<rparr>)"
    by (rule pool_step.stop) (simp_all add: d)
  show ?thesis
    using pool_reaches.step [OF pool_reaches.step [OF pool_reaches.step [OF pool_reaches.step
          [OF pool_reaches.submit a] b] e] f] by (simp add: d)
qed

section \<open>The points of a sweep\<close>

lemma reject_duplicates_distinct:
  "reject_duplicates name f seen vs = Ok u \<Longrightarrow> distinct vs \<and> set seen \<inter> set vs = {}"
  by (induction name f seen vs rule: reject_duplicates.induct) (auto split: if_splits)

lemma positive_ints_distinct: "positive_ints name vs = Ok ns \<Longrightarrow> distinct ns \<and> (\<forall>n \<in> set ns. 0 < n)"
proof -
  assume a: "positive_ints name vs = Ok ns"
  then have m: "rmapM (positive_int name) vs = Ok ns" and d: "\<exists>u. reject_duplicates name str_int [] ns = Ok u"
    by (auto simp: positive_ints_def rbind_eq_Ok)
  have "0 < n" if "n \<in> set ns" for n
    using rmapM_Ok_mem [OF m that] by (auto simp: positive_int_def Let_def rbind_eq_Ok split: if_splits)
  with d show ?thesis using reject_duplicates_distinct by metis
qed

lemma sweep_values_distinct:
  assumes "sweep_values a = Ok (tops, windows, strategies)"
  shows "distinct tops" "distinct windows" "distinct strategies" "set strategies \<subseteq> set WEIGHT_STRATEGIES"
proof -
  from assms obtain u where "positive_ints ''top pass'' (split_values (sa_top_pass_values a) []) = Ok tops"
    "positive_ints ''mutator window size'' (split_values (sa_window_size_values a) []) = Ok windows"
    "reject_duplicates ''mutator weight strategy'' id [] strategies = Ok u"
    "filter (\<lambda>s. s \<notin> set WEIGHT_STRATEGIES) strategies = []"
    by (auto simp: sweep_values_def Let_def elim!: rbind_OkE split: if_splits)
  then show "distinct tops" "distinct windows" "distinct strategies" "set strategies \<subseteq> set WEIGHT_STRATEGIES"
    using reject_duplicates_distinct positive_ints_distinct by (blast, blast, blast, auto simp: filter_empty_conv)
qed

definition wf_sweep :: "sweep_config \<Rightarrow> bool" where
  "wf_sweep c \<longleftrightarrow> distinct (w_top_passes c) \<and> distinct (w_window_sizes c) \<and> distinct (w_weight_strategies c)
     \<and> set (w_weight_strategies c) \<subseteq> set WEIGHT_STRATEGIES"

lemma from_args_wf:
  assumes "from_args y a fwd fs = (Ok c, fs')"
  shows "wf_sweep c \<and> sweep_values a = Ok (w_top_passes c, w_window_sizes c, w_weight_strategies c)"
proof -
  from assms obtain v where "sweep_values a = Ok v"
      "v = (w_top_passes c, w_window_sizes c, w_weight_strategies c)"
    by (auto simp: from_args_def Let_def ebind_result_Ok split: if_splits prod.splits)
  then show ?thesis using sweep_values_distinct [of a "w_top_passes c" "w_window_sizes c" "w_weight_strategies c"]
    by (simp add: wf_sweep_def)
qed

lemma set_points: "pt \<in> set (points c) \<longleftrightarrow> p_top_pass pt \<in> set (w_top_passes c)
    \<and> p_weight_strategy pt \<in> set (w_weight_strategies c) \<and> p_window_size pt \<in> set (w_window_sizes c)"
  by (cases pt) (auto simp: points_def image_iff)

lemma distinct_concat_map:
  "distinct xs \<Longrightarrow> (\<And>x. x \<in> set xs \<Longrightarrow> distinct (f x)) \<Longrightarrow>
   (\<And>x y. x \<in> set xs \<Longrightarrow> y \<in> set xs \<Longrightarrow> x \<noteq> y \<Longrightarrow> set (f x) \<inter> set (f y) = {}) \<Longrightarrow> distinct (concat (map f xs))"
  by (induction xs) fastforce+

lemma distinct_points: "wf_sweep c \<Longrightarrow> distinct (points c)"
  unfolding points_def wf_sweep_def
  by (intro distinct_concat_map) (auto simp: distinct_map inj_on_def)

lemma length_points: "length (points c) = length (w_top_passes c) * (length (w_weight_strategies c) * length (w_window_sizes c))"
  by (simp add: points_def length_concat comp_def sum_list_triv)

lemma path_of_named: "CHR ''/'' \<notin> set s \<Longrightarrow> CHR ''_'' \<in> set s \<Longrightarrow> path_of s = Path [] [s]"
proof -
  assume a: "CHR ''/'' \<notin> set s" "CHR ''_'' \<in> set s"
  have "\<not> startswith s ''/''" "\<not> startswith s ''//''" using a(1) by (auto simp: startswith_iff)
  moreover have "split_char CHR ''/'' s = [s]"
    using a(1) unfolding split_char_def by (intro split_by_no_sep) auto
  moreover have "s \<noteq> []" "s \<noteq> ''.''" using a(2) by auto
  ultimately show ?thesis by (simp add: path_of_def)
qed

lemma point_dir_parts:
  assumes "p_weight_strategy pt \<in> set WEIGHT_STRATEGIES"
  shows "point_dir pt = Path [] [''top_pass_'' @ str_int (p_top_pass pt), ''strategy_'' @ p_weight_strategy pt,
    ''window_'' @ str_int (p_window_size pt)]"
proof -
  have "CHR ''/'' \<notin> set (p_weight_strategy pt)" using assms by (auto simp: WEIGHT_STRATEGIES_def)
  moreover have "CHR ''/'' \<notin> set (str_int i)" for i by (auto dest!: str_int_chars simp: is_digit_def code_def)
  ultimately show ?thesis by (simp add: point_dir_def path_div_def path_join_def path_of_named)
qed

text \<open>C27: a sweep set up from the command line runs every combination of its parameters exactly once,
  each in a directory of its own.\<close>

theorem sweep_points_exact:
  assumes "from_args y a fwd fs = (Ok c, fs')"
  shows "distinct (points c)
    \<and> (\<forall>pt. pt \<in> set (points c) \<longleftrightarrow> p_top_pass pt \<in> set (w_top_passes c)
        \<and> p_weight_strategy pt \<in> set (w_weight_strategies c) \<and> p_window_size pt \<in> set (w_window_sizes c))
    \<and> length (points c) = length (w_top_passes c) * (length (w_weight_strategies c) * length (w_window_sizes c))
    \<and> inj_on point_dir (set (points c))"
proof -
  have wf: "wf_sweep c" using from_args_wf [OF assms] by blast
  have "inj_on point_dir (set (points c))"
  proof (rule inj_onI)
    fix p q assume "p \<in> set (points c)" "q \<in> set (points c)" "point_dir p = point_dir q"
    then have "p_top_pass p = p_top_pass q \<and> p_weight_strategy p = p_weight_strategy q \<and> p_window_size p = p_window_size q"
      using wf by (auto simp: set_points wf_sweep_def point_dir_parts subset_iff str_int_inj)
    then show "p = q" by simp
  qed
  then show ?thesis using distinct_points [OF wf] by (simp add: set_points length_points)
qed


definition demo_sweep_args :: sweep_args where
  "demo_sweep_args = \<lparr>sa_all_cases = Some (path_of ''/b''), sa_case = path_of ''/b'',
     sa_top_pass_values = Some [''5,6''], sa_window_size_values = Some [''1 2''], sa_weight_strategy_values = None,
     sa_sweep_jobs = 1, sa_jobs = None, sa_tmp = Some (path_of ''/t''), sa_logs = path_of ''/l'', sa_workdir = None,
     sa_line_window = 0, sa_summary_bugset_root = None, sa_run_script = Some (path_of ''/r''),
     sa_summarize_script = Some (path_of ''/r'')\<rparr>"

definition demo_system :: sweep_system where
  "demo_system = \<lparr>z_expanduser = (\<lambda>p. p), z_resolve = (\<lambda>p. p), z_tempdir = path_of ''/t'', z_scripts = path_of ''/s'',
     z_python = ''python3''\<rparr>"

theorem sweep_points_exact_witness:
  "\<exists>c fs'. from_args demo_system demo_sweep_args [] [(path_of ''/b'', Directory), (path_of ''/r'', File [])] = (Ok c, fs')
     \<and> length (points c) = 4 \<and> distinct (points c)"
proof -
  let ?run = "from_args demo_system demo_sweep_args [] [(path_of ''/b'', Directory), (path_of ''/r'', File [])]"
  have "case fst ?run of Inr c \<Rightarrow> w_top_passes c = [5, 6] \<and> w_window_sizes c = [1, 2] \<and> w_weight_strategies c = [''uniform'']
      | Inl e \<Rightarrow> False" by code_simp
  then obtain c fs' where run: "?run = (Ok c, fs')"
      and c: "w_top_passes c = [5, 6]" "w_window_sizes c = [1, 2]" "w_weight_strategies c = [''uniform'']"
    by (cases ?run) (auto split: sum.splits)
  with sweep_points_exact [OF run] show ?thesis by auto
qed

section \<open>A sweep ends\<close>

fun phase_weight :: "sweep_phase \<Rightarrow> nat" where
  "phase_weight Collecting = 2"
| "phase_weight Leaving = 1"
| "phase_weight _ = 0"

definition pool_weight :: "sweep_pool \<Rightarrow> nat" where
  "pool_weight s = 3 * length (o_queued s) + 2 * length (o_running s) + phase_weight (o_phase s)"

lemma pool_step_decreases: "pool_step c s s' \<Longrightarrow> pool_weight s' < pool_weight s"
  by (erule pool_stepE) (auto simp: pool_weight_def)

lemma pool_progress:
  assumes "0 < w_sweep_jobs c" "o_phase s \<notin> {Stopped, Returned}"
  shows "\<exists>s'. pool_step c s s'"
proof (cases "o_running s")
  case (Cons pt rest)
  then show ?thesis using pool_step.finish_point [of s "[]" pt rest] by auto
next
  case Nil
  show ?thesis
  proof (cases "o_queued s")
    case (Cons pt rest)
    moreover have "o_phase s \<in> {Collecting, Leaving}" using assms(2) by (cases "o_phase s") auto
    ultimately show ?thesis using pool_step.take_point [of s pt rest c] Nil assms(1) by auto
  next
    case q: Nil
    show ?thesis
    proof (cases "o_phase s")
      case Collecting
      then show ?thesis using pool_step.return [of s] q Nil by blast
    next
      case Leaving
      then show ?thesis using pool_step.stop [of s] q Nil by blast
    qed (use assms(2) in auto)
  qed
qed

lemma pool_ended_finished:
  "pool_reaches c s \<Longrightarrow> o_phase s \<in> {Stopped, Returned} \<Longrightarrow> mset (o_finished s) = mset (points c)"
  by (drule pool_reaches_inv) (auto simp: pool_inv_def)



end
