(* ===== verification/Statistics.thy ===== *)
theory Statistics
  imports Result_IO Py_Csv
begin

text \<open>
  \<open>ibex_sbfl_batch/statistics.py\<close>: the rows of the SBFL and LLM summaries, their TSV files and
  the statistics over them. A row is the dict of its fields. The counters of the loops are
  records; the lines they print are lists of lines. \<open>sum\<close> of floats adds from left to right.
\<close>

type_synonym row = "(string, string) dict"

section \<open>Fields and files\<close>

definition SBFL_FIELDS :: "string list" where
  "SBFL_FIELDS = [''bugset'', ''diff'', ''status'', ''top-k'', ''sus'', ''gen_time'', ''sbfl_time'']"

definition LLM_FIELDS :: "string list" where
  "LLM_FIELDS = [''bugset'', ''diff'', ''status'', ''model'', ''source_mode'', ''candidate_count'',
     ''rerank_top_k'', ''top-k'', ''sbfl_top-k'', ''rank_delta'', ''candidate_id'', ''original_rank'',
     ''sus'', ''module'', ''scope'', ''bid'', ''lines'', ''reason'', ''llm_elapsed_time'', ''gen_time'',
     ''sbfl_time'', ''llm_score'', ''sbfl_score'', ''final_score'', ''ranking_strategy'', ''patch_state'',
     ''prompt_sha256'', ''prompt_tokens'', ''completion_tokens'', ''total_tokens'', ''input_tokens'',
     ''output_tokens'']"

definition iter_status_dirs :: "fs \<Rightarrow> path \<Rightarrow> (path \<times> path) list" where
  "iter_status_dirs fs logs_root =
     map (\<lambda>p. (path_parent p, p)) (sort (rglob_name fs logs_root ''status.txt''))"

text \<open>\<open>DictWriter\<close> refuses a row with a key that is not a field, and writes an absent field empty.\<close>

definition tsv_text :: "string list \<Rightarrow> row list \<Rightarrow> string res" where
  "tsv_text cols rows =
     (if list_ex (\<lambda>r. \<not> set (dict_keys r) \<subseteq> set cols) rows then Err ValueError
      else Ok (csv_text (cols # map (\<lambda>r. map (\<lambda>f. dict_get r f []) cols) rows)))"

definition write_tsv :: "path \<Rightarrow> string list \<Rightarrow> row list \<Rightarrow> (fs, unit) eff" where
  "write_tsv p cols rows =
     ebind (eupd (mkdir_parents (path_parent p))) (\<lambda>_.
     ebind (elift (tsv_text cols rows)) (\<lambda>text. eupd (write_text p text)))"

definition read_summary :: "fs \<Rightarrow> path \<Rightarrow> row list res" where
  "read_summary fs p = rbind (read_text fs p) (\<lambda>text. Ok (dict_reader (csv_parse text)))"

section \<open>Rows\<close>

definition resolve_case ::
  "fs \<Rightarrow> path \<Rightarrow> path \<Rightarrow> path \<Rightarrow> (string \<times> string \<times> path \<times> bool \<times> string \<times> string \<times> string) option res" where
  "resolve_case fs bugset_root logdir status_path =
     rbind (parse_status fs status_path) (\<lambda>parsed.
       case parsed of
         None \<Rightarrow> Ok None
       | Some (bugcase, is_ok, csv_status) \<Rightarrow>
           rbind (read_gen_time fs logdir) (\<lambda>gen_time.
           rbind (read_sbfl_time fs logdir) (\<lambda>sbfl_time.
             case resolve_bugcase_ref fs bugset_root bugcase of
               None \<Rightarrow> Ok (Some (bugcase, [], path_of [], False, ''ERROR(-1)'', gen_time, sbfl_time))
             | Some (bugset, diff, case_dir, _) \<Rightarrow>
                 Ok (Some (bugset, diff, case_dir, is_ok, csv_status, gen_time, sbfl_time)))))"

definition sbfl_row :: "string \<Rightarrow> string \<Rightarrow> string \<Rightarrow> string \<Rightarrow> string \<Rightarrow> string \<Rightarrow> string \<Rightarrow> row" where
  "sbfl_row bugset diff status tk sus1 gen_time sbfl_time =
     [(''bugset'', bugset), (''diff'', diff), (''status'', status), (''top-k'', tk), (''sus'', sus1),
      (''gen_time'', gen_time), (''sbfl_time'', sbfl_time)]"

definition sbfl_error_row :: "string \<Rightarrow> string \<Rightarrow> string \<Rightarrow> string \<Rightarrow> string \<Rightarrow> row" where
  "sbfl_error_row bugset diff status gen_time sbfl_time = sbfl_row bugset diff status [] [] gen_time sbfl_time"

definition process_sbfl_logdir ::
  "decoder \<Rightarrow> fs \<Rightarrow> path \<Rightarrow> path \<Rightarrow> path \<Rightarrow> int \<Rightarrow> row option res" where
  "process_sbfl_logdir loads fs bugset_root logdir status_path line_window =
     rbind (resolve_case fs bugset_root logdir status_path) (\<lambda>resolved.
       case resolved of
         None \<Rightarrow> Ok None
       | Some (bugset, diff, case_dir, is_ok, status, gen_time, sbfl_time) \<Rightarrow>
           if \<not> is_ok then Ok (Some (sbfl_error_row bugset diff status gen_time sbfl_time))
           else rbind (load_bug_info_from_case_dir loads fs case_dir) (\<lambda>bug_info.
             let result_log = path_div logdir ''result.log''; blocks_json = path_div logdir ''blocks.json'' in
             case bug_info of
               None \<Rightarrow> Ok (Some (sbfl_error_row bugset diff ''ERROR(-1)'' gen_time sbfl_time))
             | Some info \<Rightarrow>
                 if \<not> is_file fs result_log \<or> \<not> is_file fs blocks_json
                 then Ok (Some (sbfl_error_row bugset diff ''ERROR(-1)'' gen_time sbfl_time))
                 else rbind (parse_block_suspiciousness fs result_log) (\<lambda>ranked.
                   rbind (if ranked = [] then Ok (''over top-0'', [])
                          else rbind (load_blocks loads fs blocks_json)
                                 (\<lambda>blocks. find_bug_rank info ranked blocks line_window))
                     (\<lambda>(tk, sus1). Ok (Some (sbfl_row bugset diff ''OK'' tk sus1 gen_time sbfl_time))))))"

text \<open>The rows of all log directories, in path order; unreadable statuses are skipped.\<close>

definition collect_rows :: "(path \<times> path \<Rightarrow> row option res) \<Rightarrow> (path \<times> path) list \<Rightarrow> (path \<times> row) list res" where
  "collect_rows process dirs =
     rbind (rmapM (\<lambda>d. rbind (process d) (\<lambda>r. Ok (fst d, r))) dirs)
       (\<lambda>rs. Ok (concat (map (\<lambda>(d, r). case r of None \<Rightarrow> [] | Some x \<Rightarrow> [(d, x)]) rs)))"

record sbfl_stats =
  s_ok :: int
  s_top1 :: int
  s_top5 :: int
  s_top10 :: int
  s_top20 :: int
  s_mar_sum :: pyfloat
  s_gen_sum :: pyfloat
  s_sbfl_sum :: pyfloat
  s_gen_count :: int
  s_sbfl_count :: int

definition hit_count :: "pyfloat option \<Rightarrow> rat \<Rightarrow> int" where
  "hit_count r limit = (case r of None \<Rightarrow> 0 | Some x \<Rightarrow> if fle x (Fin limit) then 1 else 0)"

text \<open>\<open>min(rank, 11) if rank is not None else 11\<close>\<close>

definition mar_term :: "pyfloat option \<Rightarrow> pyfloat" where
  "mar_term r = (case r of None \<Rightarrow> Fin 11 | Some x \<Rightarrow> if flt (Fin 11) x then Fin 11 else x)"

definition add_time :: "row \<Rightarrow> string \<Rightarrow> pyfloat \<Rightarrow> int \<Rightarrow> (pyfloat \<times> int) res" where
  "add_time r field s n =
     (let t = dict_get r field [] in
      if t = [] then Ok (s, n) else rbind (parse_time t) (\<lambda>x. Ok (fadd s x, n + 1)))"

definition sbfl_stats_step :: "sbfl_stats \<Rightarrow> row \<Rightarrow> sbfl_stats res" where
  "sbfl_stats_step st r =
     (if map_of r ''status'' \<noteq> Some ''OK'' then Ok st
      else (let rk = parse_rank (dict_get r ''top-k'' []) in
        rbind (add_time r ''gen_time'' (s_gen_sum st) (s_gen_count st)) (\<lambda>(gs, gc).
        rbind (add_time r ''sbfl_time'' (s_sbfl_sum st) (s_sbfl_count st)) (\<lambda>(ss, sc).
          Ok \<lparr>s_ok = s_ok st + 1, s_top1 = s_top1 st + hit_count rk 1, s_top5 = s_top5 st + hit_count rk 5,
              s_top10 = s_top10 st + hit_count rk 10, s_top20 = s_top20 st + hit_count rk 20,
              s_mar_sum = fadd (s_mar_sum st) (mar_term rk), s_gen_sum = gs, s_sbfl_sum = ss,
              s_gen_count = gc, s_sbfl_count = sc\<rparr>))))"

definition zero_sbfl_stats :: sbfl_stats where
  "zero_sbfl_stats = \<lparr>s_ok = 0, s_top1 = 0, s_top5 = 0, s_top10 = 0, s_top20 = 0, s_mar_sum = Fin 0,
     s_gen_sum = Fin 0, s_sbfl_sum = Fin 0, s_gen_count = 0, s_sbfl_count = 0\<rparr>"

definition compute_sbfl_stats :: "row list \<Rightarrow> sbfl_stats res" where
  "compute_sbfl_stats rows = rfoldM sbfl_stats_step zero_sbfl_stats rows"

definition fdiv_int :: "pyfloat \<Rightarrow> int \<Rightarrow> pyfloat res" where
  "fdiv_int x n = rbind (float_of_int n) (fdiv x)"

definition average_line :: "string \<Rightarrow> nat \<Rightarrow> pyfloat \<Rightarrow> int \<Rightarrow> string \<Rightarrow> string list res" where
  "average_line label digits s n unit_text =
     (if n = 0 then Ok [] else rbind (fdiv_int s n) (\<lambda>x. Ok [label @ '': '' @ ffmt digits x @ unit_text]))"

definition sbfl_stats_lines :: "row list \<Rightarrow> string list res" where
  "sbfl_stats_lines rows =
     rbind (compute_sbfl_stats rows) (\<lambda>st.
     rbind (if s_ok st = 0 then Ok ''n/a'' else rbind (fdiv_int (s_mar_sum st) (s_ok st)) (\<lambda>x. Ok (ffmt 3 x))) (\<lambda>mar.
     rbind (average_line (rpad CHR '' '' 16 ''Average GEN'') 2 (s_gen_sum st) (s_gen_count st) '' s'') (\<lambda>g.
     rbind (average_line (rpad CHR '' '' 16 ''Average SBFL'') 2 (s_sbfl_sum st) (s_sbfl_count st) '' s'') (\<lambda>s.
       Ok ([rpad CHR '' '' 16 ''OK'' @ '': '' @ str_int (s_ok st)] @
           map (\<lambda>(l, n). rpad CHR '' '' 16 l @ '': '' @ str_int n)
             [(''Top-1'', s_top1 st), (''Top-5'', s_top5 st), (''Top-10'', s_top10 st), (''Top-20'', s_top20 st)] @
           [rpad CHR '' '' 16 ''MAR@10'' @ '': '' @ mar] @ g @ s)))))"

definition summarize_sbfl ::
  "decoder \<Rightarrow> path \<Rightarrow> path \<Rightarrow> path \<Rightarrow> int \<Rightarrow> (fs, row list \<times> string list) eff" where
  "summarize_sbfl loads bugset_root logs_root output line_window =
     ebind (eget (\<lambda>fs. collect_rows (\<lambda>(d, s). process_sbfl_logdir loads fs bugset_root d s line_window)
              (iter_status_dirs fs logs_root))) (\<lambda>r.
     ebind (elift r) (\<lambda>found.
       let rows = map snd found;
           shown = map (\<lambda>(d, row). ''[ROW] '' @ path_str d @ '': '' @ dict_get row ''bugset'' [] @ ''/'' @
             dict_get row ''diff'' [] @ '', status='' @ dict_get row ''status'' [] @ '', '' @
             dict_get row ''top-k'' []) found
       in ebind (write_tsv output SBFL_FIELDS rows) (\<lambda>_.
          ebind (elift (sbfl_stats_lines rows)) (\<lambda>stats.
            eret (rows, shown @ [''[DONE] wrote '' @ str_int (int (length rows)) @ '' rows to '' @ path_str output]
                    @ stats)))))"

section \<open>The LLM summary\<close>

definition blank_llm_row :: "string \<Rightarrow> string \<Rightarrow> string \<Rightarrow> string \<Rightarrow> string \<Rightarrow> row" where
  "blank_llm_row bugset diff status gen_time sbfl_time =
     dict_update (map (\<lambda>f. (f, [])) LLM_FIELDS)
       [(''bugset'', bugset), (''diff'', diff), (''status'', status), (''gen_time'', gen_time),
        (''sbfl_time'', sbfl_time)]"

definition compute_sbfl_rank :: "decoder \<Rightarrow> fs \<Rightarrow> path \<Rightarrow> jobj \<Rightarrow> int \<Rightarrow> (string \<times> string) res" where
  "compute_sbfl_rank loads fs logdir bug_info line_window =
     (let result_log = path_div logdir ''result.log''; blocks_json = path_div logdir ''blocks.json'' in
      if \<not> is_file fs result_log \<or> \<not> is_file fs blocks_json then Ok ([], [])
      else rbind (parse_block_suspiciousness fs result_log) (\<lambda>ranked.
        if ranked = [] then Ok (''over top-0'', [])
        else rbind (load_blocks loads fs blocks_json)
               (\<lambda>blocks. find_bug_rank bug_info ranked blocks line_window)))"

definition format_rank_delta :: "string \<Rightarrow> string \<Rightarrow> string" where
  "format_rank_delta sbfl_top llm_top =
     (case (parse_rank sbfl_top, parse_rank llm_top) of
        (Some a, Some b) \<Rightarrow>
          rstrip_by (\<lambda>c. c = CHR ''.'') (rstrip_by (\<lambda>c. c = CHR ''0'') (ffmt 6 (fsub a b)))
      | _ \<Rightarrow> [])"

text \<open>\<open>d.get(k, {}) if isinstance(d.get(k), Mapping) else {}\<close>\<close>

definition sub_mapping :: "jobj \<Rightarrow> string \<Rightarrow> jobj" where
  "sub_mapping d k = (case map_of d k of Some (JObj m) \<Rightarrow> m | _ \<Rightarrow> [])"

definition str_get :: "jobj \<Rightarrow> string \<Rightarrow> json \<Rightarrow> string" where
  "str_get d k dflt = py_str (dict_get d k dflt)"

definition empty_text :: json where "empty_text = JStr []"

definition llm_row_fields :: "jobj \<Rightarrow> string \<Rightarrow> string \<Rightarrow> row res" where
  "llm_row_fields result llm_top sbfl_top =
     (let config = sub_mapping result ''config''; request = sub_mapping result ''request'';
          use = sub_mapping request ''usage''; inputs = sub_mapping result ''inputs'' in
      rbind (jindex result ''top_k'') (\<lambda>top_k.
        Ok [(''model'', str_get result ''model'' empty_text),
            (''source_mode'', str_get result ''source_mode'' (dict_get config ''source_mode'' empty_text)),
            (''candidate_count'', str_get result ''candidate_count'' (dict_get config ''candidate_count'' empty_text)),
            (''rerank_top_k'', py_str top_k), (''top-k'', llm_top), (''sbfl_top-k'', sbfl_top),
            (''rank_delta'', format_rank_delta sbfl_top llm_top),
            (''llm_elapsed_time'', str_get result ''llm_elapsed_seconds'' (dict_get request ''elapsed_seconds'' empty_text)),
            (''ranking_strategy'', str_get config ''ranking_strategy'' empty_text),
            (''patch_state'', str_get inputs ''patch_state'' empty_text),
            (''prompt_sha256'', str_get request ''prompt_sha256'' empty_text),
            (''prompt_tokens'', str_get use ''prompt_tokens'' (dict_get use ''input_tokens'' empty_text)),
            (''completion_tokens'', str_get use ''completion_tokens'' (dict_get use ''output_tokens'' empty_text)),
            (''total_tokens'', str_get use ''total_tokens'' empty_text),
            (''input_tokens'', str_get use ''input_tokens'' empty_text),
            (''output_tokens'', str_get use ''output_tokens'' empty_text)]))"

definition matched_fields :: "jobj \<Rightarrow> row res" where
  "matched_fields m =
     rbind (to_iter (dict_get m ''lines'' (JArr []))) (\<lambda>ls.
       Ok [(''candidate_id'', str_get m ''candidate_id'' empty_text),
           (''original_rank'', str_get m ''original_rank'' empty_text),
           (''sus'', str_get m ''suspiciousness'' empty_text),
           (''module'', str_get m ''module'' empty_text), (''scope'', str_get m ''scope'' empty_text),
           (''bid'', str_get m ''bid'' empty_text), (''lines'', join '','' (map py_str ls)),
           (''reason'', join '' '' (split_ws (str_get m ''reason'' empty_text))),
           (''llm_score'', str_get m ''llm_score'' empty_text),
           (''sbfl_score'', str_get m ''sbfl_score'' empty_text),
           (''final_score'', str_get m ''final_score'' empty_text)])"

definition rankings_of :: "jobj \<Rightarrow> jobj list res" where
  "rankings_of result =
     rbind (jindex result ''rankings'') (\<lambda>v. rbind (to_iter v)
       (rmapM (\<lambda>x. case x of JObj kvs \<Rightarrow> Ok kvs | _ \<Rightarrow> Err TypeError)))"

definition llm_result_row ::
  "jobj \<Rightarrow> jobj \<Rightarrow> int \<Rightarrow> string \<Rightarrow> string \<Rightarrow> string \<Rightarrow> string \<Rightarrow> string \<Rightarrow> row res" where
  "llm_result_row result bug_info line_window bugset diff gen_time sbfl_time sbfl_top =
     rbind (rankings_of result) (\<lambda>rankings.
     rbind (find_reranked_bug_rank bug_info rankings line_window) (\<lambda>(llm_top, matched).
     rbind (llm_row_fields result llm_top sbfl_top) (\<lambda>fs1.
       let row = dict_update (blank_llm_row bugset diff ''OK'' gen_time sbfl_time) fs1 in
       case matched of None \<Rightarrow> Ok row
       | Some m \<Rightarrow> rbind (matched_fields m) (\<lambda>fs2. Ok (dict_update row fs2)))))"

definition process_llm_logdir ::
  "decoder \<Rightarrow> fs \<Rightarrow> path \<Rightarrow> path \<Rightarrow> path \<Rightarrow> int \<Rightarrow> string \<Rightarrow> row option res" where
  "process_llm_logdir loads fs bugset_root logdir status_path line_window rerank_filename =
     rbind (resolve_case fs bugset_root logdir status_path) (\<lambda>resolved.
       case resolved of
         None \<Rightarrow> Ok None
       | Some (bugset, diff, case_dir, is_ok, status, gen_time, sbfl_time) \<Rightarrow>
           if \<not> is_ok then Ok (Some (blank_llm_row bugset diff status gen_time sbfl_time))
           else rbind (load_bug_info_from_case_dir loads fs case_dir) (\<lambda>bug_info.
             case bug_info of
               None \<Rightarrow> Ok (Some (blank_llm_row bugset diff ''ERROR(-1)'' gen_time sbfl_time))
             | Some info \<Rightarrow>
                 rbind (compute_sbfl_rank loads fs logdir info line_window) (\<lambda>(sbfl_top, _).
                   let rerank_path = path_div logdir rerank_filename;
                       marked = (\<lambda>s. AList.update ''sbfl_top-k'' sbfl_top
                                        (blank_llm_row bugset diff s gen_time sbfl_time))
                   in if \<not> is_file fs rerank_path then Ok (Some (marked ''LLM_MISSING''))
                      else (case load_rerank_result loads fs rerank_path of
                          Inl e \<Rightarrow> if is_os_error e \<or> e = SummaryError then Ok (Some (marked ''LLM_ERROR'')) else Err e
                        | Inr result \<Rightarrow>
                            rbind (llm_result_row result info line_window bugset diff gen_time sbfl_time sbfl_top)
                              (\<lambda>row. Ok (Some row))))))"

section \<open>LLM statistics\<close>

record llm_counts =
  c_top1 :: int
  c_top5 :: int
  c_top10 :: int
  c_improved :: int
  c_unchanged :: int
  c_worsened :: int
  c_reciprocal :: pyfloat
  c_mar10 :: pyfloat
  c_llm_times :: "pyfloat list"
  c_gen_times :: "pyfloat list"
  c_sbfl_times :: "pyfloat list"
  c_prompt :: "int list"
  c_completion :: "int list"
  c_total :: "int list"

definition zero_llm_counts :: llm_counts where
  "zero_llm_counts = \<lparr>c_top1 = 0, c_top5 = 0, c_top10 = 0, c_improved = 0, c_unchanged = 0, c_worsened = 0,
     c_reciprocal = Fin 0, c_mar10 = Fin 0, c_llm_times = [], c_gen_times = [], c_sbfl_times = [],
     c_prompt = [], c_completion = [], c_total = []\<rparr>"

text \<open>What a row adds to the improved, unchanged and worsened counters.\<close>

definition bool_int :: "bool \<Rightarrow> int" where
  "bool_int b = (if b then 1 else 0)"

fun compare_ranks :: "pyfloat option \<Rightarrow> pyfloat option \<Rightarrow> int \<times> int \<times> int" where
  "compare_ranks None (Some s) = (0, 0, 1)"
| "compare_ranks (Some r) None = (1, 0, 0)"
| "compare_ranks (Some r) (Some s) = (bool_int (flt r s), bool_int (feq r s), bool_int (flt s r))"
| "compare_ranks None None = (0, 0, 0)"

definition take_time :: "row \<Rightarrow> string \<Rightarrow> pyfloat list \<Rightarrow> pyfloat list res" where
  "take_time r field ts =
     (let t = dict_get r field [] in if t = [] then Ok ts else rbind (parse_time t) (\<lambda>x. Ok (ts @ [x])))"

definition take_tokens :: "row \<Rightarrow> string \<Rightarrow> int list \<Rightarrow> int list res" where
  "take_tokens r field ns =
     (let t = dict_get r field [] in
      if t = [] then Ok ns else rbind (res_of ValueError (py_int t)) (\<lambda>x. Ok (ns @ [x])))"

definition llm_stats_step :: "llm_counts \<Rightarrow> row \<Rightarrow> llm_counts res" where
  "llm_stats_step st r =
     (let rk = parse_rank (dict_get r ''top-k'' []);
          srk = parse_rank (dict_get r ''sbfl_top-k'' []);
          (im, un, wo) = compare_ranks rk srk in
      rbind (case rk of None \<Rightarrow> Ok (c_reciprocal st)
             | Some x \<Rightarrow> rbind (fdiv (Fin 1) x) (\<lambda>y. Ok (fadd (c_reciprocal st) y))) (\<lambda>rec1.
      rbind (take_time r ''llm_elapsed_time'' (c_llm_times st)) (\<lambda>tl1.
      rbind (take_time r ''gen_time'' (c_gen_times st)) (\<lambda>tg.
      rbind (take_time r ''sbfl_time'' (c_sbfl_times st)) (\<lambda>ts.
      rbind (take_tokens r ''prompt_tokens'' (c_prompt st)) (\<lambda>np.
      rbind (take_tokens r ''completion_tokens'' (c_completion st)) (\<lambda>nc.
      rbind (take_tokens r ''total_tokens'' (c_total st)) (\<lambda>nt.
        Ok \<lparr>c_top1 = c_top1 st + hit_count rk 1, c_top5 = c_top5 st + hit_count rk 5,
            c_top10 = c_top10 st + hit_count rk 10,
            c_improved = c_improved st + im, c_unchanged = c_unchanged st + un, c_worsened = c_worsened st + wo,
            c_reciprocal = rec1, c_mar10 = fadd (c_mar10 st) (mar_term rk),
            c_llm_times = tl1, c_gen_times = tg, c_sbfl_times = ts,
            c_prompt = np, c_completion = nc, c_total = nt\<rparr>))))))))"

definition Counter :: "string list \<Rightarrow> (string, int) dict" where
  "Counter ks = fold (\<lambda>k d. AList.update k (dict_get d k 0 + 1) d) ks []"

record llm_stats =
  l_total :: int
  l_ok :: int
  l_statuses :: "(string, int) dict"
  l_models :: "(string, int) dict"
  l_counts :: llm_counts
  l_mrr :: "pyfloat option"
  l_mar10 :: "pyfloat option"
  l_average_llm :: "pyfloat option"
  l_average_gen :: "pyfloat option"
  l_average_sbfl :: "pyfloat option"
  l_average_prompt :: "pyfloat option"
  l_average_completion :: "pyfloat option"
  l_average_total :: "pyfloat option"

definition over_count :: "pyfloat \<Rightarrow> nat \<Rightarrow> pyfloat option res" where
  "over_count s n = (if n = 0 then Ok None else rbind (fdiv_int s (int n)) (\<lambda>x. Ok (Some x)))"

definition average_times :: "pyfloat list \<Rightarrow> pyfloat option res" where
  "average_times ts = over_count (foldl fadd (Fin 0) ts) (length ts)"

text \<open>True division of integers is rounded once, and raises when the quotient is too large.\<close>

definition int_truediv :: "int \<Rightarrow> int \<Rightarrow> pyfloat res" where
  "int_truediv a b =
     (if b = 0 then Err ZeroDivisionError
      else case rnd (of_int a / of_int b) of Fin q \<Rightarrow> Ok (Fin q) | _ \<Rightarrow> Err OverflowError)"

definition average_tokens :: "int list \<Rightarrow> pyfloat option res" where
  "average_tokens ns =
     (if ns = [] then Ok None
      else rbind (int_truediv (sum_list ns) (int (length ns))) (\<lambda>x. Ok (Some x)))"

definition is_ok_row :: "row \<Rightarrow> bool" where
  "is_ok_row r \<longleftrightarrow> map_of r ''status'' = Some ''OK''"

definition compute_llm_stats :: "row list \<Rightarrow> llm_stats res" where
  "compute_llm_stats row_list =
     (let ok_rows = filter is_ok_row row_list; n = length ok_rows in
      rbind (rfoldM llm_stats_step zero_llm_counts ok_rows) (\<lambda>c.
      rbind (over_count (c_reciprocal c) n) (\<lambda>mrr.
      rbind (over_count (c_mar10 c) n) (\<lambda>mar.
      rbind (average_times (c_llm_times c)) (\<lambda>al.
      rbind (average_times (c_gen_times c)) (\<lambda>ag.
      rbind (average_times (c_sbfl_times c)) (\<lambda>asb.
      rbind (average_tokens (c_prompt c)) (\<lambda>ap.
      rbind (average_tokens (c_completion c)) (\<lambda>ac.
      rbind (average_tokens (c_total c)) (\<lambda>att.
        Ok \<lparr>l_total = int (length row_list), l_ok = int n,
            l_statuses = Counter (map (\<lambda>r. dict_get r ''status'' []) row_list),
            l_models = Counter (map (\<lambda>r. dict_get r ''model'' []) ok_rows), l_counts = c,
            l_mrr = mrr, l_mar10 = mar, l_average_llm = al, l_average_gen = ag, l_average_sbfl = asb,
            l_average_prompt = ap, l_average_completion = ac, l_average_total = att\<rparr>))))))))))"

definition labelled :: "nat \<Rightarrow> string \<Rightarrow> string \<Rightarrow> string" where
  "labelled w label v = rpad CHR '' '' w label @ '': '' @ v"

definition optional_line :: "nat \<Rightarrow> nat \<Rightarrow> string \<Rightarrow> string \<Rightarrow> pyfloat option \<Rightarrow> string" where
  "optional_line w digits unit_text label v =
     labelled w label (case v of None \<Rightarrow> ''n/a'' | Some x \<Rightarrow> ffmt digits x @ unit_text)"

definition model_text :: "string \<times> int \<Rightarrow> string" where
  "model_text m = (if fst m = [] then ''(unknown)'' else fst m) @ ''='' @ str_int (snd m)"

definition llm_stats_lines :: "row list \<Rightarrow> string list res" where
  "llm_stats_lines rows =
     rbind (compute_llm_stats rows) (\<lambda>st.
       let c = l_counts st;
           models = join '', '' (map model_text (sort (l_models st)));
           count_line = (\<lambda>(label, n). labelled 20 label (str_int n))
       in Ok (map count_line [(''Total rows'', l_total st), (''Valid LLM results'', l_ok st)] @
              map (\<lambda>(s, n). ''  '' @ labelled 18 s (str_int n)) (filter (\<lambda>(s, n). s \<noteq> ''OK'') (sort (l_statuses st))) @
              [labelled 20 ''Models'' (if models = [] then ''n/a'' else models)] @
              map count_line [(''Top-1'', c_top1 c), (''Top-5'', c_top5 c), (''Top-10'', c_top10 c)] @
              map (\<lambda>(l, v). optional_line 20 3 [] l v) [(''MRR'', l_mrr st), (''MAR@10'', l_mar10 st)] @
              map count_line [(''Improved'', c_improved c), (''Unchanged'', c_unchanged c), (''Worsened'', c_worsened c)] @
              map (\<lambda>(l, v). optional_line 20 2 '' s'' l v)
                [(''Average LLM'', l_average_llm st), (''Average GEN'', l_average_gen st), (''Average SBFL'', l_average_sbfl st)] @
              map (\<lambda>(l, v). optional_line 26 2 [] l v)
                [(''Average prompt tokens'', l_average_prompt st), (''Average completion tokens'', l_average_completion st),
                 (''Average total tokens'', l_average_total st)]))"

definition summarize_llm ::
  "decoder \<Rightarrow> path \<Rightarrow> path \<Rightarrow> path \<Rightarrow> int \<Rightarrow> string \<Rightarrow> (fs, row list \<times> string list) eff" where
  "summarize_llm loads bugset_root logs_root output line_window rerank_filename =
     ebind (eget (\<lambda>fs. collect_rows
              (\<lambda>(d, s). process_llm_logdir loads fs bugset_root d s line_window rerank_filename)
              (iter_status_dirs fs logs_root))) (\<lambda>r.
     ebind (elift r) (\<lambda>found.
       let rows = map snd found;
           shown = map (\<lambda>(d, row). ''[ROW] '' @ path_str d @ '': '' @ dict_get row ''bugset'' [] @ ''/'' @
             dict_get row ''diff'' [] @ '', status='' @ dict_get row ''status'' [] @ '', llm='' @
             dict_get row ''top-k'' [] @ '', sbfl='' @ dict_get row ''sbfl_top-k'' []) found
       in ebind (write_tsv output LLM_FIELDS rows) (\<lambda>_.
          ebind (elift (llm_stats_lines rows)) (\<lambda>stats.
            eret (rows, shown @ [''[DONE] wrote '' @ str_int (int (length rows)) @ '' rows to '' @ path_str output]
                    @ stats)))))"

section \<open>The counters count\<close>

text \<open>A row counts at a limit when it is valid and its rank is at most the limit.\<close>

definition within_rank :: "rat \<Rightarrow> row \<Rightarrow> bool" where
  "within_rank limit r \<longleftrightarrow>
     (case parse_rank (dict_get r ''top-k'' []) of None \<Rightarrow> False | Some x \<Rightarrow> fle x (Fin limit))"

lemma hit_count_within: "hit_count (parse_rank (dict_get r ''top-k'' [])) limit = (if within_rank limit r then 1 else 0)"
  by (simp add: hit_count_def within_rank_def split: option.splits)

lemma fle_Fin_mono: "fle x (Fin a) \<Longrightarrow> a \<le> b \<Longrightarrow> fle x (Fin b)"
  by (cases x) auto

lemma within_rank_mono: "within_rank a r \<Longrightarrow> a \<le> b \<Longrightarrow> within_rank b r"
  by (auto simp: within_rank_def split: option.splits intro: fle_Fin_mono)

lemma count_within_mono:
  "a \<le> b \<Longrightarrow> count_if (\<lambda>r. is_ok_row r \<and> within_rank a r) rows \<le> count_if (\<lambda>r. is_ok_row r \<and> within_rank b r) rows"
  by (rule count_if_mono) (auto intro: within_rank_mono)

lemma sbfl_stats_step_counts:
  assumes "sbfl_stats_step st r = Ok st'"
  shows "s_ok st' = s_ok st + (if is_ok_row r then 1 else 0)"
    and "s_top1 st' = s_top1 st + (if is_ok_row r \<and> within_rank 1 r then 1 else 0)"
    and "s_top5 st' = s_top5 st + (if is_ok_row r \<and> within_rank 5 r then 1 else 0)"
    and "s_top10 st' = s_top10 st + (if is_ok_row r \<and> within_rank 10 r then 1 else 0)"
    and "s_top20 st' = s_top20 st + (if is_ok_row r \<and> within_rank 20 r then 1 else 0)"
  using assms
  by (auto simp: sbfl_stats_step_def is_ok_row_def hit_count_within rbind_eq_Ok Let_def split: if_splits)

lemma compute_sbfl_stats_counts:
  assumes "compute_sbfl_stats rows = Ok st"
  shows "s_ok st = count_if is_ok_row rows"
    and "s_top1 st = count_if (\<lambda>r. is_ok_row r \<and> within_rank 1 r) rows"
    and "s_top5 st = count_if (\<lambda>r. is_ok_row r \<and> within_rank 5 r) rows"
    and "s_top10 st = count_if (\<lambda>r. is_ok_row r \<and> within_rank 10 r) rows"
    and "s_top20 st = count_if (\<lambda>r. is_ok_row r \<and> within_rank 20 r) rows"
proof -
  note fold = assms [unfolded compute_sbfl_stats_def]
  show "s_ok st = count_if is_ok_row rows"
    using rfoldM_count_if [where g = s_ok, OF fold sbfl_stats_step_counts(1)] by (simp add: zero_sbfl_stats_def)
  show "s_top1 st = count_if (\<lambda>r. is_ok_row r \<and> within_rank 1 r) rows"
    using rfoldM_count_if [where g = s_top1, OF fold sbfl_stats_step_counts(2)] by (simp add: zero_sbfl_stats_def)
  show "s_top5 st = count_if (\<lambda>r. is_ok_row r \<and> within_rank 5 r) rows"
    using rfoldM_count_if [where g = s_top5, OF fold sbfl_stats_step_counts(3)] by (simp add: zero_sbfl_stats_def)
  show "s_top10 st = count_if (\<lambda>r. is_ok_row r \<and> within_rank 10 r) rows"
    using rfoldM_count_if [where g = s_top10, OF fold sbfl_stats_step_counts(4)] by (simp add: zero_sbfl_stats_def)
  show "s_top20 st = count_if (\<lambda>r. is_ok_row r \<and> within_rank 20 r) rows"
    using rfoldM_count_if [where g = s_top20, OF fold sbfl_stats_step_counts(5)] by (simp add: zero_sbfl_stats_def)
qed

text \<open>The SBFL counters are the numbers of valid rows whose rank is at most 1, 5, 10 and 20; so
  each is at most the next, and the last at most the number of valid rows.\<close>

theorem sbfl_stats_exact:
  assumes "compute_sbfl_stats rows = Ok st"
  shows "s_ok st = count_if is_ok_row rows
    \<and> map (\<lambda>get. get st) [s_top1, s_top5, s_top10, s_top20]
       = map (\<lambda>k. count_if (\<lambda>r. is_ok_row r \<and> within_rank k r) rows) [1, 5, 10, 20]
    \<and> 0 \<le> s_top1 st \<and> s_top1 st \<le> s_top5 st \<and> s_top5 st \<le> s_top10 st \<and> s_top10 st \<le> s_top20 st
    \<and> s_top20 st \<le> s_ok st \<and> s_ok st \<le> int (length rows)"
proof -
  have "count_if (\<lambda>r. is_ok_row r \<and> within_rank 20 r) rows \<le> count_if is_ok_row rows"
    by (rule count_if_mono) simp
  then show ?thesis
    by (simp add: compute_sbfl_stats_counts [OF assms] count_within_mono count_if_le_length)
qed

lemma llm_stats_step_counts:
  assumes "llm_stats_step st r = Ok st'"
  shows "c_top1 st' = c_top1 st + (if within_rank 1 r then 1 else 0)"
    and "c_top5 st' = c_top5 st + (if within_rank 5 r then 1 else 0)"
    and "c_top10 st' = c_top10 st + (if within_rank 10 r then 1 else 0)"
  using assms by (auto simp: llm_stats_step_def hit_count_within rbind_eq_Ok Let_def split: prod.splits)

text \<open>How a row's reranked position compares with its SBFL position.\<close>

definition rank_change :: "row \<Rightarrow> int \<times> int \<times> int" where
  "rank_change r = compare_ranks (parse_rank (dict_get r ''top-k'' [])) (parse_rank (dict_get r ''sbfl_top-k'' []))"

lemma llm_stats_step_change:
  assumes "llm_stats_step st r = Ok st'"
  shows "c_improved st' = c_improved st + fst (rank_change r)"
    and "c_unchanged st' = c_unchanged st + fst (snd (rank_change r))"
    and "c_worsened st' = c_worsened st + snd (snd (rank_change r))"
  using assms by (auto simp: llm_stats_step_def rank_change_def rbind_eq_Ok Let_def split: prod.splits)

lemma compare_ranks_once:
  "compare_ranks a b = (i, u, w) \<Longrightarrow> 0 \<le> i \<and> 0 \<le> u \<and> 0 \<le> w \<and> i + u + w \<le> 1"
  by (induction a b rule: compare_ranks.induct) (auto simp: bool_int_def flt_def feq_def split: if_splits)

lemma rank_change_once:
  "0 \<le> fst (rank_change r)" "0 \<le> fst (snd (rank_change r))" "0 \<le> snd (snd (rank_change r))"
  "fst (rank_change r) + (fst (snd (rank_change r)) + snd (snd (rank_change r))) \<le> 1"
  using compare_ranks_once [of _ _ "fst (rank_change r)" "fst (snd (rank_change r))" "snd (snd (rank_change r))"]
  by (simp_all add: rank_change_def add.assoc)

lemma llm_counts_fold:
  assumes "rfoldM llm_stats_step zero_llm_counts rows = Ok c"
  shows "c_top1 c = count_if (within_rank 1) rows" "c_top5 c = count_if (within_rank 5) rows"
    "c_top10 c = count_if (within_rank 10) rows"
    "c_improved c = sum_list (map (\<lambda>r. fst (rank_change r)) rows)"
    "c_unchanged c = sum_list (map (\<lambda>r. fst (snd (rank_change r))) rows)"
    "c_worsened c = sum_list (map (\<lambda>r. snd (snd (rank_change r))) rows)"
proof -
  note z = zero_llm_counts_def
  show "c_top1 c = count_if (within_rank 1) rows"
    using rfoldM_count_if [where g = c_top1, OF assms llm_stats_step_counts(1)] by (simp add: z)
  show "c_top5 c = count_if (within_rank 5) rows"
    using rfoldM_count_if [where g = c_top5, OF assms llm_stats_step_counts(2)] by (simp add: z)
  show "c_top10 c = count_if (within_rank 10) rows"
    using rfoldM_count_if [where g = c_top10, OF assms llm_stats_step_counts(3)] by (simp add: z)
  show "c_improved c = sum_list (map (\<lambda>r. fst (rank_change r)) rows)"
    using rfoldM_counter [where g = c_improved, OF assms llm_stats_step_change(1)] by (simp add: z)
  show "c_unchanged c = sum_list (map (\<lambda>r. fst (snd (rank_change r))) rows)"
    using rfoldM_counter [where g = c_unchanged, OF assms llm_stats_step_change(2)] by (simp add: z)
  show "c_worsened c = sum_list (map (\<lambda>r. snd (snd (rank_change r))) rows)"
    using rfoldM_counter [where g = c_worsened, OF assms llm_stats_step_change(3)] by (simp add: z)
qed

lemma llm_changes_bounded:
  assumes "rfoldM llm_stats_step zero_llm_counts rows = Ok c"
  shows "0 \<le> c_improved c \<and> 0 \<le> c_unchanged c \<and> 0 \<le> c_worsened c
    \<and> c_improved c + c_unchanged c + c_worsened c \<le> int (length rows)"
  unfolding llm_counts_fold [OF assms]
  using sum_list_le_length [of rows "\<lambda>r. fst (rank_change r) + (fst (snd (rank_change r)) + snd (snd (rank_change r)))"]
  by (auto simp: rank_change_once sum_list_addf intro!: sum_list_nonneg)


lemma resolve_case_bugset:
  "resolve_case fs rt d s = Ok (Some (bugset, rest)) \<Longrightarrow> bugset \<noteq> []"
  unfolding resolve_case_def resolve_bugcase_ref_def Let_def
  by (auto elim!: rbind_OkE split: option.splits prod.splits if_splits dest: parse_status_bugcase)



section \<open>Rows have the fields of their table\<close>

lemma sbfl_row_keys: "dict_keys (sbfl_row a b c d e f g) = SBFL_FIELDS"
  by (simp add: sbfl_row_def SBFL_FIELDS_def dict_keys_def)

lemma process_sbfl_row_keys:
  "process_sbfl_logdir loads fs rt d s w = Ok (Some r) \<Longrightarrow> dict_keys r = SBFL_FIELDS"
  unfolding process_sbfl_logdir_def sbfl_error_row_def Let_def
  by (auto simp: sbfl_row_keys elim!: rbind_OkE split: option.splits if_splits prod.splits)

lemma blank_llm_row_keys: "dict_keys (blank_llm_row a b c d e) = LLM_FIELDS"
proof -
  have "dict_keys (map (\<lambda>f. (f, [] :: string)) LLM_FIELDS) = LLM_FIELDS" by (simp add: dict_keys_def comp_def)
  moreover have "set [''bugset'', ''diff'', ''status'', ''gen_time'', ''sbfl_time''] \<subseteq> set LLM_FIELDS"
    by (simp add: LLM_FIELDS_def)
  ultimately show ?thesis by (simp add: blank_llm_row_def dict_update_keys)
qed

lemma llm_row_fields_known: "llm_row_fields res a b = Ok kvs \<Longrightarrow> fst ` set kvs \<subseteq> set LLM_FIELDS"
  by (auto simp: llm_row_fields_def Let_def rbind_eq_Ok LLM_FIELDS_def)

lemma matched_fields_known: "matched_fields m = Ok kvs \<Longrightarrow> fst ` set kvs \<subseteq> set LLM_FIELDS"
  by (auto simp: matched_fields_def rbind_eq_Ok LLM_FIELDS_def)

lemma llm_result_row_keys:
  assumes "llm_result_row res info w a b c d e = Ok r"
  shows "dict_keys r = LLM_FIELDS"
proof -
  from assms obtain fs1 mt where 1: "fst ` set fs1 \<subseteq> set LLM_FIELDS"
    and r: "(case mt of None \<Rightarrow> Ok (dict_update (blank_llm_row a b ''OK'' c d) fs1)
       | Some m \<Rightarrow> rbind (matched_fields m) (\<lambda>fs2. Ok (dict_update (dict_update (blank_llm_row a b ''OK'' c d) fs1) fs2))) = Ok r"
    unfolding llm_result_row_def Let_def
    by (auto elim!: rbind_OkE split: prod.splits dest!: llm_row_fields_known)
  have k1: "dict_keys (dict_update (blank_llm_row a b ''OK'' c d) fs1) = LLM_FIELDS"
    using 1 by (simp add: dict_update_keys blank_llm_row_keys)
  show ?thesis
  proof (cases mt)
    case None
    with r k1 show ?thesis by simp
  next
    case (Some m)
    with r k1 show ?thesis by (auto elim!: rbind_OkE simp: dict_update_keys dest!: matched_fields_known)
  qed
qed

lemma process_llm_row_keys:
  assumes "process_llm_logdir loads fs rt d s w name = Ok (Some r)"
  shows "dict_keys r = LLM_FIELDS"
proof -
  have sk: "''sbfl_top-k'' \<in> set LLM_FIELDS" by (simp add: LLM_FIELDS_def)
  have marked: "dict_keys (AList.update ''sbfl_top-k'' v (blank_llm_row a b c g h)) = LLM_FIELDS" for v a b c g h
    using sk by (simp add: AList_update_known_key blank_llm_row_keys)
  from assms show ?thesis
    unfolding process_llm_logdir_def Let_def
    by (auto simp: blank_llm_row_keys marked elim!: rbind_OkE split: option.splits if_splits sum.splits prod.splits)
      (rule llm_result_row_keys, assumption)
qed

section \<open>A written summary is read back\<close>

lemma read_row: 
  assumes "dict_keys r = cols" "distinct cols"
  shows "dict_of (zip cols (map (\<lambda>f. dict_get r f []) cols)) = r"
  using assms by (auto simp: map_dict_get_keys zip_keys dict_of_id)

lemma tsv_text_read:
  assumes "c0 = hd cols" "cols \<noteq> []" "c0 \<noteq> []" "distinct cols"
    and rows: "\<forall>r \<in> set rows. dict_keys r = cols \<and> dict_get r c0 [] \<noteq> []"
  shows "\<exists>s. tsv_text cols rows = Ok s \<and> dict_reader (csv_parse s) = rows"
proof -
  let ?table = "cols # map (\<lambda>r. map (\<lambda>f. dict_get r f []) cols) rows"
  have table: "\<forall>r \<in> set ?table. r \<noteq> [] \<and> hd r \<noteq> []" using assms by (auto simp: hd_map)
  have "tsv_text cols rows = Ok (csv_text ?table)" using rows by (auto simp: tsv_text_def list_ex_iff)
  moreover have "dict_reader (csv_parse (csv_text ?table)) = rows"
  proof -
    have "filter (\<lambda>r. r \<noteq> []) ?table = ?table" using table by (intro filter_True) blast
    moreover have "map (\<lambda>r. dict_of (zip cols (map (\<lambda>f. dict_get r f []) cols))) rows = rows"
      using rows assms(4) by (intro map_idI read_row) auto
    ultimately show ?thesis
      by (simp add: csv_parse_text [OF table] dict_reader_def comp_def)
  qed
  ultimately show ?thesis by blast
qed

lemma collect_rows_all:
  assumes "collect_rows process dirs = Ok found"
    and "\<And>d r. process d = Ok (Some r) \<Longrightarrow> P r"
  shows "\<forall>r \<in> set (map snd found). P r"
proof -
  from assms(1) obtain rs where rs: "rmapM (\<lambda>d. rbind (process d) (\<lambda>r. Ok (fst d, r))) dirs = Ok rs"
    and found: "found = concat (map (\<lambda>(d, r). case r of None \<Rightarrow> [] | Some x \<Rightarrow> [(d, x)]) rs)"
    by (auto simp: collect_rows_def rbind_eq_Ok)
  have "\<exists>d'. process d' = Ok (Some x)" if "(d, Some x) \<in> set rs" for d x
    using rmapM_Ok_mem [OF rs that] by (auto simp: rbind_eq_Ok)
  then show ?thesis unfolding found using assms(2) by (fastforce split: option.splits)
qed

lemma write_tsv_read_summary:
  assumes "write_tsv p cols rows fs = (Ok u, fs')" "cols \<noteq> []" "hd cols \<noteq> []" "distinct cols"
    and "\<forall>r \<in> set rows. dict_keys r = cols \<and> dict_get r (hd cols) [] \<noteq> []"
  shows "read_summary fs' p = Ok rows"
proof -
  obtain s where s: "tsv_text cols rows = Ok s" "dict_reader (csv_parse s) = rows"
    using tsv_text_read [OF refl assms(2-5)] by blast
  from assms(1) s obtain fs1 where "write_text p s fs1 = Ok fs'"
    by (auto simp: write_tsv_def ebind_result_Ok elift_def eupd_def split: sum.splits)
  then show ?thesis by (simp add: read_summary_def read_text_write s)
qed

section \<open>Rows name their bug set\<close>

lemma blank_llm_row_bugset: "dict_get (blank_llm_row a b c d e) ''bugset'' v = a"
  by (simp add: blank_llm_row_def dict_get_def map_of_dict_update map_add_def)

lemma llm_row_fields_bugset: "llm_row_fields res a b = Ok kvs \<Longrightarrow> ''bugset'' \<notin> fst ` set kvs"
  by (auto simp: llm_row_fields_def Let_def rbind_eq_Ok)

lemma matched_fields_bugset: "matched_fields m = Ok kvs \<Longrightarrow> ''bugset'' \<notin> fst ` set kvs"
  by (auto simp: matched_fields_def rbind_eq_Ok)

lemma llm_result_row_bugset:
  "llm_result_row res info w a b c d e = Ok r \<Longrightarrow> dict_get r ''bugset'' [] = a"
  unfolding llm_result_row_def Let_def
  by (auto elim!: rbind_OkE split: prod.splits option.splits dest!: llm_row_fields_bugset matched_fields_bugset
      simp: dict_get_update_other blank_llm_row_bugset)

lemma process_llm_row_bugset:
  assumes "process_llm_logdir loads fs rt d s w name = Ok (Some r)"
  shows "dict_get r ''bugset'' [] \<noteq> []"
proof -
  have b: "resolve_case fs rt d s = Ok (Some (bugset, rest)) \<Longrightarrow> bugset \<noteq> []" for bugset rest
    by (rule resolve_case_bugset)
  from assms show ?thesis
    unfolding process_llm_logdir_def Let_def
    by (auto simp: blank_llm_row_bugset dict_get_AList_update_other elim!: rbind_OkE
        split: option.splits if_splits sum.splits prod.splits dest!: b llm_result_row_bugset)
qed

lemma process_sbfl_row_bugset:
  "process_sbfl_logdir loads fs rt d s w = Ok (Some r) \<Longrightarrow> dict_get r ''bugset'' [] \<noteq> []"
  unfolding process_sbfl_logdir_def sbfl_error_row_def Let_def
  by (auto simp: sbfl_row_def dict_get_def elim!: rbind_OkE
      split: option.splits if_splits prod.splits dest!: resolve_case_bugset)

section \<open>The summary files\<close>

text \<open>A summary run: its rows are the ones its file gives back, and it ends with their statistics.\<close>

lemma summarize_llm_written:
  assumes "summarize_llm loads bugset_root logs_root output w name fs = (Ok (rows, shown), fs')"
  shows "read_summary fs' output = Ok rows \<and> (\<forall>r \<in> set rows. dict_keys r = LLM_FIELDS)
    \<and> (\<exists>rest stats. shown = rest @ stats \<and> llm_stats_lines rows = Ok stats)"
proof -
  from assms obtain found u stats f l where found: "collect_rows
      (\<lambda>(d, s). process_llm_logdir loads fs bugset_root d s w name) (iter_status_dirs fs logs_root) = Ok found"
    and rows: "rows = map snd found" and wr: "write_tsv output LLM_FIELDS rows fs = (Ok u, fs')"
    and st: "shown = (map f found @ [l]) @ stats" "llm_stats_lines rows = Ok stats"
    by (auto simp: summarize_llm_def ebind_result_Ok elift_def eget_def Let_def)
  have rs: "\<forall>r \<in> set rows. dict_keys r = LLM_FIELDS \<and> dict_get r ''bugset'' [] \<noteq> []"
    unfolding rows
    by (rule collect_rows_all [OF found]) (auto dest: process_llm_row_keys process_llm_row_bugset)
  have "distinct LLM_FIELDS" "hd LLM_FIELDS = ''bugset''" "LLM_FIELDS \<noteq> []" by (simp_all add: LLM_FIELDS_def)
  with write_tsv_read_summary [OF wr] rs st show ?thesis by auto
qed

lemma summarize_sbfl_written:
  assumes "summarize_sbfl loads bugset_root logs_root output w fs = (Ok (rows, shown), fs')"
  shows "read_summary fs' output = Ok rows \<and> (\<forall>r \<in> set rows. dict_keys r = SBFL_FIELDS)
    \<and> (\<exists>rest stats. shown = rest @ stats \<and> sbfl_stats_lines rows = Ok stats)"
proof -
  from assms obtain found u stats f l where found: "collect_rows
      (\<lambda>(d, s). process_sbfl_logdir loads fs bugset_root d s w) (iter_status_dirs fs logs_root) = Ok found"
    and rows: "rows = map snd found" and wr: "write_tsv output SBFL_FIELDS rows fs = (Ok u, fs')"
    and st: "shown = (map f found @ [l]) @ stats" "sbfl_stats_lines rows = Ok stats"
    by (auto simp: summarize_sbfl_def ebind_result_Ok elift_def eget_def Let_def)
  have rs: "\<forall>r \<in> set rows. dict_keys r = SBFL_FIELDS \<and> dict_get r ''bugset'' [] \<noteq> []"
    unfolding rows
    by (rule collect_rows_all [OF found]) (auto dest: process_sbfl_row_keys process_sbfl_row_bugset)
  have "distinct SBFL_FIELDS" "hd SBFL_FIELDS = ''bugset''" "SBFL_FIELDS \<noteq> []" by (simp_all add: SBFL_FIELDS_def)
  with write_tsv_read_summary [OF wr] rs st show ?thesis by auto
qed

text \<open>A log directory whose run timed out.\<close>

definition demo_logs :: fs where
  "demo_logs = [(path_of ''l'', Directory), (path_of ''l/a'', Directory),
     (path_of ''l/a/status.txt'', File ''[TIMEOUT] s/1, status=3'')]"

end
