(* ===== verification/Batch_Cli.thy ===== *)
theory Batch_Cli
  imports Analysis Sweep Statistics
begin

text \<open>
  \<open>ibex_sbfl_batch/cli.py\<close>: the commands of \<open>ibex-sbfl-batch\<close>, from the values of their arguments to the
  exit code and the lines printed. argparse itself is left to the library: a command is a value of
  \<open>batch_command\<close> whose fields are the arguments declared for it, and the records of defaults are those of a
  command line that gives only what is required. Outside and parameters of the model (\<open>batch_world\<close>):
  child processes, \<open>resolve\<close> and \<open>expanduser\<close>, the temporary directory, the environment, the run
  identifier, the JSON decoder and the order and durations in which a pool completes.
\<close>

section \<open>Arguments\<close>

record execution_args =
  ea_jobs :: int
  ea_tmp :: "path option"
  ea_logs :: path
  ea_workdir :: path
  ea_keep_workdir :: bool
  ea_disassemble :: bool
  ea_sbfl_bin :: string
  ea_dry_run :: bool

definition execution_defaults :: "int \<Rightarrow> path \<Rightarrow> string \<Rightarrow> execution_args" where
  "execution_defaults cpu_count ibex_home default_logs =
     \<lparr>ea_jobs = cpu_count, ea_tmp = None, ea_logs = path_of default_logs, ea_workdir = ibex_home, ea_keep_workdir = False,
      ea_disassemble = False, ea_sbfl_bin = ''build/lowrisc_ibex_ibex_simple_system_sbfl_0/sim-verilator/Vibex_simple_system'',
      ea_dry_run = False\<rparr>"

record generation_cli =
  ga_mode :: string
  ga_all_cases :: "path option"
  ga_case :: path
  ga_top_pass :: int
  ga_selection :: string
  ga_selection_diversity_weight :: pyfloat
  ga_selection_pool_factor :: int
  ga_top_sus :: int
  ga_cover_distance_weight :: pyfloat
  ga_metric :: string
  ga_mutator_window_size :: "int option"
  ga_mutator_weight_strategy :: "string option"
  ga_max_corpus_size :: "int option"
  ga_init_seed_rate :: "pyfloat option"
  ga_mutate_rate :: "pyfloat option"
  ga_priority_alpha :: "pyfloat option"
  ga_failed_reward :: "pyfloat option"
  ga_reduce_insts :: bool
  ga_reduce_cover :: bool
  ga_coverage :: string
  ga_state :: string
  ga_max_run_timeout :: int
  ga_max_iters :: int
  ga_input :: path
  ga_resume_corpus :: "path option"
  ga_save_corpus :: bool
  ga_checkpoint_interval :: "int option"
  ga_gen_only :: bool
  ga_save_reduce :: bool
  ga_save_intermediate :: bool
  ga_tracker_window_size :: int
  ga_rtl_path :: string
  ga_include_paths :: string
  ga_top_module :: string
  ga_top_scope :: string
  ga_simulator_args :: "string list option"

text \<open>The options declared for \<open>generation\<close> with their defaults; exactly one target is given.\<close>

definition generation_defaults :: "string \<Rightarrow> path option \<Rightarrow> path \<Rightarrow> generation_cli" where
  "generation_defaults mode all_cases target_case =
     \<lparr>ga_mode = mode, ga_all_cases = all_cases, ga_case = target_case, ga_top_pass = 120, ga_selection = ''sort'',
      ga_selection_diversity_weight = rnd (4 / 10), ga_selection_pool_factor = 5, ga_top_sus = 50,
      ga_cover_distance_weight = Fin (1 / 2), ga_metric = ''ochiai'', ga_mutator_window_size = None,
      ga_mutator_weight_strategy = None, ga_max_corpus_size = None, ga_init_seed_rate = None, ga_mutate_rate = None,
      ga_priority_alpha = None, ga_failed_reward = None, ga_reduce_insts = False, ga_reduce_cover = False,
      ga_coverage = ''verilator.branch,verilator.line'', ga_state = ''PCState,ArchIntRegState,CSRState'',
      ga_max_run_timeout = 180, ga_max_iters = 20, ga_input = path_of ''examples/sw/benchmarks/coremark/coremark.elf'',
      ga_resume_corpus = None, ga_save_corpus = False, ga_checkpoint_interval = None, ga_gen_only = False,
      ga_save_reduce = False, ga_save_intermediate = False, ga_tracker_window_size = 20, ga_rtl_path = DEFAULT_RTL,
      ga_include_paths = DEFAULT_INCLUDES, ga_top_module = DEFAULT_TOP_MODULE, ga_top_scope = DEFAULT_TOP_SCOPE,
      ga_simulator_args = None\<rparr>"

record summary_args =
  su_llm :: bool
  su_bugset_root :: path
  su_logs_root :: path
  su_output :: path
  su_line_window :: int
  su_rerank_filename :: string

definition summary_defaults :: "bool \<Rightarrow> path \<Rightarrow> path \<Rightarrow> summary_args" where
  "summary_defaults llm bugset_root logs_root =
     \<lparr>su_llm = llm, su_bugset_root = bugset_root, su_logs_root = logs_root,
      su_output = path_of (if llm then ''llm_rerank_summary.tsv'' else ''sbfl_block_summary.tsv''), su_line_window = 0,
      su_rerank_filename = ''llm_rerank.json''\<rparr>"

datatype batch_command =
    Generation generation_cli execution_args
  | Rerun rerun_args execution_args
  | Reanalyse analysis_args execution_args
  | Sweep_Points sweep_args "string list option"
  | Summarize summary_args
  | Stats bool path

record batch_world =
  b_env :: environment
  b_expanduser :: "path \<Rightarrow> path"
  b_resolve :: "path \<Rightarrow> path"
  b_tempdir :: path
  b_environ :: "string \<Rightarrow> string option"
  b_run_id :: string
  b_loads :: decoder
  b_order :: "case_spec list \<Rightarrow> (pyfloat \<times> case_spec) list"
  b_system :: sweep_system
  b_start :: starter
  b_point_order :: "sweep_point list \<Rightarrow> (pyfloat \<times> sweep_point) list"

definition split_simulator_args :: "string list \<Rightarrow> string list \<times> string list option" where
  "split_simulator_args argv =
     (case find_index ''--'' argv of
        None \<Rightarrow> (argv, None)
      | Some separator \<Rightarrow> (take separator argv, Some (drop (separator + 1) argv)))"

section \<open>Execution and generation settings\<close>

definition execution :: "batch_world \<Rightarrow> execution_args \<Rightarrow> string \<Rightarrow> execution_config" where
  "execution w a tmp_name =
     \<lparr>x_ibex_home = b_resolve w (b_expanduser w (ea_workdir a)),
      x_logs_root = b_resolve w (b_expanduser w (ea_logs a)),
      x_tmp_root = (case ea_tmp a of Some p \<Rightarrow> b_resolve w (b_expanduser w p)
                    | None \<Rightarrow> b_resolve w (path_div (b_tempdir w) tmp_name)),
      x_jobs = ea_jobs a, x_sbfl_bin = ea_sbfl_bin a, x_keep_workdir = ea_keep_workdir a, x_disassemble = ea_disassemble a,
      x_objdump_bin = (case b_environ w ''OBJDUMP_BIN'' of Some v \<Rightarrow> v | None \<Rightarrow> ''riscv32-unknown-elf-objdump''),
      x_dry_run = ea_dry_run a\<rparr>"

text \<open>The input, or the cases with the corpus to resume.\<close>

definition generation_input ::
  "batch_world \<Rightarrow> generation_cli \<Rightarrow> execution_args \<Rightarrow> case_spec list \<Rightarrow> fs \<Rightarrow> (case_spec list \<times> path option) res" where
  "generation_input w a x cases fs =
     (case ga_resume_corpus a of
        Some corpus \<Rightarrow>
          if ga_reduce_insts a then Err (SbflBatchError ''--reduce-insts conflicts with --resume-corpus'')
          else let resume_corpus = b_resolve w (b_expanduser w corpus) in
               if \<not> is_file fs resume_corpus then Err (SbflBatchError (''resume corpus not found: '' @ path_str resume_corpus))
               else Ok (map (\<lambda>c. c\<lparr>k_corpus := Some resume_corpus\<rparr>) cases, None)
      | None \<Rightarrow>
          (let p = b_expanduser w (ga_input a);
               p = (if path_is_absolute p then p else path_join (b_expanduser w (ea_workdir x)) p);
               input_path = b_resolve w p in
           if \<not> is_file fs input_path then Err (SbflBatchError (''input path not found: '' @ path_str input_path))
           else Ok (cases, Some input_path)))"

definition psbfl_options :: "generation_cli \<Rightarrow> string list" where
  "psbfl_options a = given ''mutator_window_size'' (ga_mutator_window_size a) @
     given ''mutator_weight_strategy'' (ga_mutator_weight_strategy a)"

definition withw_options :: "generation_cli \<Rightarrow> string list" where
  "withw_options a = given ''max_corpus_size'' (ga_max_corpus_size a) @ given ''init_seed_rate'' (ga_init_seed_rate a) @
     given ''mutate_rate'' (ga_mutate_rate a) @ given ''priority_alpha'' (ga_priority_alpha a) @
     given ''failed_reward'' (ga_failed_reward a)"

definition check_mode_options :: "generation_cli \<Rightarrow> unit res" where
  "check_mode_options a =
     (if ga_mode a = ''psbfl'' then
        batch_check (withw_options a = []) (''WitHW options are not valid for PSBFL: '' @ join '', '' (withw_options a))
      else if ga_mode a = ''withw'' then
        batch_check (psbfl_options a = []) (''PSBFL options are not valid for WitHW: '' @ join '', '' (psbfl_options a))
      else let wrong = psbfl_options a @ withw_options a in
        batch_check (wrong = []) (''mode-specific options are not valid for Random: '' @ join '', '' wrong))"

definition or_default :: "'a option \<Rightarrow> 'a \<Rightarrow> 'a" where
  "or_default x d = (case x of None \<Rightarrow> d | Some v \<Rightarrow> v)"

definition cli_generation :: "generation_cli \<Rightarrow> path option \<Rightarrow> generation_config" where
  "cli_generation a input_path =
     \<lparr>g_mode = ga_mode a, g_coverage = ga_coverage a, g_state = ga_state a, g_max_run_timeout = ga_max_run_timeout a,
      g_max_iters = ga_max_iters a, g_top_pass = ga_top_pass a, g_selection = ga_selection a,
      g_selection_diversity_weight = ga_selection_diversity_weight a,
      g_selection_pool_factor = ga_selection_pool_factor a, g_top_sus = ga_top_sus a,
      g_tracker_window_size = ga_tracker_window_size a, g_cover_distance_weight = ga_cover_distance_weight a,
      g_reduce_insts = ga_reduce_insts a, g_reduce_cover = ga_reduce_cover a, g_input_path = input_path,
      g_save_corpus = ga_save_corpus a, g_checkpoint_interval = ga_checkpoint_interval a, g_gen_only = ga_gen_only a,
      g_save_reduce = ga_save_reduce a, g_save_intermediate = ga_save_intermediate a, g_rtl_path = ga_rtl_path a,
      g_include_paths = ga_include_paths a, g_top_module = ga_top_module a, g_top_scope = ga_top_scope a,
      g_metric = ga_metric a, g_mutator_window_size = or_default (ga_mutator_window_size a) 20,
      g_mutator_weight_strategy = or_else (or_default (ga_mutator_weight_strategy a) []) ''uniform'',
      g_max_corpus_size = or_default (ga_max_corpus_size a) 50, g_init_seed_rate = or_default (ga_init_seed_rate a) (rnd (2 / 10)),
      g_mutate_rate = or_default (ga_mutate_rate a) (rnd (2 / 10)), g_priority_alpha = or_default (ga_priority_alpha a) (rnd (1 / 10)),
      g_failed_reward = or_default (ga_failed_reward a) (Fin 5),
      g_simulator_args = or_default (ga_simulator_args a) DEFAULT_SIMULATOR_ARGS\<rparr>"

definition generation_setup ::
  "batch_world \<Rightarrow> generation_cli \<Rightarrow> execution_args \<Rightarrow> fs \<Rightarrow> (case_spec list \<times> generation_config) res" where
  "generation_setup w a x fs =
     (let target_mode = (if ga_all_cases a \<noteq> None then ''all'' else ''case'');
          target = or_default (ga_all_cases a) (ga_case a) in
      rbind (discover_cases (b_resolve w) fs target_mode target) (\<lambda>found.
      rbind (generation_input w a x found fs) (\<lambda>(cases, input_path).
      rbind (check_mode_options a) (\<lambda>_. Ok (cases, cli_generation a input_path)))))"

section \<open>The commands\<close>

definition cli_run_generation :: "batch_world \<Rightarrow> generation_cli \<Rightarrow> execution_args \<Rightarrow> (fs, int \<times> string list) eff" where
  "cli_run_generation w a x =
     ebind (eget (generation_setup w a x)) (\<lambda>r.
     ebind (elift r) (\<lambda>(cases, config).
       runner_run (b_env w) (GenerationRunner (b_run_id w) (execution w x (''run_bugset_'' @ ga_mode a)) config cases False)
         (b_order w cases)))"

definition cli_rerun :: "batch_world \<Rightarrow> rerun_args \<Rightarrow> execution_args \<Rightarrow> (fs, int \<times> string list) eff" where
  "cli_rerun w a x =
     ebind (eget (\<lambda>fs. prepare_rerun (v_describe (b_env w)) (b_expanduser w) (b_resolve w) fs a)) (\<lambda>r.
     ebind (elift r) (\<lambda>(config, cases).
       runner_run (b_env w) (GenerationRunner (b_run_id w) (execution w x ''rerun_bugset_corpus'') config cases True)
         (b_order w cases)))"

definition cli_analysis :: "batch_world \<Rightarrow> analysis_args \<Rightarrow> execution_args \<Rightarrow> (fs, int \<times> string list) eff" where
  "cli_analysis w a x =
     ebind (eget (\<lambda>fs. prepare_analysis (v_describe (b_env w)) (b_expanduser w) (b_resolve w) fs a)) (\<lambda>r.
     ebind (elift r) (\<lambda>(config, cases).
       analysis_run (b_env w) (AnalysisRunner (b_run_id w) (execution w x ''analyze_bugset_corpus'') config cases)
         (b_order w cases)))"

definition run_sweep :: "batch_world \<Rightarrow> sweep_args \<Rightarrow> string list \<Rightarrow> (fs, int \<times> string list) eff" where
  "run_sweep w a forwarded =
     ebind (from_args (b_system w) a forwarded) (\<lambda>config.
       sweep_run (v_describe (b_env w)) (b_start w) (b_system w) (SweepRunner (b_run_id w) config)
         (b_point_order w (points config)))"

definition cli_summarize :: "batch_world \<Rightarrow> summary_args \<Rightarrow> (fs, int \<times> string list) eff" where
  "cli_summarize w a =
     (let bugset_root = b_resolve w (b_expanduser w (su_bugset_root a));
          logs_root = b_resolve w (b_expanduser w (su_logs_root a));
          info = [print_info ''command'' (IStr (''summarize '' @ (if su_llm a then ''llm'' else ''sbfl''))),
            print_info ''summary.bugset_root'' (IPath bugset_root),
            print_info ''summary.logs_root'' (IPath logs_root),
            print_info ''summary.output'' (IPath (b_resolve w (b_expanduser w (su_output a)))),
            print_info ''summary.line_window'' (IInt (su_line_window a))] @
            (if su_llm a then [print_info ''summary.rerank_filename'' (IStr (su_rerank_filename a))] else []) in
      if su_line_window a < 0 then eraise (SbflBatchError ''--line-window must be non-negative'')
      else ebind (eget (\<lambda>fs. is_dir fs bugset_root \<and> is_dir fs logs_root)) (\<lambda>dirs.
        if \<not> dirs then eraise (SbflBatchError ''bugset_root and logs_root must both be directories'')
        else ebind (if su_llm a
                    then summarize_llm (b_loads w) bugset_root logs_root (su_output a) (su_line_window a) (su_rerank_filename a)
                    else summarize_sbfl (b_loads w) bugset_root logs_root (su_output a) (su_line_window a)) (\<lambda>(rows, lines).
               eret (0, info @ lines))))"

definition cli_stats :: "batch_world \<Rightarrow> bool \<Rightarrow> path \<Rightarrow> (fs, int \<times> string list) eff" where
  "cli_stats w llm summary =
     ebind (eget (\<lambda>fs. read_summary fs summary)) (\<lambda>r.
     ebind (elift r) (\<lambda>rows.
     ebind (elift (if llm then llm_stats_lines rows else sbfl_stats_lines rows)) (\<lambda>lines.
       eret (0, [print_info ''command'' (IStr (''stats '' @ (if llm then ''llm'' else ''sbfl''))),
                 print_info ''stats.summary'' (IPath (b_resolve w (b_expanduser w summary)))] @ lines))))"

fun dispatch :: "batch_world \<Rightarrow> batch_command \<Rightarrow> (fs, int \<times> string list) eff" where
  "dispatch w (Generation a x) = cli_run_generation w a x"
| "dispatch w (Rerun a x) = cli_rerun w a x"
| "dispatch w (Reanalyse a x) = cli_analysis w a x"
| "dispatch w (Sweep_Points a simulator_args) = run_sweep w a (or_default simulator_args [])"
| "dispatch w (Summarize a) = cli_summarize w a"
| "dispatch w (Stats llm summary) = cli_stats w llm summary"

definition batch_main :: "batch_world \<Rightarrow> string list \<Rightarrow> batch_command \<Rightarrow> (fs, int \<times> string list) eff" where
  "batch_main w raw command =
     ecatch
       (ebind (dispatch w command) (\<lambda>(code, lines). eret (code, print_info ''cli.argv'' (ISeq raw) # lines)))
       (\<lambda>e. if e = KeyboardInterrupt then Some (eret (130, [print_info ''cli.argv'' (ISeq raw)]))
            else if is_os_error e \<or> is_value_error e \<or> is_sbfl_common_error e \<or> is_sbfl_batch_error e
            then Some (eret (1, [print_info ''cli.argv'' (ISeq raw)])) else None)"

section \<open>Statistics of a written summary\<close>

text \<open>C31: \<open>stats\<close> on the table that \<open>summarize\<close> wrote succeeds, changes nothing and prints the statistics that
  \<open>summarize\<close> ended with, for both kinds of summary.\<close>

theorem stats_of_summary:
  assumes "cli_summarize w a fs = (Ok (rc, lines), fs')"
  shows "rc = 0 \<and> (\<exists>info shown stats info' rows. lines = info @ shown @ stats
    \<and> read_summary fs' (su_output a) = Ok rows \<and> (if su_llm a then llm_stats_lines rows else sbfl_stats_lines rows) = Ok stats
    \<and> cli_stats w (su_llm a) (su_output a) fs' = (Ok (0, info' @ stats), fs'))"
proof -
  let ?b = "b_resolve w (b_expanduser w (su_bugset_root a))" and ?l = "b_resolve w (b_expanduser w (su_logs_root a))"
  from assms obtain rows shown info where
      run: "(if su_llm a then summarize_llm (b_loads w) ?b ?l (su_output a) (su_line_window a) (su_rerank_filename a)
             else summarize_sbfl (b_loads w) ?b ?l (su_output a) (su_line_window a)) fs = (Ok (rows, shown), fs')"
    and rc: "rc = 0" and lines: "lines = info @ shown"
    unfolding cli_summarize_def Let_def by (auto simp: ebind_result_Ok eget_def eraise_def split: if_splits)
  have "read_summary fs' (su_output a) = Ok rows
    \<and> (\<exists>rest stats. shown = rest @ stats \<and> (if su_llm a then llm_stats_lines rows else sbfl_stats_lines rows) = Ok stats)"
    using run by (cases "su_llm a") (auto dest: summarize_llm_written summarize_sbfl_written)
  then obtain rest stats where rd: "read_summary fs' (su_output a) = Ok rows" and sh: "shown = rest @ stats"
    and st: "(if su_llm a then llm_stats_lines rows else sbfl_stats_lines rows) = Ok stats" by blast
  from rd st obtain info' where "cli_stats w (su_llm a) (su_output a) fs' = (Ok (0, info' @ stats), fs')"
    by (simp add: cli_stats_def ebind_def eget_def elift_def)
  with rc lines sh rd st show ?thesis by blast
qed

definition demo_batch :: batch_world where
  "demo_batch =
     \<lparr>b_env = demo_env, b_expanduser = (\<lambda>p. p), b_resolve = (\<lambda>p. p), b_tempdir = path_of ''/tmp'',
      b_environ = (\<lambda>_. None), b_run_id = ''r'', b_loads = (\<lambda>_. None), b_order = map (\<lambda>c. (Fin 0, c)),
      b_system = demo_system, b_start = (\<lambda>argv log. eret 0), b_point_order = map (\<lambda>pt. (Fin 0, pt))\<rparr>"

definition demo_summary :: summary_args where
  "demo_summary = (summary_defaults True (path_of ''b'') (path_of ''l'')) \<lparr>su_output := path_of ''l/s.tsv''\<rparr>"

theorem stats_of_summary_witness:
  "\<exists>lines fs' info stats. cli_summarize demo_batch demo_summary ((path_of ''b'', Directory) # demo_logs) = (Ok (0, lines), fs')
     \<and> cli_stats demo_batch True (path_of ''l/s.tsv'') fs' = (Ok (0, info @ stats), fs')"
proof -
  let ?run = "cli_summarize demo_batch demo_summary ((path_of ''b'', Directory) # demo_logs)"
  have "case fst ?run of Inr (rc, lines) \<Rightarrow> rc = 0 | Inl e \<Rightarrow> False" by code_simp
  then obtain lines fs' where run: "?run = (Ok (0, lines), fs')"
    by (cases ?run) (auto split: sum.splits prod.splits)
  have "su_llm demo_summary" "su_output demo_summary = path_of ''l/s.tsv''" by (simp_all add: demo_summary_def summary_defaults_def)
  with stats_of_summary [OF run] run show ?thesis by metis
qed

end
