(* ===== verification/Offline_Workflow.thy ===== *)
theory Offline_Workflow
  imports Offline_Artifacts Offline_Ranking Statistics
begin

text \<open>
  \<open>ibex_sbfl_rerank/workflow.py\<close>: reranking the saved results of a directory offline, and the
  summary over the new results. The JSON encoder, \<open>Path.resolve\<close>, \<open>Path.expanduser\<close>, the working
  directory, the version of the tool and the name \<open>mkstemp\<close> chooses are parameters.
\<close>

text \<open>\<open>p.with_suffix(p.suffix + ext)\<close>\<close>

definition path_with_suffix_added :: "path \<Rightarrow> string \<Rightarrow> path res" where
  "path_with_suffix_added p ext = path_with_name p (path_stem p @ path_suffix p @ ext)"

definition result_paths :: "(path \<Rightarrow> path) \<Rightarrow> fs \<Rightarrow> path \<Rightarrow> string \<Rightarrow> path list" where
  "result_paths resolve fs root_dir input_filename =
     (let found = (if is_dir fs root_dir then path_div root_dir input_filename # rglob_name fs root_dir input_filename else [])
      in sorted_set (map resolve (filter (is_file fs) found)))"

fun pair_paths :: "fs \<Rightarrow> path list \<Rightarrow> (path \<times> path) list res" where
  "pair_paths fs [] = Ok []"
| "pair_paths fs (p # ps) =
     rbind (path_with_suffix_added p ''.prompt.md'') (\<lambda>prompt.
       if \<not> is_file fs prompt then Err RerankError
       else rbind (pair_paths fs ps) (\<lambda>rest. Ok ((p, prompt) # rest)))"

definition discover_pairs :: "(path \<Rightarrow> path) \<Rightarrow> fs \<Rightarrow> path \<Rightarrow> string \<Rightarrow> (path \<times> path) list res" where
  "discover_pairs resolve fs root_dir input_filename =
     rbind (pair_paths fs (result_paths resolve fs root_dir input_filename)) (\<lambda>pairs.
       if pairs = [] then Err RerankError else Ok pairs)"

text \<open>\<open>int\<close> raises \<open>OverflowError\<close> for an infinite number, which is not caught.\<close>

definition positive_top_k :: "json \<Rightarrow> int res" where
  "positive_top_k v =
     rbind (rcatch (\<lambda>e. e = TypeError \<or> is_value_error e) RerankError (to_int v)) (\<lambda>n.
       if n \<le> 0 then Err RerankError else Ok n)"

definition offline_config :: "jobj \<Rightarrow> jobj" where
  "offline_config result =
     AList.delete ''ranking_strategy'' (case map_of result ''config'' of Some (JObj c) \<Rightarrow> c | _ \<Rightarrow> [])"

definition offline_output :: "string \<Rightarrow> path \<Rightarrow> path \<Rightarrow> jobj \<Rightarrow> nat \<Rightarrow> pyfloat \<Rightarrow> int \<Rightarrow> jobj list \<Rightarrow> jobj" where
  "offline_output version result_path prompt_path result n_candidates llm_weight top_k assessments =
     dict_update result
       [(''schema_version'', dict_get result ''schema_version'' (JInt 3)),
        (''tool_version'', JStr version),
        (''config'', JObj (dict_update (offline_config result)
           [(''candidate_count'', JInt (int n_candidates)), (''top_k'', JInt top_k), (''llm_weight'', JFloat llm_weight),
            (''normalize_suspiciousness'', JBool False)])),
        (''candidate_count'', JInt (int n_candidates)),
        (''top_k'', JInt top_k),
        (''assessments'', JArr (map JObj assessments)),
        (''rankings'', JArr (map JObj (py_prefix assessments top_k))),
        (''offline_rerank'', JObj [(''source_result'', JStr (path_str result_path)),
           (''source_prompt'', JStr (path_str prompt_path)), (''score_source'', JStr ''raw_model_response''),
           (''suspiciousness_normalized'', JBool False)])]"

definition reranked_output ::
  "decoder \<Rightarrow> string \<Rightarrow> fs \<Rightarrow> path \<Rightarrow> path \<Rightarrow> pyfloat \<Rightarrow> int option \<Rightarrow> jobj res" where
  "reranked_output loads version fs result_path prompt_path llm_weight requested_top_k =
     rbind (load_saved_result loads fs result_path) (\<lambda>result.
     rbind (parse_prompt_candidates loads fs prompt_path) (\<lambda>candidates.
     rbind (parse_raw_assessments loads result) (\<lambda>raw.
     rbind (offline_rank_candidates candidates raw llm_weight) (\<lambda>assessments.
       let source_top_k = dict_get result ''top_k''
             (dict_get (offline_config result) ''top_k'' (JInt (int (length candidates)))) in
       rbind (case requested_top_k of Some k \<Rightarrow> Ok k | None \<Rightarrow> positive_top_k source_top_k) (\<lambda>top_k.
         if int (length assessments) < top_k then Err RerankError
         else Ok (offline_output version result_path prompt_path result (length candidates) llm_weight top_k assessments))))))"

definition workflow_write_json :: "(json \<Rightarrow> string) \<Rightarrow> string \<Rightarrow> path \<Rightarrow> json \<Rightarrow> (fs, unit) eff" where
  "workflow_write_json dumps random p v =
     (let temporary = Path (path_root (path_parent p)) (path_parts (path_parent p) @ [''.'' @ path_name p @ ''.'' @ random]) in
      ebind (eupd (mkdir_parents (path_parent p))) (\<lambda>_.
      ebind (eupd (\<lambda>fs. if path_exists fs temporary then Err FileExistsError else write_text temporary [] fs)) (\<lambda>_.
      ecatch (ebind (eupd (write_text temporary (dumps v @ [NL]))) (\<lambda>_. eupd (replace_file temporary p)))
        (\<lambda>e. Some (ebind (eupd (unlink temporary)) (\<lambda>_. eraise e))))))"

definition rerank_pair ::
  "decoder \<Rightarrow> (json \<Rightarrow> string) \<Rightarrow> string \<Rightarrow> string \<Rightarrow> path \<Rightarrow> path \<Rightarrow> path \<Rightarrow> pyfloat \<Rightarrow> int option \<Rightarrow> (fs, unit) eff" where
  "rerank_pair loads dumps random version result_path prompt_path output_path llm_weight requested_top_k =
     ebind (eget (\<lambda>fs. reranked_output loads version fs result_path prompt_path llm_weight requested_top_k)) (\<lambda>r.
     ebind (elift r) (\<lambda>out. workflow_write_json dumps random output_path (JObj out)))"

text \<open>\<open>p.parents\<close>: the ancestors, nearest first.\<close>

definition path_parents :: "path \<Rightarrow> path list" where
  "path_parents p = map (\<lambda>n. Path (path_root p) (take n (path_parts p))) (rev [0..<length (path_parts p)])"

definition find_bugset_root ::
  "(path \<Rightarrow> path) \<Rightarrow> (path \<Rightarrow> path) \<Rightarrow> path \<Rightarrow> fs \<Rightarrow> path \<Rightarrow> path option \<Rightarrow> path res" where
  "find_bugset_root expanduser resolve cwd fs logs_root explicit =
     (case explicit of
        Some p \<Rightarrow> (let candidate = resolve (expanduser p) in if is_dir fs candidate then Ok candidate else Err RerankError)
      | None \<Rightarrow>
          (case find (\<lambda>parent. is_dir fs (path_div parent ''verify_dataset'')) (resolve cwd # logs_root # path_parents logs_root) of
             Some parent \<Rightarrow> Ok (resolve (path_div parent ''verify_dataset''))
           | None \<Rightarrow> Err RerankError))"

fun rerank_pairs ::
  "decoder \<Rightarrow> (json \<Rightarrow> string) \<Rightarrow> string \<Rightarrow> string \<Rightarrow> string \<Rightarrow> pyfloat \<Rightarrow> int option \<Rightarrow> nat \<Rightarrow> nat \<Rightarrow> (path \<times> path) list
   \<Rightarrow> (fs, string list) eff" where
  "rerank_pairs loads dumps random version output_filename w top_k n i [] = eret []"
| "rerank_pairs loads dumps random version output_filename w top_k n i ((result_path, prompt_path) # rest) =
     (let output_path = path_div (path_parent result_path) output_filename in
      ebind (rerank_pair loads dumps random version result_path prompt_path output_path w top_k) (\<lambda>_.
      ebind (rerank_pairs loads dumps random version output_filename w top_k n (Suc i) rest) (\<lambda>lines.
        eret ((''[RERANK '' @ str_int (int i) @ ''/'' @ str_int (int n) @ ''] '' @ path_str output_path) # lines))))"

definition run_directory ::
  "decoder \<Rightarrow> (json \<Rightarrow> string) \<Rightarrow> string \<Rightarrow> string \<Rightarrow> (path \<Rightarrow> path) \<Rightarrow> path \<Rightarrow> pyfloat \<Rightarrow> string \<Rightarrow> string \<Rightarrow> int option \<Rightarrow>
     path \<Rightarrow> path \<Rightarrow> int \<Rightarrow> (fs, row list \<times> string list) eff" where
  "run_directory loads dumps random version resolve logs_root w input_filename output_filename top_k bugset_root summary_path line_window =
     ebind (eget (\<lambda>fs. discover_pairs resolve fs logs_root input_filename)) (\<lambda>r.
     ebind (elift r) (\<lambda>pairs.
     ebind (rerank_pairs loads dumps random version output_filename w top_k (length pairs) 1 pairs) (\<lambda>lines.
     ebind (summarize_llm loads bugset_root logs_root summary_path line_window output_filename) (\<lambda>(rows, summary).
       eret (rows, lines @ [''[DONE] reranked '' @ str_int (int (length pairs)) @ '' result(s) with llm_weight='' @ frepr w] @
         summary)))))"

section \<open>Command line\<close>

text \<open>\<open>f"{x:.12g}"\<close> of a float: twelve significant digits, without trailing zeros.\<close>

definition general_pos :: "rat \<Rightarrow> string" where
  "general_pos q =
     (let k0 = decpt q; c0 = round_half_even (q * 10 powi (12 - k0));
          (c, k) = (if c0 = 10 ^ 12 then (10 ^ 11, k0 + 1) else (c0, k0));
          ds = rstrip_by (\<lambda>x. x = CHR ''0'') (str_nat (nat c)) in
      if - 4 < k \<and> k \<le> 12
      then if k \<le> 0 then ''0.'' @ replicate (nat (- k)) CHR ''0'' @ ds
           else if int (length ds) \<le> k then ds @ replicate (nat k - length ds) CHR ''0''
           else take (nat k) ds @ ''.'' @ drop (nat k) ds
      else take 1 ds @ (if length ds \<le> 1 then [] else CHR ''.'' # drop 1 ds) @ exp_text (k - 1))"

fun format_general :: "pyfloat \<Rightarrow> string" where
  "format_general (Fin q) = (if q = 0 then ''0'' else if q < 0 then CHR ''-'' # general_pos (- q) else general_pos q)"
| "format_general x = frepr x"

definition default_output_filename :: "pyfloat \<Rightarrow> string" where
  "default_output_filename llm_weight = ''llm_rerank.w'' @ format_general llm_weight @ ''.json''"

definition weight_arg :: "string \<Rightarrow> pyfloat res" where
  "weight_arg v =
     (case py_float v of None \<Rightarrow> Err ArgumentTypeError
      | Some w \<Rightarrow> if fle (Fin 0) w \<and> fle w (Fin 1) then Ok w else Err ArgumentTypeError)"

definition positive_int_arg :: "string \<Rightarrow> int res" where
  "positive_int_arg v =
     (case py_int v of None \<Rightarrow> Err ArgumentTypeError | Some n \<Rightarrow> if n \<le> 0 then Err ArgumentTypeError else Ok n)"

definition plain_filename :: "string \<Rightarrow> string res" where
  "plain_filename v =
     (if v = [] \<or> path_name (path_of v) \<noteq> v \<or> v = ''.'' \<or> v = ''..'' then Err RerankError else Ok v)"

record offline_args =
  oa_logs_root :: path
  oa_llm_weight :: pyfloat
  oa_top_k :: "int option"
  oa_bugset_root :: "path option"
  oa_line_window :: int
  oa_input_filename :: string
  oa_output_filename :: "string option"
  oa_summary :: "path option"

definition output_name :: "offline_args \<Rightarrow> string" where
  "output_name a =
     (case oa_output_filename a of
        Some n \<Rightarrow> if n = [] then default_output_filename (oa_llm_weight a) else n
      | None \<Rightarrow> default_output_filename (oa_llm_weight a))"

text \<open>The checks of \<open>main\<close> and what they resolve: the logs, the input and output names, the bug set.\<close>

definition offline_setup ::
  "(path \<Rightarrow> path) \<Rightarrow> (path \<Rightarrow> path) \<Rightarrow> path \<Rightarrow> offline_args \<Rightarrow> fs \<Rightarrow> (path \<times> string \<times> string \<times> path) res" where
  "offline_setup expanduser resolve cwd a fs =
     (if oa_line_window a < 0 then Err RerankError
      else let logs_root = resolve (expanduser (oa_logs_root a)) in
           if \<not> is_dir fs logs_root then Err RerankError
           else rbind (plain_filename (oa_input_filename a)) (\<lambda>inp.
                rbind (plain_filename (output_name a)) (\<lambda>out.
                  if inp = out then Err RerankError
                  else rbind (find_bugset_root expanduser resolve cwd fs logs_root (oa_bugset_root a)) (\<lambda>bugs.
                    Ok (logs_root, inp, out, bugs)))))"

definition offline_main ::
  "decoder \<Rightarrow> (json \<Rightarrow> string) \<Rightarrow> string \<Rightarrow> string \<Rightarrow> (path \<Rightarrow> path) \<Rightarrow> (path \<Rightarrow> path) \<Rightarrow> path \<Rightarrow> offline_args \<Rightarrow>
     (fs, int \<times> string list) eff" where
  "offline_main loads dumps random version expanduser resolve cwd a =
     ecatch
       (ebind (eget (offline_setup expanduser resolve cwd a)) (\<lambda>r.
        ebind (elift r) (\<lambda>(logs_root, inp, out, bugs).
          let summary_path = (case oa_summary a of Some p \<Rightarrow> resolve (expanduser p)
                | None \<Rightarrow> path_div logs_root (path_stem (path_of out) @ ''.summary.tsv''))
          in ebind (run_directory loads dumps random version resolve logs_root (oa_llm_weight a) inp out (oa_top_k a)
                      bugs summary_path (oa_line_window a)) (\<lambda>(rows, lines).
               eret (0, [''[CONFIG] logs_root='' @ path_str logs_root, ''[CONFIG] bugset_root='' @ path_str bugs,
                         ''[CONFIG] llm_weight='' @ frepr (oa_llm_weight a), ''[CONFIG] output_filename='' @ out] @ lines)))))
       (\<lambda>e. if is_os_error e \<or> e = RerankError \<or> is_sbfl_common_error e then Some (eret (1, [])) else None)"

section \<open>A reranked result is accepted by the summaries\<close>

lemma map_of_offline_output:
  "map_of (offline_output v rp pp result n w k as) ''rankings'' = Some (JArr (map JObj (py_prefix as k)))"
  "map_of (offline_output v rp pp result n w k as) ''top_k'' = Some (JInt k)"
  "\<exists>c. map_of (offline_output v rp pp result n w k as) ''config'' = Some (JObj c)"
  by (simp_all add: offline_output_def map_of_dict_update)

lemma workflow_write_json_read:
  assumes "workflow_write_json dumps random p v fs = (Ok u, fs')" "path_parts p \<noteq> []"
  shows "read_text fs' p = Ok (dumps v @ [NL])"
proof -
  let ?t = "Path (path_root (path_parent p)) (path_parts (path_parent p) @ [''.'' @ path_name p @ ''.'' @ random])"
  have tp: "?t \<noteq> p"
  proof
    assume "?t = p"
    then have "path_name p = ''.'' @ path_name p @ ''.'' @ random" by (metis last_snoc path.sel(2) path_name_def snoc_eq_iff_butlast)
    then have "length (path_name p) = length (''.'' @ path_name p @ ''.'' @ random)" by (rule arg_cong)
    then show False by simp
  qed
  from assms(1) obtain fs1 fs2 where "write_text ?t (dumps v @ [NL]) fs1 = Ok fs2" "replace_file ?t p fs2 = Ok fs'"
    by (auto simp: workflow_write_json_def Let_def ebind_result_Ok eupd_def ecatch_def ebind_def
        split: sum.splits prod.splits if_splits)
  then show ?thesis using read_text_replace [of ?t p fs2 fs' p] tp by (simp add: read_text_write)
qed

lemma parsed_candidates_wf:
  assumes "parse_prompt_candidates loads fs p = Ok cs"
  shows "distinct (map candidate_id cs)" "\<forall>c \<in> set cs. wf_candidate c"
proof -
  obtain v where "candidates_of_json v = Ok cs"
    using assms by (auto simp: parse_prompt_candidates_def Let_def rbind_eq_Ok split: option.splits)
  from candidates_of_json_inv [OF this] show "distinct (map candidate_id cs)" "\<forall>c \<in> set cs. wf_candidate c"
    by (auto simp: prompt_inv_def)
qed

lemma reranked_output_wf:
  assumes "reranked_output loads version fs rp pp w req = Ok out" "\<forall>k. req = Some k \<longrightarrow> 0 < k"
  shows "wf_result out \<and> (\<exists>c. map_of out ''config'' = Some (JObj c))"
proof -
  from assms(1) obtain result cs raw as k where
      cs: "parse_prompt_candidates loads fs pp = Ok cs"
    and as: "offline_rank_candidates cs raw w = Ok as"
    and k: "(case req of Some k \<Rightarrow> Ok k | None \<Rightarrow> positive_top_k (dict_get result ''top_k''
             (dict_get (offline_config result) ''top_k'' (JInt (int (length cs)))))) = Ok k"
    and le: "k \<le> int (length as)" and out: "out = offline_output version rp pp result (length cs) w k as"
    unfolding reranked_output_def Let_def by (fastforce elim!: rbind_OkE split: if_splits)
  have pos: "0 < k"
    using k assms(2) by (auto simp: positive_top_k_def rbind_eq_Ok split: option.splits if_splits)
  have "py_prefix as k = take (nat k) as" using pos by (simp add: py_prefix_def)
  then have r: "map_of out ''rankings'' = Some (JArr (map JObj (take (nat k) as)))"
    "map_of out ''top_k'' = Some (JInt (int (nat k)))"
    using pos map_of_offline_output [of version rp pp result "length cs" w k as] by (simp_all add: out)
  have "wf_result out"
    using offline.ranked_prefix_wf [of "(cs, raw, w)" as "nat k" out] as parsed_candidates_wf [OF cs] r pos le
    by (simp add: le_nat_iff)
  then show ?thesis using map_of_offline_output(3) out by blast
qed

text \<open>A result reranked offline is one that the summaries load, unchanged: if writing it succeeds
  and the JSON codec reads back the value it wrote, loading the new file gives exactly that value.\<close>

theorem rerank_pair_loadable:
  assumes "reranked_output loads version fs result_path prompt_path w req = Ok out"
    and "\<forall>k. req = Some k \<longrightarrow> 0 < k"
    and "rerank_pair loads dumps random version result_path prompt_path output_path w req fs = (Ok u, fs')"
    and "path_parts output_path \<noteq> []"
    and "loads (dumps (JObj out) @ [NL]) = Some (JObj out)"
  shows "load_rerank_result loads fs' output_path = Ok out"
proof -
  from assms(1,3) have "workflow_write_json dumps random output_path (JObj out) fs = (Ok u, fs')"
    by (simp add: rerank_pair_def ebind_def)
  from workflow_write_json_read [OF this assms(4)]
  have "read_text fs' output_path = Ok (dumps (JObj out) @ [NL])" .
  moreover have "check_rerank_result (JObj out) = Ok out"
    using reranked_output_wf [OF assms(1,2)] by (intro check_rerank_result_fixpoint) auto
  ultimately show ?thesis using assms(5) by (simp add: load_rerank_result_def)
qed

definition demo_saved :: json where
  "demo_saved = JObj [(''raw_model_response'', JObj [(''assessments'', JArr [JObj [(''candidate_id'', JStr ''B001''), (''score'', JInt 1)]])])]"

definition demo_results :: fs where
  "demo_results = [(path_of ''/l'', Directory), (path_of ''/l/r.json'', File ''r''),
     (path_of ''/l/r.json.prompt.md'', File (''# SBFL candidates'' @ [NL] @ ''```json'' @ [NL] @ ''[]'' @ [NL] @ ''```''))]"

definition demo_out :: jobj where
  "demo_out = (case reranked_output (\<lambda>s. if s = ''r'' then Some demo_saved else Some sample_prompt_json) ''1'' demo_results
     (path_of ''/l/r.json'') (path_of ''/l/r.json.prompt.md'') (Fin 1) None of Inr out \<Rightarrow> out | Inl e \<Rightarrow> [])"

definition demo_loads :: decoder where
  "demo_loads s = (if s = ''r'' then Some demo_saved else if s = ''w'' @ [NL] then Some (JObj demo_out) else Some sample_prompt_json)"

end
