(* ===== verification/Rerank.thy ===== *)
theory Rerank
  imports Patching
begin

text \<open>
  \<open>ibex_sbfl_llm/rerank.py\<close> and \<open>cli.py\<close>: the online reranking from the checked command line to
  the saved result. It composes the candidates, the patched workspace, the source snippets, the prompt,
  the model call and the ranking of the other theories.

  What the code takes from outside is the record \<open>rerank_world\<close>: the JSON codec, the packaged prompts
  and the model side (\<open>rw_outside\<close>, with the service chosen by address, key and time limit), \<open>git apply\<close>,
  SHA-256, the name of the temporary directory, \<open>resolve\<close>, \<open>expanduser\<close>, the environment variables and
  the version of the tool. A command returns its exit code and the lines it printed.
\<close>

section \<open>Arguments\<close>

record rerank_args =
  ra_rtl_source :: path
  ra_sbfl_result :: path
  ra_patch :: "path option"
  ra_allow_unpatched_source :: bool
  ra_test_info :: "string option"
  ra_test_info_file :: "path option"
  ra_model :: string
  ra_api_base :: "string option"
  ra_api_protocol :: "api_protocol option"
  ra_api_key_env :: "string option"
  ra_timeout :: pyfloat
  ra_temperature :: pyfloat
  ra_max_output_tokens :: int
  ra_reasoning_effort :: string
  ra_retries :: int
  ra_retry_delay :: pyfloat
  ra_structured_output :: string
  ra_candidate_count :: int
  ra_top_k :: int
  ra_source_mode :: string
  ra_max_source_chars :: int
  ra_snippet_radius :: int
  ra_llm_weight :: pyfloat
  ra_include_reason :: bool
  ra_output :: "path option"
  ra_save_prompt :: bool
  ra_dry_run :: bool

record rerank_world =
  rw_dumps :: "json \<Rightarrow> string"
  rw_dumps_sorted :: "json \<Rightarrow> string"
  rw_outside :: outside
  rw_service :: "string \<Rightarrow> string option \<Rightarrow> pyfloat \<Rightarrow> service"
  rw_schema :: "bool \<Rightarrow> json"
  rw_transform :: "json \<Rightarrow> json"
  rw_git :: git_apply
  rw_sha :: "string \<Rightarrow> string"
  rw_mkdtemp :: "fs \<Rightarrow> path"
  rw_resolve :: "path \<Rightarrow> path"
  rw_expanduser :: "path \<Rightarrow> path"
  rw_environ :: "string \<Rightarrow> string option"
  rw_version :: string

text \<open>The arguments of a command line that names only the RTL and the SBFL result: every option has the default it is
  declared with (no model is an empty name), and the options with a fixed set of values.\<close>

definition rerank_defaults :: "path \<Rightarrow> path \<Rightarrow> rerank_args" where
  "rerank_defaults rtl_source sbfl_result =
     \<lparr>ra_rtl_source = rtl_source, ra_sbfl_result = sbfl_result, ra_patch = None, ra_allow_unpatched_source = False,
      ra_test_info = None, ra_test_info_file = None, ra_model = [], ra_api_base = None, ra_api_protocol = None,
      ra_api_key_env = None, ra_timeout = Fin 300, ra_temperature = Fin 0, ra_max_output_tokens = 49152,
      ra_reasoning_effort = ''high'', ra_retries = 2, ra_retry_delay = Fin 2, ra_structured_output = ''auto'',
      ra_candidate_count = 50, ra_top_k = 20, ra_source_mode = ''auto'', ra_max_source_chars = 240000, ra_snippet_radius = 30,
      ra_llm_weight = Fin (3 / 4), ra_include_reason = False, ra_output = None, ra_save_prompt = False, ra_dry_run = False\<rparr>"

definition rerank_choices :: "rerank_args \<Rightarrow> bool" where
  "rerank_choices a \<longleftrightarrow> ra_reasoning_effort a \<in> {''low'', ''medium'', ''high'', ''max''}
     \<and> ra_structured_output a \<in> {''auto'', ''strict'', ''off''} \<and> ra_source_mode a \<in> {''snippets'', ''full'', ''auto''}
     \<and> (ra_test_info a = None \<or> ra_test_info_file a = None)"

text \<open>\<open>_validate_args\<close>: whether the parsed arguments are accepted; a refusal ends the program with code 2.\<close>

definition validate_args :: "rerank_args \<Rightarrow> bool" where
  "validate_args a \<longleftrightarrow>
     \<not> (ra_candidate_count a \<le> 0 \<or> ra_top_k a \<le> 0) \<and> \<not> ra_candidate_count a < ra_top_k a
     \<and> \<not> (ra_max_source_chars a \<le> 0 \<or> ra_snippet_radius a < 0)
     \<and> (fle (Fin 0) (ra_llm_weight a) \<and> fle (ra_llm_weight a) (Fin 1))
     \<and> \<not> (ra_retries a < 0 \<or> flt (ra_retry_delay a) (Fin 0) \<or> fle (ra_timeout a) (Fin 0) \<or> ra_max_output_tokens a \<le> 0)
     \<and> (ra_dry_run a \<or> ra_model a \<noteq> [])"

section \<open>The service to call\<close>

text \<open>\<open>environ.get(name, default)\<close> and \<open>x or y\<close> on optional strings.\<close>

definition environ_get :: "rerank_world \<Rightarrow> string \<Rightarrow> string \<Rightarrow> string" where
  "environ_get w name d = (case rw_environ w name of Some v \<Rightarrow> v | None \<Rightarrow> d)"

definition str_or :: "string option \<Rightarrow> string \<Rightarrow> string" where
  "str_or x y = (case x of Some v \<Rightarrow> if v = [] then y else v | None \<Rightarrow> y)"

definition default_api_base :: "rerank_world \<Rightarrow> api_protocol \<Rightarrow> string" where
  "default_api_base w p =
     (if p = anthropic then environ_get w ''ANTHROPIC_BASE_URL'' ''https://api.anthropic.com''
      else if p = zai
      then str_or (rw_environ w ''ZAI_BASE_URL'') (environ_get w ''OPENAI_BASE_URL'' ''https://api.z.ai/api/paas/v4/'')
      else environ_get w ''OPENAI_BASE_URL'' ''https://api.openai.com/v1'')"

definition api_key_env :: "rerank_world \<Rightarrow> api_protocol \<Rightarrow> string option \<Rightarrow> string" where
  "api_key_env w p requested =
     (case requested of
        Some name \<Rightarrow> name
      | None \<Rightarrow>
          if p = anthropic then ''ANTHROPIC_API_KEY''
          else if p = zai
          then if str_or (rw_environ w ''OPENAI_API_KEY'') [] \<noteq> [] \<and> str_or (rw_environ w ''ZAI_API_KEY'') [] = []
               then ''OPENAI_API_KEY'' else ''ZAI_API_KEY''
          else ''OPENAI_API_KEY'')"

definition api_key :: "rerank_world \<Rightarrow> string \<Rightarrow> string option res" where
  "api_key w name =
     (if name = [] then Ok None
      else case rw_environ w name of None \<Rightarrow> Err SbflLlmError | Some k \<Rightarrow> Ok (Some k))"

definition model_arguments :: "rerank_args \<Rightarrow> candidate list \<Rightarrow> string \<Rightarrow> string \<Rightarrow> call_args" where
  "model_arguments a candidates sys_prompt user_prompt =
     \<lparr>arg_model = ra_model a, arg_system_prompt = sys_prompt, arg_user_prompt = user_prompt,
      arg_candidates = candidates, arg_temperature = Some (ra_temperature a), arg_retries = ra_retries a,
      arg_retry_delay = ra_retry_delay a, arg_structured_output = ra_structured_output a,
      arg_max_output_tokens = ra_max_output_tokens a, arg_reasoning_effort = ra_reasoning_effort a,
      arg_include_reason = ra_include_reason a\<rparr>"

definition ask_model :: "rerank_world \<Rightarrow> rerank_args \<Rightarrow> candidate list \<Rightarrow> string \<Rightarrow> string \<Rightarrow> api_result res" where
  "ask_model w a candidates sys_prompt user_prompt =
     (let p = resolve_api_protocol (ra_model a) (ra_api_protocol a);
          api_base = str_or (ra_api_base a) (default_api_base w p) in
      rbind (api_key w (api_key_env w p (ra_api_key_env a))) (\<lambda>key.
        fst (call_model (rw_outside w \<lparr>out_service := rw_service w api_base key (ra_timeout a)\<rparr>)
               (rw_schema w) (rw_transform w) p (model_arguments a candidates sys_prompt user_prompt))))"

section \<open>The saved result\<close>

fun protocol_text :: "api_protocol \<Rightarrow> string" where
  "protocol_text anthropic = ''anthropic''"
| "protocol_text zai = ''zai''"
| "protocol_text openai_responses = ''openai-responses''"
| "protocol_text openai_chat_completions = ''openai-chat-completions''"

fun mode_text :: "structured_mode \<Rightarrow> string" where
  "mode_text json_schema = ''json_schema''"
| "mode_text json_object = ''json_object''"
| "mode_text prompt_only = ''prompt_only''"

definition json_opt :: "('a \<Rightarrow> json) \<Rightarrow> 'a option \<Rightarrow> json" where
  "json_opt f x = (case x of None \<Rightarrow> JNull | Some v \<Rightarrow> f v)"

definition rerank_inputs ::
  "rerank_world \<Rightarrow> path \<Rightarrow> path \<Rightarrow> path \<Rightarrow> patch_workspace \<Rightarrow> string \<Rightarrow> fs \<Rightarrow> jobj res" where
  "rerank_inputs w rtl result_log blocks_json ws test_info_source fs =
     rbind (read_text fs result_log) (\<lambda>log_text.
     rbind (read_text fs blocks_json) (\<lambda>blocks_text.
       Ok [(''result_log'', JStr (path_str result_log)),
           (''result_log_sha256'', JStr (rw_sha w log_text)),
           (''blocks_json'', JStr (path_str blocks_json)),
           (''blocks_json_sha256'', JStr (rw_sha w blocks_text)),
           (''rtl_source'', JStr (path_str rtl)),
           (''patch_path'', json_opt (\<lambda>p. JStr (path_str p)) (patch_path ws)),
           (''patch_sha256'', json_opt JStr (patch_sha256 ws)),
           (''patch_state'', JStr (patch_state ws)),
           (''patch_changed_files'', JArr (map JStr (changed_files ws))),
           (''patched_file_hashes'', JObj (map (\<lambda>(f, h). (f, JStr h)) (after_hashes ws))),
           (''test_info_source'', JStr test_info_source)]))"

definition rerank_config :: "rerank_args \<Rightarrow> nat \<Rightarrow> source_bundle \<Rightarrow> jobj" where
  "rerank_config a n sources =
     [(''candidate_count'', JInt (int n)),
      (''top_k'', JInt (ra_top_k a)),
      (''source_mode'', JStr (source_mode sources)),
      (''requested_source_mode'', JStr (ra_source_mode a)),
      (''snippet_radius'', JInt (ra_snippet_radius a)),
      (''effective_snippet_radius'', json_opt JInt (effective_radius sources)),
      (''max_source_chars'', JInt (ra_max_source_chars a)),
      (''source_chars'', JInt (source_chars sources)),
      (''llm_weight'', JFloat (ra_llm_weight a)),
      (''structured_output'', JStr (ra_structured_output a)),
      (''include_reason'', JBool (ra_include_reason a)),
      (''temperature'', JFloat (ra_temperature a)),
      (''max_output_tokens'', JInt (ra_max_output_tokens a)),
      (''reasoning_effort'', JStr (ra_reasoning_effort a)),
      (''timeout'', JFloat (ra_timeout a)),
      (''retries'', JInt (ra_retries a)),
      (''retry_delay'', JFloat (ra_retry_delay a))]"

definition rerank_request :: "jobj \<Rightarrow> api_result \<Rightarrow> jobj" where
  "rerank_request hashes r = hashes @
     [(''api'', JStr (protocol_text (api r))),
      (''structured_output'', JStr (mode_text (structured_output r))),
      (''response_id'', json_opt JStr (response_id r)),
      (''attempts'', JInt (int (result_attempts r))),
      (''usage'', JObj (map (\<lambda>(k, n). (k, JInt n)) (usage r))),
      (''elapsed_seconds'', JFloat (fround 6 (elapsed_seconds r)))]"

definition rerank_output ::
  "rerank_world \<Rightarrow> rerank_args \<Rightarrow> path \<Rightarrow> path \<Rightarrow> path \<Rightarrow> nat \<Rightarrow> source_bundle \<Rightarrow> jobj \<Rightarrow> jobj \<Rightarrow> api_result \<Rightarrow> jobj list \<Rightarrow> jobj" where
  "rerank_output w a rtl result_log blocks_json n sources inputs hashes r assessments =
     [(''schema_version'', JInt 3),
      (''tool_version'', JStr (rw_version w)),
      (''model'', JStr (ra_model a)),
      (''inputs'', JObj inputs),
      (''config'', JObj (rerank_config a n sources)),
      (''request'', JObj (rerank_request hashes r)),
      (''result_log'', JStr (path_str result_log)),
      (''blocks_json'', JStr (path_str blocks_json)),
      (''rtl_source'', JStr (path_str rtl)),
      (''candidate_count'', JInt (int n)),
      (''top_k'', JInt (ra_top_k a)),
      (''source_mode'', JStr (source_mode sources)),
      (''llm_elapsed_seconds'', JFloat (fround 6 (elapsed_seconds r))),
      (''assessments'', JArr (map JObj assessments)),
      (''rankings'', JArr (map JObj (py_prefix assessments (ra_top_k a)))),
      (''raw_model_response'', JStr (raw_text r))]"

section \<open>The run\<close>

text \<open>What is read before the workspace is prepared: the logs, the candidates, the test information.\<close>

definition rerank_candidates :: "rerank_world \<Rightarrow> rerank_args \<Rightarrow> fs \<Rightarrow> (path \<times> path \<times> path \<times> candidate list) res" where
  "rerank_candidates w a fs =
     rbind (resolve_input_files fs (rw_resolve w (ra_sbfl_result a))) (\<lambda>(result_log, blocks_json, output_dir).
     rbind (parse_block_suspiciousness fs result_log) (\<lambda>ranked.
       if ranked = [] then Err SbflLlmError
       else rbind (load_blocks (out_loads (rw_outside w)) fs blocks_json) (\<lambda>blocks.
            rbind (build_candidates ranked blocks (ra_candidate_count a)) (\<lambda>candidates.
              if int (length candidates) < ra_top_k a then Err SbflLlmError
              else Ok (result_log, blocks_json, output_dir, candidates)))))"

definition rerank_output_path :: "rerank_world \<Rightarrow> rerank_args \<Rightarrow> path \<Rightarrow> path" where
  "rerank_output_path w a output_dir =
     rw_resolve w (case ra_output a of Some p \<Rightarrow> p | None \<Rightarrow> path_div output_dir ''llm_rerank.json'')"

definition save_prompt :: "path \<Rightarrow> string \<Rightarrow> string \<Rightarrow> (fs, unit) eff" where
  "save_prompt output_path sys_prompt user_prompt =
     ebind (elift (path_with_name output_path (path_stem output_path @ path_suffix output_path @ ''.prompt.md''))) (\<lambda>prompt_path.
       atomic_write_text prompt_path
         (''# System prompt'' @ [NL, NL] @ sys_prompt @ [NL, NL] @ ''# User prompt'' @ [NL, NL] @ user_prompt @ [NL]))"

definition dry_run_lines :: "patch_workspace \<Rightarrow> source_bundle \<Rightarrow> string \<Rightarrow> string \<Rightarrow> string \<Rightarrow> string list" where
  "dry_run_lines ws sources sys_prompt user_prompt prompt_sha =
     [sys_prompt, [NL] @ ''--- USER PROMPT ---'' @ [NL], user_prompt, [NL] @ ''--- DRY-RUN METADATA ---'',
      ''patch_state='' @ patch_state ws,
      ''patch_path='' @ (case patch_path ws of None \<Rightarrow> [] | Some p \<Rightarrow> path_str p),
      ''source_mode='' @ source_mode sources,
      ''effective_radius='' @ (case effective_radius sources of None \<Rightarrow> ''None'' | Some n \<Rightarrow> str_int n),
      ''source_chars='' @ str_int (source_chars sources),
      ''prompt_sha256='' @ prompt_sha]"

text \<open>The body of the \<open>with\<close> statement.\<close>

definition rerank_in_workspace ::
  "rerank_world \<Rightarrow> rerank_args \<Rightarrow> path \<Rightarrow> path \<Rightarrow> path \<Rightarrow> candidate list \<Rightarrow> string \<Rightarrow> string \<Rightarrow> path \<Rightarrow> patch_workspace \<Rightarrow>
     (fs, int \<times> string list) eff" where
  "rerank_in_workspace w a rtl result_log blocks_json candidates test_info test_info_source output_path ws =
     ebind (eget (\<lambda>fs. collect_sources fs (rtl_root ws) candidates (ra_source_mode a) (ra_max_source_chars a) (ra_snippet_radius a))) (\<lambda>s.
     ebind (elift s) (\<lambda>sources.
       let load_prompt = out_prompt (rw_outside w);
           sys_prompt = load_prompt ''system.md'';
           user_prompt = build_user_prompt load_prompt (rw_dumps_sorted w) (rw_dumps w) candidates sources test_info (ra_include_reason a);
           hashes = prompt_metadata (rw_sha w) sys_prompt user_prompt in
       ebind (if ra_save_prompt a then save_prompt output_path sys_prompt user_prompt else eret ()) (\<lambda>_.
         if ra_dry_run a
         then eret (0, dry_run_lines ws sources sys_prompt user_prompt (rw_sha w (sys_prompt @ [NL, NL] @ user_prompt)))
         else ebind (elift (ask_model w a candidates sys_prompt user_prompt)) (\<lambda>r.
              ebind (elift (rank_candidates candidates (response r) (ra_llm_weight a))) (\<lambda>assessments.
              ebind (eget (rerank_inputs w rtl result_log blocks_json ws test_info_source)) (\<lambda>i.
              ebind (elift i) (\<lambda>inputs.
              ebind (atomic_write_json (rw_dumps w) output_path
                       (JObj (rerank_output w a rtl result_log blocks_json (length candidates) sources inputs hashes r assessments))) (\<lambda>_.
                eret (0, [''wrote '' @ str_int (int (length (py_prefix assessments (ra_top_k a)))) @ '' reranked candidates and '' @
                  str_int (int (length assessments)) @ '' scored assessments to '' @ path_str output_path])))))))))"

definition run_rerank :: "rerank_world \<Rightarrow> rerank_args \<Rightarrow> (fs, int \<times> string list) eff" where
  "run_rerank w a =
     (let rtl = rw_resolve w (ra_rtl_source a) in
      ebind (eget (rerank_candidates w a)) (\<lambda>c.
      ebind (elift c) (\<lambda>(result_log, blocks_json, output_dir, candidates).
      ebind (eget (\<lambda>fs. resolve_test_info (rw_resolve w) fs output_dir (ra_test_info a) (ra_test_info_file a))) (\<lambda>t.
      ebind (elift t) (\<lambda>(test_info, test_info_source).
        prepare_rtl_workspace (rw_git w) (rw_sha w) (rw_expanduser w) (rw_resolve w) (rw_mkdtemp w) rtl output_dir
          (ra_patch a) (ra_allow_unpatched_source a)
          (rerank_in_workspace w a rtl result_log blocks_json candidates test_info test_info_source
             (rerank_output_path w a output_dir)))))))"

text \<open>\<open>main\<close> on the values of its arguments: code 2 is the exit of \<open>parser.error\<close>.\<close>

definition llm_main :: "rerank_world \<Rightarrow> rerank_args \<Rightarrow> (fs, int \<times> string list) eff" where
  "llm_main w a =
     (if \<not> rerank_choices a \<or> \<not> validate_args a then eret (2, [])
      else ecatch (run_rerank w a)
        (\<lambda>e. if is_os_error e \<or> is_value_error e \<or> is_sbfl_common_error e \<or> is_sbfl_llm_error e
             then Some (eret (1, [])) else None))"

section \<open>The saved result is one the summaries accept\<close>

lemma atomic_write_text_read:
  assumes "atomic_write_text p v fs = (Ok u, fs')"
  shows "read_text fs' p = Ok v"
proof -
  obtain t where t: "path_with_name p (''.'' @ path_name p @ ''.tmp'') = Ok t"
    using assms by (auto simp: atomic_write_text_def ebind_def elift_def eupd_def split: sum.splits prod.splits)
  then obtain fs1 fs2 where f: "write_text t v fs1 = Ok fs2" "replace_file t p fs2 = Ok fs'"
    using assms by (auto simp: atomic_write_text_def ebind_def eupd_def split: sum.splits prod.splits)
  have "length (path_name t) \<noteq> length (path_name p)"
    using t by (auto simp: path_with_name_def path_name_def split: if_splits)
  then have "t \<noteq> p" by blast
  then show ?thesis using read_text_replace [OF f(2)] read_text_write [OF f(1)] by auto
qed

text \<open>A run of the \<open>with\<close> statement that succeeds ran its body, and at most the temporary directory is
  removed after it.\<close>

lemma prepare_rtl_workspace_Ok:
  assumes "prepare_rtl_workspace git sha expanduser resolve mkdtemp rtl sbfl_dir patch allow body fs = (Inr x, fs')"
  obtains ws s s' where "body ws s = (Inr x, s')" "fs' = s' \<or> fs' = remove_tree (mkdtemp fs) s'"
  using assms unfolding prepare_rtl_workspace_def Let_def
  by (auto simp: efinally_def eupd_def ebind_def split: if_splits sum.splits option.splits prod.splits)

lemma read_text_remove_tree: "\<not> at_or_below p q \<Longrightarrow> read_text (remove_tree p fs) q = read_text fs q"
  by (simp add: read_text_def remove_tree_lookup)

lemma rerank_candidates_Ok:
  assumes "rerank_candidates w a fs = Ok (result_log, blocks_json, output_dir, cs)"
    and "parse_block_suspiciousness fs result_log = Ok ranked" "distinct (map rank ranked)"
  shows "distinct (map candidate_id cs)" "\<forall>c \<in> set cs. wf_candidate c" "ra_top_k a \<le> int (length cs)"
proof -
  obtain m where b: "build_candidates ranked m (ra_candidate_count a) = Ok cs" and k: "ra_top_k a \<le> int (length cs)"
    using assms(1,2) unfolding rerank_candidates_def by (fastforce elim!: rbind_OkE split: if_splits)
  obtain l where l: "build_loop m [] l = Ok cs"
    using b by (auto simp: build_candidates_def rbind_eq_Ok split: if_splits)
  show "distinct (map candidate_id cs)" using build_candidates_ids [OF b assms(3)] .
  show "\<forall>c \<in> set cs. wf_candidate c" using build_loop_Ok [OF l] by auto
  show "ra_top_k a \<le> int (length cs)" by (rule k)
qed

lemma rerank_in_workspace_writes:
  assumes "rerank_in_workspace w a rtl result_log blocks_json cs info src output_path ws fs = (Inr x, fs')" "\<not> ra_dry_run a"
  obtains sources inputs hashes r as out where
    "rank_candidates cs (response r) (ra_llm_weight a) = Ok as"
    "out = rerank_output w a rtl result_log blocks_json (length cs) sources inputs hashes r as"
    "read_text fs' output_path = Ok (rw_dumps w (JObj out) @ [NL])"
  using assms unfolding rerank_in_workspace_def Let_def atomic_write_json_def
  by (auto simp: ebind_result_Ok elift_def dest!: atomic_write_text_read)

lemma rerank_output_wf:
  assumes "rank_candidates cs resp weight = Ok as" "distinct (map candidate_id cs)" "\<forall>c \<in> set cs. wf_candidate c"
    and "0 < ra_top_k a" "ra_top_k a \<le> int (length cs)"
    and "out = rerank_output w a rtl result_log blocks_json n sources inputs hashes r as"
  shows "check_rerank_result (JObj out) = Ok out \<and> map_of out ''top_k'' = Some (JInt (ra_top_k a))
    \<and> map_of out ''assessments'' = Some (JArr (map JObj as)) \<and> mset (map cand_id as) = mset (map candidate_id cs)"
proof -
  have rk: "(case (cs, resp, weight) of (c, r, w) \<Rightarrow> rank_candidates c r w) = Inr as" using assms(1) by simp
  have len: "length as = length cs" using online.ranked_length [OF rk] by simp
  have p: "py_prefix as (ra_top_k a) = take (nat (ra_top_k a)) as" using assms(4) by (simp add: py_prefix_def)
  have m: "map_of out ''rankings'' = Some (JArr (map JObj (take (nat (ra_top_k a)) as)))"
    "map_of out ''top_k'' = Some (JInt (int (nat (ra_top_k a))))"
    "map_of out ''assessments'' = Some (JArr (map JObj as))" "\<exists>c. map_of out ''config'' = Some (JObj c)"
    using assms(4,6) by (simp_all add: rerank_output_def p)
  have "wf_result out"
    using online.ranked_prefix_wf [OF rk _ _ _ _ m(1,2)] assms(2-5) len by (simp add: le_nat_iff)
  with m(4) have "check_rerank_result (JObj out) = Ok out" by (intro check_rerank_result_fixpoint) auto
  moreover have "mset (map cand_id as) = mset (map candidate_id cs)" using online.ranked_permutation [OF rk] by simp
  ultimately show ?thesis using m assms(4) by simp
qed

text \<open>C2: a reranking that ends without an error leaves, at its output path, a result the summaries accept unchanged;
  it scores every candidate exactly once and records the requested number of rankings.\<close>

theorem run_rerank_loadable:
  assumes "rerank_candidates w a fs = Ok (result_log, blocks_json, output_dir, cs)"
    and "parse_block_suspiciousness fs result_log = Ok ranked" "distinct (map rank ranked)"
    and "validate_args a" "\<not> ra_dry_run a"
    and "\<not> at_or_below (rw_mkdtemp w fs) (rerank_output_path w a output_dir)"
    and "run_rerank w a fs = (Ok x, fs')"
  shows "\<exists>out as. read_text fs' (rerank_output_path w a output_dir) = Ok (rw_dumps w (JObj out) @ [NL])
    \<and> check_rerank_result (JObj out) = Ok out \<and> map_of out ''top_k'' = Some (JInt (ra_top_k a))
    \<and> map_of out ''assessments'' = Some (JArr (map JObj as)) \<and> mset (map cand_id as) = mset (map candidate_id cs)"
proof -
  let ?p = "rerank_output_path w a output_dir" and ?rtl = "rw_resolve w (ra_rtl_source a)"
  obtain info src ws s s' where
      body: "rerank_in_workspace w a ?rtl result_log blocks_json cs info src ?p ws s = (Inr x, s')"
    and fs': "fs' = s' \<or> fs' = remove_tree (rw_mkdtemp w fs) s'"
    using assms(1,7) unfolding run_rerank_def Let_def
    by (auto simp: ebind_def eget_def elift_def split: sum.splits prod.splits elim!: prepare_rtl_workspace_Ok)
  from rerank_in_workspace_writes [OF body assms(5)] obtain sources inputs hashes r as out where
      as: "rank_candidates cs (response r) (ra_llm_weight a) = Ok as"
    and out: "out = rerank_output w a ?rtl result_log blocks_json (length cs) sources inputs hashes r as"
    and rd: "read_text s' ?p = Ok (rw_dumps w (JObj out) @ [NL])" by metis
  have "read_text fs' ?p = Ok (rw_dumps w (JObj out) @ [NL])"
    using rd fs' assms(6) by (auto simp: read_text_remove_tree)
  moreover have "0 < ra_top_k a" using assms(4) by (simp add: validate_args_def)
  ultimately show ?thesis
    using rerank_output_wf [OF as rerank_candidates_Ok(1,2) [OF assms(1-3)] _ rerank_candidates_Ok(3) [OF assms(1-3)] out] by blast
qed

definition demo_rerank_fs :: fs where
  "demo_rerank_fs =
     [(path_of ''/rtl'', Directory),
      (path_of ''/rtl/ma.sv'', File (join [NL] [''module ma;'', ''assign a = b;'', ''endmodule''])),
      (path_of ''/log'', Directory), (path_of ''/log/blocks.json'', File ''blocks''),
      (path_of ''/log/result.log'', File (join [NL] [''Suspiciousness of block:'',
         ''top-1: Block(scope: top.a, bid: 7) with suspicious '' @ [SQ] @ ''1'' @ [SQ], ''top-2: Block(scope: top.b, bid: 7) with suspicious '' @ [SQ] @ ''1'' @ [SQ]]))]"

definition demo_rerank_world :: rerank_world where
  "demo_rerank_world =
     \<lparr>rw_dumps = (\<lambda>_. ''w''), rw_dumps_sorted = (\<lambda>_. ''w''),
      rw_outside = sample_outside
        \<lparr>out_loads := (\<lambda>s. if s = ''blocks''
           then Some (JArr [JObj [(''scope'', JStr ''top.a''), (''bid'', JInt 7), (''module'', JStr ''ma''), (''lines'', JArr [JInt 2])]])
           else Some (JObj [])),
         out_validate := (\<lambda>_ _. Inr [\<lparr>assessed_id = ''B001'', score = Fin 1, reason = None\<rparr>])\<rparr>,
      rw_service = (\<lambda>_ _ _. out_service sample_outside),
      rw_schema = (\<lambda>_. JNull), rw_transform = (\<lambda>v. v), rw_git = (\<lambda>fs ws p args. (0, fs)), rw_sha = (\<lambda>s. s),
      rw_mkdtemp = (\<lambda>_. path_of ''/tmp0''), rw_resolve = (\<lambda>p. p), rw_expanduser = (\<lambda>p. p),
      rw_environ = (\<lambda>n. if n = ''OPENAI_API_KEY'' then Some ''k'' else None), rw_version = ''1''\<rparr>"

definition demo_rerank_args :: rerank_args where
  "demo_rerank_args =
     \<lparr>ra_rtl_source = path_of ''/rtl'', ra_sbfl_result = path_of ''/log'', ra_patch = None, ra_allow_unpatched_source = True,
      ra_test_info = None, ra_test_info_file = None, ra_model = ''gpt-5'', ra_api_base = None, ra_api_protocol = None,
      ra_api_key_env = None, ra_timeout = Fin 1, ra_temperature = Fin 0, ra_max_output_tokens = 10, ra_reasoning_effort = ''high'',
      ra_retries = 1, ra_retry_delay = Fin 1, ra_structured_output = ''auto'', ra_candidate_count = 2, ra_top_k = 1,
      ra_source_mode = ''auto'', ra_max_source_chars = 200, ra_snippet_radius = 1, ra_llm_weight = Fin 1, ra_include_reason = False,
      ra_output = None, ra_save_prompt = True, ra_dry_run = False\<rparr>"

definition demo_rerank_ranked :: "ranked_block list" where
  "demo_rerank_ranked =
     (case parse_block_suspiciousness demo_rerank_fs (path_of ''/log/result.log'') of Inr r \<Rightarrow> r | Inl _ \<Rightarrow> [])"

definition demo_rerank_candidates :: "candidate list" where
  "demo_rerank_candidates = (case rerank_candidates demo_rerank_world demo_rerank_args demo_rerank_fs of
     Inr (l, b, d, cs) \<Rightarrow> cs | Inl _ \<Rightarrow> [])"

lemma demo_rerank_read:
  "rerank_candidates demo_rerank_world demo_rerank_args demo_rerank_fs
     = Ok (path_of ''/log/result.log'', path_of ''/log/blocks.json'', path_of ''/log'', demo_rerank_candidates)"
  by code_simp

lemma demo_rerank_parsed:
  "parse_block_suspiciousness demo_rerank_fs (path_of ''/log/result.log'') = Ok demo_rerank_ranked"
  by code_simp

lemma demo_rerank_ids: "map candidate_id demo_rerank_candidates = [''B001'']"
  by code_simp

lemma demo_rerank_ranks: "distinct (map rank demo_rerank_ranked)"
  by code_simp

lemma demo_rerank_valid: "validate_args demo_rerank_args" "\<not> ra_dry_run demo_rerank_args"
  by code_simp+

lemma demo_rerank_path:
  "rerank_output_path demo_rerank_world demo_rerank_args (path_of ''/log'') = path_of ''/log/llm_rerank.json''"
  "\<not> at_or_below (rw_mkdtemp demo_rerank_world demo_rerank_fs) (rerank_output_path demo_rerank_world demo_rerank_args (path_of ''/log''))"
  by code_simp+

theorem run_rerank_loadable_witness:
  "\<exists>lines fs' out as. run_rerank demo_rerank_world demo_rerank_args demo_rerank_fs = (Ok (0, lines), fs')
     \<and> read_text fs' (path_of ''/log/llm_rerank.json'') = Ok (''w'' @ [NL]) \<and> check_rerank_result (JObj out) = Ok out
     \<and> map_of out ''assessments'' = Some (JArr (map JObj as)) \<and> mset (map cand_id as) = {#''B001''#}"
proof -
  let ?run = "run_rerank demo_rerank_world demo_rerank_args demo_rerank_fs"
  have "(case fst ?run of Inr (n, l) \<Rightarrow> n = 0 | Inl _ \<Rightarrow> False)" by code_simp
  then obtain lines fs' where run: "?run = (Ok (0, lines), fs')"
    by (cases ?run) (auto split: sum.splits prod.splits)
  from run_rerank_loadable [OF demo_rerank_read demo_rerank_parsed demo_rerank_ranks demo_rerank_valid demo_rerank_path(2) run] obtain out as where
      o: "read_text fs' (path_of ''/log/llm_rerank.json'') = Ok (rw_dumps demo_rerank_world (JObj out) @ [NL])"
        "check_rerank_result (JObj out) = Ok out" "map_of out ''assessments'' = Some (JArr (map JObj as))"
        "mset (map cand_id as) = {#''B001''#}"
    unfolding demo_rerank_path(1) demo_rerank_ids by auto
  have "rw_dumps demo_rerank_world (JObj out) = ''w''" by (simp add: demo_rerank_world_def)
  with o run show ?thesis by metis
qed

end
