(* ===== verification/Bug_Info.thy ===== *)
theory Bug_Info
  imports Artifacts
begin

text \<open>
  \<open>scripts/bugset_gen_bug_info.py\<close>: the file \<open>bug_info.json\<close> of a bug case, from its difference and its
  \<open>oracle_info.json\<close>. The JSON codec is a parameter. The lines recorded are proved to be those of the changes of
  a unified difference, and the file is proved to be the one the rank of the bug is computed from.
\<close>

section \<open>The changed lines of a difference\<close>

definition HUNK_RE :: re where
  "HUNK_RE = Seqs
     [Lit ''@@ -'', Cap ''old'' (Some1 is_digit), Opt (Seqs [Lit '','', Some1 is_digit]),
      Lit '' +'', Cap ''new'' (Some1 is_digit), Opt (Seqs [Lit '','', Some1 is_digit]), Lit '' @@'']"

text \<open>The variables of the loop; both line numbers are set by the first hunk.\<close>

record diff_scan =
  linenos :: "(int \<times> int) option"
  modify_lines :: "int list"
  pending_deletes :: "(int \<times> string) list"

definition blank :: "string \<Rightarrow> bool" where
  "blank s \<longleftrightarrow> strip s = []"

definition flush_pending_deletes :: "diff_scan \<Rightarrow> diff_scan" where
  "flush_pending_deletes st =
     st\<lparr>modify_lines := modify_lines st @ map fst (filter (\<lambda>(n, t). \<not> blank t) (pending_deletes st)), pending_deletes := []\<rparr>"

definition hunk_start :: "string \<Rightarrow> (int \<times> int) option" where
  "hunk_start line =
     (case re_match HUNK_RE line of
        None \<Rightarrow> None
      | Some e \<Rightarrow> Some (the (py_int (the (group e ''old''))), the (py_int (the (group e ''new'')))))"

definition added_line :: "diff_scan \<Rightarrow> int \<Rightarrow> string \<Rightarrow> diff_scan" where
  "added_line st new_lineno new_text =
     (case pending_deletes st of
        (old_no, old_text) # rest \<Rightarrow>
          st\<lparr>pending_deletes := rest,
             modify_lines := modify_lines st @ (if \<not> blank old_text \<or> \<not> blank new_text then [new_lineno] else [])\<rparr>
      | [] \<Rightarrow> st\<lparr>modify_lines := modify_lines st @ (if \<not> blank new_text then [new_lineno] else [])\<rparr>)"

definition diff_step :: "diff_scan \<Rightarrow> string \<Rightarrow> diff_scan" where
  "diff_step st line =
     (case hunk_start line of
        Some ns \<Rightarrow> (flush_pending_deletes st)\<lparr>linenos := Some ns\<rparr>
      | None \<Rightarrow>
          (case linenos st of
             None \<Rightarrow> st
           | Some (old_lineno, new_lineno) \<Rightarrow>
               if startswith line '' '' then
                 (flush_pending_deletes st)\<lparr>linenos := Some (old_lineno + 1, new_lineno + 1)\<rparr>
               else if startswith line ''-'' \<and> \<not> startswith line ''---'' then
                 st\<lparr>pending_deletes := pending_deletes st @ [(old_lineno, drop 1 line)],
                    linenos := Some (old_lineno + 1, new_lineno)\<rparr>
               else if startswith line ''+'' \<and> \<not> startswith line ''+++'' then
                 (added_line st new_lineno (drop 1 line))\<lparr>linenos := Some (old_lineno, new_lineno + 1)\<rparr>
               else st))"

definition scan_start :: diff_scan where
  "scan_start = \<lparr>linenos = None, modify_lines = [], pending_deletes = []\<rparr>"

definition modified_lines :: "string list \<Rightarrow> int list" where
  "modified_lines ls = uniq (modify_lines (flush_pending_deletes (foldl diff_step scan_start ls)))"

definition parse_modified_lines :: "fs \<Rightarrow> path \<Rightarrow> int list res" where
  "parse_modified_lines fs diff_path = rbind (read_text fs diff_path) (\<lambda>text. Ok (modified_lines (text_lines text)))"

section \<open>A case\<close>

definition get_module_name_from_diff :: "path \<Rightarrow> string res" where
  "get_module_name_from_diff diff_path =
     (if \<not> endswith (path_name diff_path) ''.sv.diff'' then Err ValueError
      else Ok (removesuffix (path_name diff_path) ''.sv.diff''))"

definition read_oracle :: "decoder \<Rightarrow> fs \<Rightarrow> path \<Rightarrow> (json \<times> json) res" where
  "read_oracle loads fs oracle_path =
     rbind (read_text fs oracle_path) (\<lambda>text.
     rbind (res_of JSONDecodeError (loads text)) (\<lambda>oracle.
     rbind (jget oracle ''module_name'' JNull) (\<lambda>module_name.
     rbind (jget oracle ''scope_name'' JNull) (\<lambda>scope_name.
       if \<not> jtruth module_name then Err ValueError
       else if \<not> jtruth scope_name then Err ValueError
       else Ok (module_name, scope_name)))))"

definition case_info :: "decoder \<Rightarrow> fs \<Rightarrow> path \<Rightarrow> path \<Rightarrow> bool \<Rightarrow> (jobj \<times> bool) res" where
  "case_info loads fs diff_path oracle_path strict =
     rbind (read_oracle loads fs oracle_path) (\<lambda>(module_name, scope_name).
     rbind (get_module_name_from_diff diff_path) (\<lambda>module_from_diff.
       let mismatch = (module_name \<noteq> JStr module_from_diff) in
       if mismatch \<and> strict then Err ValueError
       else rbind (parse_modified_lines fs diff_path) (\<lambda>lines.
         Ok ([(''module_name'', module_name), (''scope_name'', scope_name), (''modify_line'', JArr (map JInt lines))], mismatch))))"

text \<open>The result says whether the file was written; the text of the warnings is left out.\<close>

definition process_case ::
  "decoder \<Rightarrow> (json \<Rightarrow> string) \<Rightarrow> path \<Rightarrow> string \<Rightarrow> bool \<Rightarrow> (fs, bool) eff" where
  "process_case loads dumps case_dir output_name strict =
     (let oracle_path = path_div case_dir ''oracle_info.json'' in
      ebind (eget (\<lambda>fs. (sort (glob_suffix fs case_dir ''.sv.diff''), is_file fs oracle_path))) (\<lambda>(diff_files, has_oracle).
        case diff_files of
          [] \<Rightarrow> eret False
        | diff_path # _ \<Rightarrow>
            if \<not> has_oracle then eret False
            else ebind (eget (\<lambda>fs. case_info loads fs diff_path oracle_path strict)) (\<lambda>r.
                 ebind (elift r) (\<lambda>(info, mismatch).
                 ebind (eupd (write_text (path_div case_dir output_name) (dumps (JObj info) @ [NL]))) (\<lambda>_. eret True)))))"

section \<open>A data set\<close>

text \<open>\<open>str.isdigit\<close> also holds of the superscript digits, which \<open>int\<close> refuses.\<close>

definition isdigit :: "string \<Rightarrow> bool" where
  "isdigit s \<longleftrightarrow> s \<noteq> [] \<and> list_all (\<lambda>c. is_digit c \<or> code c \<in> {178, 179, 185}) s"

text \<open>The keys of the sort: comparing a number with a name raises, and a sort of several directories with both
  kinds of key compares some number with some name.\<close>

definition case_key :: "path \<Rightarrow> (int + string) res" where
  "case_key p = (if isdigit (path_name p) then rbind (res_of ValueError (py_int (path_name p))) (\<lambda>n. Ok (Inl n))
                 else Ok (Inr (path_name p)))"

definition sort_case_dirs :: "path list \<Rightarrow> path list res" where
  "sort_case_dirs ps =
     rbind (rmapM case_key ps) (\<lambda>ks.
       if list_all isl ks then Ok (map snd (sort_key fst (zip (map projl ks) ps)))
       else if list_all (\<lambda>k. \<not> isl k) ks then Ok (map snd (sort_key fst (zip (map projr ks) ps)))
       else Err TypeError)"

definition dataset_dirs :: "fs \<Rightarrow> path \<Rightarrow> path list" where
  "dataset_dirs fs dataset_root =
     filter (is_dir fs) (sort (filter (\<lambda>p. startswith (path_name p) ''dataset_'') (iterdir fs dataset_root)))"

text \<open>The generator interleaves with the processing of the cases: a directory is listed when it is reached.\<close>

fun process_dirs :: "decoder \<Rightarrow> (json \<Rightarrow> string) \<Rightarrow> string \<Rightarrow> bool \<Rightarrow> path list \<Rightarrow> (fs, nat) eff" where
  "process_dirs loads dumps output_name strict [] = eret 0"
| "process_dirs loads dumps output_name strict (p # ps) =
     ebind (eget (\<lambda>fs. is_dir fs p)) (\<lambda>dir.
     ebind (if dir then process_case loads dumps p output_name strict else eret False) (\<lambda>written.
     ebind (process_dirs loads dumps output_name strict ps) (\<lambda>n. eret (if written then Suc n else n))))"

fun process_datasets :: "decoder \<Rightarrow> (json \<Rightarrow> string) \<Rightarrow> string \<Rightarrow> bool \<Rightarrow> path list \<Rightarrow> (fs, nat) eff" where
  "process_datasets loads dumps output_name strict [] = eret 0"
| "process_datasets loads dumps output_name strict (d # ds) =
     ebind (eget (\<lambda>fs. sort_case_dirs (iterdir fs d))) (\<lambda>r.
     ebind (elift r) (\<lambda>ps.
     ebind (process_dirs loads dumps output_name strict ps) (\<lambda>n.
     ebind (process_datasets loads dumps output_name strict ds) (\<lambda>m. eret (n + m)))))"

definition bug_info_main :: "decoder \<Rightarrow> (json \<Rightarrow> string) \<Rightarrow> path \<Rightarrow> string \<Rightarrow> bool \<Rightarrow> (fs, int \<times> string list) eff" where
  "bug_info_main loads dumps dataset_root output_name no_strict =
     ebind (eget (\<lambda>fs. (is_dir fs dataset_root, dataset_dirs fs dataset_root))) (\<lambda>(ok, ds).
       if \<not> ok then eret (1, [])
       else ebind (process_datasets loads dumps output_name (\<not> no_strict) ds) (\<lambda>count.
         eret (0, [''[DONE] generated '' @ str_nat count @ '' json files''])))"

section \<open>The lines recorded are those of the changes\<close>

text \<open>A hunk of a unified difference: where it starts in both files (with the optional lengths its header shows and the
  text after it), and its runs of unchanged and changed lines.\<close>

datatype segment = Context "string list" | Change "string list" "string list"

record hunk =
  h_old :: nat
  h_new :: nat
  h_old_count :: "nat option"
  h_new_count :: "nat option"
  h_heading :: string
  h_segments :: "segment list"

definition count_text :: "nat option \<Rightarrow> string" where
  "count_text c = (case c of None \<Rightarrow> [] | Some n \<Rightarrow> CHR '','' # str_nat n)"

definition hunk_header :: "hunk \<Rightarrow> string" where
  "hunk_header h = ''@@ -'' @ str_nat (h_old h) @ count_text (h_old_count h) @ '' +'' @ str_nat (h_new h) @
     count_text (h_new_count h) @ '' @@'' @ h_heading h"

fun segment_lines :: "segment \<Rightarrow> string list" where
  "segment_lines (Context ls) = map ((#) (CHR '' '')) ls"
| "segment_lines (Change old new) = map ((#) (CHR ''-'')) old @ map ((#) (CHR ''+'')) new"

definition hunk_lines :: "hunk \<Rightarrow> string list" where
  "hunk_lines h = hunk_header h # concat (map segment_lines (h_segments h))"

text \<open>What is recorded of a change: the new lines, but for those that only add or move blanks, then the old lines that
  nothing replaces.\<close>

definition change_lines :: "int \<Rightarrow> int \<Rightarrow> string list \<Rightarrow> string list \<Rightarrow> int list" where
  "change_lines i j old new =
     map (\<lambda>k. j + int k) (filter (\<lambda>k. \<not> blank (new ! k) \<or> k < length old \<and> \<not> blank (old ! k)) [0..<length new]) @
     map (\<lambda>k. i + int k) (filter (\<lambda>k. \<not> blank (old ! k)) [length new..<length old])"

fun segments_changes :: "int \<Rightarrow> int \<Rightarrow> segment list \<Rightarrow> int list" where
  "segments_changes i j [] = []"
| "segments_changes i j (Context ls # segs) = segments_changes (i + int (length ls)) (j + int (length ls)) segs"
| "segments_changes i j (Change old new # segs) =
     change_lines i j old new @ segments_changes (i + int (length old)) (j + int (length new)) segs"

text \<open>Unchanged runs are not empty and separate the changes; no line reads like a file header.\<close>

fun wf_segments :: "segment list \<Rightarrow> bool" where
  "wf_segments [] \<longleftrightarrow> True"
| "wf_segments (Context ls # segs) \<longleftrightarrow> ls \<noteq> [] \<and> wf_segments segs"
| "wf_segments [Change old new] \<longleftrightarrow> list_all (\<lambda>l. \<not> startswith l ''--'') old \<and> list_all (\<lambda>l. \<not> startswith l ''++'') new"
| "wf_segments (Change old new # Context ls # segs) \<longleftrightarrow> ls \<noteq> [] \<and> wf_segments segs
     \<and> list_all (\<lambda>l. \<not> startswith l ''--'') old \<and> list_all (\<lambda>l. \<not> startswith l ''++'') new"
| "wf_segments (Change _ _ # Change _ _ # segs) \<longleftrightarrow> False"

lemma digits_str_nat: "\<forall>c \<in> set (str_nat n). is_digit c" "str_nat n \<noteq> []"
  by (auto dest: str_nat_digits)

lemma first_match_count:
  assumes "s = [] \<or> \<not> is_digit (hd s) \<and> hd s \<noteq> CHR '',''"
  shows "first_match (Opt (Seq (Lit '','') (Some1 is_digit))) (count_text c @ s) e s e"
proof (cases c)
  case None
  have "rx (Seq (Lit '','') (Some1 is_digit)) s e = []"
    using assms by (cases s) auto
  then show ?thesis using None by (simp add: count_text_def first_match_Opt_none)
next
  case (Some n)
  have "first_match (Seq (Lit '','') (Some1 is_digit)) ('','' @ str_nat n @ s) e s e"
    by (rule first_match_Seq [OF first_match_Lit first_match_Some1]) (use assms digits_str_nat in auto)
  then show ?thesis using Some by (simp add: count_text_def first_match_Opt)
qed

lemma hunk_start_header: "hunk_start (hunk_header h) = Some (int (h_old h), int (h_new h))"
proof -
  have "first_match HUNK_RE (hunk_header h) [] (h_heading h) [(''new'', str_nat (h_new h)), (''old'', str_nat (h_old h))]"
    unfolding HUNK_RE_def hunk_header_def Seqs.simps
    apply (rule first_match_Seq [OF first_match_Lit])
    apply (rule first_match_Seq [OF first_match_Cap [OF first_match_Some1]])
    subgoal by (rule digits_str_nat)
    subgoal by (rule digits_str_nat)
    subgoal by (auto simp: count_text_def char_class_defs code_def split: option.splits)
    apply (rule first_match_Seq [OF first_match_count])
    subgoal by (simp add: char_class_defs code_def)
    apply (rule first_match_Seq [OF first_match_Lit])
    apply (rule first_match_Seq [OF first_match_Cap [OF first_match_Some1]])
    subgoal by (rule digits_str_nat)
    subgoal by (rule digits_str_nat)
    subgoal by (auto simp: count_text_def char_class_defs code_def split: option.splits)
    apply (rule first_match_Seq [OF first_match_count])
    subgoal by (simp add: char_class_defs code_def)
    apply (rule first_match_Lit)
    done
  from first_match_re_match [OF this] show ?thesis
    by (simp add: hunk_start_def group_def py_int_str_nat)
qed

lemma hunk_start_other: "c \<noteq> CHR ''@'' \<Longrightarrow> hunk_start (c # s) = None"
  by (simp add: hunk_start_def HUNK_RE_def re_match_def)

lemma diff_step_old:
  "\<not> startswith l ''--'' \<Longrightarrow> linenos st = Some (i, j) \<Longrightarrow>
   diff_step st (CHR ''-'' # l) = st\<lparr>pending_deletes := pending_deletes st @ [(i, l)], linenos := Some (i + 1, j)\<rparr>"
  by (simp add: diff_step_def hunk_start_other startswith_Cons)

lemma diff_step_new:
  "\<not> startswith l ''++'' \<Longrightarrow> linenos st = Some (i, j) \<Longrightarrow>
   diff_step st (CHR ''+'' # l) = (added_line st j l)\<lparr>linenos := Some (i, j + 1)\<rparr>"
  by (simp add: diff_step_def hunk_start_other startswith_Cons)

lemma diff_step_context:
  "linenos st = Some (i, j) \<Longrightarrow>
   diff_step st (CHR '' '' # l) = (flush_pending_deletes st)\<lparr>linenos := Some (i + 1, j + 1)\<rparr>"
  by (simp add: diff_step_def hunk_start_other startswith_Cons)

lemma foldl_old:
  "list_all (\<lambda>l. \<not> startswith l ''--'') ls \<Longrightarrow> linenos st = Some (i, j) \<Longrightarrow>
   foldl diff_step st (map ((#) (CHR ''-'')) ls)
     = st\<lparr>pending_deletes := pending_deletes st @ zip (map (\<lambda>k. i + int k) [0..<length ls]) ls,
          linenos := Some (i + int (length ls), j)\<rparr>"
proof (induction ls arbitrary: st i)
  case (Cons l ls)
  have "map (\<lambda>k. i + int k) [0..<length (l # ls)] = i # map (\<lambda>k. (i + 1) + int k) [0..<length ls]"
    by (simp add: upt_conv_Cons map_Suc_upt [symmetric] add.assoc del: upt_Suc)
  with Cons show ?case by (simp add: diff_step_old add.assoc del: upt_Suc)
qed simp

text \<open>The new lines of a change against the old lines that wait.\<close>

definition new_changes :: "int \<Rightarrow> string list \<Rightarrow> string list \<Rightarrow> int list" where
  "new_changes j old new =
     map (\<lambda>k. j + int k) (filter (\<lambda>k. \<not> blank (new ! k) \<or> k < length old \<and> \<not> blank (old ! k)) [0..<length new])"

lemma filter_upt_Suc:
  "map (\<lambda>k. j + int k) (filter p [0..<Suc n]) = (if p 0 then [j] else []) @ map (\<lambda>k. (j + 1) + int k) (filter (\<lambda>k. p (Suc k)) [0..<n])"
  by (simp add: upt_conv_Cons map_Suc_upt [symmetric] filter_map del: upt_Suc) (simp add: comp_def add.assoc)

lemma new_changes_Cons:
  "new_changes j old (l # new) =
     (if \<not> blank l \<or> old \<noteq> [] \<and> \<not> blank (hd old) then [j] else []) @ new_changes (j + 1) (tl old) new"
  by (cases old) (simp_all add: new_changes_def filter_upt_Suc del: upt_Suc)

lemma foldl_new:
  "list_all (\<lambda>l. \<not> startswith l ''++'') ls \<Longrightarrow> linenos st = Some (i, j) \<Longrightarrow>
   foldl diff_step st (map ((#) (CHR ''+'')) ls)
     = st\<lparr>modify_lines := modify_lines st @ new_changes j (map snd (pending_deletes st)) ls,
          pending_deletes := drop (length ls) (pending_deletes st), linenos := Some (i, j + int (length ls))\<rparr>"
proof (induction ls arbitrary: st j)
  case (Cons l ls)
  show ?case
    using Cons.prems Cons.IH
    by (cases "pending_deletes st") (auto simp: diff_step_new added_line_def new_changes_Cons)
qed (simp add: new_changes_def)

lemma foldl_context:
  assumes "ls \<noteq> []" "linenos st = Some (i, j)"
  shows "foldl diff_step st (map ((#) (CHR '' '')) ls)
     = (flush_pending_deletes st)\<lparr>linenos := Some (i + int (length ls), j + int (length ls))\<rparr>"
proof -
  have more: "linenos s = Some (a, b) \<Longrightarrow> pending_deletes s = [] \<Longrightarrow>
      foldl diff_step s (map ((#) (CHR '' '')) xs) = s\<lparr>linenos := Some (a + int (length xs), b + int (length xs))\<rparr>" for s xs a b
    by (induction xs arbitrary: s a b) (simp_all add: diff_step_context flush_pending_deletes_def)
  obtain l xs where "ls = l # xs" using assms(1) by (cases ls) auto
  then show ?thesis using assms(2) by (simp add: diff_step_context more flush_pending_deletes_def add.assoc)
qed

text \<open>What a scan records in the end.\<close>

definition recorded :: "diff_scan \<Rightarrow> int list" where
  "recorded st = modify_lines (flush_pending_deletes st)"

lemma foldl_change:
  assumes "list_all (\<lambda>l. \<not> startswith l ''--'') old" "list_all (\<lambda>l. \<not> startswith l ''++'') new"
    and "linenos st = Some (i, j)" "pending_deletes st = []"
  shows "linenos (foldl diff_step st (segment_lines (Change old new))) = Some (i + int (length old), j + int (length new))"
    "recorded (foldl diff_step st (segment_lines (Change old new))) = modify_lines st @ change_lines i j old new"
proof -
  let ?z = "zip (map (\<lambda>k. i + int k) [0..<length old]) old"
  have snd: "map snd ?z = old" by simp
  have z: "?z = map (\<lambda>k. (i + int k, old ! k)) [0..<length old]"
    by (rule nth_equalityI) auto
  have st: "foldl diff_step st (segment_lines (Change old new))
     = st\<lparr>modify_lines := modify_lines st @ new_changes j old new, pending_deletes := drop (length new) ?z,
          linenos := Some (i + int (length old), j + int (length new))\<rparr>"
    using assms by (simp add: foldl_old foldl_new snd)
  show "linenos (foldl diff_step st (segment_lines (Change old new))) = Some (i + int (length old), j + int (length new))"
    by (simp add: st del: segment_lines.simps)
  have "map fst (filter (\<lambda>(n, t). \<not> blank t) (drop (length new) ?z))
      = map (\<lambda>k. i + int k) (filter (\<lambda>k. \<not> blank (old ! k)) [length new..<length old])"
    unfolding z by (simp add: drop_map filter_map comp_def)
  then show "recorded (foldl diff_step st (segment_lines (Change old new))) = modify_lines st @ change_lines i j old new"
    by (simp add: st recorded_def flush_pending_deletes_def change_lines_def new_changes_def del: segment_lines.simps)
qed

lemma foldl_segments:
  "wf_segments segs \<Longrightarrow> linenos st = Some (i, j) \<Longrightarrow> pending_deletes st = [] \<Longrightarrow>
   recorded (foldl diff_step st (concat (map segment_lines segs))) = modify_lines st @ segments_changes i j segs"
proof (induction segs arbitrary: st i j rule: wf_segments.induct)
  case (2 ls segs)
  then show ?case by (simp add: foldl_context flush_pending_deletes_def)
next
  case (3 old new)
  then show ?case using foldl_change(2) [of old new st i j] by simp
next
  case (4 old new ls segs)
  let ?s = "foldl diff_step st (segment_lines (Change old new))"
  have c: "linenos ?s = Some (i + int (length old), j + int (length new))" "recorded ?s = modify_lines st @ change_lines i j old new"
    using foldl_change [of old new st i j] 4 by simp_all
  have "recorded (foldl diff_step st (concat (map segment_lines (Change old new # Context ls # segs))))
      = recorded (foldl diff_step (foldl diff_step ?s (segment_lines (Context ls))) (concat (map segment_lines segs)))"
    by simp
  also have "\<dots> = recorded ?s @ segments_changes (i + int (length old) + int (length ls)) (j + int (length new) + int (length ls)) segs"
    using 4 c(1) by (simp add: foldl_context recorded_def flush_pending_deletes_def)
  finally show ?case using c(2) by simp
qed (simp_all add: recorded_def flush_pending_deletes_def)

lemma foldl_hunks:
  "\<forall>h \<in> set hs. wf_segments (h_segments h) \<Longrightarrow>
   recorded (foldl diff_step st (concat (map hunk_lines hs)))
     = recorded st @ concat (map (\<lambda>h. segments_changes (int (h_old h)) (int (h_new h)) (h_segments h)) hs)"
proof (induction hs arbitrary: st)
  case (Cons h hs)
  let ?s = "(flush_pending_deletes st)\<lparr>linenos := Some (int (h_old h), int (h_new h))\<rparr>"
  have "diff_step st (hunk_header h) = ?s" by (simp add: diff_step_def hunk_start_header)
  moreover have "recorded (foldl diff_step ?s (concat (map segment_lines (h_segments h))))
      = recorded st @ segments_changes (int (h_old h)) (int (h_new h)) (h_segments h)"
    using foldl_segments [of "h_segments h" ?s] Cons.prems by (simp add: recorded_def flush_pending_deletes_def)
  ultimately show ?case using Cons by (simp add: hunk_lines_def)
qed simp

lemma foldl_preamble:
  "list_all (\<lambda>l. hunk_start l = None) ls \<Longrightarrow> linenos st = None \<Longrightarrow> foldl diff_step st ls = st"
  by (induction ls) (simp_all add: diff_step_def)

lemma modified_lines_hunks:
  assumes "list_all (\<lambda>l. hunk_start l = None) preamble" "\<forall>h \<in> set hs. wf_segments (h_segments h)"
  shows "modified_lines (preamble @ concat (map hunk_lines hs))
    = uniq (concat (map (\<lambda>h. segments_changes (int (h_old h)) (int (h_new h)) (h_segments h)) hs))"
  using foldl_preamble [OF assms(1), of scan_start] foldl_hunks [OF assms(2), of scan_start]
  by (simp add: modified_lines_def recorded_def scan_start_def flush_pending_deletes_def)

text \<open>C34: on a difference made of hunks whose changes are separated by unchanged lines (after any preamble), the lines
  recorded are the new lines of the changes, without those where both sides are blank, and the removed lines that
  nothing replaces, each once and in their order; no line of a change may look like a file header.\<close>

theorem parse_modified_lines_spec:
  assumes "read_text fs p = Ok contents" "text_lines contents = preamble @ concat (map hunk_lines hs)"
    and "list_all (\<lambda>l. hunk_start l = None) preamble" "\<forall>h \<in> set hs. wf_segments (h_segments h)"
  shows "parse_modified_lines fs p
    = Ok (uniq (concat (map (\<lambda>h. segments_changes (int (h_old h)) (int (h_new h)) (h_segments h)) hs)))"
  using assms modified_lines_hunks [OF assms(3,4)] by (simp add: parse_modified_lines_def)

definition demo_hunk :: hunk where
  "demo_hunk = \<lparr>h_old = 3, h_new = 3, h_old_count = Some 4, h_new_count = None, h_heading = '' module m'',
     h_segments = [Context [''a''], Change [''b'', ''c'', ''d''] [''x'', []], Context [''e'', []]]\<rparr>"

definition demo_diff_lines :: "string list" where
  "demo_diff_lines = [''--- a/rtl/m.sv'', ''+++ b/rtl/m.sv''] @ hunk_lines demo_hunk"

definition demo_case_fs :: fs where
  "demo_case_fs = [(path_of ''/d'', Directory), (path_of ''/d/m.sv.diff'', File (concat (map (\<lambda>l. l @ [NL]) demo_diff_lines))),
     (path_of ''/d/oracle_info.json'', File ''o'')]"

lemma demo_modified: "parse_modified_lines demo_case_fs (path_of ''/d/m.sv.diff'') = Ok [4, 5, 6]"
  by code_simp

theorem parse_modified_lines_spec_witness:
  "segments_changes 3 3 (h_segments demo_hunk) = [4, 5, 6]
   \<and> parse_modified_lines demo_case_fs (path_of ''/d/m.sv.diff'') = Ok (uniq [4, 5, 6])"
proof -
  have r: "read_text demo_case_fs (path_of ''/d/m.sv.diff'') = Ok (concat (map (\<lambda>l. l @ [NL]) demo_diff_lines))" by code_simp
  have l: "text_lines (concat (map (\<lambda>l. l @ [NL]) demo_diff_lines))
      = [''--- a/rtl/m.sv'', ''+++ b/rtl/m.sv''] @ concat (map hunk_lines [demo_hunk])" by code_simp
  have p: "list_all (\<lambda>l. hunk_start l = None) [''--- a/rtl/m.sv'', ''+++ b/rtl/m.sv'']" by (simp add: hunk_start_other)
  have w: "\<forall>h \<in> set [demo_hunk]. wf_segments (h_segments h)" by (simp add: demo_hunk_def startswith_Cons)
  have c: "segments_changes 3 3 (h_segments demo_hunk) = [4, 5, 6]" by code_simp
  have n: "int (h_old demo_hunk) = 3" "int (h_new demo_hunk) = 3" by (simp_all add: demo_hunk_def)
  from parse_modified_lines_spec [OF r l p w] show ?thesis by (simp add: n c)
qed

section \<open>The file is the one the rank is computed from\<close>

lemma process_case_written:
  assumes "process_case loads dumps case_dir output_name strict fs = (Ok True, fs')"
    and "sort (glob_suffix fs case_dir ''.sv.diff'') = d # rest"
    and "case_info loads fs d (path_div case_dir ''oracle_info.json'') strict = Ok (info, mismatch)"
  shows "read_text fs' (path_div case_dir output_name) = Ok (dumps (JObj info) @ [NL])"
proof -
  have "write_text (path_div case_dir output_name) (dumps (JObj info) @ [NL]) fs = Ok fs'"
    using assms unfolding process_case_def Let_def
    by (auto simp: ebind_result_Ok eget_def elift_def eupd_Ok split: if_splits)
  then show ?thesis by (simp add: read_text_write)
qed

lemma case_info_Ok:
  assumes "case_info loads fs d oracle strict = Ok (info, mismatch)"
  shows "\<exists>m sc ls. info = [(''module_name'', m), (''scope_name'', sc), (''modify_line'', JArr (map JInt ls))]
    \<and> parse_modified_lines fs d = Ok ls \<and> (strict \<longrightarrow> m = JStr (removesuffix (path_name d) ''.sv.diff''))"
  using assms unfolding case_info_def get_module_name_from_diff_def Let_def
  by (auto elim!: rbind_OkE split: if_splits)

lemma read_text_is_file: "read_text fs p = Ok s \<Longrightarrow> is_file fs p"
  by (auto simp: read_text_def is_file_def split: option.splits node.splits)

text \<open>C35: the file written for a case is the one \<open>load_bug_info_from_case_dir\<close> returns, its lines are those of the first
  difference of the case and, unless the check is disabled, its module is the one the difference is named after. The
  JSON codec reads back what it wrote.\<close>

theorem process_case_loaded:
  assumes "process_case loads dumps case_dir ''bug_info.json'' strict fs = (Ok True, fs')"
    and "sort (glob_suffix fs case_dir ''.sv.diff'') = d # rest"
    and "case_info loads fs d (path_div case_dir ''oracle_info.json'') strict = Ok (info, mismatch)"
    and "loads (dumps (JObj info) @ [NL]) = Some (JObj info)"
  shows "load_bug_info_from_case_dir loads fs' case_dir = Ok (Some info)
    \<and> (\<exists>ls. parse_modified_lines fs d = Ok ls \<and> map_of info ''modify_line'' = Some (JArr (map JInt ls)))
    \<and> (strict \<longrightarrow> map_of info ''module_name'' = Some (JStr (removesuffix (path_name d) ''.sv.diff'')))"
proof -
  have r: "read_text fs' (path_div case_dir ''bug_info.json'') = Ok (dumps (JObj info) @ [NL])"
    by (rule process_case_written [OF assms(1-3)])
  from case_info_Ok [OF assms(3)] obtain m sc ls where
      i: "info = [(''module_name'', m), (''scope_name'', sc), (''modify_line'', JArr (map JInt ls))]"
    and "parse_modified_lines fs d = Ok ls" "strict \<longrightarrow> m = JStr (removesuffix (path_name d) ''.sv.diff'')" by blast
  moreover have "load_bug_info_from_case_dir loads fs' case_dir = Ok (Some info)"
    using r read_text_is_file [OF r] i assms(4) by (simp add: load_bug_info_from_case_dir_def Let_def)
  ultimately show ?thesis by simp
qed

definition demo_info :: jobj where
  "demo_info = [(''module_name'', JStr ''m''), (''scope_name'', JStr ''top''), (''modify_line'', JArr (map JInt [4, 5, 6]))]"

definition demo_info_loads :: decoder where
  "demo_info_loads s = (if s = ''o'' then Some (JObj [(''scope_name'', JStr ''top''), (''module_name'', JStr ''m'')]) else Some (JObj demo_info))"

theorem process_case_loaded_witness:
  "\<exists>fs'. process_case demo_info_loads (\<lambda>_. ''w'') (path_of ''/d'') ''bug_info.json'' True demo_case_fs = (Ok True, fs')
     \<and> load_bug_info_from_case_dir demo_info_loads fs' (path_of ''/d'') = Ok (Some demo_info)
     \<and> map_of demo_info ''module_name'' = Some (JStr (removesuffix (path_name (path_of ''/d/m.sv.diff'')) ''.sv.diff''))"
proof -
  let ?run = "process_case demo_info_loads (\<lambda>_. ''w'') (path_of ''/d'') ''bug_info.json'' True demo_case_fs"
  have "fst ?run = Ok True" by code_simp
  then obtain fs' where run: "?run = (Ok True, fs')" by (cases ?run) auto
  have d: "sort (glob_suffix demo_case_fs (path_of ''/d'') ''.sv.diff'') = [path_of ''/d/m.sv.diff'']" by code_simp
  have c: "case_info demo_info_loads demo_case_fs (path_of ''/d/m.sv.diff'') (path_div (path_of ''/d'') ''oracle_info.json'') True
      = Ok (demo_info, False)" by code_simp
  have l: "demo_info_loads (''w'' @ [NL]) = Some (JObj demo_info)" by (simp add: demo_info_loads_def)
  from process_case_loaded [OF run d c l] run show ?thesis by blast
qed

end
