(* ===== verification/Diff_Headers.thy ===== *)
theory Diff_Headers
  imports Patching
begin

text \<open>
  \<open>scripts/bugset_fix_diff_headers.py\<close>: the file headers of the differences of a bug set are rewritten to name
  \<open>a/rtl/...\<close>. Repairing a file twice is the same as once, and a repaired header is one the patching of
  \<open>ibex_sbfl_llm\<close> accepts.
\<close>

section \<open>Headers\<close>

definition SV_PATH_RE :: re where
  "SV_PATH_RE = Seqs
     [Alt (Lit ''---'') (Lit ''+++''), Some1 is_space, Cap ''path'' (Seqs [One any_char, Few any_char, Lit ''.sv'']),
      Opt (Seqs [One is_space, Many any_char]), Eos]"

definition extract_sv_path :: "string \<Rightarrow> string option" where
  "extract_sv_path header_line =
     (case re_match SV_PATH_RE (rstrip_by (\<lambda>c. c = NL) header_line) of None \<Rightarrow> None | Some e \<Rightarrow> group e ''path'')"

definition to_rtl_path :: "string \<Rightarrow> string" where
  "to_rtl_path sv_path =
     (let normalized = replace_char BS CHR ''/'' sv_path in
      ''a/rtl/'' @ (case find_sub ''/rtl/'' normalized of
         Some i \<Rightarrow> drop (i + 5) normalized
       | None \<Rightarrow> path_name (path_of normalized)))"

section \<open>A file\<close>

text \<open>\<open>s.splitlines(keepends=True)\<close>\<close>

function splitlines_keep :: "string \<Rightarrow> string list" where
  "splitlines_keep [] = []"
| "splitlines_keep (c # cs) =
     (if c = CR \<and> cs \<noteq> [] \<and> hd cs = NL then [CR, NL] # splitlines_keep (tl cs)
      else if is_eol c then [c] # splitlines_keep cs
      else (case splitlines_keep cs of [] \<Rightarrow> [[c]] | l # ls \<Rightarrow> (c # l) # ls))"
  by pat_completeness auto
termination
  by (relation "measure length") auto

definition line_end :: "string \<Rightarrow> string" where
  "line_end l = (if endswith l [NL] then [NL] else [])"

text \<open>The two header lines at the front of the list, repaired; \<open>None\<close> when they are not a header.\<close>

definition fix_pair :: "string \<Rightarrow> string \<Rightarrow> (string \<times> string) option" where
  "fix_pair old_line new_line =
     (if startswith old_line ''--- '' \<and> startswith new_line ''+++ '' then
        (case (case extract_sv_path old_line of Some p \<Rightarrow> Some p | None \<Rightarrow> extract_sv_path new_line) of
           None \<Rightarrow> None
         | Some src_path \<Rightarrow> Some (''--- '' @ to_rtl_path src_path @ line_end old_line, ''+++ '' @ to_rtl_path src_path @ line_end new_line))
      else None)"

fun fix_lines :: "string list \<Rightarrow> string list \<times> bool" where
  "fix_lines (a # b # rest) =
     (case fix_pair a b of
        Some (a', b') \<Rightarrow> (case fix_lines rest of (rest', changed) \<Rightarrow> (a' # b' # rest', changed \<or> a \<noteq> a' \<or> b \<noteq> b'))
      | None \<Rightarrow> (case fix_lines (b # rest) of (rest', changed) \<Rightarrow> (a # rest', changed)))"
| "fix_lines ls = (ls, False)"

definition fix_one_file :: "path \<Rightarrow> bool \<Rightarrow> (fs, bool) eff" where
  "fix_one_file diff_path dry_run =
     ebind (eget (\<lambda>fs. read_text fs diff_path)) (\<lambda>r.
     ebind (elift r) (\<lambda>contents.
       case fix_lines (splitlines_keep contents) of (lines, changed) \<Rightarrow>
         ebind (if changed \<and> \<not> dry_run then eupd (write_text diff_path (concat lines)) else eret ()) (\<lambda>_. eret changed)))"

fun fix_files :: "bool \<Rightarrow> path list \<Rightarrow> (fs, nat \<times> string list) eff" where
  "fix_files dry_run [] = eret (0, [])"
| "fix_files dry_run (p # ps) =
     ebind (fix_one_file p dry_run) (\<lambda>changed.
     ebind (fix_files dry_run ps) (\<lambda>(n, lines).
       eret (if changed then Suc n else n, (if changed then ''[fix] '' @ path_str p else ''[skip] '' @ path_str p) # lines)))"

text \<open>\<open>main\<close>: code 1 is the exit of \<open>SystemExit\<close> with a message.\<close>

definition fix_headers_main :: "path \<Rightarrow> bool \<Rightarrow> (fs, int \<times> string list) eff" where
  "fix_headers_main root_dir dry_run =
     ebind (eget (\<lambda>fs. (is_dir fs root_dir, sort (rglob_suffix fs root_dir ''.sv.diff'')))) (\<lambda>(ok, diff_files).
       if \<not> ok then eret (1, [])
       else if diff_files = [] then eret (0, [''No .sv.diff files found.''])
       else ebind (fix_files dry_run diff_files) (\<lambda>(fixed, lines).
         eret (0, lines @ [[NL] @ ''Done. Fixed '' @ str_nat fixed @ ''/'' @ str_nat (length diff_files) @ '' files.''])))"

section \<open>A repaired header\<close>

lemma rx_Lit_iff: "(s', e') \<in> set (rx (Lit l) s e) \<longleftrightarrow> s = l @ s' \<and> e' = e"
proof (induction l arbitrary: s)
  case (Cons c l)
  show ?case by (cases s) (auto simp: Cons.IH)
qed auto

lemma many_iff: "s' \<in> set (many p s) \<longleftrightarrow> (\<exists>u. s = u @ s' \<and> (\<forall>c \<in> set u. p c))"
proof
  show "s' \<in> set (many p s) \<Longrightarrow> \<exists>u. s = u @ s' \<and> (\<forall>c \<in> set u. p c)" by (rule many_suffix)
next
  assume "\<exists>u. s = u @ s' \<and> (\<forall>c \<in> set u. p c)"
  then obtain u where "s = u @ s'" "\<forall>c \<in> set u. p c" by blast
  then show "s' \<in> set (many p s)"
  proof (induction u arbitrary: s)
    case Nil
    then show ?case by (cases s') auto
  qed auto
qed

lemma re_match_unique:
  assumes "rx r s [] \<noteq> []" "\<And>s' e'. (s', e') \<in> set (rx r s []) \<Longrightarrow> e' = e"
  shows "re_match r s = Some e"
  using assms by (cases "rx r s []") (auto simp: re_match_def)

text \<open>A path without blanks that ends in \<open>.sv\<close> is captured whole: every shorter match would leave a text that is neither
  empty nor starts with a blank.\<close>

definition plain_sv :: "string \<Rightarrow> bool" where
  "plain_sv p \<longleftrightarrow> (\<forall>c \<in> set p. \<not> is_space c) \<and> (\<exists>q. q \<noteq> [] \<and> p = q @ ''.sv'')"

lemma space_NL [simp]: "is_space NL"
  by (simp add: char_class_defs code_def NL_def)

lemma rx_Seq_mem: "x \<in> set (rx (Seq a b) s e) \<longleftrightarrow> (\<exists>s1 e1. (s1, e1) \<in> set (rx a s e) \<and> x \<in> set (rx b s1 e1))"
  by (auto simp: split_beta) (metis prod.collapse, metis fst_conv snd_conv)

lemma rx_One_mem: "(s', e') \<in> set (rx (One p) s e) \<longleftrightarrow> e' = e \<and> (\<exists>c. p c \<and> s = c # s')"
  by (auto split: list.splits if_splits)

lemma rx_Few_mem: "(s', e') \<in> set (rx (Few p) s e) \<longleftrightarrow> e' = e \<and> (\<exists>u. s = u @ s' \<and> (\<forall>c \<in> set u. p c))"
  by (auto simp: many_iff)

lemma rx_Cap_mem: "(s', e') \<in> set (rx (Cap n r) s e) \<longleftrightarrow>
    (\<exists>e0. (s', e0) \<in> set (rx r s e) \<and> e' = (n, take (length s - length s') s) # e0)"
  by (auto simp: split_beta) force

lemma rx_sv_text:
  "(t, e') \<in> set (rx (Seqs [One any_char, Few any_char, Lit ''.sv'']) p e) \<longleftrightarrow>
     e' = e \<and> (\<exists>c u. p = c # u @ ''.sv'' @ t \<and> any_char c \<and> (\<forall>d \<in> set u. any_char d))"
  unfolding Seqs.simps rx_Seq_mem rx_One_mem rx_Few_mem rx_Lit_iff by auto

lemma rx_sv_rest:
  assumes "\<forall>c \<in> set t. \<not> is_space c"
  shows "(s', e') \<in> set (rx (Seq (Opt (Seqs [One is_space, Many any_char])) Eos) t e) \<longleftrightarrow> t = [] \<and> s' = [] \<and> e' = e"
  using assms by (cases t) (auto simp: Opt_def)

lemma rx_sv_path:
  assumes "plain_sv p"
  shows "(s', e') \<in> set (rx (Seq (Cap ''path'' (Seqs [One any_char, Few any_char, Lit ''.sv'']))
      (Seq (Opt (Seqs [One is_space, Many any_char])) Eos)) p e) \<longleftrightarrow> s' = [] \<and> e' = (''path'', p) # e"
    (is "?m \<longleftrightarrow> _")
proof
  assume ?m
  then obtain t c u where t: "p = c # u @ ''.sv'' @ t"
    and o: "(s', e') \<in> set (rx (Seq (Opt (Seqs [One is_space, Many any_char])) Eos) t
        ((''path'', take (length p - length t) p) # e))"
    unfolding rx_Seq_mem [of _ "Cap _ _"] rx_Cap_mem rx_sv_text by blast
  have "\<forall>c \<in> set t. \<not> is_space c" using t assms by (simp add: plain_sv_def)
  note rest = rx_sv_rest [OF this]
  from o show "s' = [] \<and> e' = (''path'', p) # e" unfolding rest by simp
next
  assume r: "s' = [] \<and> e' = (''path'', p) # e"
  from assms obtain c q where p: "p = (c # q) @ ''.sv''" by (auto simp: plain_sv_def neq_Nil_conv)
  with assms have "any_char c" "\<forall>d \<in> set q. any_char d" by (auto simp: plain_sv_def any_char_def)
  with p have "([], e) \<in> set (rx (Seqs [One any_char, Few any_char, Lit ''.sv'']) p e)"
    unfolding rx_sv_text by auto
  then show ?m using r unfolding rx_Seq_mem [of _ "Cap _ _"] rx_Cap_mem by (force simp: Opt_def)
qed

lemma extract_fixed:
  assumes "plain_sv p" "pre = ''---'' \<or> pre = ''+++''" "e = [] \<or> e = [NL]"
  shows "extract_sv_path (pre @ '' '' @ p @ e) = Some p"
proof -
  have sp: "\<forall>c \<in> set p. \<not> is_space c" and ne: "p \<noteq> []" using assms(1) by (auto simp: plain_sv_def)
  have "last p \<noteq> NL" using sp ne last_in_set by fastforce
  then have strip: "rstrip_by (\<lambda>c. c = NL) (pre @ '' '' @ p @ e) = pre @ '' '' @ p"
    using assms(3) ne by (cases p rule: rev_cases) (auto simp: rstrip_by_def)
  have ws: "(s', e') \<in> set (rx (Some1 is_space) (CHR '' '' # p) e0) \<longleftrightarrow> s' = p \<and> e' = e0" for s' e' e0
  proof -
    have "many is_space p = [p]" using sp ne by (cases p) auto
    then show ?thesis by (simp add: Some1_def char_class_defs code_def)
  qed
  have "re_match SV_PATH_RE (pre @ '' '' @ p) = Some [(''path'', p)]"
  proof (rule re_match_unique)
    have all: "(s', e') \<in> set (rx SV_PATH_RE (pre @ '' '' @ p) []) \<longleftrightarrow> s' = [] \<and> e' = [(''path'', p)]" for s' e'
    proof -
      have pre: "(s1, e1) \<in> set (rx (Alt (Lit ''---'') (Lit ''+++'')) (pre @ CHR '' '' # p) []) \<longleftrightarrow> s1 = CHR '' '' # p \<and> e1 = []" for s1 e1
        using assms(2) by (auto simp: rx_Lit_iff simp del: Lit.simps)
      show ?thesis
        unfolding SV_PATH_RE_def Seqs.simps(3) [of _ "Some1 is_space"] Seqs.simps(3) [of "Some1 is_space"]
          Seqs.simps(3) [of "Cap _ _"] Seqs.simps(3) [of "Opt _"] Seqs.simps(2) [of Eos]
        by (subst rx_Seq_mem, subst rx_Seq_mem) (simp add: pre ws rx_sv_path [OF assms(1)] del: rx.simps Seqs.simps Lit.simps)
    qed
    show "rx SV_PATH_RE (pre @ '' '' @ p) [] \<noteq> []" using all by (metis empty_iff empty_set)
    show "(s', e') \<in> set (rx SV_PATH_RE (pre @ '' '' @ p) []) \<Longrightarrow> e' = [(''path'', p)]" for s' e' using all by simp
  qed
  with strip show ?thesis by (simp add: extract_sv_path_def group_def)
qed

lemma rx_keep:
  "(s', e') \<in> set (rx (Some1 q) s e) \<Longrightarrow> e' = e"
  "(s', e') \<in> set (rx (Alt (Lit a) (Lit b)) s e) \<Longrightarrow> e' = e"
  "(s', e') \<in> set (rx (Seq (Opt (Seqs [One q, Many r])) Eos) s e) \<Longrightarrow> e' = e"
  using rx_Some1 [of s' e' q s e] by (auto simp: rx_Lit_iff Opt_def simp del: Lit.simps split: list.splits if_splits)

lemma extract_Some:
  assumes "extract_sv_path l = Some p"
  shows "\<exists>q. q \<noteq> [] \<and> p = q @ ''.sv''"
proof -
  let ?cap = "Cap ''path'' (Seqs [One any_char, Few any_char, Lit ''.sv''])"
  from assms obtain s' e' where m: "(s', e') \<in> set (rx SV_PATH_RE (rstrip_by (\<lambda>c. c = NL) l) [])" and g: "group e' ''path'' = Some p"
    by (auto simp: extract_sv_path_def re_match_def split: option.splits list.splits)
  from m obtain s1 e1 s2 e2 where
      a: "(s1, e1) \<in> set (rx (Alt (Lit ''---'') (Lit ''+++'')) (rstrip_by (\<lambda>c. c = NL) l) [])"
        "(s2, e2) \<in> set (rx (Some1 is_space) s1 e1)"
    and b: "(s', e') \<in> set (rx (Seq ?cap (Seq (Opt (Seqs [One is_space, Many any_char])) Eos)) s2 e2)"
    unfolding SV_PATH_RE_def Seqs.simps(3) [of _ "Some1 is_space"] Seqs.simps(3) [of "Some1 is_space"]
      Seqs.simps(3) [of "Cap _ _"] Seqs.simps(3) [of "Opt _"] Seqs.simps(2) [of Eos] rx_Seq_mem [of _ "Alt _ _"] rx_Seq_mem [of _ "Some1 _"]
    by blast
  from a have e2: "e2 = []" by (auto dest!: rx_keep)
  from b e2 obtain t c u where t: "s2 = c # u @ ''.sv'' @ t"
    and o: "(s', e') \<in> set (rx (Seq (Opt (Seqs [One is_space, Many any_char])) Eos) t [(''path'', take (length s2 - length t) s2)])"
    unfolding rx_Seq_mem [of _ ?cap] rx_Cap_mem rx_sv_text by blast
  have "s2 = ((c # u) @ ''.sv'') @ t" using t by simp
  then have "take (length s2 - length t) s2 = (c # u) @ ''.sv''" by (simp only: length_append add_diff_cancel_right' append_eq_conv_conj [symmetric] append_take_drop_id) simp
  with rx_keep(3) [OF o] have "e' = [(''path'', (c # u) @ ''.sv'')]" by simp
  with g have "p = (c # u) @ ''.sv''" by (simp add: group_def)
  then show ?thesis by blast
qed

lemma split_by_append_last:
  "(\<And>c. c \<in> set w \<Longrightarrow> \<not> p c) \<Longrightarrow> split_by p (m @ w) = butlast (split_by p m) @ [last (split_by p m) @ w]"
proof (induction m)
  case Nil
  then show ?case by (simp add: split_by_no_sep)
next
  case (Cons c m)
  then show ?case by (cases "split_by p m") (auto split: list.splits)
qed

lemma ends_sv_after:
  assumes "n = m @ ''.sv''" "take 5 (drop i n) = ''/rtl/''" "i + 5 \<le> length n"
  shows "\<exists>r. drop (i + 5) n = r @ ''.sv''"
proof -
  have len: "length n = length m + 3" by (simp add: assms(1))
  have slash: "n ! (i + 4) = CHR ''/''"
  proof -
    have "take 5 (drop i n) ! 4 = CHR ''/''" unfolding assms(2) by simp
    then show ?thesis using assms(3) by (simp add: nth_take)
  qed
  have "\<not> length m \<le> i + 4"
  proof
    assume "length m \<le> i + 4"
    then obtain k where k: "i + 4 = length m + k" by (metis le_iff_add)
    with assms(3) len have "k < 3" by simp
    moreover have "n ! (i + 4) = ''.sv'' ! k" by (simp add: assms(1) k nth_append)
    ultimately show False using slash by (auto simp: less_Suc_eq numeral_3_eq_3)
  qed
  then show ?thesis using assms(1) by auto
qed

lemma normalized_sv:
  assumes "q \<noteq> []"
  shows "replace_char BS CHR ''/'' (q @ ''.sv'') = replace_char BS CHR ''/'' q @ ''.sv''"
  by (simp add: replace_char_def BS_def)

lemma path_name_sv:
  assumes "n = m @ ''.sv''"
  shows "\<exists>r. path_name (path_of n) = r @ ''.sv'' \<and> set (r @ ''.sv'') \<subseteq> set n"
proof -
  let ?ws = "split_char CHR ''/'' n"
  have s: "?ws = butlast (split_by (\<lambda>c. c = CHR ''/'') m) @ [last (split_by (\<lambda>c. c = CHR ''/'') m) @ ''.sv'']"
    unfolding split_char_def assms by (rule split_by_append_last) auto
  then have "path_parts (path_of n) \<noteq> []" "last (path_parts (path_of n)) = last ?ws"
    unfolding path_of_def by simp_all
  then have n: "path_name (path_of n) = last (split_by (\<lambda>c. c = CHR ''/'') m) @ ''.sv''"
    using s by (simp add: path_name_def)
  moreover have "last ?ws \<in> set ?ws" using s by simp
  then have "set (last ?ws) \<subseteq> set n" using split_by_elem [of "last ?ws" _ n] unfolding split_char_def by blast
  ultimately show ?thesis using s by auto
qed

lemma to_rtl_path_shape:
  assumes "extract_sv_path l = Some p"
  shows "\<exists>r. to_rtl_path p = ''a/rtl/'' @ r @ ''.sv'' \<and> set (r @ ''.sv'') \<subseteq> set (replace_char BS CHR ''/'' p)"
proof -
  let ?n = "replace_char BS CHR ''/'' p"
  obtain q where q: "q \<noteq> []" "p = q @ ''.sv''" using extract_Some [OF assms] by blast
  have n: "?n = replace_char BS CHR ''/'' q @ ''.sv''" unfolding q(2) by (rule normalized_sv [OF q(1)])
  show ?thesis
  proof (cases "find_sub ''/rtl/'' ?n")
    case None
    then show ?thesis using path_name_sv [OF n] by (auto simp: to_rtl_path_def Let_def)
  next
    case (Some i)
    have "i + 5 \<le> length ?n" "take 5 (drop i ?n) = ''/rtl/''" using find_sub_Some [OF Some] by (simp_all add: numeral_eq_Suc)
    from ends_sv_after [OF n this(2,1)] obtain r where d: "drop (i + 5) ?n = r @ ''.sv''" by blast
    then have "set (r @ ''.sv'') \<subseteq> set ?n" by (metis set_drop_subset)
    then show ?thesis using Some d by (auto simp: to_rtl_path_def Let_def intro!: exI [of _ r])
  qed
qed

lemma to_rtl_path_plain:
  assumes "extract_sv_path l = Some p" "\<forall>c \<in> set p. \<not> is_space c"
  shows "plain_sv (to_rtl_path p) \<and> to_rtl_path (to_rtl_path p) = to_rtl_path p"
proof -
  obtain r where r: "to_rtl_path p = ''a/rtl/'' @ r @ ''.sv''" and sub: "set (r @ ''.sv'') \<subseteq> set (replace_char BS CHR ''/'' p)"
    using to_rtl_path_shape [OF assms(1)] by blast
  have "\<forall>c \<in> set (replace_char BS CHR ''/'' p). \<not> is_space c \<and> c \<noteq> BS"
    using assms(2) by (auto simp: replace_char_def char_class_defs code_def BS_def split: if_splits)
  with sub have ch: "\<forall>c \<in> set (r @ ''.sv''). \<not> is_space c \<and> c \<noteq> BS" by blast
  have "plain_sv (to_rtl_path p)"
    unfolding r plain_sv_def using ch by (auto simp: char_class_defs code_def intro!: exI [of _ "''a/rtl/'' @ r"])
  moreover have "replace_char BS CHR ''/'' (''a/rtl/'' @ r @ ''.sv'') = ''a/rtl/'' @ r @ ''.sv''"
    using ch by (auto simp: replace_char_def BS_def map_idI)
  then have "to_rtl_path (''a/rtl/'' @ r @ ''.sv'') = ''a/rtl/'' @ r @ ''.sv''"
    by (simp add: to_rtl_path_def Let_def find_sub.simps [of _ "CHR ''a'' # _"] find_sub.simps [of _ "CHR ''/'' # CHR ''r'' # _"] startswith_Cons)
  ultimately show ?thesis by (simp add: r)
qed

section \<open>Repairing twice\<close>

text \<open>The paths of the headers have no blanks.\<close>

definition plain_header :: "string \<Rightarrow> bool" where
  "plain_header l \<longleftrightarrow> (case extract_sv_path l of None \<Rightarrow> True | Some p \<Rightarrow> list_all (\<lambda>c. \<not> is_space c) p)"

lemma line_end_fixed: "x = [] \<or> x = [NL] \<Longrightarrow> plain_sv p \<Longrightarrow> line_end (h @ p @ x) = x"
  by (auto simp: line_end_def endswith_def plain_sv_def NL_def)

lemma line_end_cases: "line_end l = [] \<or> line_end l = [NL]"
  by (simp add: line_end_def)

lemma fix_pair_fixed:
  assumes "fix_pair a b = Some (a', b')" "plain_header a" "plain_header b"
  shows "fix_pair a' b' = Some (a', b') \<and> (\<exists>p. plain_sv p \<and> a' = ''--- '' @ p @ line_end a \<and> b' = ''+++ '' @ p @ line_end b)"
proof -
  from assms(1) obtain src where src: "extract_sv_path a = Some src \<or> extract_sv_path b = Some src"
    and ab: "a' = ''--- '' @ to_rtl_path src @ line_end a" "b' = ''+++ '' @ to_rtl_path src @ line_end b"
    by (auto simp: fix_pair_def split: if_splits option.splits)
  have ns: "\<forall>c \<in> set src. \<not> is_space c" using src assms(2,3) by (auto simp: plain_header_def list_all_iff)
  have p: "plain_sv (to_rtl_path src)" "to_rtl_path (to_rtl_path src) = to_rtl_path src"
    using src to_rtl_path_plain [OF _ ns] by blast+
  have e: "extract_sv_path a' = Some (to_rtl_path src)"
    using extract_fixed [OF p(1), of "''---''" "line_end a"] line_end_cases ab(1) by auto
  have le: "line_end a' = line_end a" "line_end b' = line_end b"
    unfolding ab by (rule line_end_fixed [OF line_end_cases p(1)])+
  have "fix_pair a' b' = Some (a', b')"
    using e le p(2) by (simp add: fix_pair_def ab startswith_def)
  with p(1) ab show ?thesis by blast
qed

lemma fix_pair_None_left: "\<not> startswith a ''--- '' \<Longrightarrow> fix_pair a b = None"
  by (simp add: fix_pair_def)

lemma fix_lines_hd:
  "\<exists>b' rest'. fst (fix_lines (b # rest)) = b' # rest' \<and> (b' = b \<or> startswith b ''--- '' \<and> startswith b' ''--- '')"
  by (cases rest) (auto simp: fix_pair_def startswith_def split: option.splits prod.splits if_splits)

lemma fix_lines_idem:
  "list_all plain_header ls \<Longrightarrow> fix_lines (fst (fix_lines ls)) = (fst (fix_lines ls), False)"
proof (induction ls rule: fix_lines.induct)
  case (1 a b rest)
  show ?case
  proof (cases "fix_pair a b")
    case (Some ab)
    then obtain a' b' where ab: "fix_pair a b = Some (a', b')" by (cases ab) auto
    have "fix_pair a' b' = Some (a', b')" using fix_pair_fixed [OF ab] 1 by simp
    moreover have "fix_lines (fst (fix_lines rest)) = (fst (fix_lines rest), False)"
      using 1(2) [OF ab refl] 1(3) by simp
    ultimately show ?thesis using ab by (cases "fix_lines rest") simp
  next
    case None
    obtain b' rest' where r: "fst (fix_lines (b # rest)) = b' # rest'"
      and hd: "b' = b \<or> startswith b ''--- '' \<and> startswith b' ''--- ''" using fix_lines_hd by blast
    have "fix_pair a b' = None"
    proof (cases "b' = b")
      case False
      with hd have "\<not> startswith b' ''+++ ''" by (auto simp: startswith_def)
      then show ?thesis by (simp add: fix_pair_def)
    qed (simp add: None)
    moreover have "fix_lines (b' # rest') = (b' # rest', False)" using 1 None r by simp
    ultimately show ?thesis using None r by (auto split: prod.splits)
  qed
qed simp_all

text \<open>The text of a file whose only line ends are newlines, as lines.\<close>

definition unix_line :: "string \<Rightarrow> bool" where
  "unix_line l \<longleftrightarrow> l \<noteq> [] \<and> (\<forall>c \<in> set (butlast l). \<not> is_eol c) \<and> (is_eol (last l) \<longrightarrow> last l = NL)"

fun unix_lines :: "string list \<Rightarrow> bool" where
  "unix_lines [] \<longleftrightarrow> True"
| "unix_lines [l] \<longleftrightarrow> unix_line l"
| "unix_lines (l # ls) \<longleftrightarrow> unix_line l \<and> last l = NL \<and> unix_lines ls"

lemma eol_NL [simp]: "is_eol NL" "\<not> is_eol CHR '' ''"
  by (simp_all add: char_class_defs code_def NL_def)

lemma splitlines_keep_line:
  "(\<forall>c \<in> set l. \<not> is_eol c) \<Longrightarrow> splitlines_keep (l @ NL # s) = (l @ [NL]) # splitlines_keep s"
  by (induction l) (auto simp: NL_def CR_def char_class_defs code_def)

lemma splitlines_keep_last: "(\<forall>c \<in> set l. \<not> is_eol c) \<Longrightarrow> l \<noteq> [] \<Longrightarrow> splitlines_keep l = [l]"
proof (induction l)
  case (Cons c l)
  then show ?case by (cases "l = []") (auto simp: CR_def char_class_defs code_def)
qed simp

lemma splitlines_keep_concat: "unix_lines ls \<Longrightarrow> splitlines_keep (concat ls) = ls"
proof (induction ls rule: unix_lines.induct)
  case (2 l)
  then obtain u c where l: "l = u @ [c]" by (cases l rule: rev_cases) (auto simp: unix_line_def)
  show ?case
  proof (cases "c = NL")
    case True
    then show ?thesis using 2 l splitlines_keep_line [of u "[]"] by (auto simp: unix_line_def)
  next
    case False
    then show ?thesis using 2 l splitlines_keep_last [of l] by (auto simp: unix_line_def)
  qed
next
  case (3 l m ls)
  then obtain u where "l = u @ [NL]" by (cases l rule: rev_cases) (auto simp: unix_line_def)
  with 3 show ?case using splitlines_keep_line [of u "concat (m # ls)"] by (simp add: unix_line_def)
qed simp

lemma unix_lines_Cons: "unix_lines (l # ls) \<longleftrightarrow> unix_line l \<and> (ls \<noteq> [] \<longrightarrow> last l = NL) \<and> unix_lines ls"
  by (cases ls) auto

lemma splitlines_keep_unix: "(\<forall>c \<in> set t. is_eol c \<longrightarrow> c = NL) \<Longrightarrow> unix_lines (splitlines_keep t)"
proof (induction t rule: splitlines_keep.induct)
  case (2 c cs)
  have cr: "c \<noteq> CR" using 2(4) by (auto simp: CR_def NL_def char_class_defs code_def)
  have ih: "unix_lines (splitlines_keep cs)" using 2 cr by (cases "is_eol c") auto
  show ?case
  proof (cases "splitlines_keep cs")
    case Nil
    then show ?thesis using 2(4) cr by (auto simp: unix_line_def)
  next
    case (Cons l ls)
    then show ?thesis using ih 2(4) cr by (auto simp: unix_lines_Cons unix_line_def)
  qed
qed simp

lemma unix_line_fixed:
  assumes "plain_sv p" "h \<in> {''--- '', ''+++ ''}"
  shows "unix_line (h @ p @ line_end l) \<and> (last l = NL \<longrightarrow> l \<noteq> [] \<longrightarrow> last (h @ p @ line_end l) = NL)"
proof -
  have p: "p \<noteq> []" "\<forall>c \<in> set p. \<not> is_eol c" using assms(1) eol_space by (auto simp: plain_sv_def)
  have h: "\<forall>c \<in> set h. \<not> is_eol c" using assms(2) by (auto simp: char_class_defs code_def)
  show ?thesis
  proof (cases "line_end l = []")
    case True
    moreover have "l \<noteq> [] \<Longrightarrow> last l \<noteq> NL" using True by (cases l rule: rev_cases) (auto simp: line_end_def endswith_def split: if_splits)
    moreover have "set (butlast (h @ p)) \<subseteq> set (h @ p)" by (auto dest: in_set_butlastD)
    moreover have "last p \<in> set p" using p(1) by simp
    ultimately show ?thesis using p h by (auto simp: unix_line_def butlast_append dest: in_set_butlastD)
  next
    case False
    then have "line_end l = [NL]" using line_end_cases by blast
    then show ?thesis using p h by (auto simp: unix_line_def butlast_append)
  qed
qed

lemma fix_lines_unix:
  "list_all plain_header ls \<Longrightarrow> unix_lines ls \<Longrightarrow> unix_lines (fst (fix_lines ls))"
proof (induction ls rule: fix_lines.induct)
  case (1 a b rest)
  have nb: "a \<noteq> []" "b \<noteq> []" using 1(4) by (auto simp: unix_lines_Cons unix_line_def)
  have len: "fst (fix_lines xs) = [] \<longleftrightarrow> xs = []" for xs
    by (induction xs rule: fix_lines.induct) (auto split: option.splits prod.splits)
  show ?case
  proof (cases "fix_pair a b")
    case (Some ab)
    then obtain a' b' where ab: "fix_pair a b = Some (a', b')" by (cases ab) auto
    obtain p where p: "plain_sv p" "a' = ''--- '' @ p @ line_end a" "b' = ''+++ '' @ p @ line_end b"
      using fix_pair_fixed [OF ab] 1(3) by auto
    have "unix_lines (fst (fix_lines rest))" using 1(2) [OF ab refl] 1(3,4) by (simp add: unix_lines_Cons)
    moreover have "unix_line a' \<and> (last a = NL \<longrightarrow> a \<noteq> [] \<longrightarrow> last a' = NL)"
      unfolding p(2) by (rule unix_line_fixed [OF p(1)]) simp
    moreover have "unix_line b' \<and> (last b = NL \<longrightarrow> b \<noteq> [] \<longrightarrow> last b' = NL)"
      unfolding p(3) by (rule unix_line_fixed [OF p(1)]) simp
    moreover have "last a = NL" "rest \<noteq> [] \<Longrightarrow> last b = NL" using 1(4) by (auto simp: unix_lines_Cons)
    ultimately show ?thesis using ab nb len [of rest] by (cases "fix_lines rest") (auto simp: unix_lines_Cons)
  next
    case None
    have "unix_lines (fst (fix_lines (b # rest)))" using 1(1) [OF None] 1(3,4) by (simp add: unix_lines_Cons)
    then show ?thesis using None 1(4) by (cases "fix_lines (b # rest)") (simp add: unix_lines_Cons)
  qed
qed simp_all

lemma fix_lines_unchanged: "snd (fix_lines ls) = False \<Longrightarrow> fst (fix_lines ls) = ls"
proof (induction ls rule: fix_lines.induct)
  case (1 a b rest)
  then show ?case by (auto split: option.splits prod.splits)
qed simp_all

text \<open>Repairing a file a second time finds nothing to do and leaves the file system as it is, when the file has unix line
  ends and the paths of its headers have no blanks.\<close>

theorem fix_one_file_idempotent:
  assumes "fix_one_file p False fs = (Ok changed, fs')" "read_text fs p = Ok contents"
    and "\<forall>c \<in> set contents. is_eol c \<longrightarrow> c = NL" "list_all plain_header (splitlines_keep contents)"
  shows "fix_one_file p False fs' = (Ok False, fs')"
proof -
  let ?ls = "splitlines_keep contents"
  have run: "fix_one_file p False s = (Ok False, s)" if "read_text s p = Ok t" "fix_lines (splitlines_keep t) = (xs, False)" for s t xs
    using that by (simp add: fix_one_file_def ebind_def eget_def elift_def)
  show ?thesis
  proof (cases "snd (fix_lines ?ls)")
    case False
    then have "fs' = fs" using assms(1,2) by (auto simp: fix_one_file_def ebind_def eget_def elift_def split: prod.splits)
    then show ?thesis using run [OF assms(2), of "fst (fix_lines ?ls)"] False by (cases "fix_lines ?ls") auto
  next
    case True
    then have "write_text p (concat (fst (fix_lines ?ls))) fs = Ok fs'"
      using assms(1,2) by (cases "fix_lines ?ls") (auto simp: fix_one_file_def ebind_result_Ok eget_def elift_def eupd_def split: sum.splits)
    then have r: "read_text fs' p = Ok (concat (fst (fix_lines ?ls)))" by (simp add: read_text_write)
    have "splitlines_keep (concat (fst (fix_lines ?ls))) = fst (fix_lines ?ls)"
      by (intro splitlines_keep_concat fix_lines_unix splitlines_keep_unix assms(3,4))
    then show ?thesis using run [OF r] fix_lines_idem [OF assms(4)] by simp
  qed
qed

definition demo_header_fs :: fs where
  "demo_header_fs = [(path_of ''/m.sv.diff'', File (concat (map (\<lambda>l. l @ [NL])
     [''--- /h/rtl/m.sv  2026'', ''+++ m.sv'', ''@@ -1 +1 @@'', ''-a'', ''+b''])))]"

section \<open>A repaired header is accepted by the patching\<close>

lemma fixed_header_path:
  "first_match PATCH_HEADER_RE (''--- '' @ p) [] [] [(''path'', p)]" if "plain_sv p"
proof -
  have p: "p \<noteq> []" "\<forall>c \<in> set p. \<not> is_space c" using that by (auto simp: plain_sv_def)
  have "first_match (Alt (Lit ''---'') (Lit ''+++'')) (''---'' @ CHR '' '' # p) [] (CHR '' '' # p) []"
    by (rule first_match_Alt1 [OF first_match_Lit])
  moreover have "first_match (Some1 is_space) ('' '' @ p) [] p []"
    using p by (intro first_match_Some1) (auto simp: char_class_defs code_def)
  moreover have "first_match (Cap ''path'' (Some1 (\<lambda>c. \<not> is_space c))) (p @ []) [] [] [(''path'', p)]"
    using p by (intro first_match_Cap first_match_Some1) auto
  ultimately show ?thesis
    unfolding PATCH_HEADER_RE_def Seqs.simps by (auto intro!: first_match_Seq simp del: Lit.simps)
qed

lemma path_of_rtl:
  assumes "s = ''rtl/'' @ r @ ''.sv''"
  shows "path_root (path_of s) = [] \<and> (\<exists>w ws. path_parts (path_of s) = ''rtl'' # w # ws)
    \<and> set (path_parts (path_of s)) \<subseteq> set (split_char CHR ''/'' s)"
proof -
  have "split_char CHR ''/'' s = ''rtl'' # split_char CHR ''/'' (r @ ''.sv'')"
    unfolding assms using split_char_append_sep [of "CHR ''/''" "''rtl''"] by simp
  moreover have "split_char CHR ''/'' (r @ ''.sv'')
      = butlast (split_by (\<lambda>c. c = CHR ''/'') r) @ [last (split_by (\<lambda>c. c = CHR ''/'') r) @ ''.sv'']"
    unfolding split_char_def by (rule split_by_append_last) auto
  ultimately show ?thesis
    by (auto simp: path_of_def assms startswith_def neq_Nil_conv [symmetric] intro: list.exhaust)
qed

text \<open>A repaired header names a file that the patching of \<open>ibex_sbfl_llm\<close> accepts as one below \<open>rtl\<close>, provided the path
  has no blanks and no part \<open>..\<close>.\<close>

theorem fixed_header_accepted:
  assumes "extract_sv_path l = Some p" "list_all (\<lambda>c. \<not> is_space c) p"
    and "''..'' \<notin> set (split_char CHR ''/'' (to_rtl_path p))"
  shows "\<exists>f. changed_file (''--- '' @ to_rtl_path p) = Ok (Some f) \<and> safe_rtl_file f"
proof -
  have plain: "plain_sv (to_rtl_path p)" using to_rtl_path_plain [OF assms(1)] assms(2) by (simp add: list_all_iff)
  obtain r where r: "to_rtl_path p = ''a/rtl/'' @ r @ ''.sv''" using to_rtl_path_shape [OF assms(1)] by blast
  let ?s = "''rtl/'' @ r @ ''.sv''"
  have s: "split_char CHR ''/'' (to_rtl_path p) = ''a'' # split_char CHR ''/'' ?s"
    unfolding r using split_char_append_sep [of "CHR ''/''" "''a''"] by simp
  obtain w ws where "path_root (path_of ?s) = []" "path_parts (path_of ?s) = ''rtl'' # w # ws"
    and sub: "set (path_parts (path_of ?s)) \<subseteq> set (split_char CHR ''/'' ?s)" using path_of_rtl [OF refl, of r] by blast
  moreover have "''..'' \<notin> set (path_parts (path_of ?s))" using sub assms(3) unfolding s by fastforce
  ultimately have "changed_file (''--- '' @ to_rtl_path p) = Ok (Some (path_str (path_of ?s)))"
    using first_match_re_match [OF fixed_header_path [OF plain]]
    by (simp add: changed_file_def group_def r startswith_Cons path_is_absolute_def)
  then show ?thesis using changed_file_safe by blast
qed

end
