(* ===== verification/Trace_Diff.thy ===== *)
theory Trace_Diff
  imports Py_Csv Py_System
begin

text \<open>
  \<open>scripts/trace_pc_diff.py\<close>: the comparison of two instruction traces, entry by entry after skipping some entries of
  each. The differences collected are proved to be all of them, or the first ones up to the limit.
\<close>

section \<open>Traces\<close>

record trace_entry =
  t_file :: string
  t_line_no :: nat
  t_trace_idx :: nat
  t_pc :: string
  t_insn :: string
  t_decoded :: string
  t_regmem :: string
  t_raw_line :: string

record diff_entry =
  d_index :: nat
  d_fields :: "string list"
  d_a :: "trace_entry option"
  d_b :: "trace_entry option"
  d_reason :: string

definition normalize_ws :: "string \<Rightarrow> string" where
  "normalize_ws s = join '' '' (split_ws s)"

definition parse_trace_line :: "path \<Rightarrow> bool \<Rightarrow> trace_entry list \<Rightarrow> nat \<times> string \<Rightarrow> trace_entry list" where
  "parse_trace_line p exact_space entries line =
     (case line of (line_no, raw_line) \<Rightarrow>
        if strip raw_line = [] then entries
        else let parts = split_char TAB raw_line in
             if length parts < 6 then entries
             else let decoded = join [TAB] (butlast (drop 4 parts)); regmem = last parts in
                  entries @ [\<lparr>t_file = path_str p, t_line_no = line_no, t_trace_idx = length entries,
                    t_pc = lower (strip (parts ! 2)), t_insn = lower (strip (parts ! 3)),
                    t_decoded = (if exact_space then strip decoded else normalize_ws decoded),
                    t_regmem = (if exact_space then strip regmem else normalize_ws regmem), t_raw_line = raw_line\<rparr>])"

definition parse_trace_log :: "fs \<Rightarrow> path \<Rightarrow> bool \<Rightarrow> trace_entry list res" where
  "parse_trace_log fs p exact_space =
     rbind (read_text fs p) (\<lambda>contents.
       case text_lines contents of
         [] \<Rightarrow> Ok []
       | header # lines \<Rightarrow> Ok (foldl (parse_trace_line p exact_space) [] (List.enumerate 2 lines)))"

definition get_diff_fields :: "trace_entry \<Rightarrow> trace_entry \<Rightarrow> string list" where
  "get_diff_fields a b =
     (if t_pc a \<noteq> t_pc b then [''PC''] else []) @
     (if t_insn a \<noteq> t_insn b then [''Insn''] else []) @
     (if t_decoded a \<noteq> t_decoded b then [''Decoded instruction''] else []) @
     (if t_regmem a \<noteq> t_regmem b then [''Register and memory contents''] else [])"

section \<open>Comparison\<close>

text \<open>One round of the loop: the entries at the same distance from the two starts.\<close>

definition compare_at :: "trace_entry list \<Rightarrow> nat \<Rightarrow> trace_entry list \<Rightarrow> nat \<Rightarrow> nat \<Rightarrow> diff_entry list" where
  "compare_at entries_a skip_a entries_b skip_b i =
     (let idx_a = skip_a + i; idx_b = skip_b + i; has_a = idx_a < length entries_a; has_b = idx_b < length entries_b in
      if has_a \<and> has_b then
        (let a = entries_a ! idx_a; b = entries_b ! idx_b; diff_fields = get_diff_fields a b in
         if diff_fields \<noteq> [] then [\<lparr>d_index = i, d_fields = diff_fields, d_a = Some a, d_b = Some b, d_reason = ''entry mismatch''\<rparr>] else [])
      else if has_a then
        [\<lparr>d_index = i, d_fields = [''EOF''], d_a = Some (entries_a ! idx_a), d_b = None, d_reason = ''file B reached EOF first''\<rparr>]
      else if has_b then
        [\<lparr>d_index = i, d_fields = [''EOF''], d_a = None, d_b = Some (entries_b ! idx_b), d_reason = ''file A reached EOF first''\<rparr>]
      else [])"

fun collect_loop :: "(nat \<Rightarrow> diff_entry list) \<Rightarrow> int option \<Rightarrow> diff_entry list \<Rightarrow> nat list \<Rightarrow> diff_entry list" where
  "collect_loop compare max_diffs found [] = found"
| "collect_loop compare max_diffs found (i # rest) =
     (let found' = found @ compare i in
      case max_diffs of
        Some m \<Rightarrow> if m \<le> int (length found') then found' else collect_loop compare max_diffs found' rest
      | None \<Rightarrow> collect_loop compare max_diffs found' rest)"

definition collect_diffs ::
  "trace_entry list \<Rightarrow> int \<Rightarrow> trace_entry list \<Rightarrow> int \<Rightarrow> int option \<Rightarrow> diff_entry list res" where
  "collect_diffs entries_a skip_a entries_b skip_b max_diffs =
     (if skip_a < 0 \<or> skip_b < 0 \<or> int (length entries_a) < skip_a \<or> int (length entries_b) < skip_b then Err ValueError
      else let compare_len = max (length entries_a - nat skip_a) (length entries_b - nat skip_b) in
           Ok (collect_loop (compare_at entries_a (nat skip_a) entries_b (nat skip_b)) max_diffs [] [0..<compare_len]))"

section \<open>Output\<close>

definition print_entry :: "string \<Rightarrow> trace_entry option \<Rightarrow> string list" where
  "print_entry label entry = ([NL] @ ''['' @ label @ '']'') #
     (case entry of
        None \<Rightarrow> [''<EOF>'']
      | Some e \<Rightarrow>
          [''file: '' @ t_file e, ''line_no: '' @ str_nat (t_line_no e), ''trace_idx: '' @ str_nat (t_trace_idx e),
           ''PC: '' @ t_pc e, ''Insn: '' @ t_insn e, ''Decoded instruction: '' @ t_decoded e,
           ''Register and memory contents: '' @ t_regmem e, ''Raw line: '' @ t_raw_line e])"

definition print_human :: "diff_entry list \<Rightarrow> string list" where
  "print_human found =
     (if found = [] then [''[OK] no difference found after skips'']
      else (''[DIFF] total differences: '' @ str_nat (length found)) #
        concat (map (\<lambda>(diff_id, d).
          [[NL] @ replicate 80 CHR ''='', ''Diff #'' @ str_nat diff_id, ''reason: '' @ d_reason d,
           ''compare_idx_after_skip: '' @ str_nat (d_index d), ''diff_fields: '' @ join '', '' (d_fields d)] @
          print_entry ''A'' (d_a d) @ print_entry ''B'' (d_b d)) (List.enumerate 1 found)))"

definition TRACE_COLUMNS :: "string list" where
  "TRACE_COLUMNS = [''DiffIndex'', ''Result'', ''Reason'', ''CompareIndexAfterSkip'', ''DiffFields'',
     ''A_File'', ''A_LineNo'', ''A_TraceIndex'', ''A_PC'', ''A_Insn'', ''A_Decoded instruction'',
     ''A_Register and memory contents'', ''A_RawLine'',
     ''B_File'', ''B_LineNo'', ''B_TraceIndex'', ''B_PC'', ''B_Insn'', ''B_Decoded instruction'',
     ''B_Register and memory contents'', ''B_RawLine'']"

definition entry_columns :: "trace_entry option \<Rightarrow> string list" where
  "entry_columns entry =
     (case entry of
        None \<Rightarrow> replicate 8 []
      | Some e \<Rightarrow> [t_file e, str_nat (t_line_no e), str_nat (t_trace_idx e), t_pc e, t_insn e, t_decoded e, t_regmem e, t_raw_line e])"

definition diff_row :: "nat \<times> diff_entry \<Rightarrow> string list" where
  "diff_row x = (case x of (diff_index, d) \<Rightarrow>
     [str_nat diff_index, ''DIFF'', d_reason d, str_nat (d_index d), join '','' (d_fields d)] @
     entry_columns (d_a d) @ entry_columns (d_b d))"

definition trace_tsv :: "diff_entry list \<Rightarrow> string" where
  "trace_tsv found = csv_line TRACE_COLUMNS @
     (if found = [] then csv_line ([[], ''OK'', ''no difference found after skips''] @ replicate 18 [])
      else concat (map (\<lambda>x. csv_line (diff_row x)) (List.enumerate 1 found)))"

record trace_args =
  ta_file_a :: path
  ta_skip_a :: int
  ta_file_b :: path
  ta_skip_b :: int
  ta_output :: "path option"
  ta_exact_space :: bool
  ta_max_diffs :: "int option"

definition trace_diffs :: "trace_args \<Rightarrow> fs \<Rightarrow> diff_entry list res" where
  "trace_diffs a fs =
     rbind (parse_trace_log fs (ta_file_a a) (ta_exact_space a)) (\<lambda>entries_a.
     rbind (parse_trace_log fs (ta_file_b a) (ta_exact_space a)) (\<lambda>entries_b.
       collect_diffs entries_a (ta_skip_a a) entries_b (ta_skip_b a) (ta_max_diffs a)))"

text \<open>\<open>main\<close>: every exception of the body is caught and gives code 2.\<close>

definition trace_main :: "trace_args \<Rightarrow> (fs, int \<times> string list) eff" where
  "trace_main a =
     ecatch
       (ebind (eget (trace_diffs a)) (\<lambda>r.
        ebind (elift r) (\<lambda>found.
          case ta_output a of
            None \<Rightarrow> eret (0, print_human found)
          | Some p \<Rightarrow>
              ebind (eupd (write_text p (trace_tsv found))) (\<lambda>_.
                eret (0, [if found \<noteq> [] then ''[DIFF] total differences='' @ str_nat (length found) @ '', result written to '' @ path_str p
                          else ''[OK] no difference found, result written to '' @ path_str p])))))
       (\<lambda>e. Some (eret (2, [])))"

section \<open>The differences of two traces\<close>

text \<open>The fields that are compared, and all differences of two traces from a position on.\<close>

definition trace_key :: "trace_entry \<Rightarrow> string \<times> string \<times> string \<times> string" where
  "trace_key e = (t_pc e, t_insn e, t_decoded e, t_regmem e)"

fun all_diffs :: "nat \<Rightarrow> trace_entry list \<Rightarrow> trace_entry list \<Rightarrow> diff_entry list" where
  "all_diffs i (a # as) (b # bs) =
     (if trace_key a = trace_key b then []
      else [\<lparr>d_index = i, d_fields = get_diff_fields a b, d_a = Some a, d_b = Some b, d_reason = ''entry mismatch''\<rparr>]) @ all_diffs (Suc i) as bs"
| "all_diffs i (a # as) [] =
     \<lparr>d_index = i, d_fields = [''EOF''], d_a = Some a, d_b = None, d_reason = ''file B reached EOF first''\<rparr> # all_diffs (Suc i) as []"
| "all_diffs i [] (b # bs) =
     \<lparr>d_index = i, d_fields = [''EOF''], d_a = None, d_b = Some b, d_reason = ''file A reached EOF first''\<rparr> # all_diffs (Suc i) [] bs"
| "all_diffs i [] [] = []"

lemma get_diff_fields_empty: "get_diff_fields a b = [] \<longleftrightarrow> trace_key a = trace_key b"
  by (auto simp: get_diff_fields_def trace_key_def)

lemma all_diffs_empty: "all_diffs i as bs = [] \<longleftrightarrow> map trace_key as = map trace_key bs"
  by (induction i as bs rule: all_diffs.induct) auto

lemma all_diffs_compare:
  "all_diffs i (drop (s + i) ea) (drop (t + i) eb)
     = concat (map (compare_at ea s eb t) [i..<max (length ea - s) (length eb - t)])"
proof (induction "max (length ea - s) (length eb - t) - i" arbitrary: i)
  case 0
  then have "drop (s + i) ea = []" "drop (t + i) eb = []" by auto
  with 0 show ?case by simp
next
  case (Suc n)
  let ?len = "max (length ea - s) (length eb - t)"
  have i: "i < ?len" using Suc(2) by simp
  have ih: "all_diffs (Suc i) (drop (s + Suc i) ea) (drop (t + Suc i) eb) = concat (map (compare_at ea s eb t) [Suc i..<?len])"
    using Suc by (intro Suc(1)) simp
  have da: "drop (s + i) ea = (if s + i < length ea then ea ! (s + i) # drop (s + Suc i) ea else [])" by (simp add: Cons_nth_drop_Suc)
  have db: "drop (t + i) eb = (if t + i < length eb then eb ! (t + i) # drop (t + Suc i) eb else [])" by (simp add: Cons_nth_drop_Suc)
  have emp: "\<not> s + i < length ea \<Longrightarrow> drop (s + Suc i) ea = []" "\<not> t + i < length eb \<Longrightarrow> drop (t + Suc i) eb = []" by simp_all
  show ?case
    using i ih emp unfolding da db upt_conv_Cons [OF i]
    by (auto simp: compare_at_def Let_def get_diff_fields_empty simp del: add_Suc_right)
qed

lemma collect_loop_all:
  assumes "\<And>i. length (f i) \<le> 1" "\<forall>m. max_diffs = Some m \<longrightarrow> int (length ds) < m"
  shows "collect_loop f max_diffs ds is =
    (case max_diffs of None \<Rightarrow> ds @ concat (map f is) | Some m \<Rightarrow> take (nat m) (ds @ concat (map f is)))"
  using assms(2)
proof (induction "is" arbitrary: ds)
  case Nil
  then show ?case by (auto split: option.splits)
next
  case (Cons i "is")
  show ?case
  proof (cases max_diffs)
    case (Some m)
    have l: "length (ds @ f i) \<le> nat m" using Cons.prems Some assms(1) [of i] by auto
    show ?thesis
    proof (cases "m \<le> int (length (ds @ f i))")
      case True
      with l have "length (ds @ f i) = nat m" by linarith
      then have "take (nat m) ((ds @ f i) @ concat (map f is)) = ds @ f i" by (simp only: take_append) simp
      with True Some show ?thesis by (simp add: Let_def)
    next
      case False
      with Some Cons show ?thesis by (simp add: Let_def)
    qed
  qed (use Cons in \<open>simp add: Let_def\<close>)
qed

lemma compare_at_length: "length (compare_at ea s eb t i) \<le> 1"
  by (simp add: compare_at_def Let_def)

text \<open>After the skips, the differences collected are all the positions where the traces differ in a compared field or where
  one of them has ended, in order, cut at a positive limit; there are none exactly when the remaining traces agree.\<close>

theorem collect_diffs_exact:
  assumes "collect_diffs ea sa eb sb max_diffs = Ok ds" "\<forall>m. max_diffs = Some m \<longrightarrow> 0 < m"
  shows "ds = (case max_diffs of None \<Rightarrow> all_diffs 0 (drop (nat sa) ea) (drop (nat sb) eb)
      | Some m \<Rightarrow> take (nat m) (all_diffs 0 (drop (nat sa) ea) (drop (nat sb) eb)))
    \<and> (ds = [] \<longleftrightarrow> map trace_key (drop (nat sa) ea) = map trace_key (drop (nat sb) eb))"
proof -
  let ?all = "all_diffs 0 (drop (nat sa) ea) (drop (nat sb) eb)"
  have "?all = concat (map (compare_at ea (nat sa) eb (nat sb)) [0..<max (length ea - nat sa) (length eb - nat sb)])"
    using all_diffs_compare [of 0 "nat sa" ea "nat sb" eb] by simp
  then have ds: "ds = (case max_diffs of None \<Rightarrow> ?all | Some m \<Rightarrow> take (nat m) ?all)"
    using assms collect_loop_all [of "compare_at ea (nat sa) eb (nat sb)" max_diffs "[]"] compare_at_length
    by (auto simp: collect_diffs_def Let_def split: if_splits option.splits)
  then have "ds = [] \<longleftrightarrow> ?all = []" using assms(2) by (auto split: option.splits)
  with ds show ?thesis by (simp add: all_diffs_empty)
qed

text \<open>With a limit that is not positive only the first entries are compared: when they agree nothing is reported, whatever
  follows.\<close>

theorem zero_limit_hides_differences:
  assumes "ea \<noteq> []" "eb \<noteq> []" "trace_key (hd ea) = trace_key (hd eb)" "m \<le> 0"
  shows "collect_diffs ea 0 eb 0 (Some m) = Ok []"
proof -
  have "[0..<max (length ea) (length eb)] = 0 # [1..<max (length ea) (length eb)]"
    using assms(1) by (simp add: upt_conv_Cons less_max_iff_disj)
  moreover have "compare_at ea 0 eb 0 0 = []"
    using assms(1-3) by (cases ea; cases eb) (simp_all add: compare_at_def get_diff_fields_empty)
  ultimately show ?thesis using assms(4) by (simp add: collect_diffs_def)
qed

definition demo_trace :: "string \<Rightarrow> string \<Rightarrow> trace_entry" where
  "demo_trace pc regmem = \<lparr>t_file = ''t'', t_line_no = 2, t_trace_idx = 0, t_pc = pc, t_insn = ''13'', t_decoded = ''nop'',
     t_regmem = regmem, t_raw_line = []\<rparr>"

end
