(* ===== verification/Duplicate_Bugs.thy ===== *)
theory Duplicate_Bugs
  imports Statistics
begin

text \<open>
  \<open>scripts/find_duplicate_bug.py\<close>: the cases of a bug set that have the same \<open>bug_info.json\<close>, and among them those with
  the same differences. SHA-256, the JSON codec (with sorted keys, and compact for the canonical text) and the text of
  an exception are parameters; a file name is taken as its bytes. The groups are proved to be the classes of the two
  relations, and the text that is hashed for several differences determines their names and contents.
\<close>

section \<open>Cases\<close>

record diff_signature =
  sig_digest :: string
  sig_valid :: bool
  sig_note :: string

record bug_case =
  bc_case_dir :: path
  bc_bug_info_path :: path
  bc_rel_case :: string
  bc_rel_bug_info :: string
  bc_diff_paths :: "path list"
  bc_diff_names :: "string list"
  bc_module_name :: string
  bc_scope_name :: string
  bc_modify_line :: string
  bc_canonical :: string
  bc_digest :: string
  bc_sig :: diff_signature

record dup_world =
  dw_loads :: decoder
  dw_canonical :: "json \<Rightarrow> string"
  dw_dumps_sorted :: "json \<Rightarrow> string"
  dw_sha :: "string \<Rightarrow> string"
  dw_describe :: "exn \<Rightarrow> string"

definition json_list :: "dup_world \<Rightarrow> string list \<Rightarrow> string" where
  "json_list w vals = dw_dumps_sorted w (JArr (map JStr vals))"

definition canonicalize_json_file :: "dup_world \<Rightarrow> fs \<Rightarrow> path \<Rightarrow> (string \<times> jobj) option" where
  "canonicalize_json_file w fs p =
     (case read_text fs p of
        Inl e \<Rightarrow> None
      | Inr raw \<Rightarrow> (case dw_loads w raw of Some (JObj data) \<Rightarrow> Some (dw_canonical w (JObj data), data) | _ \<Rightarrow> None))"

definition canonicalize_text_file :: "dup_world \<Rightarrow> fs \<Rightarrow> path \<Rightarrow> (string \<times> jobj) res" where
  "canonicalize_text_file w fs p =
     rbind (read_text fs p) (\<lambda>raw. Ok (raw, case dw_loads w raw of Some (JObj data) \<Rightarrow> data | _ \<Rightarrow> []))"

definition json_field :: "dup_world \<Rightarrow> jobj \<Rightarrow> string \<Rightarrow> string" where
  "json_field w data key =
     (case map_of data key of None \<Rightarrow> [] | Some (JStr s) \<Rightarrow> s | Some v \<Rightarrow> dw_dumps_sorted w v)"

definition collect_diff_paths :: "fs \<Rightarrow> path \<Rightarrow> path list" where
  "collect_diff_paths fs case_dir = sort (glob_suffix fs case_dir ''.sv.diff'')"

definition NUL :: char where "NUL = CHR 0x00"

text \<open>What is hashed of one of several differences.\<close>

definition bundle_part :: "string \<times> string \<Rightarrow> string" where
  "bundle_part x = (case x of (name, data) \<Rightarrow>
     ''NAME'' @ [NUL] @ str_nat (length name) @ [NUL] @ name @
     [NUL] @ ''DATA'' @ [NUL] @ str_nat (length data) @ [NUL] @ data @ [NUL] @ ''END'' @ [NUL])"

definition bundle_text :: "(string \<times> string) list \<Rightarrow> string" where
  "bundle_text parts = concat (map bundle_part parts)"

definition signature_of :: "dup_world \<Rightarrow> fs \<Rightarrow> path list \<Rightarrow> diff_signature" where
  "signature_of w fs diff_paths =
     (if diff_paths = [] then \<lparr>sig_digest = ''NO_DIFF'', sig_valid = False, sig_note = ''no .sv.diff found''\<rparr>
      else case rmapM (\<lambda>p. rbind (read_text fs p) (\<lambda>data. Ok (path_name p, data))) diff_paths of
             Inl e \<Rightarrow> \<lparr>sig_digest = ''READ_DIFF_ERROR'', sig_valid = False, sig_note = ''read diff error: '' @ dw_describe w e\<rparr>
           | Inr [(name, data)] \<Rightarrow> \<lparr>sig_digest = dw_sha w data, sig_valid = True, sig_note = ''single diff''\<rparr>
           | Inr parts \<Rightarrow> \<lparr>sig_digest = dw_sha w (bundle_text parts), sig_valid = True,
               sig_note = ''multiple diffs: '' @ str_nat (length diff_paths)\<rparr>)"

definition rel_text :: "path \<Rightarrow> path \<Rightarrow> string" where
  "rel_text bugset_root p = (case path_relative_to p bugset_root of Inr q \<Rightarrow> path_str q | Inl _ \<Rightarrow> path_str p)"

definition case_of :: "dup_world \<Rightarrow> fs \<Rightarrow> path \<Rightarrow> path \<Rightarrow> string \<times> jobj \<Rightarrow> bug_case" where
  "case_of w fs bugset_root bug_info_path parsed =
     (case parsed of (canonical, data) \<Rightarrow>
       let case_dir = path_parent bug_info_path; diff_paths = collect_diff_paths fs case_dir in
       \<lparr>bc_case_dir = case_dir, bc_bug_info_path = bug_info_path, bc_rel_case = rel_text bugset_root case_dir,
        bc_rel_bug_info = rel_text bugset_root bug_info_path, bc_diff_paths = diff_paths,
        bc_diff_names = map path_name diff_paths, bc_module_name = json_field w data ''module_name'',
        bc_scope_name = json_field w data ''scope_name'', bc_modify_line = json_field w data ''modify_line'',
        bc_canonical = canonical, bc_digest = dw_sha w canonical, bc_sig = signature_of w fs diff_paths\<rparr>)"

definition collect_case :: "dup_world \<Rightarrow> fs \<Rightarrow> path \<Rightarrow> bool \<Rightarrow> path \<Rightarrow> bug_case list res" where
  "collect_case w fs bugset_root text_exact bug_info_path =
     (if text_exact
      then rbind (canonicalize_text_file w fs bug_info_path) (\<lambda>parsed. Ok [case_of w fs bugset_root bug_info_path parsed])
      else Ok (case canonicalize_json_file w fs bug_info_path of
             None \<Rightarrow> [] | Some parsed \<Rightarrow> [case_of w fs bugset_root bug_info_path parsed]))"

definition collect_cases :: "dup_world \<Rightarrow> fs \<Rightarrow> path \<Rightarrow> bool \<Rightarrow> bug_case list res" where
  "collect_cases w fs bugset_root text_exact =
     rbind (rmapM (collect_case w fs bugset_root text_exact) (sort (rglob_name fs bugset_root ''bug_info.json''))) (\<lambda>xs. Ok (concat xs))"

section \<open>Groups\<close>

definition group_by_bug_info :: "bug_case list \<Rightarrow> bug_case list list" where
  "group_by_bug_info cases =
     sort_key (\<lambda>g. (- int (length g), bc_rel_case (hd g)))
       (map (sort_key bc_rel_case) (filter (\<lambda>g. 1 < length g) (map snd (group_by bc_digest cases))))"

definition group_by_diff :: "bug_case list \<Rightarrow> (string, bug_case list) dict" where
  "group_by_diff g = group_by (\<lambda>c. sig_digest (bc_sig c)) g"

text \<open>The sets of cases that become a row of the first table.\<close>

definition same_groups :: "bug_case list \<Rightarrow> (string \<times> bug_case list) list" where
  "same_groups g =
     map (\<lambda>(d, cs). (d, sort_key bc_rel_case cs))
       (filter (\<lambda>(d, cs). 1 < length cs \<and> list_all (\<lambda>c. sig_valid (bc_sig c)) cs)
         (sort_key (\<lambda>(d, cs). (- int (length cs), d)) (group_by_diff g)))"

definition same_row :: "dup_world \<Rightarrow> nat \<Rightarrow> bug_case list \<Rightarrow> string \<times> bug_case list \<Rightarrow> row" where
  "same_row w group_id g x =
     (case x of (diff_digest, cs) \<Rightarrow>
       [(''bug_info_group_id'', str_nat group_id), (''bug_info_group_count'', str_nat (length g)),
        (''same_count'', str_nat (length cs)), (''bug_info_digest'', bc_digest (hd g)), (''diff_digest'', diff_digest),
        (''diff_note'', sig_note (bc_sig (hd cs))), (''cases'', json_list w (map bc_rel_case cs)),
        (''bug_infos'', json_list w (map bc_rel_bug_info cs)), (''diffs'', json_list w (map (\<lambda>c. join '','' (bc_diff_names c)) cs)),
        (''module_name'', bc_module_name (hd g)), (''scope_name'', bc_scope_name (hd g)), (''modify_line'', bc_modify_line (hd g))])"

definition position_row :: "dup_world \<Rightarrow> nat \<Rightarrow> bug_case list \<Rightarrow> row" where
  "position_row w group_id g0 =
     (let g = sort_key bc_rel_case g0 in
       [(''bug_info_group_id'', str_nat group_id), (''bug_info_group_count'', str_nat (length g0)),
        (''bug_info_digest'', bc_digest (hd g0)), (''diff_group_count'', str_nat (length (group_by_diff g0))),
        (''cases'', json_list w (map bc_rel_case g)), (''bug_infos'', json_list w (map bc_rel_bug_info g)),
        (''diffs'', json_list w (map (\<lambda>c. join '','' (bc_diff_names c)) g)),
        (''diff_digests'', json_list w (map (\<lambda>c. sig_digest (bc_sig c)) g)),
        (''diff_notes'', json_list w (map (\<lambda>c. sig_note (bc_sig c)) g)),
        (''module_name'', bc_module_name (hd g0)), (''scope_name'', bc_scope_name (hd g0)), (''modify_line'', bc_modify_line (hd g0))])"

definition build_rows :: "dup_world \<Rightarrow> bug_case list list \<Rightarrow> row list \<times> row list" where
  "build_rows w groups =
     (concat (map (\<lambda>(i, g). map (same_row w i g) (same_groups g)) (List.enumerate 1 groups)),
      map (\<lambda>(i, g). position_row w i g) (List.enumerate 1 groups))"

section \<open>Output\<close>

definition SAME_FIELDS :: "string list" where
  "SAME_FIELDS = [''bug_info_group_id'', ''bug_info_group_count'', ''same_count'', ''bug_info_digest'', ''diff_digest'', ''diff_note'',
     ''cases'', ''bug_infos'', ''diffs'', ''module_name'', ''scope_name'', ''modify_line'']"

definition SAME_POSITION_FIELDS :: "string list" where
  "SAME_POSITION_FIELDS = [''bug_info_group_id'', ''bug_info_group_count'', ''bug_info_digest'', ''diff_group_count'', ''cases'',
     ''bug_infos'', ''diffs'', ''diff_digests'', ''diff_notes'', ''module_name'', ''scope_name'', ''modify_line'']"

definition dup_line :: "string \<Rightarrow> row \<Rightarrow> string" where
  "dup_line count_field r = ''  - group='' @ dict_get r ''bug_info_group_id'' [] @ '' count='' @ dict_get r count_field [] @
     '' cases='' @ dict_get r ''cases'' []"

definition sum_field :: "string \<Rightarrow> row list \<Rightarrow> int" where
  "sum_field f rows = sum_list (map (\<lambda>r. the (py_int (dict_get r f []))) rows)"

definition print_summary ::
  "bug_case list \<Rightarrow> bug_case list list \<Rightarrow> row list \<Rightarrow> row list \<Rightarrow> path \<Rightarrow> path \<Rightarrow> string list" where
  "print_summary cases groups same_rows position_rows same_output position_output =
     [replicate 60 CHR ''='',
      ''[SUMMARY] total bug_info.json          : '' @ str_nat (length cases),
      ''[SUMMARY] duplicate bug_info groups   : '' @ str_nat (length groups),
      ''[SUMMARY] duplicated bug_info cases   : '' @ str_nat (sum_list (map length groups)),
      ''[SUMMARY] same groups                 : '' @ str_nat (length same_rows),
      ''[SUMMARY] same cases                  : '' @ str_int (sum_field ''same_count'' same_rows),
      ''[SUMMARY] same-position groups        : '' @ str_nat (length position_rows),
      ''[SUMMARY] same-position cases         : '' @ str_int (sum_field ''bug_info_group_count'' position_rows),
      ''[SUMMARY] same output                 : '' @ path_str same_output,
      ''[SUMMARY] same-position output        : '' @ path_str position_output,
      replicate 60 CHR ''=''] @
     (if same_rows \<noteq> [] then ''[SAME] identical bug_info.json and identical .sv.diff:'' # map (dup_line ''same_count'') same_rows else []) @
     (if position_rows \<noteq> [] then ''[SAME-POSITION] identical bug_info.json:'' # map (dup_line ''bug_info_group_count'') position_rows else []) @
     (if same_rows = [] \<and> position_rows = [] then [''[OK] no duplicated bug_info.json found''] else [])"

definition duplicate_main ::
  "dup_world \<Rightarrow> (path \<Rightarrow> path) \<Rightarrow> path \<Rightarrow> path \<Rightarrow> path \<Rightarrow> bool \<Rightarrow> (fs, int \<times> string list) eff" where
  "duplicate_main w resolve bugset_arg same_output position_output text_exact =
     (let bugset_root = resolve bugset_arg in
      ebind (eget (\<lambda>fs. (is_dir fs bugset_root, collect_cases w fs bugset_root text_exact))) (\<lambda>(ok, r).
        if \<not> ok then eret (1, [])
        else ebind (elift r) (\<lambda>cases.
          let groups = group_by_bug_info cases in
          case build_rows w groups of (same_rows, position_rows) \<Rightarrow>
            ebind (write_tsv same_output SAME_FIELDS same_rows) (\<lambda>_.
            ebind (write_tsv position_output SAME_POSITION_FIELDS position_rows) (\<lambda>_.
              eret (0, print_summary cases groups same_rows position_rows same_output position_output))))))"

section \<open>The hashed text determines the differences\<close>

lemma str_nat_inject [simp]: "str_nat m = str_nat n \<longleftrightarrow> m = n"
  using digits_nat_str_nat [of m] digits_nat_str_nat [of n] by metis

lemma str_nat_no_NUL: "NUL \<notin> set (str_nat n)"
  by (auto dest!: str_nat_digits simp: NUL_def is_digit_def code_def)

lemma append_sep_cancel:
  assumes "c \<notin> set xs" "c \<notin> set ys"
  shows "xs @ c # us = ys @ c # vs \<longleftrightarrow> xs = ys \<and> us = vs"
  using assms
proof (induction xs arbitrary: ys)
  case Nil
  then show ?case by (cases ys) auto
next
  case (Cons x xs)
  then show ?case by (cases ys) auto
qed

text \<open>A length, a NUL and as many characters: what follows is known too.\<close>

lemma length_prefix_cancel:
  "str_nat (length xs) @ NUL # xs @ us = str_nat (length ys) @ NUL # ys @ vs \<longleftrightarrow> xs = ys \<and> us = vs"
  by (auto simp: append_sep_cancel [OF str_nat_no_NUL str_nat_no_NUL])

lemma bundle_part_cancel: "bundle_part x @ us = bundle_part y @ vs \<longleftrightarrow> x = y \<and> us = vs"
  by (cases x; cases y) (auto simp: bundle_part_def length_prefix_cancel)

lemma bundle_part_nonempty: "bundle_part x \<noteq> []"
  by (cases x) (simp add: bundle_part_def)

lemma bundle_text_simps [simp]:
  "bundle_text [] = []"
  "bundle_text (x # xs) = bundle_part x @ bundle_text xs"
  by (simp_all add: bundle_text_def)

text \<open>What the duplicate search hashes of several differences determines the list of file names and contents: two
  bundles have the same text exactly when they are the same, whatever bytes the names and the contents hold.\<close>

theorem bundle_text_injective: "bundle_text ps = bundle_text qs \<longleftrightarrow> ps = qs"
proof (induction ps arbitrary: qs)
  case Nil
  then show ?case by (cases qs) (auto simp: bundle_part_nonempty)
next
  case (Cons p ps)
  then show ?case by (cases qs) (auto simp: bundle_part_nonempty bundle_part_cancel)
qed

section \<open>The groups are the classes of equal digests\<close>

lemma group_members:
  "g \<in> set (group_by_bug_info cases) \<longleftrightarrow>
     (\<exists>d. g = sort_key bc_rel_case (filter (\<lambda>c. bc_digest c = d) cases) \<and> 1 < length g)"
proof -
  have "g \<in> set (group_by_bug_info cases) \<longleftrightarrow>
          (\<exists>d ys. (d, ys) \<in> set (group_by bc_digest cases) \<and> 1 < length ys \<and> g = sort_key bc_rel_case ys)"
    by (force simp: group_by_bug_info_def image_iff)
  also have "\<dots> \<longleftrightarrow> (\<exists>d. g = sort_key bc_rel_case (filter (\<lambda>c. bc_digest c = d) cases) \<and> 1 < length g)"
    unfolding group_by_mem by (rule iff_exI) auto
  finally show ?thesis .
qed

lemma hd_sort_digest:
  assumes "filter (\<lambda>c. bc_digest c = d) cases \<noteq> []"
  shows "bc_digest (hd (sort_key bc_rel_case (filter (\<lambda>c. bc_digest c = d) cases))) = d"
proof -
  let ?ys = "sort_key bc_rel_case (filter (\<lambda>c. bc_digest c = d) cases)"
  have "?ys \<noteq> []" using assms by (metis length_0_conv length_sort)
  then have "hd ?ys \<in> set ?ys" by (rule hd_in_set)
  then show ?thesis by simp
qed

lemma map_fst_group_digest:
  "map (\<lambda>g. bc_digest (hd (sort_key bc_rel_case g))) (map snd (group_by bc_digest cases)) = map fst (group_by bc_digest cases)"
  by (auto simp: group_by_mem hd_sort_digest)

lemma distinct_map_sort_key: "distinct (map f (sort_key k xs)) \<longleftrightarrow> distinct (map f xs)"
  by (metis mset_eq_imp_distinct_iff mset_map mset_sort)

lemma distinct_group_digests: "distinct (map (\<lambda>g. bc_digest (hd g)) (group_by_bug_info cases))"
proof -
  let ?gs = "map snd (group_by bc_digest cases)"
  let ?ks = "\<lambda>g. bc_digest (hd (sort_key bc_rel_case g))"
  have "distinct (map ?ks ?gs)" by (simp only: map_fst_group_digest distinct_group_by)
  then have "distinct (map ?ks (filter (\<lambda>g. 1 < length g) ?gs))" by (rule distinct_map_filter)
  then have "distinct (map (\<lambda>g. bc_digest (hd g)) (map (sort_key bc_rel_case) (filter (\<lambda>g. 1 < length g) ?gs)))"
    by (simp add: comp_def)
  then show ?thesis unfolding group_by_bug_info_def by (simp only: distinct_map_sort_key)
qed

lemma groups_by_size: "sorted_wrt (\<ge>) (map length (group_by_bug_info cases))"
proof -
  have "sorted (map (\<lambda>g. (- int (length g), bc_rel_case (hd g))) (group_by_bug_info cases))"
    unfolding group_by_bug_info_def by (rule sorted_sort_key)
  then show ?thesis
    by (auto simp: sorted_wrt_map less_eq_prod_def elim!: sorted_wrt_mono_rel [rotated])
qed

text \<open>The groups of the duplicate search are the classes of cases with the same digest that have more than one member:
  a list is a group exactly when it holds all cases of one digest, in the order of their names, and there are two or
  more of them; no digest has two groups, and larger groups come first.\<close>

theorem group_by_bug_info_spec:
  "(g \<in> set (group_by_bug_info cases) \<longleftrightarrow>
     (\<exists>d. g = sort_key bc_rel_case (filter (\<lambda>c. bc_digest c = d) cases) \<and> 1 < length g)) \<and>
   distinct (map (\<lambda>g. bc_digest (hd g)) (group_by_bug_info cases)) \<and>
   sorted_wrt (\<ge>) (map length (group_by_bug_info cases))"
  by (intro conjI group_members distinct_group_digests groups_by_size)

lemma same_group_members:
  "(d, cs) \<in> set (same_groups g) \<longleftrightarrow>
     cs = sort_key bc_rel_case (filter (\<lambda>c. sig_digest (bc_sig c) = d) g) \<and> 1 < length cs \<and> list_all (\<lambda>c. sig_valid (bc_sig c)) cs"
proof -
  have "(d, cs) \<in> set (same_groups g) \<longleftrightarrow>
          (\<exists>ys. (d, ys) \<in> set (group_by_diff g) \<and> 1 < length ys \<and> list_all (\<lambda>c. sig_valid (bc_sig c)) ys \<and>
                cs = sort_key bc_rel_case ys)"
    by (force simp: same_groups_def image_iff)
  then show ?thesis by (auto simp: group_by_diff_def group_by_mem list_all_iff)
qed

lemma same_group_size: "(d, cs) \<in> set (same_groups g) \<Longrightarrow> 1 < length g"
  using less_le_trans [OF _ length_filter_le [of "\<lambda>c. sig_digest (bc_sig c) = d" g]] by (auto simp: same_group_members)

lemma sort_key_idem [simp]: "sort_key f (sort_key f xs) = sort_key f xs"
  by (simp add: sort_key_id_if_sorted)

text \<open>A row of the table of identical cases stands for all cases of the bug set that have one bug information digest
  and one difference digest, two or more of them and every one with readable differences; and every such set of cases
  has its row.\<close>

theorem same_rows_complete:
  "(\<exists>g. g \<in> set (group_by_bug_info cases) \<and> (d, cs) \<in> set (same_groups g)) \<longleftrightarrow>
   (\<exists>b. cs = sort_key bc_rel_case (filter (\<lambda>c. bc_digest c = b \<and> sig_digest (bc_sig c) = d) cases) \<and>
        1 < length cs \<and> list_all (\<lambda>c. sig_valid (bc_sig c)) cs)"
proof -
  let ?same = "\<lambda>b. sort_key bc_rel_case (filter (\<lambda>c. bc_digest c = b) cases)"
  have inner: "sort_key bc_rel_case (filter (\<lambda>c. sig_digest (bc_sig c) = d) (?same b)) =
        sort_key bc_rel_case (filter (\<lambda>c. bc_digest c = b \<and> sig_digest (bc_sig c) = d) cases)" for b
    by (simp add: filter_sort conj_commute)
  have "(\<exists>g. g \<in> set (group_by_bug_info cases) \<and> (d, cs) \<in> set (same_groups g)) \<longleftrightarrow>
        (\<exists>b. 1 < length (?same b) \<and> (d, cs) \<in> set (same_groups (?same b)))"
    unfolding group_members by blast
  also have "\<dots> \<longleftrightarrow> (\<exists>b. (d, cs) \<in> set (same_groups (?same b)))"
    using same_group_size by (intro iff_exI) blast
  finally show ?thesis by (simp only: same_group_members inner)
qed

end
