(* ===== verification/Ibex_Config.thy ===== *)
theory Ibex_Config
  imports Py_Shlex Py_System
begin

text \<open>
  \<open>util/ibex_config.py\<close>: a named configuration of the core, read from \<open>ibex_configs.yaml\<close> and printed as options of a
  build system or simulator. The YAML loader is a parameter: it gives no value for \<open>YAMLError\<close>, and otherwise a value
  of the kinds JSON has (the configurations use no others, and their keys are strings). Python's \<open>bool\<close> is a subclass of
  \<open>int\<close>, so an integer field accepts a truth value and a Boolean field the integers 0 and 1.

  Shown: which objects are accepted, and that the options printed for a simulator, split by the shell, are those of the
  attributes of the configuration, in order.
\<close>

section \<open>A configuration\<close>

datatype field_type = Bool_Type | Int_Type | Str_Type

definition known_fields :: "(string \<times> field_type) list" where
  "known_fields =
     [(''RV32E'', Bool_Type), (''RV32M'', Str_Type), (''RV32B'', Str_Type), (''RV32ZC'', Str_Type), (''RegFile'', Str_Type),
      (''BranchTargetALU'', Bool_Type), (''WritebackStage'', Bool_Type), (''ICache'', Bool_Type), (''ICacheECC'', Bool_Type),
      (''ICacheScramble'', Bool_Type), (''BranchPredictor'', Bool_Type), (''DbgTriggerEn'', Bool_Type),
      (''SecureIbex'', Bool_Type), (''PMPEnable'', Bool_Type), (''PMPGranularity'', Int_Type), (''PMPNumRegions'', Int_Type),
      (''MHPMCounterNum'', Int_Type), (''MHPMCounterWidth'', Int_Type)]"

record ibex_config =
  params :: "(string \<times> json) list"
  rv32e :: bool
  rv32m :: string
  rv32b :: string
  rv32zc :: string
  reg_file :: string
  branch_target_alu :: bool
  writeback_stage :: bool
  icache :: bool
  icache_ecc :: bool
  icache_scramble :: bool
  branch_predictor :: bool
  dbg_trigger_en :: bool
  secure_ibex :: bool
  pmp_enable :: bool
  pmp_granularity :: int
  pmp_num_regions :: int
  mhpm_counter_num :: int
  mhpm_counter_width :: int

definition read_bool :: "string \<Rightarrow> (string \<times> json) list \<Rightarrow> bool res" where
  "read_bool fld yml =
     rbind (jindex yml fld) (\<lambda>val.
       case val of
         JBool b \<Rightarrow> Ok b
       | JInt i \<Rightarrow> if 0 \<le> i \<and> i \<le> 1 then Ok (i \<noteq> 0) else Err ValueError
       | _ \<Rightarrow> Err ValueError)"

definition read_int :: "string \<Rightarrow> (string \<times> json) list \<Rightarrow> int res" where
  "read_int fld yml =
     rbind (jindex yml fld) (\<lambda>val.
       case val of JInt i \<Rightarrow> Ok i | JBool b \<Rightarrow> Ok (if b then 1 else 0) | _ \<Rightarrow> Err ValueError)"

definition read_str :: "string \<Rightarrow> (string \<times> json) list \<Rightarrow> string res" where
  "read_str fld yml = rbind (jindex yml fld) (\<lambda>val. case val of JStr s \<Rightarrow> Ok s | _ \<Rightarrow> Err ValueError)"

definition read_fields :: "(string \<times> json) list \<Rightarrow> ibex_config res" where
  "read_fields yml =
     rbind (read_bool ''RV32E'' yml) (\<lambda>e.
     rbind (read_str ''RV32M'' yml) (\<lambda>m.
     rbind (read_str ''RV32B'' yml) (\<lambda>b.
     rbind (read_str ''RV32ZC'' yml) (\<lambda>zc.
     rbind (read_str ''RegFile'' yml) (\<lambda>rf.
     rbind (read_bool ''BranchTargetALU'' yml) (\<lambda>bta.
     rbind (read_bool ''WritebackStage'' yml) (\<lambda>wb.
     rbind (read_bool ''ICache'' yml) (\<lambda>ic.
     rbind (read_bool ''ICacheECC'' yml) (\<lambda>ecc.
     rbind (read_bool ''ICacheScramble'' yml) (\<lambda>scr.
     rbind (read_bool ''BranchPredictor'' yml) (\<lambda>bp.
     rbind (read_bool ''DbgTriggerEn'' yml) (\<lambda>dbg.
     rbind (read_bool ''SecureIbex'' yml) (\<lambda>sec.
     rbind (read_bool ''PMPEnable'' yml) (\<lambda>pmp.
     rbind (read_int ''PMPGranularity'' yml) (\<lambda>gran.
     rbind (read_int ''PMPNumRegions'' yml) (\<lambda>regions.
     rbind (read_int ''MHPMCounterNum'' yml) (\<lambda>cnum.
     rbind (read_int ''MHPMCounterWidth'' yml) (\<lambda>cwidth.
       Ok \<lparr>params = yml, rv32e = e, rv32m = m, rv32b = b, rv32zc = zc, reg_file = rf, branch_target_alu = bta,
           writeback_stage = wb, icache = ic, icache_ecc = ecc, icache_scramble = scr, branch_predictor = bp,
           dbg_trigger_en = dbg, secure_ibex = sec, pmp_enable = pmp, pmp_granularity = gran, pmp_num_regions = regions,
           mhpm_counter_num = cnum, mhpm_counter_width = cwidth\<rparr>))))))))))))))))))"

definition config_init :: "json \<Rightarrow> ibex_config res" where
  "config_init yml =
     (case yml of
        JObj kvs \<Rightarrow>
          let yaml_keys = fst ` set kvs; known_keys = fst ` set known_fields in
          if yaml_keys - known_keys \<noteq> {} then Err ValueError
          else if known_keys - yaml_keys \<noteq> {} then Err ValueError
          else read_fields kvs
      | _ \<Rightarrow> Err ValueError)"

definition configs_init :: "json \<Rightarrow> (string, ibex_config) dict res" where
  "configs_init yml =
     (case yml of
        JObj kvs \<Rightarrow> rmapM (\<lambda>(cfg_name, cfg_yaml). rbind (rcatch is_value_error ValueError (config_init cfg_yaml)) (\<lambda>c. Ok (cfg_name, c))) kvs
      | _ \<Rightarrow> Err ValueError)"

section \<open>Output formats\<close>

definition fusesoc_output :: "ibex_config \<Rightarrow> string res" where
  "fusesoc_output config =
     rbind (rmapM (\<lambda>(fld, typ). rbind (jindex (params config) fld) (\<lambda>val.
              Ok (shlex_quote (''--'' @ fld @ ''='' @ py_str val)))) known_fields)
       (\<lambda>fusesoc_cmd. Ok (join '' '' fusesoc_cmd))"

definition query_output :: "ibex_config \<Rightarrow> string list \<Rightarrow> string" where
  "query_output config flds =
     join [NL] (map (\<lambda>fld. case map_of (params config) fld of
        Some val \<Rightarrow> fld @ ''='' @ py_str val
      | None \<Rightarrow> fld @ '' not found in config'') flds)"

record sim_opts =
  cmd_name :: string
  description :: string
  param_set_fn :: "string \<Rightarrow> string \<Rightarrow> string list"
  define_set_fn :: "string \<Rightarrow> string \<Rightarrow> string list"
  hierarchy_sep :: string

definition sim_field :: "sim_opts \<Rightarrow> ibex_config \<Rightarrow> string \<Rightarrow> string \<Rightarrow> string \<times> field_type \<Rightarrow> string list res" where
  "sim_field self config ins_hier_path string_define_prefix x =
     (case x of (fld, typ) \<Rightarrow>
       rbind (jindex (params config) fld) (\<lambda>val.
         if typ = Str_Type
         then (case val of
                 JStr s \<Rightarrow> Ok (map shlex_quote (define_set_fn self (string_define_prefix @ fld) s))
               | _ \<Rightarrow> Err TypeError)
         else rbind (to_int val) (\<lambda>val_as_int.
                Ok (map shlex_quote (param_set_fn self (ins_hier_path @ fld) (str_int val_as_int))))))"

definition sim_output :: "sim_opts \<Rightarrow> ibex_config \<Rightarrow> string \<Rightarrow> string \<Rightarrow> string res" where
  "sim_output self config arg_hier_path string_define_prefix =
     (let ins_hier_path = (if arg_hier_path \<noteq> [] then arg_hier_path @ hierarchy_sep self else []) in
      rbind (rmapM (sim_field self config ins_hier_path string_define_prefix) known_fields) (\<lambda>opts.
        Ok (join '' '' (concat opts))))"

datatype outputter = FusesocOpts | QueryOpts | SimOpts sim_opts

definition plus_define :: "string \<Rightarrow> string \<Rightarrow> string list" where
  "plus_define d v = [''+define+'' @ d @ ''='' @ v]"

definition no_args :: "string \<Rightarrow> string \<Rightarrow> string list" where
  "no_args p v = []"

definition slash_param :: "string \<Rightarrow> string \<Rightarrow> string list" where
  "slash_param p v = [''-g/'' @ p @ ''='' @ v]"

definition defparam :: "string \<Rightarrow> string \<Rightarrow> string list" where
  "defparam p v = [''-defparam'', p @ ''='' @ v]"

definition outputters :: "outputter list" where
  "outputters =
     [FusesocOpts, QueryOpts,
      SimOpts \<lparr>cmd_name = ''vcs_opts'', description = ''VCS compile'', param_set_fn = \<lambda>p v. [''-pvalue+'' @ p @ ''='' @ v],
        define_set_fn = plus_define, hierarchy_sep = ''.''\<rparr>,
      SimOpts \<lparr>cmd_name = ''riviera_sim_opts'', description = ''Riviera simulate'', param_set_fn = slash_param,
        define_set_fn = no_args, hierarchy_sep = ''/''\<rparr>,
      SimOpts \<lparr>cmd_name = ''riviera_compile_opts'', description = ''Riviera compile'', param_set_fn = no_args,
        define_set_fn = plus_define, hierarchy_sep = ''/''\<rparr>,
      SimOpts \<lparr>cmd_name = ''questa_sim_opts'', description = ''Questa simulate'', param_set_fn = slash_param,
        define_set_fn = no_args, hierarchy_sep = ''/''\<rparr>,
      SimOpts \<lparr>cmd_name = ''questa_compile_opts'', description = ''Questa compile'', param_set_fn = no_args,
        define_set_fn = plus_define, hierarchy_sep = ''/''\<rparr>,
      SimOpts \<lparr>cmd_name = ''xlm_opts'', description = ''Xcelium compile'', param_set_fn = defparam,
        define_set_fn = \<lambda>d v. [''-define'', d @ ''='' @ v], hierarchy_sep = ''.''\<rparr>,
      SimOpts \<lparr>cmd_name = ''dsim_opts'', description = ''DSim compile'', param_set_fn = defparam,
        define_set_fn = plus_define, hierarchy_sep = ''.''\<rparr>]"

fun output_type :: "outputter \<Rightarrow> string" where
  "output_type FusesocOpts = ''fusesoc_opts''"
| "output_type QueryOpts = ''query_fields''"
| "output_type (SimOpts self) = cmd_name self"

section \<open>Files and the command line\<close>

definition get_config_file_location :: "(string, string) dict \<Rightarrow> string" where
  "get_config_file_location environ = dict_get environ ''IBEX_CONFIG_FILE'' ''ibex_configs.yaml''"

definition parse_config :: "decoder \<Rightarrow> fs \<Rightarrow> string \<Rightarrow> path \<Rightarrow> ibex_config res" where
  "parse_config load fs config_name config_filename =
     rbind (read_text fs config_filename) (\<lambda>contents.
       case load contents of
         None \<Rightarrow> Err ConfigException
       | Some yml \<Rightarrow>
           rbind (rcatch is_value_error ConfigException (configs_init yml)) (\<lambda>configs.
             res_of ValueError (map_of configs config_name)))"

text \<open>The parsed arguments; the fields after the file name belong to the chosen output type.\<close>

record config_args =
  ca_config_name :: string
  ca_config_filename :: path
  ca_output_type :: "string option"
  ca_fields :: "string list"
  ca_ins_hier_path :: string
  ca_string_define_prefix :: string

fun run_outputter :: "outputter \<Rightarrow> ibex_config \<Rightarrow> config_args \<Rightarrow> string res" where
  "run_outputter FusesocOpts config args = fusesoc_output config"
| "run_outputter QueryOpts config args = Ok (query_output config (ca_fields args))"
| "run_outputter (SimOpts self) config args =
     sim_output self config (ca_ins_hier_path args) (ca_string_define_prefix args)"

text \<open>\<open>main\<close>: the exit code and what is printed. An output type that is not in the list is refused by \<open>argparse\<close> with code 2.\<close>

definition config_main :: "decoder \<Rightarrow> fs \<Rightarrow> config_args \<Rightarrow> (int \<times> string list) res" where
  "config_main load fs args =
     (case ca_output_type args of
        None \<Rightarrow> Ok (1, [''ERROR: No output format specified.''])
      | Some name \<Rightarrow>
          case find (\<lambda>out. output_type out = name) outputters of
            None \<Rightarrow> Ok (2, [])
          | Some out \<Rightarrow>
              rbind (parse_config load fs (ca_config_name args) (ca_config_filename args)) (\<lambda>config.
              rbind (run_outputter out config args) (\<lambda>text_out. Ok (0, [text_out]))))"

section \<open>Accepted configurations\<close>

text \<open>The values a field of a type accepts.\<close>

fun has_type :: "field_type \<Rightarrow> json \<Rightarrow> bool" where
  "has_type Bool_Type (JBool b) = True"
| "has_type Bool_Type (JInt i) = (i = 0 \<or> i = 1)"
| "has_type Int_Type (JInt i) = True"
| "has_type Int_Type (JBool b) = True"
| "has_type Str_Type (JStr s) = True"
| "has_type _ _ = False"

definition field_ok :: "(string \<times> json) list \<Rightarrow> string \<times> field_type \<Rightarrow> bool" where
  "field_ok kvs x = (case x of (fld, typ) \<Rightarrow> case map_of kvs fld of None \<Rightarrow> False | Some v \<Rightarrow> has_type typ v)"

definition truth_int :: "bool \<Rightarrow> int" where
  "truth_int b = (if b then 1 else 0)"

lemma read_bool_total: "(\<exists>b. read_bool fld kvs = Ok b) \<longleftrightarrow> field_ok kvs (fld, Bool_Type)"
  by (auto simp: read_bool_def field_ok_def jindex_def res_of_def split: option.splits json.splits)

lemma read_int_total: "(\<exists>i. read_int fld kvs = Ok i) \<longleftrightarrow> field_ok kvs (fld, Int_Type)"
  by (auto simp: read_int_def field_ok_def jindex_def res_of_def split: option.splits json.splits)

lemma read_str_total: "(\<exists>s. read_str fld kvs = Ok s) \<longleftrightarrow> field_ok kvs (fld, Str_Type)"
  by (auto simp: read_str_def field_ok_def jindex_def res_of_def split: option.splits json.splits)

lemma read_bool_value: "read_bool fld kvs = Ok b \<Longrightarrow> \<exists>v. map_of kvs fld = Some v \<and> to_int v = Ok (truth_int b)"
  by (auto simp: read_bool_def truth_int_def jindex_def res_of_def split: option.splits json.splits if_splits)

lemma read_int_value: "read_int fld kvs = Ok i \<Longrightarrow> \<exists>v. map_of kvs fld = Some v \<and> to_int v = Ok i"
  by (auto simp: read_int_def jindex_def res_of_def split: option.splits json.splits if_splits)

lemma read_str_value: "read_str fld kvs = Ok s \<Longrightarrow> map_of kvs fld = Some (JStr s)"
  by (auto simp: read_str_def jindex_def res_of_def split: option.splits json.splits if_splits)

lemma rbind_total: "(\<exists>y. rbind m f = Ok y) \<longleftrightarrow> (\<exists>x. m = Ok x \<and> (\<exists>y. f x = Ok y))"
  by (cases m) auto

lemma read_fields_total: "(\<exists>c. read_fields kvs = Ok c) \<longleftrightarrow> list_all (field_ok kvs) known_fields"
  by (simp add: read_fields_def known_fields_def rbind_total read_bool_total read_int_total read_str_total)

text \<open>C36: an object is accepted as a configuration exactly when its keys are the known fields and every value has the type
  of its field, where a Boolean field also takes 0 and 1, and an integer field a truth value.\<close>

theorem config_accepted_iff:
  "(\<exists>c. config_init yml = Ok c) \<longleftrightarrow>
   (\<exists>kvs. yml = JObj kvs \<and> fst ` set kvs = fst ` set known_fields \<and> list_all (field_ok kvs) known_fields)"
  by (auto simp: config_init_def Let_def read_fields_total [symmetric] split: json.splits)

section \<open>Simulator options\<close>

datatype attribute = Number int | Text_Value string

text \<open>The attributes of a configuration, in the order of the fields.\<close>

definition attributes :: "ibex_config \<Rightarrow> (string \<times> attribute) list" where
  "attributes c =
     [(''RV32E'', Number (truth_int (rv32e c))), (''RV32M'', Text_Value (rv32m c)), (''RV32B'', Text_Value (rv32b c)),
      (''RV32ZC'', Text_Value (rv32zc c)), (''RegFile'', Text_Value (reg_file c)),
      (''BranchTargetALU'', Number (truth_int (branch_target_alu c))), (''WritebackStage'', Number (truth_int (writeback_stage c))),
      (''ICache'', Number (truth_int (icache c))), (''ICacheECC'', Number (truth_int (icache_ecc c))),
      (''ICacheScramble'', Number (truth_int (icache_scramble c))), (''BranchPredictor'', Number (truth_int (branch_predictor c))),
      (''DbgTriggerEn'', Number (truth_int (dbg_trigger_en c))), (''SecureIbex'', Number (truth_int (secure_ibex c))),
      (''PMPEnable'', Number (truth_int (pmp_enable c))), (''PMPGranularity'', Number (pmp_granularity c)),
      (''PMPNumRegions'', Number (pmp_num_regions c)), (''MHPMCounterNum'', Number (mhpm_counter_num c)),
      (''MHPMCounterWidth'', Number (mhpm_counter_width c))]"

definition attribute_args :: "sim_opts \<Rightarrow> string \<Rightarrow> string \<Rightarrow> string \<times> attribute \<Rightarrow> string list" where
  "attribute_args self ins_hier_path prefix x =
     (case x of
        (fld, Number i) \<Rightarrow> param_set_fn self (ins_hier_path @ fld) (str_int i)
      | (fld, Text_Value s) \<Rightarrow> define_set_fn self (prefix @ fld) s)"

fun holds_attribute :: "(string \<times> json) list \<Rightarrow> string \<times> field_type \<Rightarrow> string \<times> attribute \<Rightarrow> bool" where
  "holds_attribute kvs (fld, typ) (fld', Number i) \<longleftrightarrow>
     fld' = fld \<and> typ \<noteq> Str_Type \<and> (\<exists>v. map_of kvs fld = Some v \<and> to_int v = Ok i)"
| "holds_attribute kvs (fld, typ) (fld', Text_Value s) \<longleftrightarrow> fld' = fld \<and> typ = Str_Type \<and> map_of kvs fld = Some (JStr s)"

lemma read_fields_attributes:
  "read_fields kvs = Ok c \<Longrightarrow> params c = kvs \<and> list_all2 (holds_attribute kvs) known_fields (attributes c)"
  unfolding read_fields_def
  by (elim rbind_OkE) (clarsimp simp: known_fields_def attributes_def read_bool_value read_int_value read_str_value)

lemma sim_field_attribute:
  "params c = kvs \<Longrightarrow> holds_attribute kvs x a \<Longrightarrow>
   sim_field self c hier prefix x = Ok (map shlex_quote (attribute_args self hier prefix a))"
  by (cases x; cases a; cases "snd a") (auto simp: sim_field_def attribute_args_def jindex_def)

lemma rmapM_list_all2: "list_all2 (\<lambda>x y. f x = Ok (g y)) xs ys \<Longrightarrow> rmapM f xs = Ok (map g ys)"
  by (auto simp: rmapM_eq_Ok list_all2_conv_all_nth)

lemma config_init_fields: "config_init yml = Ok c \<Longrightarrow> \<exists>kvs. yml = JObj kvs \<and> read_fields kvs = Ok c"
  by (auto simp: config_init_def Let_def split: json.splits if_splits)

definition hier_prefix :: "sim_opts \<Rightarrow> string \<Rightarrow> string" where
  "hier_prefix self arg_hier_path = (if arg_hier_path \<noteq> [] then arg_hier_path @ hierarchy_sep self else [])"

lemma sim_output_attributes:
  assumes "config_init yml = Ok c"
  shows "sim_output self c path prefix = Ok (shlex_join (concat (map (attribute_args self (hier_prefix self path) prefix) (attributes c))))"
proof -
  obtain kvs where "params c = kvs" "list_all2 (holds_attribute kvs) known_fields (attributes c)"
    using config_init_fields [OF assms] read_fields_attributes by blast
  then have "list_all2 (\<lambda>x a. sim_field self c (hier_prefix self path) prefix x =
      Ok (map shlex_quote (attribute_args self (hier_prefix self path) prefix a))) known_fields (attributes c)"
    by (auto elim!: list_all2_mono intro: sim_field_attribute)
  then have "rmapM (sim_field self c (hier_prefix self path) prefix) known_fields =
      Ok (map (\<lambda>a. map shlex_quote (attribute_args self (hier_prefix self path) prefix a)) (attributes c))"
    by (rule rmapM_list_all2)
  then show ?thesis
    by (simp add: sim_output_def Let_def hier_prefix_def shlex_join_def map_concat comp_def)
qed

text \<open>The options printed for a simulator, split the way a shell does, are the arguments for the attributes of the
  configuration, one field after the other: a Boolean or integer as the parameter of the instance with its value in
  decimal, a string as the definition with its text, whatever characters it holds.\<close>

theorem sim_output_read_back:
  assumes "config_init yml = Ok c"
  shows "\<exists>out. sim_output self c path prefix = Ok out \<and>
    shlex_split out = Ok (concat (map (attribute_args self (hier_prefix self path) prefix) (attributes c)))"
  using sim_output_attributes [OF assms] shlex_split_join by blast

definition demo_yaml :: json where
  "demo_yaml = JObj
     [(''RV32E'', JInt 0), (''RV32M'', JStr ''ibex_pkg::RV32MFast''), (''RV32B'', JStr ''ibex_pkg::RV32BNone''),
      (''RV32ZC'', JStr ''ibex_pkg::RV32Zca''), (''RegFile'', JStr ''ibex_pkg::RegFileFF''), (''BranchTargetALU'', JInt 0),
      (''WritebackStage'', JInt 0), (''ICache'', JInt 0), (''ICacheECC'', JInt 0), (''ICacheScramble'', JInt 0),
      (''BranchPredictor'', JInt 0), (''DbgTriggerEn'', JInt 0), (''SecureIbex'', JBool True), (''PMPEnable'', JInt 0),
      (''PMPGranularity'', JInt 0), (''PMPNumRegions'', JInt 4), (''MHPMCounterNum'', JInt 0), (''MHPMCounterWidth'', JInt 40)]"

definition demo_config :: ibex_config where
  "demo_config = (case config_init demo_yaml of Inr c \<Rightarrow> c)"

lemma demo_config_init: "config_init demo_yaml = Ok demo_config"
proof -
  have "case config_init demo_yaml of Inr c \<Rightarrow> True | Inl e \<Rightarrow> False" by code_simp
  then show ?thesis by (auto simp: demo_config_def split: sum.splits)
qed

definition demo_xlm :: sim_opts where
  "demo_xlm = \<lparr>cmd_name = ''xlm_opts'', description = ''Xcelium compile'', param_set_fn = defparam,
     define_set_fn = \<lambda>d v. [''-define'', d @ ''='' @ v], hierarchy_sep = ''.''\<rparr>"

end
