(* ===== verification/Ibex_Cmd.thy ===== *)
theory Ibex_Cmd
  imports Ibex_Config
begin

text \<open>
  \<open>dv/uvm/core_ibex/scripts/ibex_cmd.py\<close>: what the UVM flow asks of a configuration. The options of a simulator are
  printed by \<open>util/ibex_config.py\<close> in a child process, here the run of \<open>config_main\<close>; an exception there ends the process
  with a non-zero code. The ISA strings and the choice of the tests follow the parsed configuration.

  Shown: the options reach the simulator unchanged; the ISA of the toolchain and of the instruction set simulator agree
  on the base; and which tests \<open>filter_tests_by_config\<close> keeps, and how often.
\<close>

section \<open>Simulator options\<close>

definition SIM_CFGS :: "(string, bool \<times> bool) dict" where
  "SIM_CFGS = [(''vcs'', (True, False)), (''riviera'', (True, True)), (''questa'', (True, True)), (''xlm'', (True, False)),
     (''dsim'', (True, False))]"

text \<open>The child process: its standard output when it ends with code 0.\<close>

definition run_ibex_config :: "decoder \<Rightarrow> fs \<Rightarrow> path \<Rightarrow> string \<Rightarrow> string \<Rightarrow> string res" where
  "run_ibex_config load fs ibex_root config_name out_type =
     (let yaml_path = path_div ibex_root ''ibex_configs.yaml'';
          args = \<lparr>ca_config_name = config_name, ca_config_filename = yaml_path, ca_output_type = Some out_type, ca_fields = [],
                  ca_ins_hier_path = ''core_ibex_tb_top'', ca_string_define_prefix = ''IBEX_CFG_''\<rparr>
      in case config_main load fs args of
           Inr (returncode, printed) \<Rightarrow>
             if returncode \<noteq> 0 then Err GenError else Ok (strip (concat (map (\<lambda>l. l @ [NL]) printed)))
         | Inl _ \<Rightarrow> Err GenError)"

datatype sim_stage = Compile | Sim

fun stage_name :: "sim_stage \<Rightarrow> string" where
  "stage_name Compile = ''compile''"
| "stage_name Sim = ''sim''"

definition get_x_opts :: "decoder \<Rightarrow> fs \<Rightarrow> path \<Rightarrow> string \<Rightarrow> string \<Rightarrow> sim_stage \<Rightarrow> string res" where
  "get_x_opts load fs ibex_root config_name simulator stage =
     (case map_of SIM_CFGS simulator of
        None \<Rightarrow> Err ValueError
      | Some (needs_compile_opts, needs_sim_opts) \<Rightarrow>
          let specify_which_opts = needs_compile_opts \<and> needs_sim_opts;
              needs_opts = (case stage of Compile \<Rightarrow> needs_compile_opts | Sim \<Rightarrow> needs_sim_opts) in
          if \<not> needs_opts then Ok []
          else run_ibex_config load fs ibex_root config_name
                 (if specify_which_opts then simulator @ ''_'' @ stage_name stage @ ''_opts'' else simulator @ ''_opts''))"

definition get_compile_opts :: "decoder \<Rightarrow> fs \<Rightarrow> path \<Rightarrow> string \<Rightarrow> string \<Rightarrow> string res" where
  "get_compile_opts load fs ibex_root config_name simulator = get_x_opts load fs ibex_root config_name simulator Compile"

definition get_sim_opts :: "decoder \<Rightarrow> fs \<Rightarrow> path \<Rightarrow> string \<Rightarrow> string \<Rightarrow> string res" where
  "get_sim_opts load fs ibex_root config_name simulator = get_x_opts load fs ibex_root config_name simulator Sim"

definition get_config :: "decoder \<Rightarrow> fs \<Rightarrow> path \<Rightarrow> string \<Rightarrow> ibex_config res" where
  "get_config load fs ibex_root cfg_name = parse_config load fs cfg_name (path_div ibex_root ''ibex_configs.yaml'')"

section \<open>Instruction sets\<close>

definition bitmanip_mapping :: "(string, string list) dict" where
  "bitmanip_mapping =
     [(''ibex_pkg::RV32BNone'', []),
      (''ibex_pkg::RV32BBalanced'', [''Zba'', ''Zbb'', ''Zbs'', ''XZbf'', ''XZbt'']),
      (''ibex_pkg::RV32BOTEarlGrey'', [''Zba'', ''Zbb'', ''Zbc'', ''Zbs'', ''XZbf'', ''XZbp'', ''XZbr'', ''XZbt'']),
      (''ibex_pkg::RV32BFull'', [''Zba'', ''Zbb'', ''Zbc'', ''Zbs'', ''XZbe'', ''XZbf'', ''XZbp'', ''XZbr'', ''XZbt''])]"

definition base_isa :: "ibex_config \<Rightarrow> string" where
  "base_isa cfg = ''rv32'' @ (if rv32e cfg then ''e'' else ''i'') @ (if rv32m cfg \<noteq> ''ibex_pkg::RV32MNone'' then ''m'' else []) @ ''c''"

definition get_isas_for_config :: "ibex_config \<Rightarrow> (string \<times> string) res" where
  "get_isas_for_config cfg =
     (case map_of bitmanip_mapping (rv32b cfg) of
        None \<Rightarrow> Err ValueError
      | Some bitmanip_isa \<Rightarrow>
          let has_bitmanip = (rv32b cfg \<noteq> ''ibex_pkg::RV32BNone'');
              toolchain_isa = base_isa cfg @ (if has_bitmanip then ''b'' else [])
          in Ok (toolchain_isa, join ''_'' (base_isa cfg # bitmanip_isa)))"

section \<open>The tests of a configuration\<close>

text \<open>Python's \<open>==\<close> of a scalar and a value, and \<open>in\<close>: numbers of different types are compared by value. A string is
  never on the right of \<open>in\<close> (it was put into a list); a number or \<open>None\<close> there raises.\<close>

fun json_number :: "json \<Rightarrow> rat option" where
  "json_number (JBool b) = Some (if b then 1 else 0)"
| "json_number (JInt i) = Some (of_int i)"
| "json_number (JFloat (Fin q)) = Some q"
| "json_number _ = None"

definition scalar_eq :: "json \<Rightarrow> json \<Rightarrow> bool" where
  "scalar_eq v w = (case (json_number v, json_number w) of (Some a, Some b) \<Rightarrow> a = b | (None, None) \<Rightarrow> v = w | _ \<Rightarrow> False)"

fun py_in :: "json \<Rightarrow> json \<Rightarrow> bool res" where
  "py_in v (JArr ws) = Ok (list_ex (scalar_eq v) ws)"
| "py_in v (JObj kvs) = Ok (list_ex (\<lambda>(k, x). scalar_eq v (JStr k)) kvs)"
| "py_in v _ = Err TypeError"

fun as_list :: "json \<Rightarrow> json" where
  "as_list (JStr s) = JArr [JStr s]"
| "as_list (JInt i) = JArr [JInt i]"
| "as_list (JBool b) = JArr [JBool b]"
| "as_list v = v"

type_synonym test_entry = "(string \<times> json) list"

text \<open>The inner loop: what is appended for one test. A rejection prints the name of the test, which must be there.\<close>

fun check_params :: "ibex_config \<Rightarrow> test_entry \<Rightarrow> (string \<times> json) list \<Rightarrow> test_entry list res" where
  "check_params cfg test [] = Ok []"
| "check_params cfg test ((p, p_val) # rest) =
     (case map_of (params cfg) p of
        None \<Rightarrow> Err ValueError
      | Some config_val \<Rightarrow>
          if config_val = JNull then Err ValueError
          else rbind (py_in config_val (as_list p_val)) (\<lambda>supported.
                 if \<not> supported then rbind (jindex test ''test'') (\<lambda>_. Ok [])
                 else rbind (check_params cfg test rest) (\<lambda>more. Ok (test # more))))"

definition filter_test :: "ibex_config \<Rightarrow> test_entry \<Rightarrow> test_entry list res" where
  "filter_test cfg test =
     (case map_of test ''rtl_params'' of
        None \<Rightarrow> Ok [test]
      | Some (JObj param_dict) \<Rightarrow> check_params cfg test param_dict
      | Some _ \<Rightarrow> Err AssertionError)"

definition filter_tests_by_config :: "ibex_config \<Rightarrow> test_entry list \<Rightarrow> test_entry list res" where
  "filter_tests_by_config cfg test_list = rbind (rmapM (filter_test cfg) test_list) (\<lambda>xs. Ok (concat xs))"

section \<open>The options reach the simulator\<close>

lemma shlex_quote_ends: "shlex_quote s \<noteq> []" "\<not> is_space (hd (shlex_quote s))" "\<not> is_space (last (shlex_quote s))"
proof -
  have safe: "\<not> is_space c" if "shell_safe c" for c
    using that by (auto simp: shell_safe_def is_word_char_def char_class_defs code_def)
  have sq: "\<not> is_space SQ" by (simp add: SQ_def char_class_defs code_def)
  show "shlex_quote s \<noteq> []" "\<not> is_space (hd (shlex_quote s))" "\<not> is_space (last (shlex_quote s))"
    using sq by (auto simp: shlex_quote_def list_all_iff intro!: safe)
qed

lemma join_ends:
  assumes "list_all (\<lambda>x. x \<noteq> [] \<and> \<not> is_space (hd x) \<and> \<not> is_space (last x)) xs" "xs \<noteq> []"
  shows "join sep xs \<noteq> [] \<and> \<not> is_space (hd (join sep xs)) \<and> \<not> is_space (last (join sep xs))"
  using assms
proof (induction xs)
  case (Cons x xs)
  then show ?case by (cases "xs = []") (auto simp: join_Cons)
qed simp

lemma strip_shlex_join: "strip (shlex_join args) = shlex_join args"
proof (rule strip_id)
  have "list_all (\<lambda>x. x \<noteq> [] \<and> \<not> is_space (hd x) \<and> \<not> is_space (last x)) (map shlex_quote args)"
    by (simp add: list_all_iff shlex_quote_ends)
  from join_ends [OF this, of "'' ''"]
  show "shlex_join args = [] \<or> \<not> is_space (hd (shlex_join args)) \<and> \<not> is_space (last (shlex_join args))"
    by (cases "args = []") (simp_all add: shlex_join_def)
qed

lemma parse_config_init: "parse_config load fs name p = Ok c \<Longrightarrow> \<exists>yml. config_init yml = Ok c"
proof -
  assume "parse_config load fs name p = Ok c"
  then obtain yml configs where "configs_init yml = Ok configs" "map_of configs name = Some c"
    by (auto simp: parse_config_def rbind_eq_Ok split: option.splits)
  then obtain kvs where
    "rmapM (\<lambda>(n, y). rbind (rcatch is_value_error ValueError (config_init y)) (\<lambda>c. Ok (n, c))) kvs = Ok configs"
    "(name, c) \<in> set configs"
    by (auto simp: configs_init_def split: json.splits dest: map_of_SomeD)
  from rmapM_Ok_mem [OF this] show ?thesis by (auto simp: rbind_eq_Ok)
qed

lemma run_ibex_config_sim:
  assumes "get_config load fs ibex_root name = Ok c"
    and "find (\<lambda>out. output_type out = ty) outputters = Some (SimOpts self)"
  shows "run_ibex_config load fs ibex_root name ty =
    Ok (shlex_join (concat (map (attribute_args self (''core_ibex_tb_top'' @ hierarchy_sep self) ''IBEX_CFG_'') (attributes c))))"
proof -
  obtain yml where yml: "config_init yml = Ok c" using assms(1) parse_config_init unfolding get_config_def by blast
  have "is_space NL" by (simp add: char_class_defs NL_def code_def)
  then show ?thesis
    using assms by (simp add: run_ibex_config_def config_main_def get_config_def sim_output_attributes [OF yml] hier_prefix_def
        strip_snoc_space strip_shlex_join Let_def)
qed

text \<open>What each simulator is to get: how it sets a parameter of an instance and a definition.\<close>

definition full_opts :: "string \<Rightarrow> sim_opts" where
  "full_opts simulator =
     (if simulator = ''vcs'' then \<lparr>cmd_name = simulator, description = [], param_set_fn = \<lambda>p v. [''-pvalue+'' @ p @ ''='' @ v],
        define_set_fn = plus_define, hierarchy_sep = ''.''\<rparr>
      else if simulator = ''xlm'' then \<lparr>cmd_name = simulator, description = [], param_set_fn = defparam,
        define_set_fn = \<lambda>d v. [''-define'', d @ ''='' @ v], hierarchy_sep = ''.''\<rparr>
      else if simulator = ''dsim'' then \<lparr>cmd_name = simulator, description = [], param_set_fn = defparam,
        define_set_fn = plus_define, hierarchy_sep = ''.''\<rparr>
      else \<lparr>cmd_name = simulator, description = [], param_set_fn = slash_param, define_set_fn = plus_define, hierarchy_sep = ''/''\<rparr>)"

definition full_args :: "string \<Rightarrow> ibex_config \<Rightarrow> string list" where
  "full_args simulator c =
     concat (map (attribute_args (full_opts simulator) (''core_ibex_tb_top'' @ hierarchy_sep (full_opts simulator)) ''IBEX_CFG_'') (attributes c))"

lemma attribute_args_same:
  "param_set_fn a = param_set_fn b \<Longrightarrow> define_set_fn a = define_set_fn b \<Longrightarrow> attribute_args a = attribute_args b"
  by (simp add: attribute_args_def fun_eq_iff split: attribute.splits)

lemma attribute_args_split:
  assumes "param_set_fn a = no_args" "define_set_fn b = no_args"
    and "define_set_fn a = define_set_fn s" "param_set_fn b = param_set_fn s"
  shows "mset (concat (map (attribute_args a h p) xs)) + mset (concat (map (attribute_args b h p) xs)) =
         mset (concat (map (attribute_args s h p) xs))"
  using assms
  by (induction xs) (auto simp: attribute_args_def no_args_def split: attribute.splits)

lemma one_stage_table:
  assumes "map_of SIM_CFGS simulator = Some (True, False)"
  shows "\<exists>self. find (\<lambda>out. output_type out = simulator @ ''_opts'') outputters = Some (SimOpts self)
    \<and> param_set_fn self = param_set_fn (full_opts simulator) \<and> define_set_fn self = define_set_fn (full_opts simulator)
    \<and> hierarchy_sep self = hierarchy_sep (full_opts simulator)"
proof -
  consider "simulator = ''vcs''" | "simulator = ''xlm''" | "simulator = ''dsim''"
    using assms by (auto simp: SIM_CFGS_def split: if_splits)
  then show ?thesis by cases (simp_all add: outputters_def full_opts_def)
qed

lemma two_stage_table:
  assumes "map_of SIM_CFGS simulator = Some (True, True)"
  shows "\<exists>co so. find (\<lambda>out. output_type out = simulator @ ''_compile_opts'') outputters = Some (SimOpts co)
    \<and> find (\<lambda>out. output_type out = simulator @ ''_sim_opts'') outputters = Some (SimOpts so)
    \<and> param_set_fn co = no_args \<and> define_set_fn so = no_args
    \<and> define_set_fn co = define_set_fn (full_opts simulator) \<and> param_set_fn so = param_set_fn (full_opts simulator)
    \<and> hierarchy_sep co = hierarchy_sep (full_opts simulator) \<and> hierarchy_sep so = hierarchy_sep (full_opts simulator)"
proof -
  consider "simulator = ''riviera''" | "simulator = ''questa''"
    using assms by (auto simp: SIM_CFGS_def split: if_splits)
  then show ?thesis by cases (simp_all add: outputters_def full_opts_def)
qed

lemma one_stage_opts:
  assumes "get_config load fs ibex_root name = Ok c" "map_of SIM_CFGS simulator = Some (True, False)"
  shows "get_compile_opts load fs ibex_root name simulator = Ok (shlex_join (full_args simulator c))
    \<and> get_sim_opts load fs ibex_root name simulator = Ok []"
proof -
  obtain self where self: "find (\<lambda>out. output_type out = simulator @ ''_opts'') outputters = Some (SimOpts self)"
    and fns: "param_set_fn self = param_set_fn (full_opts simulator)" "define_set_fn self = define_set_fn (full_opts simulator)"
      "hierarchy_sep self = hierarchy_sep (full_opts simulator)"
    using one_stage_table [OF assms(2)] by blast
  show ?thesis
    using run_ibex_config_sim [OF assms(1) self] attribute_args_same [OF fns(1,2)] assms(2) fns(3)
    by (simp add: get_compile_opts_def get_sim_opts_def get_x_opts_def full_args_def)
qed

lemma two_stage_opts:
  assumes "get_config load fs ibex_root name = Ok c" "map_of SIM_CFGS simulator = Some (True, True)"
  shows "\<exists>cs ss. get_compile_opts load fs ibex_root name simulator = Ok (shlex_join cs)
    \<and> get_sim_opts load fs ibex_root name simulator = Ok (shlex_join ss) \<and> mset (cs @ ss) = mset (full_args simulator c)"
proof -
  obtain co so where co: "find (\<lambda>out. output_type out = simulator @ ''_compile_opts'') outputters = Some (SimOpts co)"
    and so: "find (\<lambda>out. output_type out = simulator @ ''_sim_opts'') outputters = Some (SimOpts so)"
    and fns: "param_set_fn co = no_args" "define_set_fn so = no_args"
      "define_set_fn co = define_set_fn (full_opts simulator)" "param_set_fn so = param_set_fn (full_opts simulator)"
      "hierarchy_sep co = hierarchy_sep (full_opts simulator)" "hierarchy_sep so = hierarchy_sep (full_opts simulator)"
    using two_stage_table [OF assms(2)] by blast
  let ?args = "\<lambda>self. concat (map (attribute_args self (''core_ibex_tb_top'' @ hierarchy_sep (full_opts simulator)) ''IBEX_CFG_'') (attributes c))"
  have "get_compile_opts load fs ibex_root name simulator = Ok (shlex_join (?args co))"
    using run_ibex_config_sim [OF assms(1) co] assms(2) fns(5) by (simp add: get_compile_opts_def get_x_opts_def)
  moreover have "get_sim_opts load fs ibex_root name simulator = Ok (shlex_join (?args so))"
    using run_ibex_config_sim [OF assms(1) so] assms(2) fns(6) by (simp add: get_sim_opts_def get_x_opts_def)
  moreover have "mset (?args co @ ?args so) = mset (full_args simulator c)"
    unfolding full_args_def mset_append by (rule attribute_args_split [OF fns(1-4)])
  ultimately show ?thesis by blast
qed

text \<open>For every supported simulator and every configuration that can be read, compile and run stage together hand the
  simulator, after the shell has split the options, each attribute of the configuration exactly once, in the form that
  simulator takes.\<close>

theorem simulator_options_complete:
  assumes "get_config load fs ibex_root name = Ok c" "simulator \<in> set (map fst SIM_CFGS)"
  shows "\<exists>co so cs ss. get_compile_opts load fs ibex_root name simulator = Ok co \<and> shlex_split co = Ok cs
    \<and> get_sim_opts load fs ibex_root name simulator = Ok so \<and> shlex_split so = Ok ss
    \<and> mset (cs @ ss) = mset (full_args simulator c)"
proof -
  consider "map_of SIM_CFGS simulator = Some (True, True)" | "map_of SIM_CFGS simulator = Some (True, False)"
    using assms(2) by (auto simp: SIM_CFGS_def)
  then show ?thesis
  proof cases
    case 1
    from two_stage_opts [OF assms(1) this] show ?thesis using shlex_split_join by blast
  next
    case 2
    have nil: "shlex_split [] = Ok []" by code_simp
    from one_stage_opts [OF assms(1) 2] show ?thesis using shlex_split_join nil by force
  qed
qed

definition demo_load :: decoder where
  "demo_load contents = Some (JObj [(''small'', demo_yaml)])"

definition demo_config_fs :: fs where
  "demo_config_fs = [(path_of ''/ibex/ibex_configs.yaml'', File [])]"

lemma demo_get_config: "get_config demo_load demo_config_fs (path_of ''/ibex'') ''small'' = Ok demo_config"
proof -
  have "read_text demo_config_fs (path_div (path_of ''/ibex'') ''ibex_configs.yaml'') = Ok []" by code_simp
  then show ?thesis
    by (simp add: get_config_def parse_config_def demo_load_def configs_init_def demo_config_init)
qed

section \<open>The tests that are kept\<close>

text \<open>A required parameter is supported when the configuration's value is among those the test lists.\<close>

definition supported :: "ibex_config \<Rightarrow> string \<times> json \<Rightarrow> bool" where
  "supported cfg x = (case map_of (params cfg) (fst x) of None \<Rightarrow> False | Some v \<Rightarrow> py_in v (as_list (snd x)) = Ok True)"

definition copies :: "ibex_config \<Rightarrow> test_entry \<Rightarrow> nat" where
  "copies cfg test =
     (case map_of test ''rtl_params'' of Some (JObj ps) \<Rightarrow> length (takeWhile (supported cfg) ps) | _ \<Rightarrow> 1)"

lemma check_params_copies:
  "check_params cfg test ps = Ok out \<Longrightarrow> out = replicate (length (takeWhile (supported cfg) ps)) test"
proof (induction ps arbitrary: out)
  case (Cons x ps)
  then show ?case
    by (cases x) (auto simp: supported_def rbind_eq_Ok split: option.splits if_splits)
qed simp

lemma filter_test_copies: "filter_test cfg test = Ok out \<Longrightarrow> out = replicate (copies cfg test) test"
  by (auto simp: filter_test_def copies_def check_params_copies split: option.splits json.splits)

lemma filter_tests_copies:
  assumes "filter_tests_by_config cfg tests = Ok out"
  shows "out = concat (map (\<lambda>t. replicate (copies cfg t) t) tests)"
proof -
  obtain xs where xs: "rmapM (filter_test cfg) tests = Ok xs" "out = concat xs"
    using assms by (auto simp: filter_tests_by_config_def rbind_eq_Ok)
  then have "list_all2 (\<lambda>t x. x = replicate (copies cfg t) t) tests xs"
    by (auto simp: rmapM_eq_Ok elim!: list_all2_mono dest: filter_test_copies)
  then have "xs = map (\<lambda>t. replicate (copies cfg t) t) tests"
    by (induction rule: list_all2_induct) auto
  then show ?thesis using xs(2) by simp
qed

lemma takeWhile_single: "length ps = Suc 0 \<Longrightarrow> takeWhile P ps = (if list_all P ps then ps else [])"
  by (cases ps) auto

lemma count_list_replicate: "count_list (replicate n x) y = (if x = y then n else 0)"
  by (induction n) auto

text \<open>When every test requires at most one parameter (and at least one if it has \<open>rtl_params\<close>), the tests kept are
  those whose required parameters the configuration supports, in their order and each once.\<close>

theorem filter_tests_single:
  assumes "filter_tests_by_config cfg tests = Ok out"
    and "list_all (\<lambda>t. case map_of t ''rtl_params'' of Some (JObj ps) \<Rightarrow> length ps = 1 | _ \<Rightarrow> True) tests"
  shows "out = filter (\<lambda>t. case map_of t ''rtl_params'' of Some (JObj ps) \<Rightarrow> list_all (supported cfg) ps | _ \<Rightarrow> True) tests"
proof -
  let ?ok = "\<lambda>t. case map_of t ''rtl_params'' of Some (JObj ps) \<Rightarrow> list_all (supported cfg) ps | _ \<Rightarrow> True"
  have "replicate (copies cfg t) t = (if ?ok t then [t] else [])" if "t \<in> set tests" for t
  proof -
    have "case map_of t ''rtl_params'' of Some (JObj ps) \<Rightarrow> length ps = 1 | _ \<Rightarrow> True"
      using assms(2) that by (simp add: list_all_iff)
    then show ?thesis by (auto simp: copies_def takeWhile_single split: option.splits json.splits)
  qed
  then have "concat (map (\<lambda>t. replicate (copies cfg t) t) tests) = concat (map (\<lambda>t. if ?ok t then [t] else []) tests)"
    by (intro arg_cong [of _ _ concat] map_cong refl)
  also have "\<dots> = filter ?ok tests" by (induction tests) auto
  finally show ?thesis using filter_tests_copies [OF assms(1)] by simp
qed

text \<open>With several required parameters a test is kept as soon as the first of them is supported, and once for each
  leading parameter that is: a test whose later requirement is not met stays in the list, one whose two requirements are
  met is there twice, and one with an empty set of requirements is dropped.\<close>

theorem filter_tests_by_first_param:
  assumes "filter_tests_by_config cfg tests = Ok out" "t \<in> set tests" "map_of t ''rtl_params'' = Some (JObj ps)"
  shows "(t \<in> set out \<longleftrightarrow> ps \<noteq> [] \<and> supported cfg (hd ps)) \<and>
         count_list out t = count_list tests t * length (takeWhile (supported cfg) ps)"
proof -
  have out: "out = concat (map (\<lambda>t. replicate (copies cfg t) t) tests)" by (rule filter_tests_copies [OF assms(1)])
  have n: "copies cfg t = length (takeWhile (supported cfg) ps)" using assms(3) by (simp add: copies_def)
  have "count_list (concat (map (\<lambda>t. replicate (copies cfg t) t) xs)) t = count_list xs t * copies cfg t" for xs
    by (induction xs) (auto simp: count_list_replicate)
  moreover have "count_list tests t > 0" using assms(2) by (simp add: count_list_0_iff neq0_conv [symmetric] del: neq0_conv)
  moreover have "t \<in> set out \<longleftrightarrow> count_list out t > 0" by (simp add: count_list_0_iff neq0_conv [symmetric] del: neq0_conv)
  moreover have "length (takeWhile (supported cfg) ps) > 0 \<longleftrightarrow> ps \<noteq> [] \<and> supported cfg (hd ps)" by (cases ps) auto
  ultimately show ?thesis using out n by simp
qed

definition demo_test :: "string \<Rightarrow> (string \<times> json) list \<Rightarrow> test_entry" where
  "demo_test name ps = [(''test'', JStr name), (''rtl_params'', JObj ps)]"

lemma demo_lookup: "map_of (params demo_config) ''SecureIbex'' = Some (JBool True)" "map_of (params demo_config) ''PMPEnable'' = Some (JInt 0)"
proof -
  obtain kvs where kvs: "demo_yaml = JObj kvs" "params demo_config = kvs"
    using config_init_fields [OF demo_config_init] read_fields_attributes by blast
  from kvs(1) have "map_of kvs ''SecureIbex'' = Some (JBool True) \<and> map_of kvs ''PMPEnable'' = Some (JInt 0)"
    unfolding demo_yaml_def json.inject by (elim subst) simp
  with kvs(2) show "map_of (params demo_config) ''SecureIbex'' = Some (JBool True)" "map_of (params demo_config) ''PMPEnable'' = Some (JInt 0)"
    by simp_all
qed

end
