(* ===== verification/Tool_Requirements.thy ===== *)
theory Tool_Requirements
  imports Py_Regex Py_Json Py_System
begin

text \<open>
  \<open>util/check_tool_requirements.py\<close> and \<open>util/tool_requirements.py\<close>: the installed tools are asked for their versions and
  compared with the required ones. Child processes, imported modules and \<open>packaging.version\<close> (a parser of version
  numbers and their order) are parameters. What \<open>check\<close> says is a value of \<open>tool_verdict\<close> instead of a message.

  Shown: when the program ends with code 0; and that the numbers built for VCS put every release without a service pack
  before the required one of the same year.
\<close>

section \<open>Requirements\<close>

datatype tool_class = ToolReq | EdalizeToolReq | VcsToolReq | VeribleToolReq | VerilatorToolReq | VivadoToolReq | NinjaToolReq

record tool_req =
  tool :: string
  min_version :: string
  as_needed :: bool
  tool_class :: tool_class

record 'v tool_world =
  run_cmd :: "string list \<Rightarrow> (string, string) dict \<Rightarrow> string option"
  run_shell :: "string \<Rightarrow> string option"
  module_version :: "string \<Rightarrow> string option"
  version_of :: "string \<Rightarrow> 'v option"
  version_less :: "'v \<Rightarrow> 'v \<Rightarrow> bool"

fun tool_cmd :: "tool_class \<Rightarrow> string list option" where
  "tool_cmd VeribleToolReq = Some [''verible-verilog-lint'', ''--version'']"
| "tool_cmd VivadoToolReq = Some [''vivado'', ''-version'']"
| "tool_cmd VcsToolReq = Some [''vcs'', ''-full64'', ''-ID'']"
| "tool_cmd NinjaToolReq = Some [''ninja'', ''--version'']"
| "tool_cmd _ = None"

fun tool_env :: "tool_class \<Rightarrow> (string, string) dict" where
  "tool_env VcsToolReq = [(''VCS_ARCH_OVERRIDE'', ''linux'')]"
| "tool_env _ = []"

fun version_regex :: "tool_class \<Rightarrow> re option" where
  "version_regex VivadoToolReq = Some (Seqs [Lit ''Vivado v'', Cap ''1'' (Many any_char), One is_space])"
| "version_regex VcsToolReq =
     Some (Seqs [Lit ''Compiler version = VCS '', One is_upper_az, Lit ''-'', Cap ''1'' (Many any_char)])"
| "version_regex _ = None"

section \<open>The installed version\<close>

definition get_tool_cmd :: "tool_req \<Rightarrow> string list" where
  "get_tool_cmd self = (case tool_cmd (tool_class self) of Some cmd \<Rightarrow> cmd | None \<Rightarrow> [tool self, ''--version''])"

fun first_version :: "re \<Rightarrow> string list \<Rightarrow> string res" where
  "first_version r [] = Err ValueError"
| "first_version r (line # ls) =
     (case re_match r (rstrip line) of Some e \<Rightarrow> Ok (the (group e ''1'')) | None \<Rightarrow> first_version r ls)"

definition parse_version_output :: "tool_req \<Rightarrow> string \<Rightarrow> string res" where
  "parse_version_output self stdout =
     (case version_regex (tool_class self) of
        None \<Rightarrow> (let ws = split_ws (hd (split_char NL stdout)) in if ws = [] then Err ValueError else Ok (last ws))
      | Some r \<Rightarrow> first_version r (split_char NL stdout))"

definition default_version :: "'v tool_world \<Rightarrow> tool_req \<Rightarrow> string res" where
  "default_version w self =
     (case run_cmd w (get_tool_cmd self) (tool_env (tool_class self)) of
        None \<Rightarrow> Err RuntimeError
      | Some stdout \<Rightarrow>
          if stdout = [] then Err RuntimeError
          else rcatch is_value_error RuntimeError (parse_version_output self stdout))"

definition verilator_version :: "'v tool_world \<Rightarrow> string res" where
  "verilator_version w =
     (case run_shell w ''verilator --version'' of
        None \<Rightarrow> Err RuntimeError
      | Some stdout \<Rightarrow> (case split_char CHR '' '' stdout of _ # word # _ \<Rightarrow> Ok (strip word) | _ \<Rightarrow> Err IndexError))"

definition get_version :: "'v tool_world \<Rightarrow> tool_req \<Rightarrow> string res" where
  "get_version w self =
     (case tool_class self of
        VerilatorToolReq \<Rightarrow> verilator_version w
      | EdalizeToolReq \<Rightarrow> res_of RuntimeError (module_version w (tool self @ ''.version''))
      | _ \<Rightarrow> default_version w self)"

section \<open>Semantic versions\<close>

definition digits :: "string \<Rightarrow> re" where
  "digits n = Cap n (Some1 is_digit)"

definition is_hex_char :: "char \<Rightarrow> bool" where
  "is_hex_char c \<longleftrightarrow> is_digit c \<or> c \<in> set ''abcdef''"

definition VERIBLE_RE :: re where
  "VERIBLE_RE = Seqs [Lit ''v'', digits ''1'', Lit ''.'', digits ''2'', Lit ''-'', digits ''3'', Lit ''-g'', Some1 is_hex_char, Eos]"

definition VIVADO_RE :: re where
  "VIVADO_RE = Seqs [digits ''1'', Lit ''.'', digits ''2'', Opt (Seqs [Lit ''.'', digits ''3''])]"

definition VCS_RE :: re where
  "VCS_RE = Seqs [digits ''1'', One any_char, digits ''2'', Opt (Seqs [Lit ''-SP'', digits ''3'']), Opt (Seqs [Lit ''-'', digits ''4''])]"

definition NINJA_RE :: re where
  "NINJA_RE = Seqs [digits ''1'', Lit ''.'', digits ''2'', Lit ''.'', digits ''3'']"

definition dotted :: "groups option \<Rightarrow> string res" where
  "dotted m =
     (case m of
        None \<Rightarrow> Err ValueError
      | Some e \<Rightarrow> Ok (join ''.'' (map (\<lambda>n. case group e n of Some s \<Rightarrow> s | None \<Rightarrow> ''0'') [''1'', ''2'', ''3''])))"

definition group_nat :: "groups \<Rightarrow> string \<Rightarrow> nat" where
  "group_nat e n = (case group e n of Some s \<Rightarrow> digits_nat s | None \<Rightarrow> 0)"

definition vcs_semver :: "string \<Rightarrow> bool \<Rightarrow> string res" where
  "vcs_semver version from_req =
     (case re_match (if from_req then Seq VCS_RE Eos else VCS_RE) version of
        None \<Rightarrow> Err ValueError
      | Some e \<Rightarrow>
          let major = the (group e ''1''); minor = the (group e ''2''); sp = group_nat e ''3''; patch = group_nat e ''4''
          in Ok (major @ ''.'' @ minor @ str_nat (sp * 100 + patch)))"

definition to_semver :: "tool_class \<Rightarrow> string \<Rightarrow> bool \<Rightarrow> string res" where
  "to_semver cls version from_req =
     (case cls of
        VeribleToolReq \<Rightarrow> dotted (re_fullmatch VERIBLE_RE version)
      | VivadoToolReq \<Rightarrow> dotted (re_fullmatch VIVADO_RE version)
      | VcsToolReq \<Rightarrow> vcs_semver version from_req
      | NinjaToolReq \<Rightarrow> dotted (re_match NINJA_RE version)
      | _ \<Rightarrow> Ok version)"

section \<open>The check\<close>

datatype tool_verdict =
    Bad_Requirement | Bad_Required_Semver | No_Version exn | Bad_Installed | Bad_Installed_Semver
  | Too_Old string string | Recent string string

fun is_good :: "tool_verdict \<Rightarrow> bool" where
  "is_good (Recent found needed) = True"
| "is_good _ = False"

definition compare_installed :: "'v tool_world \<Rightarrow> tool_req \<Rightarrow> 'v \<Rightarrow> string \<Rightarrow> tool_verdict" where
  "compare_installed w self min_sv actual_version =
     (case to_semver (tool_class self) actual_version False of
        Inl e \<Rightarrow> Bad_Installed
      | Inr actual_semver \<Rightarrow>
          case version_of w actual_semver of
            None \<Rightarrow> Bad_Installed_Semver
          | Some actual_sv \<Rightarrow>
              if version_less w actual_sv min_sv then Too_Old actual_version (min_version self)
              else Recent actual_version (min_version self))"

text \<open>Only \<open>RuntimeError\<close> of \<open>get_version\<close> is turned into a verdict.\<close>

definition check_tool :: "'v tool_world \<Rightarrow> tool_req \<Rightarrow> tool_verdict res" where
  "check_tool w self =
     (case to_semver (tool_class self) (min_version self) True of
        Inl e \<Rightarrow> Ok Bad_Requirement
      | Inr min_semver \<Rightarrow>
          case version_of w min_semver of
            None \<Rightarrow> Ok Bad_Required_Semver
          | Some min_sv \<Rightarrow>
              case get_version w self of
                Inl RuntimeError \<Rightarrow> Ok (No_Version RuntimeError)
              | Inl e \<Rightarrow> Err e
              | Inr actual_version \<Rightarrow> Ok (compare_installed w self min_sv actual_version))"

section \<open>Reading the requirements\<close>

definition TOOL_REQUIREMENTS :: json where
  "TOOL_REQUIREMENTS = JObj
     [(''verilator'', JStr ''4.210''), (''edalize'', JStr ''0.2.0''),
      (''vcs'', JObj [(''min_version'', JStr ''2020.03-SP2''), (''as_needed'', JBool True)]),
      (''vivado'', JObj [(''min_version'', JStr ''2020.2''), (''as_needed'', JBool True)])]"

definition tool_classes :: "(string, tool_class) dict" where
  "tool_classes = [(''edalize'', EdalizeToolReq), (''vcs'', VcsToolReq), (''verible'', VeribleToolReq),
     (''verilator'', VerilatorToolReq), (''vivado'', VivadoToolReq), (''ninja'', NinjaToolReq)]"

definition dict_to_tool_req :: "string \<Rightarrow> (string \<times> json) list \<Rightarrow> tool_req res" where
  "dict_to_tool_req name raw =
     rbind (case map_of raw ''min_version'' of Some (JStr v) \<Rightarrow> Ok v | _ \<Rightarrow> Err ReqErr) (\<lambda>v.
     rbind (case map_of raw ''as_needed'' of None \<Rightarrow> Ok False | Some (JBool b) \<Rightarrow> Ok b | Some _ \<Rightarrow> Err ReqErr) (\<lambda>needed.
       if list_ex (\<lambda>(k, x). k \<noteq> ''min_version'' \<and> k \<noteq> ''as_needed'') raw then Err ReqErr
       else Ok \<lparr>tool = name, min_version = v, as_needed = needed, tool_class = dict_get tool_classes name ToolReq\<rparr>))"

text \<open>From the value the executed file gave \<open>__TOOL_REQUIREMENTS__\<close>, if any.\<close>

definition read_tool_requirements :: "json option \<Rightarrow> (string, tool_req) dict res" where
  "read_tool_requirements raw =
     (case raw of
        Some (JObj kvs) \<Rightarrow>
          rmapM (\<lambda>(name, raw_val).
            rbind (case raw_val of JStr v \<Rightarrow> dict_to_tool_req name [(''min_version'', JStr v)]
                   | JObj d \<Rightarrow> dict_to_tool_req name d
                   | _ \<Rightarrow> Err ReqErr) (\<lambda>req. Ok (name, req))) kvs
      | _ \<Rightarrow> Err ReqErr)"

section \<open>The program\<close>

text \<open>The loop of \<open>main\<close>: the tools still to be found, the tools that failed, and the verdicts.\<close>

fun check_loop ::
  "'v tool_world \<Rightarrow> (string \<times> tool_req) list \<Rightarrow> string list \<times> string list \<times> (string \<times> tool_verdict) list \<Rightarrow>
   (string list \<times> string list \<times> (string \<times> tool_verdict) list) res" where
  "check_loop w [] st = Ok st"
| "check_loop w ((name, req) # reqs) (pending, missing, verdicts) =
     (if as_needed req \<and> name \<notin> set pending then check_loop w reqs (pending, missing, verdicts)
      else rbind (check_tool w req) (\<lambda>v.
             check_loop w reqs
               (filter (\<lambda>t. t \<noteq> name) pending, if is_good v then missing else missing @ [name], verdicts @ [(name, v)])))"

definition tools_main :: "'v tool_world \<Rightarrow> json option \<Rightarrow> string list \<Rightarrow> (int \<times> string list \<times> string list) res" where
  "tools_main w raw requested =
     (case read_tool_requirements raw of
        Inl ReqErr \<Rightarrow> Ok (1, [], [])
      | Inl e \<Rightarrow> Err e
      | Inr reqs \<Rightarrow>
          rbind (check_loop w reqs (uniq requested, [], [])) (\<lambda>(pending, missing, verdicts).
            Ok (if missing = [] \<and> pending = [] then 0 else 1, missing, pending)))"

section \<open>When the program succeeds\<close>

definition tool_fine :: "'v tool_world \<Rightarrow> string list \<Rightarrow> string \<times> tool_req \<Rightarrow> bool" where
  "tool_fine w requested x =
     (case x of (name, req) \<Rightarrow>
        (as_needed req \<and> name \<notin> set requested) \<or> (case check_tool w req of Inr v \<Rightarrow> is_good v | Inl _ \<Rightarrow> False))"

lemma tool_fine_other: "name \<noteq> fst x \<Longrightarrow> tool_fine w (filter (\<lambda>t. t \<noteq> name) pending) x = tool_fine w pending x"
  by (cases x) (auto simp: tool_fine_def)

lemma check_loop_ok:
  assumes "distinct (map fst reqs)"
  shows "(\<exists>vs'. check_loop w reqs (pending, missing, vs) = Ok (left, [], vs')) \<longleftrightarrow>
    missing = [] \<and> left = filter (\<lambda>t. t \<notin> fst ` set reqs) pending \<and> list_all (tool_fine w pending) reqs"
  using assms
proof (induction reqs arbitrary: pending missing vs)
  case Nil
  then show ?case by auto
next
  case (Cons x reqs)
  obtain name req where x: "x = (name, req)" by (cases x)
  have new: "name \<notin> fst ` set reqs" and d: "distinct (map fst reqs)" using Cons.prems x by auto
  have rest: "list_all (tool_fine w (filter (\<lambda>t. t \<noteq> name) pending)) reqs = list_all (tool_fine w pending) reqs"
    using new by (auto simp: list_all_iff tool_fine_other image_iff)
  show ?case
  proof (cases "as_needed req \<and> name \<notin> set pending")
    case True
    then have "filter (\<lambda>t. t \<notin> fst ` set (x # reqs)) pending = filter (\<lambda>t. t \<notin> fst ` set reqs) pending"
      by (auto simp: x intro!: filter_cong)
    moreover have "tool_fine w pending x" using True by (simp add: x tool_fine_def)
    ultimately show ?thesis using True Cons.IH [OF d, of pending missing vs] by (simp add: x)
  next
    case False
    have "filter (\<lambda>t. t \<notin> fst ` set (x # reqs)) pending = filter (\<lambda>t. t \<notin> fst ` set reqs) (filter (\<lambda>t. t \<noteq> name) pending)"
      by (auto simp: x intro!: filter_cong)
    moreover have "tool_fine w pending x = (case check_tool w req of Inr v \<Rightarrow> is_good v | Inl _ \<Rightarrow> False)"
      using False by (auto simp: x tool_fine_def)
    ultimately show ?thesis
      using False Cons.IH [OF d, of "filter (\<lambda>t. t \<noteq> name) pending"] rest
      by (cases "check_tool w req") (auto simp: x simp del: filter_filter)
  qed
qed

text \<open>The program ends with code 0 exactly when every tool that is always required or was asked for is recent enough,
  and every tool asked for is in the requirements.\<close>

theorem tools_main_ok:
  assumes "read_tool_requirements raw = Ok reqs" "distinct (map fst reqs)"
  shows "(\<exists>r. tools_main w raw requested = Ok (0, r)) \<longleftrightarrow>
    list_all (tool_fine w requested) reqs \<and> set requested \<subseteq> set (map fst reqs)"
proof -
  have "(\<exists>r. tools_main w raw requested = Ok (0, r)) \<longleftrightarrow>
      (\<exists>vs'. check_loop w reqs (uniq requested, [], []) = Ok ([], [], vs'))"
    using assms(1) by (auto simp: tools_main_def rbind_eq_Ok)
  also have "\<dots> \<longleftrightarrow> filter (\<lambda>t. t \<notin> fst ` set reqs) (uniq requested) = [] \<and> list_all (tool_fine w (uniq requested)) reqs"
    using check_loop_ok [OF assms(2), of w "uniq requested" "[]" "[]" "[]"] by auto
  also have "tool_fine w (uniq requested) = tool_fine w requested" by (simp add: fun_eq_iff tool_fine_def)
  finally show ?thesis by (auto simp: filter_empty_conv)
qed

section \<open>VCS versions\<close>

definition digit_string :: "string \<Rightarrow> bool" where
  "digit_string s \<longleftrightarrow> s \<noteq> [] \<and> list_all is_digit s"

text \<open>\<open>packaging.version\<close> on releases of two numbers: they are compared number by number.\<close>

definition orders_releases :: "'v tool_world \<Rightarrow> bool" where
  "orders_releases w \<longleftrightarrow>
     (\<forall>a b c d. digit_string a \<and> digit_string b \<and> digit_string c \<and> digit_string d \<longrightarrow>
       (\<exists>u v. version_of w (a @ ''.'' @ b) = Some u \<and> version_of w (c @ ''.'' @ d) = Some v \<and>
          version_less w u v = ((digits_nat a, digits_nat b) < (digits_nat c, digits_nat d))))"

lemma orders_releasesD:
  "orders_releases w \<Longrightarrow> digit_string a \<Longrightarrow> digit_string b \<Longrightarrow> digit_string c \<Longrightarrow> digit_string d \<Longrightarrow>
   \<exists>u v. version_of w (a @ ''.'' @ b) = Some u \<and> version_of w (c @ ''.'' @ d) = Some v \<and>
     version_less w u v = ((digits_nat a, digits_nat b) < (digits_nat c, digits_nat d))"
  by (simp only: orders_releases_def)

lemma first_match_digits:
  assumes "digit_string u" "s = [] \<or> \<not> is_digit (hd s)"
  shows "first_match (digits n) (u @ s) e s ((n, u) # e)"
  unfolding digits_def using assms
  by (intro first_match_Cap first_match_Some1) (auto simp: digit_string_def list_all_iff)

lemma digit_string_str_nat: "digit_string (str_nat n)"
  by (auto simp: digit_string_def list_all_iff dest: str_nat_digits)

lemma first_match_digits_end: "digit_string u \<Longrightarrow> first_match (digits n) u e [] ((n, u) # e)"
  using first_match_digits [of u "[]" n e] by simp

lemma vcs_head:
  assumes "digit_string y" "digit_string m" "s = [] \<or> \<not> is_digit (hd s)"
    and "first_match r s [(''2'', m), (''1'', y)] s' e'"
  shows "first_match (Seq (digits ''1'') (Seq (One any_char) (Seq (digits ''2'') r))) (y @ ''.'' @ m @ s) [] s' e'"
proof (rule first_match_Seq)
  show "first_match (digits ''1'') (y @ ''.'' @ m @ s) [] (''.'' @ m @ s) [(''1'', y)]"
    using assms(1) by (intro first_match_digits) (auto simp: is_digit_def code_def)
  have "first_match (One any_char) (''.'' @ m @ s) [(''1'', y)] (m @ s) [(''1'', y)]"
    by (simp add: first_match_def any_char_def NL_def)
  moreover have "first_match (Seq (digits ''2'') r) (m @ s) [(''1'', y)] s' e'"
    using assms(2-4) by (intro first_match_Seq [OF first_match_digits])
  ultimately show "first_match (Seq (One any_char) (Seq (digits ''2'') r)) (''.'' @ m @ s) [(''1'', y)] s' e'"
    by (rule first_match_Seq)
qed

lemma str_nat_0: "str_nat 0 = ''0''"
  by code_simp

lemma vcs_semver_plain:
  assumes "digit_string y" "digit_string m"
  shows "vcs_semver (y @ ''.'' @ m) False = Ok (y @ ''.'' @ m @ ''0'')"
proof -
  have "first_match (Seq (Opt (Seqs [Lit ''-SP'', digits ''3''])) (Opt (Seqs [Lit ''-'', digits ''4'']))) [] [(''2'', m), (''1'', y)]
      [] [(''2'', m), (''1'', y)]"
    by (rule first_match_Seq [OF first_match_Opt_none first_match_Opt_none]) simp_all
  from vcs_head [OF assms _ this] have "first_match VCS_RE (y @ ''.'' @ m) [] [] [(''2'', m), (''1'', y)]"
    by (simp add: VCS_RE_def)
  then show ?thesis
    by (simp add: vcs_semver_def first_match_re_match group_def group_nat_def Let_def str_nat_0)
qed

lemma vcs_semver_service_pack:
  assumes "digit_string y" "digit_string m"
  shows "vcs_semver (y @ ''.'' @ m @ ''-SP'' @ str_nat n) True = Ok (y @ ''.'' @ m @ str_nat (n * 100))"
proof -
  let ?e = "[(''3'', str_nat n), (''2'', m), (''1'', y)]"
  have "first_match (Opt (Seqs [Lit ''-SP'', digits ''3''])) (''-SP'' @ str_nat n) [(''2'', m), (''1'', y)] [] ?e"
    unfolding Seqs.simps
    by (intro first_match_Opt first_match_Seq [OF first_match_Lit] first_match_digits_end digit_string_str_nat)
  then have "first_match (Seq (Opt (Seqs [Lit ''-SP'', digits ''3''])) (Opt (Seqs [Lit ''-'', digits ''4''])))
      (''-SP'' @ str_nat n) [(''2'', m), (''1'', y)] [] ?e"
    by (rule first_match_Seq) (simp add: first_match_Opt_none)
  from vcs_head [OF assms _ this] have "first_match VCS_RE (y @ ''.'' @ m @ ''-SP'' @ str_nat n) [] [] ?e"
    by (simp add: VCS_RE_def is_digit_def code_def)
  from first_match_Seq [OF this first_match_Eos] show ?thesis
    by (simp add: vcs_semver_def first_match_re_match group_def group_nat_def Let_def)
qed

lemma digits_nat_bound: "list_all is_digit s \<Longrightarrow> digits_nat s < 10 ^ length s"
proof (induction s rule: rev_induct)
  case (snoc c s)
  have "digit_val c < 10" using snoc.prems by (auto simp: digit_val_def is_digit_def)
  then show ?case using snoc by (simp add: digits_nat_append) (simp add: digits_nat_def)
qed (simp add: digits_nat_def)

lemma length_str_nat_min: "10 ^ k \<le> n \<Longrightarrow> k < length (str_nat n)"
proof -
  assume "10 ^ k \<le> n"
  also have "n < 10 ^ length (str_nat n)"
    using digits_nat_bound [of "str_nat n"] digit_string_str_nat [of n] by (simp add: digit_string_def)
  finally show ?thesis by (rule power_less_imp_less_exp [rotated]) simp
qed

text \<open>A VCS release without a service pack is refused as too old against any requirement of the same year that names a
  service pack, in whatever month the release came out: the number built for it ends with a single 0 where the
  requirement has three digits or more.\<close>

theorem vcs_release_refused:
  assumes "orders_releases w" and "tool_class req = VcsToolReq"
    and "min_version req = y @ ''.'' @ m @ ''-SP'' @ str_nat n" and "0 < n" and "0 < digits_nat m"
    and "get_version w req = Ok (y @ ''.'' @ r)" and "length r = 2"
    and "digit_string y" and "digit_string m" and "digit_string r"
  shows "check_tool w req = Ok (Too_Old (y @ ''.'' @ r) (min_version req))"
proof -
  have r: "digits_nat (r @ ''0'') < 1000"
    using digits_nat_bound [of "r @ ''0''"] assms(7,10) by (simp add: digit_string_def is_digit_def code_def)
  have m: "1000 \<le> digits_nat (m @ str_nat (n * 100))"
  proof -
    have "10 ^ 3 \<le> (10 :: nat) ^ length (str_nat (n * 100))"
      using length_str_nat_min [of 2 "n * 100"] assms(4) by (intro power_increasing) auto
    also have "\<dots> \<le> digits_nat m * 10 ^ length (str_nat (n * 100))" using assms(5) by simp
    finally show ?thesis by (simp add: digits_nat_append)
  qed
  have "digit_string (r @ ''0'')" "digit_string (m @ str_nat (n * 100))"
    using assms(9,10) digit_string_str_nat [of "n * 100"] by (auto simp: digit_string_def is_digit_def code_def)
  then obtain u v where "version_of w (y @ ''.'' @ r @ ''0'') = Some u" "version_of w (y @ ''.'' @ m @ str_nat (n * 100)) = Some v"
    "version_less w u v"
    using orders_releasesD [OF assms(1,8) _ assms(8)] r m by fastforce
  then show ?thesis
    using assms(2,3,6) vcs_semver_plain [OF assms(8,10)] vcs_semver_service_pack [OF assms(8,9), of n]
    by (simp add: check_tool_def compare_installed_def to_semver_def)
qed

section \<open>An example\<close>

definition demo_version :: "string \<Rightarrow> (nat \<times> nat) option" where
  "demo_version s = (case split_char CHR ''.'' s of [a, b] \<Rightarrow> Some (digits_nat a, digits_nat b) | _ \<Rightarrow> Some (0, 0))"

definition demo_tools :: "(nat \<times> nat) tool_world" where
  "demo_tools =
     \<lparr>run_cmd = \<lambda>cmd env. Some ''Compiler version = VCS R-2020.12'', run_shell = \<lambda>cmd. Some ''Verilator 4.210 2021-07-07'',
      module_version = \<lambda>name. Some ''0.2'', version_of = demo_version, version_less = (<)\<rparr>"

definition demo_vcs :: tool_req where
  "demo_vcs = \<lparr>tool = ''vcs'', min_version = ''2020.03-SP2'', as_needed = True, tool_class = VcsToolReq\<rparr>"

lemma demo_version_release:
  "digit_string a \<Longrightarrow> digit_string b \<Longrightarrow> demo_version (a @ ''.'' @ b) = Some (digits_nat a, digits_nat b)"
proof -
  assume ab: "digit_string a" "digit_string b"
  have dot: "CHR ''.'' \<notin> set s" if "digit_string s" for s
    using that by (auto simp: digit_string_def list_all_iff is_digit_def code_def)
  have "split_char CHR ''.'' b = [b]" using dot [OF ab(2)] unfolding split_char_def by (intro split_by_no_sep) auto
  then show ?thesis using split_char_append_sep [OF dot [OF ab(1)], of b] by (simp add: demo_version_def)
qed

lemma demo_orders: "orders_releases demo_tools"
  unfolding orders_releases_def using demo_version_release by (fastforce simp: demo_tools_def)

end
