(* ===== verification/Uvm_Log.thy ===== *)
theory Uvm_Log
  imports Py_Regex Py_Json Py_System
begin

text \<open>
  The verdict of one test run of the UVM flow: the trace and the simulation log
  (\<open>riscv_dv_extension/ibex_log_to_trace_csv.py\<close>), the result record (\<open>scripts/test_run_result.py\<close>), the name of a run
  (\<open>scripts/test_entry.py\<close>), and the check that combines them (\<open>scripts/check_logs.py\<close>). Names of registers, pseudo
  instructions, hexadecimal texts and the CSV format belong to riscv-dv and are parameters. Of the result record the
  fields these scripts read or write are kept; the paths among them are set before the check runs.

  Shown: when a log counts as a pass; that a log with a failing result and no error line stops the check with an
  exception; what the check makes of a run; and that it leaves an earlier pass in place when the new log fails.
\<close>

section \<open>Test results\<close>

datatype failure_mode = FM_NONE | TIMEOUT | FILE_ERROR | LOG_ERROR

record test_run_result =
  tr_passed :: "bool option"
  tr_failure_mode :: "failure_mode option"
  tr_failure_message :: "string option"
  tr_timeout_s :: "int option"
  tr_testname :: string
  tr_seed :: int
  tr_dir_test :: path
  tr_rtl_log :: path
  tr_rtl_trace :: path

definition TDS_RE :: re where
  "TDS_RE = Seqs [Cap ''1'' (Some1 (\<lambda>c. c \<noteq> CHR ''.'')), Lit ''.'', Cap ''2'' (Some1 is_digit), Eos]"

definition read_test_dot_seed :: "string \<Rightarrow> (string \<times> int) res" where
  "read_test_dot_seed arg =
     (case re_match TDS_RE arg of
        None \<Rightarrow> Err ArgumentTypeError
      | Some e \<Rightarrow> Ok (the (group e ''1''), int (digits_nat (the (group e ''2'')))))"

text \<open>Entries of the test list are dictionaries; another kind of entry has no \<open>get\<close>.\<close>

fun get_test_entry :: "string \<Rightarrow> json list \<Rightarrow> json res" where
  "get_test_entry name [] = Err RuntimeError"
| "get_test_entry name (entry # rest) =
     rbind (jget entry ''test'' JNull) (\<lambda>v. if v = JStr name then Ok entry else get_test_entry name rest)"

section \<open>The trace\<close>

record trace_row =
  row_instr_str :: string
  row_instr :: string
  row_pc :: string
  row_binary :: string
  row_operand :: string
  row_imm :: string
  row_gpr :: "string list"

record riscv_dv =
  gpr_to_abi :: "string \<Rightarrow> string"
  sint_to_hex :: "int \<Rightarrow> string"
  convert_pseudo_instr :: "string \<Rightarrow> string \<Rightarrow> string \<Rightarrow> string \<times> string"
  get_imm_hex_val :: "string \<Rightarrow> string res"
  trace_csv_text :: "trace_row list \<Rightarrow> string"

definition is_hex :: "char \<Rightarrow> bool" where
  "is_hex c \<longleftrightarrow> is_digit c \<or> c \<in> set ''abcdef''"

definition not_space :: "char \<Rightarrow> bool" where
  "not_space c \<longleftrightarrow> \<not> is_space c"

definition low_alnum :: "char \<Rightarrow> bool" where
  "low_alnum c \<longleftrightarrow> is_lower_az c \<or> is_digit c"

definition INSTR_RE :: re where
  "INSTR_RE = Seqs
     [Many is_space, Cap ''time'' (Some1 is_digit), Some1 is_space, Cap ''cycle'' (Some1 is_digit), Some1 is_space,
      Cap ''pc'' (Some1 is_hex), Some1 is_space, Cap ''bin'' (Some1 is_hex), Some1 is_space,
      Cap ''instr'' (Seqs [Some1 not_space, Some1 is_space, Some1 not_space]), Many is_space]"

definition RD_RE :: re where
  "RD_RE = Seqs
     [Lit ''x'', Cap ''rd'' (Seq (One (\<lambda>c. is_digit c \<and> c \<noteq> CHR ''0'')) (Many is_digit)), Lit ''=0x'', Cap ''rd_val'' (Some1 is_hex)]"

definition imm_char :: "char \<Rightarrow> bool" where
  "imm_char c \<longleftrightarrow> is_digit c \<or> c = CHR ''-''"

definition ADDR_RE :: re where
  "ADDR_RE = Seqs
     [Cap ''rd'' (Seq (One low_alnum) (Few low_alnum)), Lit '','', Cap ''imm'' (Seq (One imm_char) (Few imm_char)),
      Lit ''('', Cap ''rs1'' (Some1 low_alnum), Lit '')'']"

text \<open>\<open>int(s, 16)\<close>: a sign, the prefix \<open>0x\<close>, and digits with single underscores between them.\<close>

definition hex_val :: "char \<Rightarrow> nat option" where
  "hex_val c =
     (if is_digit c then Some (digit_val c)
      else if 97 \<le> code c \<and> code c \<le> 102 then Some (code c - 87)
      else if 65 \<le> code c \<and> code c \<le> 70 then Some (code c - 55) else None)"

fun hex_digits :: "bool \<Rightarrow> nat \<Rightarrow> string \<Rightarrow> nat option" where
  "hex_digits prev acc [] = (if prev then Some acc else None)"
| "hex_digits prev acc (c # cs) =
     (if c = CHR ''_'' then if prev then hex_digits False acc cs else None
      else case hex_val c of None \<Rightarrow> None | Some d \<Rightarrow> hex_digits True (16 * acc + d) cs)"

definition hex_nat :: "string \<Rightarrow> nat option" where
  "hex_nat s =
     (if startswith s ''0x'' \<or> startswith s ''0X''
      then hex_digits False 0 (case drop 2 s of CHR ''_'' # cs \<Rightarrow> cs | cs \<Rightarrow> cs)
      else hex_digits False 0 s)"

definition py_int16 :: "string \<Rightarrow> int option" where
  "py_int16 s =
     (case strip s of
        CHR ''-'' # ds \<Rightarrow> map_option (\<lambda>n. - int n) (hex_nat ds)
      | CHR ''+'' # ds \<Rightarrow> map_option int (hex_nat ds)
      | ds \<Rightarrow> map_option int (hex_nat ds))"

definition branch_instrs :: "string list" where
  "branch_instrs = [''beq'', ''bne'', ''blt'', ''bge'', ''bltu'', ''bgeu'', ''c.beqz'', ''c.bnez'', ''beqz'', ''bnez'', ''bgez'',
     ''bltz'', ''blez'', ''bgtz'', ''c.j'', ''j'', ''c.jal'', ''jal'']"

definition imm_offset :: "riscv_dv \<Rightarrow> string \<Rightarrow> string \<Rightarrow> string res" where
  "imm_offset dv pc imm =
     rbind (res_of ValueError (py_int16 imm)) (\<lambda>i. rbind (res_of ValueError (py_int16 pc)) (\<lambda>p. Ok (sint_to_hex dv (i - p))))"

definition process_imm :: "riscv_dv \<Rightarrow> string \<Rightarrow> string \<Rightarrow> string \<Rightarrow> string res" where
  "process_imm dv instr_name pc operands =
     (if instr_name \<notin> set branch_instrs then Ok operands
      else case rfind_char CHR '','' operands of
        None \<Rightarrow> imm_offset dv pc operands
      | Some idx \<Rightarrow> rbind (imm_offset dv pc (drop (idx + 1) operands)) (\<lambda>imm. Ok (take (idx + 1) operands @ imm)))"

definition convert_operands_to_abi :: "riscv_dv \<Rightarrow> string \<Rightarrow> string" where
  "convert_operands_to_abi dv operand_str =
     join '','' (map (\<lambda>op. let converted_op = gpr_to_abi dv op in if converted_op \<noteq> ''na'' then converted_op else op)
       (split_char CHR '','' operand_str))"

definition expand_trace_entry :: "riscv_dv \<Rightarrow> trace_row \<Rightarrow> string \<Rightarrow> trace_row res" where
  "expand_trace_entry dv trace operands0 =
     rbind (process_imm dv (row_instr trace) (row_pc trace) operands0) (\<lambda>operands1.
       case convert_pseudo_instr dv (row_instr trace) operands1 (row_binary trace) of (instr, operands) \<Rightarrow>
         case re_search ADDR_RE operands of
           None \<Rightarrow> Ok (trace\<lparr>row_instr := instr, row_operand := convert_operands_to_abi dv operands\<rparr>)
         | Some n \<Rightarrow>
             let rd = the (group n ''rd''); imm = the (group n ''imm''); rs1 = the (group n ''rs1'') in
             rbind (get_imm_hex_val dv imm) (\<lambda>v.
               Ok (trace\<lparr>row_instr := instr, row_imm := v, row_operand := convert_operands_to_abi dv (join '','' [rd, rs1, imm])\<rparr>)))"

definition gpr_entries :: "riscv_dv \<Rightarrow> string \<Rightarrow> string list" where
  "gpr_entries dv line =
     (case re_search RD_RE line of
        None \<Rightarrow> []
      | Some c \<Rightarrow> [gpr_to_abi dv (''x'' @ the (group c ''rd'')) @ '':'' @ the (group c ''rd_val'')])"

definition trace_line :: "riscv_dv \<Rightarrow> bool \<Rightarrow> string \<Rightarrow> trace_row option res" where
  "trace_line dv full_trace line =
     (case re_match INSTR_RE line of
        None \<Rightarrow> Ok None
      | Some m \<Rightarrow>
          let instr_str = the (group m ''instr''); ws = split_ws instr_str;
              trace = \<lparr>row_instr_str = instr_str, row_instr = ws ! 0, row_pc = the (group m ''pc''),
                       row_binary = the (group m ''bin''), row_operand = [], row_imm = [], row_gpr = []\<rparr> in
          rbind (if full_trace then expand_trace_entry dv trace (ws ! 1) else Ok trace) (\<lambda>t.
            Ok (Some (t\<lparr>row_gpr := gpr_entries dv line\<rparr>))))"

text \<open>The loop: the rows written, and the exception that ended it, if any.\<close>

fun trace_rows :: "riscv_dv \<Rightarrow> bool \<Rightarrow> string list \<Rightarrow> trace_row list \<times> exn option" where
  "trace_rows dv full_trace [] = ([], None)"
| "trace_rows dv full_trace (line # ls) =
     (if contains line ''ecall'' then ([], None)
      else case trace_line dv full_trace line of
        Inl e \<Rightarrow> ([], Some e)
      | Inr None \<Rightarrow> trace_rows dv full_trace ls
      | Inr (Some t) \<Rightarrow> (case trace_rows dv full_trace ls of (rows, e) \<Rightarrow> (t # rows, e)))"

text \<open>\<open>FileNotFoundError\<close>, for the log or for the directory of the table, becomes \<open>RuntimeError\<close>; another failure to open
  a file is an \<open>OSError\<close>. The table holds what was written before an exception.\<close>

definition open_error :: "fs \<Rightarrow> path \<Rightarrow> exn" where
  "open_error fs p = (if path_exists fs p then OSError else RuntimeError)"

definition process_ibex_sim_log :: "riscv_dv \<Rightarrow> path \<Rightarrow> path \<Rightarrow> bool \<Rightarrow> (fs, unit) eff" where
  "process_ibex_sim_log dv ibex_log csv full_trace fs =
     (case read_text fs ibex_log of
        Inl e \<Rightarrow> (Err (open_error fs ibex_log), fs)
      | Inr contents \<Rightarrow>
          case trace_rows dv full_trace (text_lines contents) of (rows, stop) \<Rightarrow>
            case write_text csv (trace_csv_text dv rows) fs of
              Inl e \<Rightarrow> (Err (open_error fs csv), fs)
            | Inr fs' \<Rightarrow>
                (case stop of
                   Some e \<Rightarrow> (Err e, fs')
                 | None \<Rightarrow> if rows = [] then (Err RuntimeError, fs') else (Ok (), fs')))"

section \<open>The simulation log\<close>

definition error_line :: "string \<Rightarrow> bool" where
  "error_line line \<longleftrightarrow> contains line ''UVM_ERROR'' \<or> contains line ''UVM_FATAL'' \<or> contains line ''Error''"

definition passed_line :: "string \<Rightarrow> bool" where
  "passed_line line \<longleftrightarrow> contains line ''RISC-V UVM TEST PASSED''"

definition failed_line :: "string \<Rightarrow> bool" where
  "failed_line line \<longleftrightarrow> contains line ''RISC-V UVM TEST FAILED''"

record log_scan =
  ls_passed :: bool
  ls_failed :: bool
  ls_error :: "(nat \<times> string) option"
  ls_result_seen :: bool

fun scan_log :: "(nat \<times> string) list \<Rightarrow> log_scan \<Rightarrow> log_scan" where
  "scan_log [] st = st"
| "scan_log ((linenum, line) # ls) st =
     (let st1 = (if error_line line \<and> \<not> ls_result_seen st then st\<lparr>ls_error := Some (linenum, line), ls_failed := True\<rparr> else st);
          st2 = (if passed_line line then st1\<lparr>ls_result_seen := True, ls_passed := True\<rparr> else st1)
      in if failed_line line then st2\<lparr>ls_result_seen := True, ls_failed := True\<rparr> else scan_log ls st2)"

definition log_extract :: "nat \<Rightarrow> (nat \<times> string) list \<Rightarrow> string list" where
  "log_extract error_linenum ls =
     map (\<lambda>(linenum, line). (if linenum = error_linenum then ''[E] '' else ''    '') @ str_nat linenum @ '': '' @ strip line)
       (filter (\<lambda>(linenum, line). int error_linenum - 5 \<le> int linenum \<and> int linenum < int error_linenum + 5) ls)"

definition check_log_lines :: "string list \<Rightarrow> (bool \<times> string list \<times> failure_mode) res" where
  "check_log_lines ls =
     (let numbered = List.enumerate 1 ls;
          st = scan_log numbered \<lparr>ls_passed = False, ls_failed = False, ls_error = None, ls_result_seen = False\<rparr>
      in if \<not> ls_failed st then Ok (ls_passed st, [], FM_NONE)
         else case ls_error st of
           None \<Rightarrow> Err TypeError
         | Some (error_linenum, line) \<Rightarrow>
             Ok (False, log_extract error_linenum numbered,
               if contains line ''Test failed due to wall-clock timeout.'' then TIMEOUT else LOG_ERROR))"

definition check_ibex_uvm_log :: "fs \<Rightarrow> path \<Rightarrow> (bool \<times> string list \<times> failure_mode) res" where
  "check_ibex_uvm_log fs uvm_log = rbind (read_text fs uvm_log) (\<lambda>contents. check_log_lines (text_lines contents))"

section \<open>The check of a run\<close>

definition uvm_failure :: "test_run_result \<Rightarrow> string list \<Rightarrow> failure_mode \<Rightarrow> test_run_result" where
  "uvm_failure trr log_lines mode =
     trr\<lparr>tr_failure_mode := Some mode,
         tr_failure_message := Some
           ((if mode = TIMEOUT
             then ''[FAILURE] Simulation ended gracefully due to timeout ['' @
                  (case tr_timeout_s trr of Some t \<Rightarrow> str_int t | None \<Rightarrow> ''None'') @ ''s].'' @ [NL]
             else [NL] @ ''[FAILED]: error seen in '' @ [SQ] @ path_name (tr_rtl_log trr) @ [SQ, NL]) @
            (if log_lines \<noteq> []
             then ''---------------*LOG-EXTRACT*----------------'' @ [NL] @ join [NL] log_lines @ [NL] @
                  ''--------------------------------------------'' @ [NL]
             else []))\<rparr>"

definition file_failure :: "test_run_result \<Rightarrow> string \<Rightarrow> test_run_result" where
  "file_failure trr msg = trr\<lparr>tr_passed := Some False, tr_failure_mode := Some FILE_ERROR, tr_failure_message := Some msg\<rparr>"

definition check_run_log :: "(exn \<Rightarrow> string) \<Rightarrow> test_run_result \<Rightarrow> (fs, test_run_result) eff" where
  "check_run_log describe trr fs =
     (case check_ibex_uvm_log fs (tr_rtl_log trr) of
        Inl e \<Rightarrow>
          if is_os_error e
          then (Ok (file_failure trr (''[FAILED] Could not open simulation log: '' @ describe e @ [NL])), fs)
          else (Err e, fs)
      | Inr (uvm_pass, log_lines, mode) \<Rightarrow>
          if \<not> uvm_pass then (Ok (uvm_failure trr log_lines mode), fs)
          else (Ok (trr\<lparr>tr_passed := Some True\<rparr>), fs))"

definition compare_test_run :: "riscv_dv \<Rightarrow> (exn \<Rightarrow> string) \<Rightarrow> test_run_result \<Rightarrow> (fs, test_run_result) eff" where
  "compare_test_run dv describe trr fs =
     (if tr_failure_mode trr = Some TIMEOUT then (Ok (trr\<lparr>tr_passed := Some False\<rparr>), fs)
      else case process_ibex_sim_log dv (tr_rtl_trace trr) (path_div (tr_dir_test trr) ''rtl_trace.csv'') True fs of
        (Inl e, fs') \<Rightarrow>
          if is_os_error e \<or> e = RuntimeError
          then (Ok (file_failure trr (''[FAILED]: Processing the ibex trace failed: '' @ describe e @ [NL])), fs')
          else (Err e, fs')
      | (Inr _, fs') \<Rightarrow> check_run_log describe trr fs')"

section \<open>The name of a run\<close>

lemma read_test_dot_seed_text:
  assumes "name \<noteq> []" "CHR ''.'' \<notin> set name"
  shows "read_test_dot_seed (name @ ''.'' @ str_nat n) = Ok (name, int n)"
proof -
  have "first_match TDS_RE (name @ ''.'' @ str_nat n) [] [] [(''2'', str_nat n), (''1'', name)]"
    unfolding TDS_RE_def Seqs.simps
  proof (rule first_match_Seq)
    show "first_match (Cap ''1'' (Some1 (\<lambda>c. c \<noteq> CHR ''.''))) (name @ ''.'' @ str_nat n) [] (''.'' @ str_nat n) [(''1'', name)]"
      using assms by (intro first_match_Cap first_match_Some1) auto
    have "first_match (Cap ''2'' (Some1 is_digit)) (str_nat n) [(''1'', name)] [] [(''2'', str_nat n), (''1'', name)]"
      using first_match_Cap [OF first_match_Some1 [of "str_nat n" is_digit "[]"], of "''2''"] by (auto dest: str_nat_digits)
    then show "first_match (Seq (Lit ''.'') (Seq (Cap ''2'' (Some1 is_digit)) Eos)) (''.'' @ str_nat n) [(''1'', name)] []
        [(''2'', str_nat n), (''1'', name)]"
      by (intro first_match_Seq [OF first_match_Lit] first_match_Seq [OF _ first_match_Eos])
  qed
  then show ?thesis by (simp add: read_test_dot_seed_def first_match_re_match group_def)
qed

section \<open>When a log is a pass\<close>

definition result_line :: "string \<Rightarrow> bool" where
  "result_line l \<longleftrightarrow> passed_line l \<or> failed_line l"

fun until_result :: "string list \<Rightarrow> string list" where
  "until_result [] = []"
| "until_result (l # ls) = l # (if result_line l then [] else until_result ls)"

lemma scan_log_seen:
  "ls_result_seen st \<Longrightarrow>
     ls_failed (scan_log (List.enumerate n ls) st) = (ls_failed st \<or> list_ex failed_line ls) \<and>
     ls_error (scan_log (List.enumerate n ls) st) = ls_error st \<and>
     (\<not> list_ex failed_line ls \<longrightarrow> ls_passed (scan_log (List.enumerate n ls) st) = (ls_passed st \<or> list_ex passed_line ls))"
  by (induction ls arbitrary: n st) (auto simp: Let_def)

lemma scan_log_unseen:
  "\<not> ls_result_seen st \<Longrightarrow>
     ls_failed (scan_log (List.enumerate n ls) st) = (ls_failed st \<or> list_ex failed_line ls \<or> list_ex error_line (until_result ls)) \<and>
     (ls_error (scan_log (List.enumerate n ls) st) = None) = (ls_error st = None \<and> \<not> list_ex error_line (until_result ls)) \<and>
     (\<not> list_ex failed_line ls \<longrightarrow> ls_passed (scan_log (List.enumerate n ls) st) = (ls_passed st \<or> list_ex passed_line ls))"
proof (induction ls arbitrary: n st)
  case (Cons l ls)
  then show ?case by (auto simp: Let_def result_line_def scan_log_seen)
qed simp

text \<open>C38: a simulation log is a pass exactly when it reports a pass and no failure and no line up to the first reported
  result mentions an error; and the check raises an exception exactly when a failure is reported without such a line
  before it.\<close>

theorem uvm_log_verdict:
  "((\<exists>out. check_log_lines ls = Ok (True, out)) \<longleftrightarrow>
      list_ex passed_line ls \<and> \<not> list_ex failed_line ls \<and> \<not> list_ex error_line (until_result ls)) \<and>
   ((\<exists>e. check_log_lines ls = Err e) \<longleftrightarrow> list_ex failed_line ls \<and> \<not> list_ex error_line (until_result ls))"
proof -
  let ?st = "scan_log (List.enumerate 1 ls) \<lparr>ls_passed = False, ls_failed = False, ls_error = None, ls_result_seen = False\<rparr>"
  have "ls_failed ?st = (list_ex failed_line ls \<or> list_ex error_line (until_result ls))"
    "(ls_error ?st = None) = (\<not> list_ex error_line (until_result ls))"
    "\<not> list_ex failed_line ls \<longrightarrow> ls_passed ?st = list_ex passed_line ls"
    using scan_log_unseen [of "\<lparr>ls_passed = False, ls_failed = False, ls_error = None, ls_result_seen = False\<rparr>" 1 ls] by simp_all
  then show ?thesis by (auto simp: check_log_lines_def Let_def split: option.splits)
qed

section \<open>What the check makes of a run\<close>

text \<open>The run was not killed, its trace was converted and its log is a pass.\<close>

definition run_passes :: "riscv_dv \<Rightarrow> fs \<Rightarrow> test_run_result \<Rightarrow> bool" where
  "run_passes dv fs trr =
     (tr_failure_mode trr \<noteq> Some TIMEOUT \<and>
      (case process_ibex_sim_log dv (tr_rtl_trace trr) (path_div (tr_dir_test trr) ''rtl_trace.csv'') True fs of
         (Inl e, fs') \<Rightarrow> False
       | (Inr _, fs') \<Rightarrow> (case check_ibex_uvm_log fs' (tr_rtl_log trr) of Inr (True, out) \<Rightarrow> True | _ \<Rightarrow> False)))"

lemma check_log_lines_no_os_error: "check_log_lines ls = Err e \<Longrightarrow> e = TypeError"
  by (auto simp: check_log_lines_def Let_def split: if_splits option.splits)

lemma compare_run_pass:
  assumes "fst (compare_test_run dv describe trr fs) = Ok trr'" "tr_passed trr \<noteq> Some True"
  shows "tr_passed trr' = Some True \<longleftrightarrow> run_passes dv fs trr"
  using assms
  by (auto simp: compare_test_run_def check_run_log_def run_passes_def uvm_failure_def file_failure_def
      split: if_splits prod.splits sum.splits bool.splits)

text \<open>When the log of a run fails, the check does not touch the field \<open>passed\<close>: a pass that an earlier simulation of the
  same run left there stays.\<close>

theorem failing_log_keeps_earlier_pass:
  assumes "tr_failure_mode trr \<noteq> Some TIMEOUT"
    and "process_ibex_sim_log dv (tr_rtl_trace trr) (path_div (tr_dir_test trr) ''rtl_trace.csv'') True fs = (Ok u, fs')"
    and "check_ibex_uvm_log fs' (tr_rtl_log trr) = Ok (False, out, mode)"
  shows "\<exists>trr'. compare_test_run dv describe trr fs = (Ok trr', fs') \<and> tr_passed trr' = tr_passed trr"
  using assms by (simp add: compare_test_run_def check_run_log_def uvm_failure_def)

definition demo_dv :: riscv_dv where
  "demo_dv = \<lparr>gpr_to_abi = \<lambda>r. if r = ''x5'' then ''t0'' else ''na'', sint_to_hex = str_int,
     convert_pseudo_instr = \<lambda>i ops b. (i, ops), get_imm_hex_val = \<lambda>i. Ok i,
     trace_csv_text = \<lambda>rows. concat (map (\<lambda>r. row_pc r @ '','' @ row_instr r @ '','' @ row_operand r @ [NL]) rows)\<rparr>"

definition demo_run :: "bool option \<Rightarrow> test_run_result" where
  "demo_run verdict0 = \<lparr>tr_passed = verdict0, tr_failure_mode = None, tr_failure_message = None, tr_timeout_s = Some 1800,
     tr_testname = ''riscv_arith_basic_test'', tr_seed = 7, tr_dir_test = path_of ''/out/t'', tr_rtl_log = path_of ''/out/t/rtl_sim.log'',
     tr_rtl_trace = path_of ''/out/t/trace_core_00000000.log''\<rparr>"

definition demo_run_fs :: "string \<Rightarrow> fs" where
  "demo_run_fs result =
     [(path_of ''/out/t'', Directory),
      (path_of ''/out/t/trace_core_00000000.log'', File (''10 3 80000080 00150293 addi x5,x10,1  x5=0x00000001'' @ [NL])),
      (path_of ''/out/t/rtl_sim.log'', File (''start'' @ [NL] @ result @ [NL]))]"

end
