(* ===== verification/Uvm_Report.thy ===== *)
theory Uvm_Report
  imports Uvm_Log
begin

text \<open>
  The results of a UVM regression: \<open>scripts/collect_results.py\<close> and the parts of \<open>scripts/report_lib\<close> that compute
  (\<open>util.py\<close>, \<open>text.py\<close>, \<open>dvsim_json.py\<close>). The records of the runs come from pickle files, whose reader is a parameter:
  the model starts from what it returned or raised. The HTML, SVG and JUnit writers only format these values.

  Shown: the regression succeeds exactly when every run passes, and the counts per test are those of its runs.
\<close>

section \<open>Passing and failing tests\<close>

record regression =
  rg_passing :: "test_run_result list"
  rg_failing :: "test_run_result list"
  rg_summary :: "(string, string) dict"

definition is_pass :: "test_run_result \<Rightarrow> bool" where
  "is_pass trr \<longleftrightarrow> tr_passed trr = Some True"

definition run_name :: "test_run_result \<Rightarrow> string" where
  "run_name trr = tr_testname trr @ ''.'' @ str_int (tr_seed trr)"

definition run_status :: "test_run_result \<Rightarrow> string" where
  "run_status trr =
     (if is_pass trr then ''PASS'' else ''FAILED'' @ (if tr_failure_mode trr = Some TIMEOUT then '' {T}'' else []))"

text \<open>A record that cannot be read (\<open>RuntimeError\<close>) is to become a failing test, but the call
  \<open>TestRunResult(name=...)\<close> names a field the class does not have.\<close>

fun collect_runs :: "test_run_result res list \<Rightarrow> regression \<Rightarrow> regression res" where
  "collect_runs [] st = Ok st"
| "collect_runs (Inl e # rest) st = (if e = RuntimeError then Err TypeError else Err e)"
| "collect_runs (Inr trr # rest) st =
     collect_runs rest
       (let st1 = st\<lparr>rg_summary := AList.update (run_name trr) (run_status trr) (rg_summary st)\<rparr> in
        if is_pass trr then st1\<lparr>rg_passing := rg_passing st @ [trr]\<rparr> else st1\<lparr>rg_failing := rg_failing st @ [trr]\<rparr>)"

definition collect_results :: "test_run_result res list \<Rightarrow> regression res" where
  "collect_results loaded = collect_runs loaded \<lparr>rg_passing = [], rg_failing = [], rg_summary = []\<rparr>"

definition int_div :: "int \<Rightarrow> int \<Rightarrow> pyfloat res" where
  "int_div a b = (if b = 0 then Err ZeroDivisionError else Ok (rnd (of_int a / of_int b)))"

definition gen_summary_line :: "test_run_result list \<Rightarrow> test_run_result list \<Rightarrow> string res" where
  "gen_summary_line passing failing =
     rbind (int_div (int (length passing)) (int (length passing) + int (length failing))) (\<lambda>share.
       Ok (ffmt 2 (fmul share (Fin 100)) @ ''% PASS '' @ str_nat (length passing) @ '' PASSED, '' @ str_nat (length failing) @ '' FAILED''))"

definition regression_code :: "regression \<Rightarrow> int" where
  "regression_code r = (if rg_failing r \<noteq> [] then 1 else 0)"

section \<open>Counts per test\<close>

definition count_run :: "test_run_result \<Rightarrow> nat \<times> nat \<Rightarrow> nat \<times> nat" where
  "count_run t c = (case c of (passing, failing) \<Rightarrow> if is_pass t then (passing + 1, failing) else (passing, failing + 1))"

definition add_run :: "test_run_result \<Rightarrow> (string, nat \<times> nat) dict \<Rightarrow> (string, nat \<times> nat) dict" where
  "add_run t d = AList.update (tr_testname t) (count_run t (dict_get d (tr_testname t) (0, 0))) d"

definition create_test_summary_dict :: "test_run_result list \<Rightarrow> (string, nat \<times> nat) dict" where
  "create_test_summary_dict tests = fold add_run tests []"

section \<open>Coverage\<close>

text \<open>\<open>finditer\<close> and \<open>sub\<close> for expressions that match no empty text.\<close>

function re_finditer :: "re \<Rightarrow> string \<Rightarrow> groups list" where
  "re_finditer r s =
     (if s = [] then []
      else case rx r s [] of
        (s', e) # _ \<Rightarrow> if length s' < length s then e # re_finditer r s' else re_finditer r (tl s)
      | [] \<Rightarrow> re_finditer r (tl s))"
  by pat_completeness auto
termination by (relation "measure (\<lambda>(r, s). length s)") auto

declare re_finditer.simps [simp del]

function re_sub :: "re \<Rightarrow> string \<Rightarrow> string \<Rightarrow> string" where
  "re_sub r new s =
     (if s = [] then []
      else case rx r s [] of
        (s', e) # _ \<Rightarrow> if length s' < length s then new @ re_sub r new s' else hd s # re_sub r new (tl s)
      | [] \<Rightarrow> hd s # re_sub r new (tl s))"
  by pat_completeness auto
termination by (relation "measure (\<lambda>(r, new, s). length s)") auto

declare re_sub.simps [simp del]

definition word_char :: "char \<Rightarrow> bool" where
  "word_char c \<longleftrightarrow> is_ascii_alnum c \<or> c = CHR ''_'' \<or> (192 \<le> code c \<and> code c \<noteq> 215 \<and> code c \<noteq> 247) \<or> code c \<in> {170, 178, 179, 181, 185, 186, 188, 189, 190}"

definition XLM_TABLE_HEADER_RE :: re where
  "XLM_TABLE_HEADER_RE = Seqs
     [Cap ''1'' (Some1 word_char), Opt (Lit ''*''), Some1 is_space, Cap ''2'' (Alt (Lit ''average'') (Lit ''covered''))]"

definition XLM_TABLE_COVERAGE_RE :: re where
  "XLM_TABLE_COVERAGE_RE = Seqs
     [Lit ''('', Cap ''1'' (Some1 is_digit), Lit ''/'', Cap ''2'' (Some1 is_digit), Many any_char, Lit '')'']"

definition XLM_TABLE_AVERAGE_RE :: re where
  "XLM_TABLE_AVERAGE_RE = Seqs [Cap ''1'' (Seqs [Some1 is_digit, Opt (Seqs [One any_char, Some1 is_digit])]), Lit ''%'']"

definition IBEX_COVERAGE_METRICS :: "string list" where
  "IBEX_COVERAGE_METRICS = [''block'', ''branch'', ''statement'', ''expression'', ''toggle'', ''fsm'', ''assertion'']"

definition COVERGROUP_IGNORE :: "string list" where
  "COVERGROUP_IGNORE = [''push_pull_agent_pkg'']"

datatype metric = Covered int int | Average pyfloat

type_synonym cov_table = "(string, (string, metric) dict) dict"

definition header_metrics :: "string \<Rightarrow> (string \<times> string) list" where
  "header_metrics line =
     map (\<lambda>e. (the (group e ''1''), the (group e ''2''))) (re_finditer XLM_TABLE_HEADER_RE (join '' '' (drop 1 (split_ws (lower line)))))"

text \<open>The first loop: all metrics of all header lines, and the line after the separator of the last one.\<close>

fun scan_headers :: "(nat \<times> string) list \<Rightarrow> (string \<times> string) list \<times> nat option \<Rightarrow> (string \<times> string) list \<times> nat option" where
  "scan_headers [] st = st"
| "scan_headers ((line_no, line) # ls) (metric_info, start) =
     scan_headers ls (if contains line ''name'' then (metric_info @ header_metrics line, Some (line_no + 2)) else (metric_info, start))"

definition read_metric :: "string \<Rightarrow> string \<Rightarrow> metric option res" where
  "read_metric metric_type val =
     (if metric_type = ''covered''
      then Ok (case re_search XLM_TABLE_COVERAGE_RE val of
             None \<Rightarrow> None
           | Some m \<Rightarrow> Some (Covered (int (digits_nat (the (group m ''1'')))) (int (digits_nat (the (group m ''2''))))))
      else case re_search XLM_TABLE_AVERAGE_RE val of
             None \<Rightarrow> Ok None
           | Some m \<Rightarrow> rbind (res_of ValueError (py_float (the (group m ''1'')))) (\<lambda>x. Ok (Some (Average x))))"

fun module_metrics :: "(string \<times> string) list \<Rightarrow> string list \<Rightarrow> (string, metric) dict \<Rightarrow> (string, metric) dict res" where
  "module_metrics info [] d = Ok d"
| "module_metrics info (val # vs) d =
     (case info of
        [] \<Rightarrow> Err IndexError
      | (name, metric_type) # info' \<Rightarrow>
          rbind (read_metric metric_type val) (\<lambda>m.
            module_metrics info' vs (case m of None \<Rightarrow> d | Some x \<Rightarrow> AList.update (name @ ''-'' @ metric_type) x d)))"

definition GAP_RE :: re where
  "GAP_RE = Seqs [Lit ''%'', Some1 is_space, Lit ''('']"

definition table_line :: "(string \<times> string) list \<Rightarrow> cov_table \<Rightarrow> string \<Rightarrow> cov_table res" where
  "table_line info d line =
     (case split_ws (re_sub GAP_RE ''%('' line) of
        [] \<Rightarrow> Ok d
      | module_name # vs \<Rightarrow> rbind (module_metrics info vs []) (\<lambda>m. Ok (AList.update module_name m d)))"

definition parse_xcelium_cov_report :: "string \<Rightarrow> cov_table res" where
  "parse_xcelium_cov_report cov_report =
     (let ls = splitlines cov_report in
      case scan_headers (List.enumerate 0 ls) ([], None) of
        (info, None) \<Rightarrow> Err RuntimeError
      | (info, Some start) \<Rightarrow> rfoldM (table_line info) [] (drop start ls))"

definition add_cov_to_summary :: "string \<Rightarrow> (string, metric) dict \<Rightarrow> (string, pyfloat) dict \<Rightarrow> (string, pyfloat) dict res" where
  "add_cov_to_summary metric_name metric_data d =
     (case map_of metric_data (metric_name @ ''-covered'') of
        None \<Rightarrow> Ok d
      | Some (Covered c n) \<Rightarrow> rbind (int_div c n) (\<lambda>x. Ok (AList.update metric_name x d))
      | Some (Average x) \<Rightarrow> Err KeyError)"

text \<open>\<open>None\<close> when no module counts.\<close>

definition calc_cg_average :: "cov_table \<Rightarrow> pyfloat option res" where
  "calc_cg_average cg =
     (let values = concat (map (\<lambda>(module, data).
            if module \<in> set COVERGROUP_IGNORE then []
            else case map_of data ''covergroup-average'' of Some (Average x) \<Rightarrow> [x] | _ \<Rightarrow> []) cg) in
      if values = [] then Ok None
      else rbind (fdiv (foldl fadd (Fin 0) values) (Fin 100)) (\<lambda>share.
           rbind (fdiv share (Fin (of_nat (length values)))) (\<lambda>x. Ok (Some x))))"

definition create_cov_summary_dict :: "fs \<Rightarrow> path option \<Rightarrow> ((string, pyfloat option) dict) option res" where
  "create_cov_summary_dict fs cov_report_log =
     (case cov_report_log of
        None \<Rightarrow> Ok None
      | Some report_log \<Rightarrow>
          let cov_report_dir = path_div (path_parent report_log) ''report'' in
          rbind (read_text fs (path_div cov_report_dir ''cov_report.txt'')) (\<lambda>t1.
          rbind (parse_xcelium_cov_report t1) (\<lambda>cov.
          rbind (read_text fs (path_div cov_report_dir ''cov_report_cg.txt'')) (\<lambda>t2.
          rbind (parse_xcelium_cov_report t2) (\<lambda>cg.
          rbind (case map_of cov ''ibex_top'' of
                   None \<Rightarrow> Ok []
                 | Some data \<Rightarrow> rfoldM (\<lambda>d name. add_cov_to_summary name data d) [] IBEX_COVERAGE_METRICS) (\<lambda>d.
          rbind (calc_cg_average cg) (\<lambda>avg.
            Ok (Some (map (\<lambda>(k, v). (k, Some v)) d @ [(''covergroup'', avg)])))))))))"

section \<open>The report for dvsim\<close>

definition dvsim_test :: "string \<times> nat \<times> nat \<Rightarrow> json res" where
  "dvsim_test x =
     (case x of (test_name, passing, failing) \<Rightarrow>
        let total_runs = passing + failing in
        rbind (int_div (int passing) (int total_runs)) (\<lambda>rate.
          Ok (JObj [(''name'', JStr test_name), (''max_runtime_s'', JInt 0), (''simulated_time_us'', JInt 0),
                    (''passing_runs'', JInt (int passing)), (''total_runs'', JInt (int total_runs)),
                    (''pass_rate'', JFloat (fround 2 (fmul rate (Fin 100))))])))"

definition dvsim_coverage :: "((string, pyfloat option) dict) option \<Rightarrow> (string \<times> json) list res" where
  "dvsim_coverage cov =
     (case cov of
        None \<Rightarrow> Ok []
      | Some d \<Rightarrow> rmapM (\<lambda>(name, v). case v of Some x \<Rightarrow> Ok (name, JFloat (fmul x (Fin 100))) | None \<Rightarrow> Err TypeError) d)"

definition create_dvsim_report_dict ::
  "string \<Rightarrow> string \<Rightarrow> string \<Rightarrow> (string, nat \<times> nat) dict \<Rightarrow> ((string, pyfloat option) dict) option \<Rightarrow> json res" where
  "create_dvsim_report_dict sim block_name block_variant tests cov =
     rbind (rmapM dvsim_test tests) (\<lambda>infos.
     rbind (dvsim_coverage cov) (\<lambda>coverage.
       Ok (JObj [(''tool'', JStr (if sim = ''xlm'' then ''xcelium'' else sim)), (''block_name'', JStr block_name),
                 (''block_variant'', JStr block_variant),
                 (''results'', JObj [(''coverage'', JObj coverage), (''testpoints'', JArr []), (''unmapped_tests'', JArr infos)])])))"

section \<open>The verdict of a regression\<close>

lemma collect_runs_loaded:
  "\<exists>r. collect_runs (map Ok ts) st = Ok r \<and> rg_passing r = rg_passing st @ filter is_pass ts
     \<and> rg_failing r = rg_failing st @ filter (\<lambda>t. \<not> is_pass t) ts"
proof (induction ts arbitrary: st)
  case (Cons t ts)
  let ?st = "st\<lparr>rg_summary := AList.update (run_name t) (run_status t) (rg_summary st)\<rparr>"
  show ?case
    using Cons.IH [of "?st\<lparr>rg_passing := rg_passing st @ [t]\<rparr>"] Cons.IH [of "?st\<lparr>rg_failing := rg_failing st @ [t]\<rparr>"]
    by (cases "is_pass t") (simp_all add: Let_def)
qed simp

lemma regression_code_loaded:
  "\<exists>r. collect_results (map Ok ts) = Ok r \<and> rg_passing r = filter is_pass ts \<and> (regression_code r = 0 \<longleftrightarrow> list_all is_pass ts)"
proof -
  obtain r where "collect_results (map Ok ts) = Ok r" "rg_passing r = filter is_pass ts" "rg_failing r = filter (\<lambda>t. \<not> is_pass t) ts"
    using collect_runs_loaded [of ts "\<lparr>rg_passing = [], rg_failing = [], rg_summary = []\<rparr>"]
    by (auto simp: collect_results_def)
  then show ?thesis by (intro exI [of _ r]) (simp add: regression_code_def filter_empty_conv list_all_iff)
qed

text \<open>A run and the file system its check started from, and the record the check left, the run having had no pass before.\<close>

definition checked :: "riscv_dv \<Rightarrow> (exn \<Rightarrow> string) \<Rightarrow> test_run_result \<times> fs \<Rightarrow> test_run_result \<Rightarrow> bool" where
  "checked dv describe x trr' =
     (case x of (trr, fs) \<Rightarrow> tr_passed trr \<noteq> Some True \<and> fst (compare_test_run dv describe trr fs) = Ok trr')"


lemma demo_checked: "checked demo_dv (\<lambda>e. []) (demo_run None, demo_run_fs ''RISC-V UVM TEST PASSED'')
  (case compare_test_run demo_dv (\<lambda>e. []) (demo_run None) (demo_run_fs ''RISC-V UVM TEST PASSED'') of (Inr t, fs') \<Rightarrow> t)"
proof -
  have "case compare_test_run demo_dv (\<lambda>e. []) (demo_run None) (demo_run_fs ''RISC-V UVM TEST PASSED'') of
     (Inr t, fs') \<Rightarrow> True | _ \<Rightarrow> False" by code_simp
  then show ?thesis by (auto simp: checked_def demo_run_def split: prod.splits sum.splits)
qed


section \<open>The counts\<close>

lemma count_run_eq: "count_run t c = (fst c + (if is_pass t then 1 else 0), snd c + (if is_pass t then 0 else 1))"
  by (cases c) (simp add: count_run_def)

lemma map_of_add_runs:
  "map_of (fold add_run tests d) name =
     (if name \<in> tr_testname ` set tests
      then Some (fst (dict_get d name (0, 0)) + length (filter (\<lambda>t. tr_testname t = name \<and> is_pass t) tests),
                 snd (dict_get d name (0, 0)) + length (filter (\<lambda>t. tr_testname t = name \<and> \<not> is_pass t) tests))
      else map_of d name)"
proof (induction tests arbitrary: d)
  case (Cons t tests)
  have "dict_get (add_run t d) name (0, 0) = (if tr_testname t = name then count_run t (dict_get d name (0, 0)) else dict_get d name (0, 0))"
    by (auto simp: add_run_def dict_get_def map_of_AList_update)
  moreover have "map_of (add_run t d) name = (if tr_testname t = name then Some (count_run t (dict_get d name (0, 0))) else map_of d name)"
    by (auto simp: add_run_def map_of_AList_update)
  ultimately show ?case using Cons.IH [of "add_run t d"] by (auto simp: count_run_eq filter_empty_conv image_iff)
qed simp

lemma distinct_add_runs: "distinct (map fst d) \<Longrightarrow> distinct (map fst (fold add_run tests d))"
  by (induction tests arbitrary: d) (auto simp: add_run_def distinct_update)

lemma summary_mem_positive:
  assumes "(name, p, f) \<in> set (create_test_summary_dict tests)"
  shows "0 < p + f"
proof -
  have "map_of (create_test_summary_dict tests) name = Some (p, f)"
    using assms distinct_add_runs [of "[]" tests] by (simp add: create_test_summary_dict_def map_of_is_SomeI)
  then have "name \<in> tr_testname ` set tests" "p = length (filter (\<lambda>t. tr_testname t = name \<and> is_pass t) tests)"
    "f = length (filter (\<lambda>t. tr_testname t = name \<and> \<not> is_pass t) tests)"
    by (auto simp: create_test_summary_dict_def map_of_add_runs dict_get_def split: if_splits)
  then show ?thesis by (auto simp: filter_empty_conv length_greater_0_conv simp del: length_greater_0_conv)
qed

text \<open>The counts of a test are the numbers of its passing and failing runs, tests without runs are absent, and from these
  counts the pass rates of the dvsim report can always be computed (no test has zero runs).\<close>

theorem test_summary_exact:
  "map_of (create_test_summary_dict tests) name =
     (if name \<in> tr_testname ` set tests
      then Some (length (filter (\<lambda>t. tr_testname t = name \<and> is_pass t) tests),
                 length (filter (\<lambda>t. tr_testname t = name \<and> \<not> is_pass t) tests))
      else None) \<and>
   (\<exists>infos. rmapM dvsim_test (create_test_summary_dict tests) = Ok infos)"
proof
  show "\<exists>infos. rmapM dvsim_test (create_test_summary_dict tests) = Ok infos"
  proof -
    have "\<exists>j. dvsim_test x = Ok j" if "x \<in> set (create_test_summary_dict tests)" for x
      using summary_mem_positive [of "fst x" "fst (snd x)" "snd (snd x)" tests] that
      by (cases x) (auto simp: dvsim_test_def int_div_def Let_def)
    then have "\<exists>g. \<forall>x \<in> set (create_test_summary_dict tests). dvsim_test x = Ok (g x)" by metis
    then show ?thesis using rmapM_total by metis
  qed
qed (simp add: create_test_summary_dict_def map_of_add_runs dict_get_def)

text \<open>Without a single covergroup in the report the average is \<open>None\<close>, and multiplying it stops the dvsim report.\<close>

theorem dvsim_report_without_covergroups:
  assumes "rmapM dvsim_test tests = Ok infos" and "list_all (\<lambda>(k, v). v \<noteq> None) d"
  shows "create_dvsim_report_dict sim block variant tests (Some (d @ [(''covergroup'', None)])) = Err TypeError"
proof -
  have "rmapM (\<lambda>(name, v). case v of Some x \<Rightarrow> Ok (name, JFloat (fmul x (Fin 100))) | None \<Rightarrow> Err TypeError) (d @ [(''covergroup'', None)]) =
      Err TypeError"
    using assms(2) by (induction d) (auto split: option.splits)
  then show ?thesis using assms(1) by (simp add: create_dvsim_report_dict_def dvsim_coverage_def)
qed

end
