(* ===== verification/Uvm_Commands.thy ===== *)
theory Uvm_Commands
  imports Uvm_Report Py_Shlex
begin

text \<open>
  How the UVM flow builds its commands: the helpers of \<open>dv/uvm/core_ibex/scripts/scripts_lib.py\<close> (formatting, substitution,
  the YAML printer, running a child process) and \<open>riscvdv_interface.py\<close> (the commands of riscv-dv and of a
  simulator). The YAML loader, \<open>Path.resolve\<close>, the environment and the child processes are parameters.

  Shown: the substitution on texts is the substitution on templates, and a command is refused exactly when a
  parameter is left.
\<close>

section \<open>Formatting\<close>

datatype arg = AStr string | AInt int | ABool bool | APath path | ANone | AOther string

text \<open>\<open>format_to_str\<close>; \<open>AOther\<close> is a value of another type, with its \<open>str\<close>.\<close>

fun format_to_str :: "(path \<Rightarrow> path) \<Rightarrow> arg \<Rightarrow> string res" where
  "format_to_str resolve (AStr s) = Ok s"
| "format_to_str resolve (AInt i) = Ok (str_int i)"
| "format_to_str resolve (ABool b) = Ok (if b then ''True'' else ''False'')"
| "format_to_str resolve (APath p) = Ok (path_str (resolve p))"
| "format_to_str resolve ANone = Ok []"
| "format_to_str resolve (AOther s) = Err TypeError"

definition format_to_cmd :: "(path \<Rightarrow> path) \<Rightarrow> arg list \<Rightarrow> string list res" where
  "format_to_cmd resolve items = rmapM (\<lambda>x. rcatch (\<lambda>e. e = TypeError) RuntimeError (format_to_str resolve x)) items"

definition yaml_multiline_chars :: string where
  "yaml_multiline_chars = [CHR ''['', CHR '']'', CHR '':'', SQ, DQ, NL]"

definition yaml_value_format :: "string \<Rightarrow> string" where
  "yaml_value_format val =
     (if list_ex (\<lambda>c. c \<in> set yaml_multiline_chars) val
      then ''|-'' @ [NL] @ join [NL] (map (\<lambda>line. ''  '' @ line) (split_char NL val)) else val)"

definition pprint_dict :: "(string, string) dict \<Rightarrow> string" where
  "pprint_dict d =
     (let klen = fold (\<lambda>(k, v) n. max n (length k)) d 1
      in concat (map (\<lambda>(k, v). k @ '':'' @ replicate (klen - length k) CHR '' '' @ '' '' @ yaml_value_format v @ [NL]) d))"

text \<open>A field of a record: a dictionary with its \<open>str\<close>, a list, or one value.\<close>

datatype field = FDict string | FList "arg list" string | FOne arg

fun arg_str :: "(path \<Rightarrow> path) \<Rightarrow> arg \<Rightarrow> string" where
  "arg_str resolve (AOther s) = s"
| "arg_str resolve (APath p) = path_str p"
| "arg_str resolve ANone = ''None''"
| "arg_str resolve x = (case format_to_str resolve x of Inr s \<Rightarrow> s | Inl _ \<Rightarrow> [])"

fun printable_field :: "(path \<Rightarrow> path) \<Rightarrow> field \<Rightarrow> string" where
  "printable_field resolve (FDict s) = s"
| "printable_field resolve (FList xs s) =
     (case rmapM (format_to_str resolve) xs of Inr ss \<Rightarrow> join '' '' ss | Inl _ \<Rightarrow> s)"
| "printable_field resolve (FOne x) =
     (case format_to_str resolve x of Inr s \<Rightarrow> s | Inl _ \<Rightarrow> arg_str resolve x)"

definition format_dict_to_printable_dict :: "(path \<Rightarrow> path) \<Rightarrow> (string, field) dict \<Rightarrow> (string, string) dict" where
  "format_dict_to_printable_dict resolve d = map (\<lambda>(k, v). (k, printable_field resolve v)) d"

section \<open>Substitution\<close>

datatype subst_value = SText string | SPath path

definition needle :: "string \<Rightarrow> string" where
  "needle name = ''<'' @ name @ ''>''"

definition subst_opt :: "string \<Rightarrow> string \<Rightarrow> string \<Rightarrow> string" where
  "subst_opt s name replacement =
     (if contains s (needle name) then replace_all (needle name) replacement s else s)"

fun subst_text :: "(path \<Rightarrow> path) \<Rightarrow> subst_value \<Rightarrow> string" where
  "subst_text resolve (SText s) = s"
| "subst_text resolve (SPath p) = path_str (resolve p)"

definition subst_dict :: "(path \<Rightarrow> path) \<Rightarrow> string \<Rightarrow> (string, subst_value) dict \<Rightarrow> string" where
  "subst_dict resolve s var_dict = fold (\<lambda>(k, v) s. subst_opt s k (subst_text resolve v)) var_dict s"

definition subst_env_vars :: "(string \<Rightarrow> string option) \<Rightarrow> string \<Rightarrow> string list \<Rightarrow> string res" where
  "subst_env_vars environ s env_vars =
     rfoldM (\<lambda>s var. case environ var of None \<Rightarrow> Err RuntimeError | Some v \<Rightarrow> Ok (subst_opt s var v)) s env_vars"

section \<open>Commands of a simulator\<close>

definition parameter_regex :: re where
  "parameter_regex = Seqs [Lit ''<'', Some1 word_char, Lit ''>'']"

fun get_yaml_for_simulator :: "json list \<Rightarrow> string \<Rightarrow> json res" where
  "get_yaml_for_simulator [] simulator = Err RuntimeError"
| "get_yaml_for_simulator (entry # rest) simulator =
     rbind (jget entry ''tool'' JNull) (\<lambda>v. if v = JStr simulator then Ok entry else get_yaml_for_simulator rest simulator)"

fun as_dict :: "json \<Rightarrow> (string \<times> json) list res" where
  "as_dict (JObj kvs) = Ok kvs"
| "as_dict _ = Err TypeError"

fun as_text :: "json \<Rightarrow> string res" where
  "as_text (JStr s) = Ok s"
| "as_text _ = Err AttributeError"

text \<open>Stage 1: the other keys of the command type, empty unless enabled.\<close>

definition cmd_opts :: "(string \<Rightarrow> bool) \<Rightarrow> (string \<times> json) list \<Rightarrow> (string, subst_value) dict res" where
  "cmd_opts enabled kvs =
     rmapM (\<lambda>(k, v). rbind (if enabled k then rbind (as_text v) (\<lambda>s. Ok (strip s)) else Ok []) (\<lambda>s. Ok (k, SText s)))
       (filter (\<lambda>(k, v). k \<noteq> ''cmd'') kvs)"

record cmd_env =
  ce_resolve :: "path \<Rightarrow> path"
  ce_environ :: "string \<Rightarrow> string option"

text \<open>\<open>simulator_entry['env_var'].replace(' ', '').split(',')\<close>, when the entry has it.\<close>

definition entry_env_vars :: "(string \<times> json) list \<Rightarrow> string list option res" where
  "entry_env_vars entry =
     (case map_of entry ''env_var'' of
        None \<Rightarrow> Ok None
      | Some v \<Rightarrow> rbind (as_text v) (\<lambda>s. Ok (Some (split_char CHR '','' (filter (\<lambda>c. c \<noteq> CHR '' '') s)))))"

definition fill_cmd :: "cmd_env \<Rightarrow> (string, subst_value) dict \<Rightarrow> (string, subst_value) dict \<Rightarrow> string list option
    \<Rightarrow> string \<Rightarrow> string list res" where
  "fill_cmd env opts user env_vars cmd =
     (let s2 = subst_dict (ce_resolve env) (subst_dict (ce_resolve env) cmd opts) user
      in rbind (case env_vars of None \<Rightarrow> Ok s2 | Some vs \<Rightarrow> subst_env_vars (ce_environ env) s2 vs) (\<lambda>s3.
         if re_search parameter_regex s3 \<noteq> None then Err RuntimeError else shlex_split s3))"

definition get_tool_cmds :: "cmd_env \<Rightarrow> json list \<Rightarrow> string \<Rightarrow> string \<Rightarrow> (string \<Rightarrow> bool) \<Rightarrow> (string, subst_value) dict
    \<Rightarrow> string list list res" where
  "get_tool_cmds env yaml simulator cmd_type enabled user =
     rbind (rbind (get_yaml_for_simulator yaml simulator) as_dict) (\<lambda>entry.
     rbind (rbind (jindex entry cmd_type) as_dict) (\<lambda>section.
     rbind (rbind (jindex section ''cmd'') to_iter) (\<lambda>cmds.
       rmapM (\<lambda>c. case c of
           JStr cmd \<Rightarrow>
             rbind (cmd_opts enabled section) (\<lambda>opts.
             rbind (entry_env_vars entry) (\<lambda>env_vars. fill_cmd env opts user env_vars cmd))
         | _ \<Rightarrow> Err AssertionError) cmds)))"

section \<open>Commands of riscv-dv\<close>

record project_dirs =
  RISCV_DV :: path
  CORE_IBEX :: path
  OT_LOWRISC_IP :: path
  IBEX_ROOT :: path

definition project_dirs_of :: "path \<Rightarrow> project_dirs" where
  "project_dirs_of root_dir =
     \<lparr>RISCV_DV = path_div root_dir ''vendor/google_riscv-dv'', CORE_IBEX = path_div root_dir ''dv/uvm/core_ibex'',
      OT_LOWRISC_IP = path_div root_dir ''vendor/lowrisc_ip'', IBEX_ROOT = root_dir\<rparr>"

definition riscv_dv_extension :: "project_dirs \<Rightarrow> path" where
  "riscv_dv_extension pd = path_div (CORE_IBEX pd) ''riscv_dv_extension''"

definition get_run_cmd :: "project_dirs \<Rightarrow> bool \<Rightarrow> arg list" where
  "get_run_cmd pd verbose =
     [AStr ''python3'', APath (path_div (RISCV_DV pd) ''run.py''),
      AStr ''--testlist'', APath (path_div (riscv_dv_extension pd) ''testlist.yaml''),
      AStr ''--gcc_opts=-mno-strict-align'',
      AStr ''--custom_target'', APath (riscv_dv_extension pd),
      AStr ''--csr_yaml'', APath (path_div (riscv_dv_extension pd) ''csr_description.yaml''),
      AStr ''--mabi=ilp32''] @ (if verbose then [AStr ''--verbose''] else [])"

definition get_cov_cmd :: "project_dirs \<Rightarrow> path \<Rightarrow> path \<Rightarrow> string \<Rightarrow> string \<Rightarrow> bool \<Rightarrow> string list" where
  "get_cov_cmd pd dir_run dir_fcov simulator isa verbose =
     [''python3'', path_str (path_div (RISCV_DV pd) ''cov.py''), ''--core'', ''ibex'', ''--dir'', path_str dir_run,
      ''-o'', path_str dir_fcov, ''--simulator'', simulator, ''--opts'', ''--gen_timeout 1000'', ''--isa'', isa,
      ''--custom_target'', path_str (riscv_dv_extension pd)] @ (if verbose then [''--verbose''] else [])"

section \<open>Child processes\<close>

text \<open>How a child process ends: its return code, an error of the system when it is started, or the time limit.\<close>

datatype child = Returned int | StartError | TimedOut

definition run_one :: "child \<Rightarrow> bool \<Rightarrow> int option" where
  "run_one c reraise =
     (case c of Returned rc \<Rightarrow> Some rc | StartError \<Rightarrow> Some 1 | TimedOut \<Rightarrow> if reraise then None else Some 1)"

section \<open>Templates\<close>

text \<open>
  The specification: a command is a sequence of plain texts and parameters, and a substitution replaces a parameter
  by another template. Plain text has no opening bracket, and the name of a parameter is a word.
\<close>

datatype piece = Plain string | Param string

fun render :: "piece list \<Rightarrow> string" where
  "render [] = []"
| "render (Plain t # ps) = t @ render ps"
| "render (Param k # ps) = needle k @ render ps"

fun good_piece :: "piece \<Rightarrow> bool" where
  "good_piece (Plain t) = (CHR ''<'' \<notin> set t)"
| "good_piece (Param k) = (k \<noteq> [] \<and> list_all word_char k)"

definition fill :: "string \<Rightarrow> piece list \<Rightarrow> piece list \<Rightarrow> piece list" where
  "fill k new ps = concat (map (\<lambda>p. if p = Param k then new else [p]) ps)"

definition fill_all :: "(string \<times> piece list) list \<Rightarrow> piece list \<Rightarrow> piece list" where
  "fill_all kvs ps = fold (\<lambda>(k, new). fill k new) kvs ps"

lemma render_append: "render (ps @ qs) = render ps @ render qs"
  by (induction ps rule: render.induct) auto

lemma word_char_brackets: "word_char c \<Longrightarrow> c \<noteq> CHR ''<'' \<and> c \<noteq> CHR ''>''"
  by (auto simp: word_char_def is_ascii_alnum_def char_class_defs code_def)

lemma replace_all_skip:
  assumes "old \<noteq> []" and "hd old \<notin> set t"
  shows "replace_all old new (t @ s) = t @ replace_all old new s"
  using assms(2)
proof (induction t)
  case (Cons c t)
  have "\<not> startswith (c # t @ s) old"
    using Cons.prems assms(1) by (cases old) (auto simp: startswith_Cons)
  with Cons show ?case by (simp add: replace_all.simps [of old new "c # t @ s"])
qed simp

lemma replace_all_hit:
  assumes "old \<noteq> []"
  shows "replace_all old new (old @ s) = new @ replace_all old new s"
  using assms by (subst replace_all.simps) (simp add: startswith_def)

lemma takeWhile_needle: "list_all word_char k \<Longrightarrow> takeWhile (\<lambda>c. c \<noteq> CHR ''>'') (k @ ''>'' @ s) = k"
  by (induction k) (auto dest: word_char_brackets)

lemma startswith_needle:
  assumes "list_all word_char k" and "list_all word_char k'"
  shows "startswith (needle k' @ s) (needle k) \<longleftrightarrow> k = k'"
proof
  assume "startswith (needle k' @ s) (needle k)"
  then have "\<exists>u. k' @ ''>'' @ s = k @ ''>'' @ u"
    by (auto simp: needle_def startswith_iff startswith_Cons)
  then show "k = k'" using takeWhile_needle assms by metis
qed (simp add: startswith_def)

lemma replace_all_render:
  assumes "k \<noteq> []" "list_all word_char k" and "list_all good_piece ps"
  shows "replace_all (needle k) (render new) (render ps) = render (fill k new ps)"
  using assms(3)
proof (induction ps rule: render.induct)
  case 1
  then show ?case by (simp add: fill_def replace_all.simps needle_def startswith_def)
next
  case (2 t ps)
  then show ?case using replace_all_skip [of "needle k" t] by (simp add: fill_def needle_def)
next
  case (3 k' ps)
  show ?case
  proof (cases "k' = k")
    case True
    with 3 show ?thesis using replace_all_hit [of "needle k"] by (simp add: fill_def needle_def render_append)
  next
    case False
    let ?t = "k' @ ''>''"
    have "CHR ''<'' \<notin> set ?t" using 3 word_char_brackets by (auto simp: list_all_iff)
    then have "replace_all (needle k) (render new) (?t @ render ps) = ?t @ replace_all (needle k) (render new) (render ps)"
      by (intro replace_all_skip) (auto simp: needle_def)
    moreover have "\<not> startswith (needle k' @ render ps) (needle k)"
      using startswith_needle [OF assms(2), of k'] 3 False by simp
    ultimately show ?thesis
      using 3 False by (simp add: fill_def needle_def replace_all.simps [of _ _ "CHR ''<'' # k' @ CHR ''>'' # render ps"])
  qed
qed

lemma replace_all_absent: "\<not> contains s old \<Longrightarrow> replace_all old new s = s"
proof (induction s)
  case Nil
  then have "\<not> startswith [] old" by (simp add: contains_def find_sub.simps [of old "[]"] split: if_splits)
  then show ?case by (subst replace_all.simps) simp
next
  case (Cons c s)
  from Cons.prems have "\<not> startswith (c # s) old" "\<not> contains s old"
    by (simp_all add: contains_def find_sub.simps [of old "c # s"] split: if_splits)
  with Cons.IH show ?case by (simp add: replace_all.simps [of old new "c # s"])
qed

lemma subst_opt_render:
  assumes "k \<noteq> []" "list_all word_char k" and "list_all good_piece ps"
  shows "subst_opt (render ps) k (render new) = render (fill k new ps)"
  using replace_all_render [OF assms, of new] replace_all_absent [of "render ps" "needle k" "render new"]
  by (auto simp: subst_opt_def)

definition good_binding :: "string \<times> piece list \<Rightarrow> bool" where
  "good_binding kt \<longleftrightarrow> fst kt \<noteq> [] \<and> list_all word_char (fst kt) \<and> list_all good_piece (snd kt)"

lemma good_fill: "list_all good_piece ps \<Longrightarrow> list_all good_piece new \<Longrightarrow> list_all good_piece (fill k new ps)"
  by (auto simp: fill_def list_all_iff)

lemma good_fill_all: "list_all good_piece ps \<Longrightarrow> list_all good_binding kts \<Longrightarrow> list_all good_piece (fill_all kts ps)"
proof (induction kts arbitrary: ps)
  case (Cons kt kts)
  then show ?case by (cases kt) (auto simp: fill_all_def good_binding_def good_fill)
qed (simp add: fill_all_def)

lemma fill_all_append: "fill_all (kts @ uts) ps = fill_all uts (fill_all kts ps)"
  by (simp add: fill_all_def)

definition binds :: "(path \<Rightarrow> path) \<Rightarrow> (string, subst_value) dict \<Rightarrow> (string \<times> piece list) list \<Rightarrow> bool" where
  "binds resolve d kts \<longleftrightarrow> list_all good_binding kts
     \<and> map (\<lambda>(k, v). (k, subst_text resolve v)) d = map (\<lambda>(k, t). (k, render t)) kts"

lemma subst_dict_render:
  assumes "binds resolve d kts" and "list_all good_piece ps"
  shows "subst_dict resolve (render ps) d = render (fill_all kts ps)"
  using assms
proof (induction kts arbitrary: d ps)
  case Nil
  then show ?case by (simp add: binds_def subst_dict_def fill_all_def)
next
  case (Cons kt kts)
  obtain k t where kt: "kt = (k, t)" by (cases kt)
  from Cons.prems(1) kt obtain v d' where d: "d = (k, v) # d'" "subst_text resolve v = render t" "binds resolve d' kts"
    by (auto simp: binds_def map_eq_Cons_conv)
  have g: "k \<noteq> []" "list_all word_char k" "list_all good_piece t"
    using Cons.prems(1) by (auto simp: binds_def good_binding_def kt)
  have "subst_dict resolve (render ps) d = subst_dict resolve (render (fill k t ps)) d'"
    using subst_opt_render [OF g(1,2) Cons.prems(2), of t] by (simp add: subst_dict_def d)
  also have "\<dots> = render (fill_all kts (fill k t ps))"
    by (rule Cons.IH [OF d(3) good_fill [OF Cons.prems(2) g(3)]])
  finally show ?case by (simp add: fill_all_def kt)
qed

definition binds_env :: "(string \<Rightarrow> string option) \<Rightarrow> string list \<Rightarrow> (string \<times> piece list) list \<Rightarrow> bool" where
  "binds_env environ vs kts \<longleftrightarrow> list_all good_binding kts
     \<and> map (\<lambda>v. (v, environ v)) vs = map (\<lambda>(k, t). (k, Some (render t))) kts"

lemma subst_env_vars_render:
  assumes "binds_env environ vs kts" and "list_all good_piece ps"
  shows "subst_env_vars environ (render ps) vs = Ok (render (fill_all kts ps))"
  using assms
proof (induction kts arbitrary: vs ps)
  case Nil
  then show ?case by (simp add: binds_env_def subst_env_vars_def fill_all_def)
next
  case (Cons kt kts)
  obtain k t where kt: "kt = (k, t)" by (cases kt)
  from Cons.prems(1) kt obtain vs' where vs: "vs = k # vs'" "environ k = Some (render t)" "binds_env environ vs' kts"
    by (auto simp: binds_env_def map_eq_Cons_conv)
  have g: "k \<noteq> []" "list_all word_char k" "list_all good_piece t"
    using Cons.prems(1) by (auto simp: binds_env_def good_binding_def kt)
  have "subst_env_vars environ (render ps) vs = subst_env_vars environ (render (fill k t ps)) vs'"
    using subst_opt_render [OF g(1,2) Cons.prems(2), of t] by (simp add: subst_env_vars_def vs)
  also have "\<dots> = Ok (render (fill_all kts (fill k t ps)))"
    by (rule Cons.IH [OF vs(3) good_fill [OF Cons.prems(2) g(3)]])
  finally show ?case by (simp add: fill_all_def kt)
qed

fun is_param :: "piece \<Rightarrow> bool" where
  "is_param (Param _) = True"
| "is_param (Plain _) = False"

lemma many_mem: "list_all p u \<Longrightarrow> s \<in> set (many p (u @ s))"
proof (induction u)
  case Nil
  then show ?case by (cases s) auto
qed auto

lemma rx_parameter: "k \<noteq> [] \<Longrightarrow> list_all word_char k \<Longrightarrow> rx parameter_regex (needle k @ s) [] \<noteq> []"
  using many_mem [of word_char "tl k" "CHR ''>'' # s"]
  by (cases k) (force simp: parameter_regex_def Some1_def needle_def)+

lemma re_search_suffix: "rx r s [] \<noteq> [] \<Longrightarrow> re_search r (u @ s) \<noteq> None"
proof (induction u)
  case Nil
  then show ?case by (simp add: re_search.simps [of r s] re_match_def split: list.splits)
next
  case (Cons c u)
  then show ?case by (simp add: re_search.simps [of r "c # u @ s"] split: option.splits)
qed

lemma re_search_no_bracket: "CHR ''<'' \<notin> set s \<Longrightarrow> re_search parameter_regex s = None"
proof (induction s)
  case Nil
  then show ?case by (simp add: re_search.simps [of _ "[]"] re_match_def parameter_regex_def)
next
  case (Cons c s)
  then have "re_match parameter_regex (c # s) = None" by (auto simp: re_match_def parameter_regex_def)
  with Cons show ?case by (simp add: re_search.simps [of _ "c # s"])
qed

lemma render_plain: "list_all good_piece ps \<Longrightarrow> \<not> list_ex is_param ps \<Longrightarrow> CHR ''<'' \<notin> set (render ps)"
  by (induction ps rule: render.induct) auto

lemma re_search_render:
  assumes "list_all good_piece ps"
  shows "re_search parameter_regex (render ps) \<noteq> None \<longleftrightarrow> list_ex is_param ps"
proof
  assume "list_ex is_param ps"
  then obtain k where "Param k \<in> set ps" by (auto simp: list_ex_iff elim: is_param.elims)
  then obtain us vs where ps: "ps = us @ Param k # vs" by (meson split_list)
  with assms show "re_search parameter_regex (render ps) \<noteq> None"
    using re_search_suffix [OF rx_parameter [of k "render vs"], of "render us"] by (simp add: render_append)
next
  assume "re_search parameter_regex (render ps) \<noteq> None"
  then show "list_ex is_param ps"
    using re_search_no_bracket [OF render_plain [OF assms]] by (cases "list_ex is_param ps") simp_all
qed

text \<open>C15: A command of a simulator is filled like a template: the options of the command, then the values of the script, then
  the environment, each value again a template whose parameters later substitutions fill. It is split into words
  when no parameter is left, and refused with \<open>RuntimeError\<close> when one is.\<close>

theorem fill_cmd_template:
  assumes "list_all good_piece ps" and "binds (ce_resolve env) opts ots" and "binds (ce_resolve env) user uts"
    and "binds_env (ce_environ env) vs ets"
  shows "fill_cmd env opts user (Some vs) (render ps) =
     (let qs = fill_all (ots @ uts @ ets) ps
      in if list_ex is_param qs then Err RuntimeError else shlex_split (render qs))"
proof -
  have good: "list_all good_piece (fill_all ots ps)" "list_all good_piece (fill_all uts (fill_all ots ps))"
    "list_all good_piece (fill_all ets (fill_all uts (fill_all ots ps)))"
    using assms by (auto simp: binds_def binds_env_def intro!: good_fill_all)
  show ?thesis
    using re_search_render [OF good(3)]
    by (simp add: fill_cmd_def Let_def fill_all_append subst_dict_render [OF assms(2,1)]
        subst_dict_render [OF assms(3) good(1)] subst_env_vars_render [OF assms(4) good(2)])
qed

text \<open>\<open>subst_env_vars\<close> fails for every listed variable that is not set, also when its parameter does not occur in the
  command (its description promises an error only when it occurs).\<close>

theorem subst_env_vars_unset:
  assumes "environ var = None" and "var \<in> set vs"
  shows "subst_env_vars environ s vs = Err RuntimeError"
  using assms
proof (induction vs arbitrary: s)
  case (Cons v vs)
  then show ?case by (cases "environ v") (auto simp: subst_env_vars_def)
qed simp

theorem subst_env_vars_unset_witness:
  "subst_env_vars (\<lambda>_. None) ''make all'' [''IBEX_ROOT''] = Err RuntimeError"
  by (rule subst_env_vars_unset [where var = "''IBEX_ROOT''"]) simp_all

theorem fill_cmd_template_witness:
  "fill_cmd \<lparr>ce_resolve = (\<lambda>p. p), ce_environ = [''ROOT'' \<mapsto> ''/ibex'']\<rparr>
     [(''cov_opts'', SText ''-cm_dir <dir>'')] [(''dir'', SPath (path_of ''/out''))] (Some [''ROOT''])
     (render [Plain ''vcs -f '', Param ''ROOT'', Plain '' '', Param ''cov_opts'']) =
   (let qs = fill_all ([(''cov_opts'', [Plain ''-cm_dir '', Param ''dir''])] @ [(''dir'', [Plain ''/out''])] @ [(''ROOT'', [Plain ''/ibex''])])
               [Plain ''vcs -f '', Param ''ROOT'', Plain '' '', Param ''cov_opts'']
    in if list_ex is_param qs then Err RuntimeError else shlex_split (render qs))"
proof (rule fill_cmd_template)
  have w: "list_all word_char ''ROOT''" "list_all word_char ''cov_opts''" "list_all word_char ''dir''" by code_simp+
  show "list_all good_piece [Plain ''vcs -f '', Param ''ROOT'', Plain '' '', Param ''cov_opts'']" using w by simp
  have "path_str (path_of ''/out'') = ''/out''" by code_simp
  then show "binds (ce_resolve \<lparr>ce_resolve = (\<lambda>p. p), ce_environ = [''ROOT'' \<mapsto> ''/ibex'']\<rparr>) [(''dir'', SPath (path_of ''/out''))]
      [(''dir'', [Plain ''/out''])]" using w by (simp add: binds_def good_binding_def)
  show "binds (ce_resolve \<lparr>ce_resolve = (\<lambda>p. p), ce_environ = [''ROOT'' \<mapsto> ''/ibex'']\<rparr>) [(''cov_opts'', SText ''-cm_dir <dir>'')]
      [(''cov_opts'', [Plain ''-cm_dir '', Param ''dir''])]" using w by (simp add: binds_def good_binding_def needle_def)
  show "binds_env (ce_environ \<lparr>ce_resolve = (\<lambda>p. p), ce_environ = [''ROOT'' \<mapsto> ''/ibex'']\<rparr>) [''ROOT''] [(''ROOT'', [Plain ''/ibex''])]"
    using w by (simp add: binds_env_def good_binding_def)
qed

end
