(* ===== verification/Uvm_Metadata.thy ===== *)
theory Uvm_Metadata
  imports Uvm_Commands Ibex_Cmd
begin

text \<open>
  The plan of a regression: \<open>dv/uvm/core_ibex/scripts/metadata.py\<close> and the directed tests of
  \<open>directed_test_schema.py\<close>. From a list of \<open>KEY=VALUE\<close> settings it makes the metadata, chooses the tests, and writes
  one record per run, which the later scripts read by the name \<open>TEST.SEED\<close>.

  Parameters: the test list of riscv-dv (\<open>process_regression_list\<close>), the YAML data, pydantic's conversion of the declared fields
  (\<open>coerce\<close>), \<open>Path.resolve\<close>. A pickle file is the value it holds.
\<close>

section \<open>Settings\<close>

datatype ftype = TStr | TInt | TBool | TPath | TOptInt | TOtherType

datatype setting = MStr string | MInt int | MBool bool | MPath path | MOptInt "int option"

text \<open>The fields of \<open>RegressionMetadata\<close>: name, type, and whether the constructor takes it.\<close>

definition md_fields :: "(string \<times> ftype \<times> bool) list" where
  "md_fields =
     [(''dir_out'', TPath, True), (''dir_metadata'', TPath, True), (''git_commit'', TStr, True),
      (''creation_datetime'', TOtherType, True), (''pickle_file'', TPath, False), (''yaml_file'', TPath, False),
      (''raw_args_str'', TStr, True), (''raw_args_dict'', TOtherType, True), (''seed'', TInt, True), (''waves'', TBool, True),
      (''cov'', TBool, True), (''cosim'', TBool, True), (''simulator'', TStr, True), (''iss'', TStr, True),
      (''test'', TStr, True), (''verbose'', TBool, True), (''iterations'', TOptInt, True),
      (''signature_addr'', TStr, True), (''ibex_config'', TStr, True), (''dut_cov_rtl_path'', TStr, True),
      (''tests_and_counts'', TOtherType, True), (''isa_ibex'', TOtherType, True), (''isa_iss'', TOtherType, True),
      (''run_rtl_timeout_s'', TInt, True), (''ibex_configs'', TPath, False), (''ibex_riscvdv_simulator_yaml'', TPath, False),
      (''ibex_riscvdv_customtarget'', TPath, False), (''ibex_riscvdv_testlist'', TPath, False),
      (''ibex_riscvdv_csr'', TPath, False), (''directed_test_dir'', TPath, False), (''directed_test_data'', TPath, False),
      (''riscvdv_build_log'', TOtherType, True), (''riscvdv_build_stdout'', TOtherType, True),
      (''riscvdv_build_cmds'', TOtherType, True), (''tb_build_log'', TOtherType, True), (''tb_build_stdout'', TOtherType, True),
      (''tb_build_cmds'', TOtherType, True), (''riscvdv_fcov_log'', TOtherType, True), (''riscvdv_fcov_stdout'', TOtherType, True),
      (''riscvdv_fcov_cmds'', TOtherType, True), (''cov_merge_db_list'', TOtherType, True), (''cov_merge_log'', TOtherType, True),
      (''cov_merge_stdout'', TOtherType, True), (''cov_merge_cmds'', TOtherType, True), (''cov_report_log'', TOtherType, True),
      (''cov_report_stdout'', TOtherType, True), (''cov_report_cmds'', TOtherType, True), (''regr_log'', TOtherType, True),
      (''regr_log_junit'', TOtherType, True), (''regr_log_junit_merged'', TOtherType, True),
      (''environment_variables'', TOtherType, False), (''ibex_root'', TPath, False), (''riscvdv_root'', TPath, False),
      (''ot_lowrisc_ip'', TPath, False), (''ot_xcelium_cov_scripts'', TPath, False), (''ibex_dv_root'', TPath, False),
      (''dir_build'', TPath, False), (''dir_instruction_generator'', TPath, False), (''dir_tb'', TPath, False),
      (''dir_run'', TPath, False), (''dir_cov'', TPath, False), (''dir_fcov'', TPath, False), (''dir_shared_cov'', TPath, False),
      (''dir_cov_merged'', TPath, False), (''dir_cov_report'', TPath, False), (''tests_pickle_files'', TOtherType, False)]"

fun cast :: "ftype \<Rightarrow> string \<Rightarrow> setting res" where
  "cast TStr val = Ok (MStr val)"
| "cast TInt val = rbind (res_of ValueError (py_int val)) (\<lambda>i. Ok (MInt i))"
| "cast TBool val = rbind (res_of ValueError (py_int val)) (\<lambda>i. Ok (MBool (i \<noteq> 0)))"
| "cast TPath val = Ok (MPath (path_of val))"
| "cast TOptInt val =
     (if val \<noteq> [] then rbind (res_of ValueError (py_int val)) (\<lambda>i. Ok (MOptInt (Some i))) else Ok (MOptInt None))"
| "cast TOtherType val = Err RuntimeError"

text \<open>\<open>k, v = pair.split('=', maxsplit=1)\<close>\<close>

definition key_value :: "string \<Rightarrow> (string \<times> string) res" where
  "key_value pair =
     (if CHR ''='' \<in> set pair
      then Ok (takeWhile (\<lambda>c. c \<noteq> CHR ''='') pair, tl (dropWhile (\<lambda>c. c \<noteq> CHR ''='') pair)) else Err ValueError)"

record metadata =
  md_dir_out :: path
  md_dir_metadata :: path
  md_git_commit :: string
  md_settings :: "(string, setting) dict"
  md_raw_args_str :: string
  md_raw_args_dict :: "(string, string) dict"
  md_isas :: "(string \<times> string) option"
  md_tests_and_counts :: "(string \<times> int \<times> bool) list"
  md_tests_pickle_files :: "path list"

text \<open>The settings the constructor is called with twice, or does not take, are the \<open>TypeError\<close> of the call.\<close>

definition arg_list_initializer :: "(path \<Rightarrow> path) \<Rightarrow> path \<Rightarrow> path \<Rightarrow> string \<Rightarrow> string \<Rightarrow> metadata res" where
  "arg_list_initializer resolve dir_metadata dir_out git_commit args_list =
     rbind (rbind (shlex_split args_list) (rmapM key_value)) (\<lambda>pairs.
       let kv_dict = dict_of (map (\<lambda>(k, v). (lower k, v)) pairs) in
     rbind (rmapM (\<lambda>(name, typ, init). rbind (cast typ (the (map_of kv_dict name))) (\<lambda>x. Ok (name, x)))
              (filter (\<lambda>(name, typ, init). map_of kv_dict name \<noteq> None) md_fields)) (\<lambda>settings.
       if list_ex (\<lambda>(name, x). name \<in> {''dir_out'', ''dir_metadata'', ''git_commit''}
            \<or> map_of md_fields name \<noteq> None \<and> \<not> snd (the (map_of md_fields name))) settings
       then Err TypeError
       else Ok \<lparr>md_dir_out = resolve dir_out, md_dir_metadata = resolve dir_metadata, md_git_commit = git_commit,
                md_settings = settings,
                md_raw_args_str = (case map_of settings ''raw_args_str'' of Some (MStr s) \<Rightarrow> s | _ \<Rightarrow> args_list),
                md_raw_args_dict = dict_of pairs, md_isas = None, md_tests_and_counts = [],
                md_tests_pickle_files = []\<rparr>))"

text \<open>The fields the flow reads, with the values they have when not set.\<close>

definition md_str :: "string \<Rightarrow> string \<Rightarrow> metadata \<Rightarrow> string" where
  "md_str name d md = (case map_of (md_settings md) name of Some (MStr s) \<Rightarrow> s | _ \<Rightarrow> d)"

definition md_int :: "string \<Rightarrow> int \<Rightarrow> metadata \<Rightarrow> int" where
  "md_int name d md = (case map_of (md_settings md) name of Some (MInt i) \<Rightarrow> i | _ \<Rightarrow> d)"

definition md_bool :: "string \<Rightarrow> bool \<Rightarrow> metadata \<Rightarrow> bool" where
  "md_bool name d md = (case map_of (md_settings md) name of Some (MBool b) \<Rightarrow> b | _ \<Rightarrow> d)"

definition md_seed :: "metadata \<Rightarrow> int" where "md_seed md = md_int ''seed'' 1 md"

definition md_simulator :: "metadata \<Rightarrow> string" where "md_simulator md = md_str ''simulator'' '' '' md"

definition md_iss :: "metadata \<Rightarrow> string" where "md_iss md = md_str ''iss'' '' '' md"

definition md_test :: "metadata \<Rightarrow> string" where "md_test md = md_str ''test'' '' '' md"

definition md_ibex_config :: "metadata \<Rightarrow> string" where "md_ibex_config md = md_str ''ibex_config'' '' '' md"

definition md_iterations :: "metadata \<Rightarrow> int option" where
  "md_iterations md = (case map_of (md_settings md) ''iterations'' of Some (MOptInt x) \<Rightarrow> x | _ \<Rightarrow> None)"

definition md_pickle_file :: "metadata \<Rightarrow> path" where
  "md_pickle_file md = path_div (md_dir_metadata md) ''metadata.pickle''"

definition md_dir_run :: "metadata \<Rightarrow> path" where "md_dir_run md = path_div (md_dir_out md) ''run''"

definition md_dir_tests :: "metadata \<Rightarrow> path" where "md_dir_tests md = path_div (md_dir_run md) ''tests''"

definition md_dir_cov :: "metadata \<Rightarrow> path" where "md_dir_cov md = path_div (md_dir_run md) ''coverage''"

definition md_dir_build :: "metadata \<Rightarrow> path" where "md_dir_build md = path_div (md_dir_out md) ''build''"

definition md_dir_instruction_generator :: "metadata \<Rightarrow> path" where
  "md_dir_instruction_generator md = path_div (md_dir_build md) ''instr_gen''"

definition md_dir_tb :: "metadata \<Rightarrow> path" where "md_dir_tb md = path_div (md_dir_build md) ''tb''"

definition get_ibex_metadata :: "decoder \<Rightarrow> fs \<Rightarrow> path \<Rightarrow> metadata \<Rightarrow> metadata res" where
  "get_ibex_metadata load fs ibex_root md =
     (if (case md_iterations md of None \<Rightarrow> False | Some n \<Rightarrow> n \<le> 0) then Err RuntimeError
      else if md_seed md < 0 then Err RuntimeError
      else rbind (rbind (get_config load fs ibex_root (md_ibex_config md)) get_isas_for_config) (\<lambda>isas.
        Ok (md\<lparr>md_isas := Some isas\<rparr>)))"

section \<open>Directed tests\<close>

text \<open>\<open>i.get('test')\<close> of the entries of the YAML file, which are dictionaries.\<close>

definition get_or_none :: "test_entry \<Rightarrow> string \<Rightarrow> json" where
  "get_or_none entry k = dict_get entry k JNull"

definition config_of :: "test_entry list \<Rightarrow> test_entry \<Rightarrow> test_entry option" where
  "config_of configs t = find (\<lambda>c. get_or_none c ''config'' = get_or_none t ''config'') configs"

definition merge_config :: "test_entry list \<Rightarrow> test_entry \<Rightarrow> test_entry res" where
  "merge_config configs t = rbind (res_of ValueError (config_of configs t)) (\<lambda>c. Ok (dict_update c t))"

text \<open>The validators of \<open>DirectedTestsYaml\<close>: the configuration of a test exists, and so do the files, which are taken relative to
  the YAML file.\<close>

definition path_fields :: "bool \<Rightarrow> string list" where
  "path_fields is_test = [''ld_script'', ''includes''] @ (if is_test then [''test_srcs''] else [])"

fun locate :: "fs \<Rightarrow> path \<Rightarrow> string list \<Rightarrow> test_entry \<Rightarrow> test_entry option" where
  "locate fs yaml [] entry = Some entry"
| "locate fs yaml (k # ks) entry =
     (case map_of entry k of
        Some (JStr s) \<Rightarrow>
          let p = path_join (path_parent yaml) (path_of s)
          in if path_exists fs p then locate fs yaml ks (AList.update k (JStr (path_str p)) entry) else None
      | _ \<Rightarrow> None)"

definition directed_tests_yaml :: "(bool \<Rightarrow> test_entry \<Rightarrow> test_entry option) \<Rightarrow> fs \<Rightarrow> path \<Rightarrow> test_entry list \<Rightarrow> test_entry list
    \<Rightarrow> test_entry list option" where
  "directed_tests_yaml coerce fs yaml configs tests =
     (case (those (map (coerce False) configs), those (map (coerce True) tests)) of
        (Some cs, Some ts) \<Rightarrow>
          if path_exists fs yaml
             \<and> list_all (\<lambda>t. list_ex (\<lambda>c. get_or_none c ''config'' = get_or_none t ''config'') cs) ts
             \<and> list_all (\<lambda>c. locate fs yaml (path_fields False) c \<noteq> None) cs
          then those (map (locate fs yaml (path_fields True)) ts) else None
      | _ \<Rightarrow> None)"

definition import_model :: "(bool \<Rightarrow> test_entry \<Rightarrow> test_entry option) \<Rightarrow> fs \<Rightarrow> path \<Rightarrow> test_entry list \<Rightarrow> test_entry list res" where
  "import_model coerce fs yaml data =
     (let configs = filter (\<lambda>i. get_or_none i ''test'' = JNull) data in
      rbind (rmapM (merge_config configs) (filter (\<lambda>i. get_or_none i ''test'' \<noteq> JNull) data)) (\<lambda>tests.
        res_of (SystemExit 1) (directed_tests_yaml coerce fs yaml configs tests)))"

section \<open>The tests of a regression\<close>

text \<open>The test list of riscv-dv (\<open>lib.process_regression_list\<close>), for the tests asked for and their iterations.\<close>

definition process_riscvdv_testlist :: "(string \<Rightarrow> int \<Rightarrow> test_entry list) \<Rightarrow> metadata \<Rightarrow> test_entry list" where
  "process_riscvdv_testlist process_regression_list md =
     (let names = split_char CHR '','' (md_test md)
      in process_regression_list (if ''all_riscvdv'' \<in> set names \<or> ''all'' \<in> set names then ''all'' else md_test md)
           (case md_iterations md of None \<Rightarrow> 0 | Some n \<Rightarrow> n))"

text \<open>\<open>self.iterations or entry['iterations']\<close>, and its comparison with 0.\<close>

fun positive_count :: "json \<Rightarrow> bool res" where
  "positive_count (JInt i) = Ok (0 < i)"
| "positive_count (JBool b) = Ok b"
| "positive_count (JFloat f) = Ok (flt (Fin 0) f)"
| "positive_count _ = Err TypeError"

definition match_directed :: "metadata \<Rightarrow> test_entry \<Rightarrow> test_entry list res" where
  "match_directed md entry =
     (let names = split_char CHR '','' (md_test md)
      in if ''all_directed'' \<in> set names \<or> get_or_none entry ''test'' \<in> JStr ` set names then
           rbind (case md_iterations md of
                    Some n \<Rightarrow> if n \<noteq> 0 then Ok (JInt n) else jindex entry ''iterations''
                  | None \<Rightarrow> jindex entry ''iterations'') (\<lambda>n.
           rbind (positive_count n) (\<lambda>pos.
             Ok (if pos then [AList.update ''iterations'' n entry] else [])))
         else Ok [])"

definition process_directed_testlist :: "metadata \<Rightarrow> test_entry list \<Rightarrow> test_entry list res" where
  "process_directed_testlist md tests = rbind (rmapM (match_directed md) tests) (\<lambda>xs. Ok (concat xs))"

text \<open>\<open>isinstance(name, str) and isinstance(iterations, int) and iterations > 0\<close>\<close>

definition name_and_count :: "test_entry \<Rightarrow> (string \<times> int) res" where
  "name_and_count test =
     rbind (jindex test ''test'') (\<lambda>name. rbind (jindex test ''iterations'') (\<lambda>iterations.
       case (name, iterations) of
         (JStr s, JInt i) \<Rightarrow> if 0 < i then Ok (s, i) else Err AssertionError
       | (JStr s, JBool b) \<Rightarrow> if b then Ok (s, 1) else Err AssertionError
       | _ \<Rightarrow> Err AssertionError))"

text \<open>A test with its count and whether it is a directed one, and its entry.\<close>

type_synonym planned = "(string \<times> int \<times> bool) \<times> test_entry"

definition get_tests_and_counts :: "(string \<Rightarrow> int \<Rightarrow> test_entry list) \<Rightarrow> ibex_config res \<Rightarrow> test_entry list res \<Rightarrow> metadata
    \<Rightarrow> planned list res" where
  "get_tests_and_counts process_regression_list cfg directed md =
     (let riscvdv = process_riscvdv_testlist process_regression_list md in
      rbind (rbind directed (process_directed_testlist md)) (\<lambda>dir.
        if riscvdv = [] \<and> dir = [] then Err RuntimeError
        else rbind cfg (\<lambda>c.
          rbind (filter_tests_by_config c riscvdv) (\<lambda>rs.
          rbind (filter_tests_by_config c dir) (\<lambda>ds.
          rbind (rmapM (\<lambda>t. rbind (name_and_count t) (\<lambda>(n, k). Ok ((n, k, False), t))) rs) (\<lambda>xs.
          rbind (rmapM (\<lambda>t. rbind (name_and_count t) (\<lambda>(n, k). Ok ((n, k, True), t))) ds) (\<lambda>ys.
            Ok (xs @ ys))))))))"

section \<open>The runs\<close>

record test_run =
  run_directed :: bool
  run_testdotseed :: string
  run_testname :: string
  run_seed :: int
  run_simulator :: string
  run_iss :: string
  run_dir_test :: path
  run_metadata_pickle :: path
  run_pickle_file :: path
  run_yaml_file :: path
  run_gen_test :: "string list"
  run_gen_opts :: "string list"
  run_rtl_test :: "string list"
  run_sim_opts :: "string list"
  run_discrete_debug_module :: "bool option"
  run_directed_data :: "test_entry option"

definition test_dot_seed :: "string \<Rightarrow> int \<Rightarrow> string" where
  "test_dot_seed test seed = test @ ''.'' @ str_int seed"

definition run_pickle_path :: "path \<Rightarrow> string \<Rightarrow> path" where
  "run_pickle_path dir_metadata tds = path_div dir_metadata (tds @ ''.pickle'')"

definition new_run :: "metadata \<Rightarrow> bool \<Rightarrow> string \<Rightarrow> int \<Rightarrow> test_run" where
  "new_run md directed test seed =
     (let tds = test_dot_seed test seed
      in \<lparr>run_directed = directed, run_testdotseed = tds, run_testname = test, run_seed = seed,
          run_simulator = md_simulator md, run_iss = md_iss md, run_dir_test = path_div (md_dir_tests md) tds,
          run_metadata_pickle = md_pickle_file md, run_pickle_file = run_pickle_path (md_dir_metadata md) tds,
          run_yaml_file = path_div (path_div (md_dir_tests md) tds) ''trr.yaml'', run_gen_test = [], run_gen_opts = [],
          run_rtl_test = [], run_sim_opts = [], run_discrete_debug_module = None, run_directed_data = None\<rparr>)"

text \<open>\<open>shlex.split(obj.get(field) or "")\<close>\<close>

definition split_field :: "test_entry \<Rightarrow> string \<Rightarrow> string list res" where
  "split_field obj k =
     (case get_or_none obj k of JStr s \<Rightarrow> shlex_split s | v \<Rightarrow> if jtruth v then Err AttributeError else shlex_split [])"

fun debug_module :: "string list \<Rightarrow> bool option \<Rightarrow> bool option res" where
  "debug_module [] d = Ok d"
| "debug_module (w # ws) d =
     (case split_char CHR ''='' w of
        [plusarg, val] \<Rightarrow>
          if plusarg = ''+discrete_debug_module''
          then rbind (res_of ValueError (py_int val)) (\<lambda>i. debug_module ws (Some (i \<noteq> 0)))
          else debug_module ws d
      | _ \<Rightarrow> Err ValueError)"

definition plan_run :: "metadata \<Rightarrow> test_entry list res \<Rightarrow> planned \<Rightarrow> int \<Rightarrow> test_run res" where
  "plan_run md directed_tests pl seed =
     (let ((test, n, directed), obj) = pl; trr = new_run md directed test seed
      in if directed then
           rbind directed_tests (\<lambda>ts.
             res_of StopIteration (map_option (\<lambda>d. trr\<lparr>run_directed_data := Some d\<rparr>)
               (find (\<lambda>i. map_of i ''test'' = Some (JStr test)) ts)))
         else
           rbind (split_field obj ''gen_test'') (\<lambda>gt.
           rbind (split_field obj ''gen_opts'') (\<lambda>go.
           rbind (split_field obj ''rtl_test'') (\<lambda>rt.
           rbind (split_field obj ''sim_opts'') (\<lambda>so.
           rbind (debug_module so None) (\<lambda>ddm.
             Ok (trr\<lparr>run_gen_test := gt, run_gen_opts := go, run_rtl_test := rt, run_sim_opts := so,
                     run_discrete_debug_module := ddm\<rparr>)))))))"

definition seed_range :: "metadata \<Rightarrow> int \<Rightarrow> int list" where
  "seed_range md n = map (\<lambda>i. md_seed md + int i) [0..<nat n]"

definition plan_runs :: "metadata \<Rightarrow> test_entry list res \<Rightarrow> planned list \<Rightarrow> test_run list res" where
  "plan_runs md directed_tests planned =
     rbind (rmapM (\<lambda>pl. rmapM (plan_run md directed_tests pl) (seed_range md (fst (snd (fst pl))))) planned) (\<lambda>xs.
       Ok (concat xs))"

text \<open>The pickled runs and metadata on disk; \<open>export\<close> writes (and overwrites) one of them.\<close>

record pickles =
  run_pickles :: "(path, test_run) dict"
  md_pickle :: "(path, metadata) dict"

definition create_metadata :: "decoder \<Rightarrow> fs \<Rightarrow> path \<Rightarrow> (string \<Rightarrow> int \<Rightarrow> test_entry list) \<Rightarrow> test_entry list res \<Rightarrow> metadata
    \<Rightarrow> pickles \<Rightarrow> pickles res" where
  "create_metadata load fs ibex_root process_regression_list directed md0 pk =
     (if map_of (md_pickle pk) (md_pickle_file md0) \<noteq> None then Ok pk
      else rbind (get_ibex_metadata load fs ibex_root md0) (\<lambda>md1.
        rbind (get_tests_and_counts process_regression_list (get_config load fs ibex_root (md_ibex_config md1)) directed md1) (\<lambda>planned.
          if planned = [] then Err RuntimeError
          else let md2 = md1\<lparr>md_tests_and_counts := map fst planned\<rparr> in
            rbind (plan_runs md2 directed planned) (\<lambda>runs.
              let md3 = md2\<lparr>md_tests_pickle_files := map run_pickle_file runs\<rparr>
              in Ok \<lparr>run_pickles = fold (\<lambda>r. AList.update (run_pickle_file r) r) runs (run_pickles pk),
                     md_pickle = AList.update (md_pickle_file md3) md3 (md_pickle pk)\<rparr>))))"

text \<open>\<open>--op print_field --field riscvdv_tds\<close> and \<open>directed_tds\<close>.\<close>

definition tds_list :: "metadata \<Rightarrow> bool \<Rightarrow> string list" where
  "tds_list md directed =
     concat (map (\<lambda>(test, n, d). if d = directed then map (test_dot_seed test) (seed_range md n) else [])
       (md_tests_and_counts md))"

text \<open>\<open>TestRunResult.construct_from_metadata_dir\<close>\<close>

definition construct_run :: "path \<Rightarrow> string \<Rightarrow> pickles \<Rightarrow> test_run res" where
  "construct_run dir_metadata tds pk = res_of OSError (map_of (run_pickles pk) (run_pickle_path dir_metadata tds))"

section \<open>A created run is found by its name\<close>

text \<open>A name that can be part of a file name and of \<open>TEST.SEED\<close>.\<close>

definition good_name :: "string \<Rightarrow> bool" where
  "good_name t \<longleftrightarrow> t \<noteq> [] \<and> CHR ''.'' \<notin> set t \<and> CHR ''/'' \<notin> set t"

lemma read_test_dot_seed_tds:
  assumes "good_name t" and "0 \<le> n"
  shows "read_test_dot_seed (test_dot_seed t n) = Ok (t, n)"
  using read_test_dot_seed_text [of t "nat n"] assms by (simp add: test_dot_seed_def good_name_def str_int_def)

lemma test_dot_seed_inj:
  assumes "good_name t" "good_name u" "0 \<le> m" "0 \<le> n"
  shows "test_dot_seed t m = test_dot_seed u n \<longleftrightarrow> t = u \<and> m = n"
  using read_test_dot_seed_tds [OF assms(1,3)] read_test_dot_seed_tds [OF assms(2,4)] by (metis prod.inject sum.inject(2))

lemma str_int_no_slash: "CHR ''/'' \<notin> set (str_int i)"
proof -
  have "\<not> is_digit CHR ''/''" by (simp add: is_digit_def code_def)
  then show ?thesis by (auto simp: str_int_def dest: str_nat_digits)
qed

lemma run_pickle_path_plain:
  assumes "CHR ''/'' \<notin> set tds"
  shows "run_pickle_path d tds = Path (path_root d) (path_parts d @ [tds @ ''.pickle''])"
proof -
  have "split_char CHR ''/'' (tds @ ''.pickle'') = [tds @ ''.pickle'']"
    unfolding split_char_def using assms by (intro split_by_no_sep) auto
  moreover have "\<not> startswith (tds @ ''.pickle'') ''/''" "\<not> startswith (tds @ ''.pickle'') ''//''"
    using assms by (cases tds; auto simp: startswith_def)+
  ultimately show ?thesis by (simp add: run_pickle_path_def path_div_def path_of_def path_join_def)
qed

lemma run_pickle_path_inj:
  assumes "CHR ''/'' \<notin> set a" "CHR ''/'' \<notin> set b"
  shows "run_pickle_path d a = run_pickle_path d b \<longleftrightarrow> a = b"
  using assms by (simp add: run_pickle_path_plain)

definition well_planned :: "metadata \<Rightarrow> test_run \<Rightarrow> bool" where
  "well_planned md r \<longleftrightarrow> run_testdotseed r = test_dot_seed (run_testname r) (run_seed r)
     \<and> run_pickle_file r = run_pickle_path (md_dir_metadata md) (run_testdotseed r)"

lemma plan_run_fields:
  assumes "plan_run md dt ((t, c, d), obj) n = Ok r"
  shows "well_planned md r \<and> run_testname r = t \<and> run_seed r = n \<and> run_directed r = d"
  using assms
  by (cases d) (auto simp: plan_run_def new_run_def Let_def rbind_eq_Ok well_planned_def)

lemma plan_seeds_fields:
  assumes "rmapM (plan_run md dt ((t, c, d), obj)) ns = Ok rs"
  shows "list_all (well_planned md) rs \<and> map (\<lambda>r. (run_testname r, run_seed r)) rs = map (Pair t) ns"
  using assms
proof (induction ns arbitrary: rs)
  case (Cons n ns)
  then obtain r rs' where "plan_run md dt ((t, c, d), obj) n = Ok r" "rmapM (plan_run md dt ((t, c, d), obj)) ns = Ok rs'"
    "rs = r # rs'" by (auto simp: rbind_eq_Ok)
  with Cons.IH plan_run_fields show ?case by fastforce
qed simp

definition planned_pairs :: "metadata \<Rightarrow> (string \<times> int \<times> bool) list \<Rightarrow> (string \<times> int) list" where
  "planned_pairs md tcs = concat (map (\<lambda>(t, n, d). map (Pair t) (seed_range md n)) tcs)"

lemma plan_runs_fields:
  assumes "plan_runs md dt pls = Ok trs"
  shows "list_all (well_planned md) trs
     \<and> map (\<lambda>r. (run_testname r, run_seed r)) trs = planned_pairs md (map fst pls)"
  using assms
proof (induction pls arbitrary: trs)
  case Nil
  then show ?case by (simp add: plan_runs_def planned_pairs_def)
next
  case (Cons pl pls)
  obtain t c d obj where pl: "pl = ((t, c, d), obj)" by (metis prod.exhaust)
  from Cons.prems obtain rs xs where
    r: "rmapM (plan_run md dt pl) (seed_range md c) = Ok rs" and xs: "plan_runs md dt pls = Ok xs" "trs = rs @ xs"
    by (auto simp: plan_runs_def rbind_eq_Ok pl)
  from plan_seeds_fields [OF r [unfolded pl]] Cons.IH [OF xs(1)] show ?case
    by (simp add: xs(2) planned_pairs_def pl list_all_append)
qed

lemma planned_pairs_Cons: "planned_pairs md ((t, n, d) # tcs) = map (Pair t) (seed_range md n) @ planned_pairs md tcs"
  by (simp add: planned_pairs_def)

lemma distinct_planned_pairs: "distinct (map fst tcs) \<Longrightarrow> distinct (planned_pairs md tcs)"
proof (induction tcs)
  case (Cons tc tcs)
  obtain t n d where tc: "tc = (t, n, d)" by (cases tc)
  have "distinct (map (Pair t) (seed_range md n))"
    by (simp add: seed_range_def distinct_map inj_on_def)
  moreover have "(t, s) \<notin> set (planned_pairs md tcs)" for s
    using Cons.prems by (auto simp: planned_pairs_def tc image_iff)
  ultimately show ?case using Cons by (auto simp: planned_pairs_Cons tc)
qed (simp add: planned_pairs_def)

lemma tds_list_pairs:
  "set (tds_list md False @ tds_list md True) = (\<lambda>(t, n). test_dot_seed t n) ` set (planned_pairs md (md_tests_and_counts md))"
proof -
  have "set (concat (map (\<lambda>(t, n, d). if d = False then map (test_dot_seed t) (seed_range md n) else []) tcs))
      \<union> set (concat (map (\<lambda>(t, n, d). if d = True then map (test_dot_seed t) (seed_range md n) else []) tcs))
      = (\<lambda>(t, n). test_dot_seed t n) ` set (planned_pairs md tcs)" for tcs
  proof (induction tcs)
    case (Cons tc tcs)
    obtain t n d where "tc = (t, n, d)" by (cases tc)
    with Cons show ?case by (cases d) (simp_all add: planned_pairs_Cons image_Un image_image Un_ac)
  qed (simp add: planned_pairs_def)
  then show ?thesis by (simp add: tds_list_def)
qed

lemma get_ibex_metadata_Ok:
  assumes "get_ibex_metadata load fs ibex_root md = Ok md'"
  shows "0 \<le> md_seed md'" "md_pickle_file md' = md_pickle_file md" "md_dir_metadata md' = md_dir_metadata md"
  using assms by (auto simp: get_ibex_metadata_def rbind_eq_Ok md_seed_def md_int_def md_pickle_file_def split: if_splits)

lemma create_metadata_OkE:
  assumes "create_metadata load fs ibex_root prl directed md0 pk = Ok pk'"
    and "map_of (md_pickle pk) (md_pickle_file md0) = None"
  obtains pls trs md where "plan_runs md directed pls = Ok trs"
    "md_tests_and_counts md = map fst pls" "0 \<le> md_seed md"
    "map_of (md_pickle pk') (md_pickle_file md0) = Some (md\<lparr>md_tests_pickle_files := map run_pickle_file trs\<rparr>)"
    "run_pickles pk' = dict_update (run_pickles pk) (map (\<lambda>r. (run_pickle_file r, r)) trs)"
proof -
  from assms obtain md1 pls trs where
    m: "get_ibex_metadata load fs ibex_root md0 = Ok md1"
      "plan_runs (md1\<lparr>md_tests_and_counts := map fst pls\<rparr>) directed pls = Ok trs"
      "pk' = \<lparr>run_pickles = fold (\<lambda>r. AList.update (run_pickle_file r) r) trs (run_pickles pk),
             md_pickle = AList.update (md_pickle_file (md1\<lparr>md_tests_and_counts := map fst pls, md_tests_pickle_files := map run_pickle_file trs\<rparr>))
               (md1\<lparr>md_tests_and_counts := map fst pls, md_tests_pickle_files := map run_pickle_file trs\<rparr>) (md_pickle pk)\<rparr>"
    by (auto simp: create_metadata_def rbind_eq_Ok Let_def split: if_splits)
  let ?md = "md1\<lparr>md_tests_and_counts := map fst pls\<rparr>"
  have f: "md_pickle_file (?md\<lparr>md_tests_pickle_files := x\<rparr>) = md_pickle_file md0" for x
    using get_ibex_metadata_Ok(2) [OF m(1)] by (simp add: md_pickle_file_def)
  have "0 \<le> md_seed ?md" using get_ibex_metadata_Ok(1) [OF m(1)] by (simp add: md_seed_def md_int_def)
  moreover have "map_of (md_pickle pk') (md_pickle_file md0) = Some (?md\<lparr>md_tests_pickle_files := map run_pickle_file trs\<rparr>)"
    using f by (simp add: m(3) map_of_AList_update)
  moreover have "run_pickles pk' = dict_update (run_pickles pk) (map (\<lambda>r. (run_pickle_file r, r)) trs)"
    by (simp add: m(3) dict_update_def fold_map comp_def)
  ultimately show thesis using m(2) by (intro that [of ?md pls trs]) simp_all
qed

lemma dict_update_distinct:
  assumes "distinct (map fst kvs)" and "(k, v) \<in> set kvs"
  shows "map_of (dict_update d kvs) k = Some v"
proof -
  have "map_of (rev kvs) k = Some v"
    by (rule map_of_is_SomeI) (use assms in \<open>simp_all flip: rev_map\<close>)
  then show ?thesis by (simp add: map_of_dict_update)
qed

text \<open>C13: Every name that \<open>print_field\<close> lists after the metadata was created is read back as its test and seed, and
  under it the record of exactly that run is found, provided the chosen tests have different names without dots and
  slashes.\<close>

theorem created_runs_found:
  assumes "create_metadata load fs ibex_root prl directed md0 pk = Ok pk'"
    and "map_of (md_pickle pk) (md_pickle_file md0) = None"
    and "map_of (md_pickle pk') (md_pickle_file md0) = Some md"
    and "distinct (map fst (md_tests_and_counts md))" and "list_all good_name (map fst (md_tests_and_counts md))"
  shows "list_all (\<lambda>tds. \<exists>r. construct_run (md_dir_metadata md) tds pk' = Ok r \<and> run_testdotseed r = tds
      \<and> read_test_dot_seed tds = Ok (run_testname r, run_seed r)) (tds_list md False @ tds_list md True)"
proof -
  from create_metadata_OkE [OF assms(1,2)] obtain pls trs md2 where
    c: "plan_runs md2 directed pls = Ok trs" "md_tests_and_counts md2 = map fst pls" "0 \<le> md_seed md2"
      "map_of (md_pickle pk') (md_pickle_file md0) = Some (md2\<lparr>md_tests_pickle_files := map run_pickle_file trs\<rparr>)"
      "run_pickles pk' = dict_update (run_pickles pk) (map (\<lambda>r. (run_pickle_file r, r)) trs)" by blast
  have md: "md = md2\<lparr>md_tests_pickle_files := map run_pickle_file trs\<rparr>" using c(4) assms(3) by simp
  have "seed_range md = seed_range md2" by (simp add: md seed_range_def md_seed_def md_int_def fun_eq_iff)
  then have pp: "planned_pairs md = planned_pairs md2" by (simp add: planned_pairs_def fun_eq_iff)
  have tcs: "map fst pls = md_tests_and_counts md" using c(2) by (simp add: md)
  from plan_runs_fields [OF c(1)] have
    wp: "list_all (well_planned md2) trs" and pairs: "map (\<lambda>r. (run_testname r, run_seed r)) trs = planned_pairs md (md_tests_and_counts md)"
    by (simp_all add: tcs pp)
  have ok: "good_name (run_testname r)" "0 \<le> run_seed r" if "r \<in> set trs" for r
  proof -
    from that have "(run_testname r, run_seed r) \<in> set (planned_pairs md (md_tests_and_counts md))"
      unfolding pairs [symmetric] by force
    then show "good_name (run_testname r)" "0 \<le> run_seed r"
      using assms(5) c(3) by (auto simp: planned_pairs_def list_all_iff seed_range_def pp md md_seed_def md_int_def)
  qed
  have slash: "CHR ''/'' \<notin> set (run_testdotseed r)" if "r \<in> set trs" for r
    using that ok wp str_int_no_slash by (auto simp: list_all_iff well_planned_def test_dot_seed_def good_name_def)
  have d: "distinct (map (\<lambda>r. (run_testname r, run_seed r)) trs)"
    unfolding pairs by (rule distinct_planned_pairs [OF assms(4)])
  have "r = r'" if "r \<in> set trs" "r' \<in> set trs" "run_pickle_file r = run_pickle_file r'" for r r'
  proof -
    have "run_testdotseed r = run_testdotseed r'"
      using that wp slash run_pickle_path_inj by (auto simp: list_all_iff well_planned_def)
    then have "run_testname r = run_testname r' \<and> run_seed r = run_seed r'"
      using that wp ok test_dot_seed_inj by (auto simp: list_all_iff well_planned_def)
    then show ?thesis using d that by (auto simp: distinct_map inj_on_def)
  qed
  then have dist: "distinct (map fst (map (\<lambda>r. (run_pickle_file r, r)) trs))"
    using d by (simp add: comp_def) (simp add: distinct_map inj_on_def)
  have found: "construct_run (md_dir_metadata md) (run_testdotseed r) pk' = Ok r" if "r \<in> set trs" for r
  proof -
    have "run_pickle_path (md_dir_metadata md) (run_testdotseed r) = run_pickle_file r"
      using that wp by (simp add: list_all_iff well_planned_def md)
    then show ?thesis
      using dict_update_distinct [OF dist, of "run_pickle_file r" r] that by (simp add: construct_run_def c(5) image_iff)
  qed
  have "set (tds_list md False @ tds_list md True) = run_testdotseed ` set trs"
    unfolding tds_list_pairs pairs [symmetric] using wp by (force simp: list_all_iff well_planned_def)
  moreover have "read_test_dot_seed (run_testdotseed r) = Ok (run_testname r, run_seed r)" if "r \<in> set trs" for r
    using read_test_dot_seed_tds [OF ok [OF that]] that wp by (simp add: list_all_iff well_planned_def)
  ultimately show ?thesis using found unfolding list_all_iff by auto
qed

section \<open>Choosing tests\<close>

text \<open>The test name \<open>all\<close> selects no directed test (only \<open>all_directed\<close> and their own names do), though the description of
  \<open>get_tests_and_counts\<close> says that it runs all the tests.\<close>

theorem all_skips_directed:
  assumes "md_test md = ''all''" and "list_all (\<lambda>e. get_or_none e ''test'' \<noteq> JStr ''all'') tests"
  shows "process_directed_testlist md tests = Ok []"
proof -
  have "split_char CHR '','' ''all'' = [''all'']" by code_simp
  then have "match_directed md e = Ok []" if "e \<in> set tests" for e
    using that assms by (auto simp: match_directed_def list_all_iff)
  then have "rmapM (match_directed md) tests = Ok (map (\<lambda>_. []) tests)" by (rule rmapM_total)
  then show ?thesis by (simp add: process_directed_testlist_def)
qed

section \<open>Settings are read back\<close>

text \<open>A key that names no field, or a text field that the constructor takes and the script does not set itself.\<close>

definition text_key :: "string \<Rightarrow> bool" where
  "text_key k \<longleftrightarrow> CHR ''='' \<notin> set k \<and> lower k \<noteq> ''git_commit''
     \<and> (map_of md_fields (lower k) = None \<or> map_of md_fields (lower k) = Some (TStr, True))"

lemma key_value_pair: "CHR ''='' \<notin> set k \<Longrightarrow> key_value (k @ ''='' @ v) = Ok (k, v)"
proof -
  assume k: "CHR ''='' \<notin> set k"
  then have "takeWhile (\<lambda>c. c \<noteq> CHR ''='') (k @ ''='' @ v) = k" "dropWhile (\<lambda>c. c \<noteq> CHR ''='') (k @ ''='' @ v) = ''='' @ v"
    by (induction k) auto
  then show ?thesis by (simp add: key_value_def)
qed

lemma rmapM_key_value:
  "list_all (\<lambda>(k, v). text_key k) kvs \<Longrightarrow> rmapM key_value (map (\<lambda>(k, v). k @ ''='' @ v) kvs) = Ok kvs"
  by (induction kvs) (auto simp: text_key_def key_value_pair [simplified])

lemma distinct_md_fields: "distinct (map fst md_fields)"
  by code_simp

text \<open>Settings that are quoted for the shell and joined are read back: every text setting has the given value,
  whatever characters the value has, and unknown keys are ignored.\<close>

theorem settings_read_back:
  assumes "list_all (\<lambda>(k, v). text_key k) kvs" and "distinct (map (\<lambda>(k, v). lower k) kvs)"
  shows "\<exists>md. arg_list_initializer resolve dm dout gc (shlex_join (map (\<lambda>(k, v). k @ ''='' @ v) kvs)) = Ok md
     \<and> list_all (\<lambda>(k, v). map_of md_fields (lower k) = None \<or> md_str (lower k) x md = v) kvs"
proof -
  let ?d = "map (\<lambda>(k, v). (lower k, v)) kvs"
  have dk: "distinct (map fst ?d)" using assms(2) by (simp add: comp_def case_prod_unfold)
  then have d: "dict_of ?d = ?d" by (simp add: dict_of_id dict_keys_def)
  let ?fs = "filter (\<lambda>(name, typ, init). map_of ?d name \<noteq> None) md_fields"
  have known: "ty = TStr \<and> init \<and> name \<noteq> ''git_commit'' \<and> map_of md_fields name = Some (ty, init)"
    if "(name, ty, init) \<in> set ?fs" for name ty init
  proof -
    from that have m: "map_of md_fields name = Some (ty, init)" "name \<in> fst ` set ?d"
      using distinct_md_fields by (auto simp: map_of_eq_None_iff)
    then obtain k v where "(k, v) \<in> set kvs" "name = lower k" by auto
    with assms(1) m(1) show ?thesis by (auto simp: text_key_def list_all_iff)
  qed
  define settings where "settings = map (\<lambda>(name, typ, init). (name, MStr (the (map_of ?d name)))) ?fs"
  have cast: "rmapM (\<lambda>(name, typ, init). rbind (cast typ (the (map_of ?d name))) (\<lambda>x. Ok (name, x))) ?fs = Ok settings"
    unfolding settings_def
  proof (rule rmapM_total)
    fix f assume f: "f \<in> set ?fs"
    obtain name ty init where eq: "f = (name, ty, init)" by (cases f)
    from known [OF f [unfolded eq]] have "ty = TStr" by simp
    with eq show "(case f of (name, typ, init) \<Rightarrow> rbind (cast typ (the (map_of ?d name))) (\<lambda>x. Ok (name, x)))
        = Ok (case f of (name, typ, init) \<Rightarrow> (name, MStr (the (map_of ?d name))))" by simp
  qed
  have paths: "map_of md_fields ''dir_out'' = Some (TPath, True)" "map_of md_fields ''dir_metadata'' = Some (TPath, True)"
    by code_simp+
  have ok: "\<not> list_ex (\<lambda>(name, x). name \<in> {''dir_out'', ''dir_metadata'', ''git_commit''}
            \<or> map_of md_fields name \<noteq> None \<and> \<not> snd (the (map_of md_fields name))) settings"
  proof -
    have "name \<notin> {''dir_out'', ''dir_metadata'', ''git_commit''} \<and> (map_of md_fields name = None \<or> snd (the (map_of md_fields name)))"
      if "(name, x) \<in> set settings" for name x
    proof -
      from that obtain ty init where "(name, ty, init) \<in> set ?fs" unfolding settings_def set_map by (elim imageE) (auto simp del: set_filter)
      from known [OF this] paths show ?thesis by auto
    qed
    then show ?thesis unfolding list_ex_iff case_prod_unfold by (metis prod.collapse)
  qed
  have "distinct (map fst settings)"
    using distinct_md_fields by (simp add: settings_def comp_def case_prod_unfold distinct_map inj_on_def)
  then have look: "map_of settings (lower k) = Some (MStr v)"
    if "(k, v) \<in> set kvs" "map_of md_fields (lower k) \<noteq> None" for k v
  proof (rule map_of_is_SomeI)
    have v: "map_of ?d (lower k) = Some v" using dk that(1) by (intro map_of_is_SomeI) force+
    from that assms(1) have "map_of md_fields (lower k) = Some (TStr, True)" by (auto simp: text_key_def list_all_iff)
    then have "(lower k, TStr, True) \<in> set ?fs" using v by (simp add: map_of_SomeD)
    then show "(lower k, MStr v) \<in> set settings" unfolding settings_def set_map using v by force
  qed
  have p: "rbind (shlex_split (shlex_join (map (\<lambda>(k, v). k @ ''='' @ v) kvs))) (rmapM key_value) = Ok kvs"
    by (simp only: shlex_split_join rbind_Inr rmapM_key_value [OF assms(1)])
  have vals: "map_of md_fields (lower k) = None \<or> (case map_of settings (lower k) of Some (MStr s) \<Rightarrow> s | _ \<Rightarrow> x) = v"
    if "(k, v) \<in> set kvs" for k v
    using look [OF that] by (cases "map_of md_fields (lower k) = None") simp_all
  show ?thesis
    unfolding arg_list_initializer_def p rbind_Inr Let_def d cast if_not_P [OF ok]
    by (intro exI conjI, rule refl) (use vals in \<open>simp add: list_all_iff md_str_def case_prod_unfold\<close>)
qed

section \<open>Examples\<close>

definition demo_md :: metadata where
  "demo_md = \<lparr>md_dir_out = path_of ''/out'', md_dir_metadata = path_of ''/out/md'', md_git_commit = [],
     md_settings = [(''seed'', MInt 5), (''test'', MStr ''all''), (''ibex_config'', MStr ''small'')],
     md_raw_args_str = [], md_raw_args_dict = [], md_isas = None, md_tests_and_counts = [], md_tests_pickle_files = []\<rparr>"

definition demo_list :: "string \<Rightarrow> int \<Rightarrow> test_entry list" where
  "demo_list t n = [[(''test'', JStr ''riscv_arith''), (''iterations'', JInt 2)], [(''test'', JStr ''riscv_csr''), (''iterations'', JInt 1)]]"

definition no_pickles :: pickles where "no_pickles = \<lparr>run_pickles = [], md_pickle = []\<rparr>"

definition demo_planned :: "planned list" where
  "demo_planned = [((''riscv_arith'', 2, False), [(''test'', JStr ''riscv_arith''), (''iterations'', JInt 2)]),
     ((''riscv_csr'', 1, False), [(''test'', JStr ''riscv_csr''), (''iterations'', JInt 1)])]"

definition demo_md1 :: metadata where
  "demo_md1 = demo_md\<lparr>md_isas := Some (''rv32imc'', ''rv32imc'')\<rparr>"

lemma demo_create:
  "\<exists>pk' md. create_metadata demo_load demo_config_fs (path_of ''/ibex'') demo_list (Ok []) demo_md no_pickles = Ok pk'
    \<and> map_of (md_pickle pk') (md_pickle_file demo_md) = Some md
    \<and> md_tests_and_counts md = [(''riscv_arith'', 2, False), (''riscv_csr'', 1, False)]"
proof -
  have isas: "get_isas_for_config demo_config = Ok (''rv32imc'', ''rv32imc'')" by code_simp
  have cfg: "md_ibex_config demo_md = ''small''" "md_ibex_config demo_md1 = ''small''" "md_seed demo_md = 5" "md_iterations demo_md = None"
    by code_simp+
  have m1: "get_ibex_metadata demo_load demo_config_fs (path_of ''/ibex'') demo_md = Ok demo_md1"
    by (simp add: get_ibex_metadata_def cfg demo_get_config isas demo_md1_def)
  have t: "get_tests_and_counts demo_list (Ok demo_config) (Ok []) demo_md1 = Ok demo_planned"
    by (simp add: get_tests_and_counts_def process_riscvdv_testlist_def demo_list_def process_directed_testlist_def
        filter_tests_by_config_def filter_test_def name_and_count_def jindex_def demo_planned_def Let_def)
  have "case plan_runs (demo_md1\<lparr>md_tests_and_counts := map fst demo_planned\<rparr>) (Ok []) demo_planned of Inr x \<Rightarrow> True | Inl e \<Rightarrow> False"
    by code_simp
  then obtain trs where p: "plan_runs (demo_md1\<lparr>md_tests_and_counts := map fst demo_planned\<rparr>) (Ok []) demo_planned = Ok trs"
    by (auto split: sum.splits)
  have f: "md_pickle_file (demo_md1\<lparr>md_tests_and_counts := x, md_tests_pickle_files := y\<rparr>) = md_pickle_file demo_md" for x y
    by (simp add: md_pickle_file_def demo_md1_def)
  have "demo_planned \<noteq> []" by (simp add: demo_planned_def)
  then show ?thesis
    using m1 t p f
    by (simp add: create_metadata_def no_pickles_def cfg demo_get_config Let_def map_of_AList_update) (simp add: demo_planned_def)
qed

theorem created_runs_found_witness:
  "\<exists>pk' md. create_metadata demo_load demo_config_fs (path_of ''/ibex'') demo_list (Ok []) demo_md no_pickles = Ok pk'
    \<and> map_of (md_pickle pk') (md_pickle_file demo_md) = Some md
    \<and> list_all (\<lambda>tds. \<exists>r. construct_run (md_dir_metadata md) tds pk' = Ok r \<and> run_testdotseed r = tds
        \<and> read_test_dot_seed tds = Ok (run_testname r, run_seed r)) (tds_list md False @ tds_list md True)"
proof -
  from demo_create obtain pk' md where
    c: "create_metadata demo_load demo_config_fs (path_of ''/ibex'') demo_list (Ok []) demo_md no_pickles = Ok pk'"
      "map_of (md_pickle pk') (md_pickle_file demo_md) = Some md"
      "md_tests_and_counts md = [(''riscv_arith'', 2, False), (''riscv_csr'', 1, False)]" by blast
  have n: "map_of (md_pickle no_pickles) (md_pickle_file demo_md) = None" by (simp add: no_pickles_def)
  have "list_all good_name (map fst (md_tests_and_counts md))" "distinct (map fst (md_tests_and_counts md))"
    by (simp_all add: c(3) good_name_def)
  from created_runs_found [OF c(1) n c(2) this(2,1)] c(1,2) show ?thesis by blast
qed

theorem all_skips_directed_witness:
  "process_directed_testlist demo_md [[(''test'', JStr ''empty''), (''iterations'', JInt 1)]] = Ok []"
  by (rule all_skips_directed) (simp_all add: demo_md_def md_test_def md_str_def get_or_none_def dict_get_def)

theorem settings_read_back_witness:
  "\<exists>md. arg_list_initializer (\<lambda>p. p) (path_of ''/md'') (path_of ''/out'') []
      (shlex_join (map (\<lambda>(k, v). k @ ''='' @ v) [(''TEST'', ''all, all_directed''), (''GOAL'', ''rtl'')])) = Ok md
     \<and> list_all (\<lambda>(k, v). map_of md_fields (lower k) = None \<or> md_str (lower k) [] md = v)
         [(''TEST'', ''all, all_directed''), (''GOAL'', ''rtl'')]"
proof (rule settings_read_back)
  show "list_all (\<lambda>(k, v). text_key k) [(''TEST'', ''all, all_directed''), (''GOAL'', ''rtl'')]" by code_simp
  show "distinct (map (\<lambda>(k, v). lower k) [(''TEST'', ''all, all_directed''), (''GOAL'', ''rtl'')])" by code_simp
qed

end
