(* ===== verification/Uvm_Generate.thy ===== *)
theory Uvm_Generate
  imports Uvm_Metadata Patching
begin

text \<open>
  Generation and compilation of one test of a UVM regression (\<open>scripts/run_instr_gen.py\<close>, \<open>scripts/compile_test.py\<close> and
  \<open>scripts/build_instr_gen.py\<close>). riscv-dv is asked for the commands it would run, with a directory that does not exist as
  its output directory; the commands are then moved to the real directories word by word. A script is an effect on the file
  system that returns its exit code and the record of the run as the script leaves it on disk. Child processes are the
  parameter \<open>fe_exec\<close>: how the child ends, and the files it leaves. The temporary directory is a parameter, the
  lines written for the user are left out.

  Shown: no command that is run mentions the directory that does not exist, and the words riscv-dv uses for the test, its
  directory and the log are moved to the temporary directory; a generator that fails is not reported by the exit code;
  a failed listing of the compile commands stops the script with a \<open>TypeError\<close>.
\<close>

section \<open>Path names\<close>

definition os_join :: "string \<Rightarrow> string \<Rightarrow> string" where
  "os_join a b = (if startswith b ''/'' then b else if a = [] \<or> endswith a ''/'' then a @ b else a @ ''/'' @ b)"

text \<open>\<open>os.path.normpath\<close> and \<open>os.path.abspath\<close>\<close>

definition norm_step :: "bool \<Rightarrow> string list \<Rightarrow> string \<Rightarrow> string list" where
  "norm_step rooted acc c =
     (if c = [] \<or> c = ''.'' then acc
      else if c \<noteq> ''..'' \<or> \<not> rooted \<and> acc = [] \<or> acc \<noteq> [] \<and> last acc = ''..'' then acc @ [c]
      else butlast acc)"

definition normpath :: "string \<Rightarrow> string" where
  "normpath p =
     (let slashes = (if startswith p ''//'' \<and> \<not> startswith p ''///'' then ''//'' else if startswith p ''/'' then ''/'' else []);
          s = slashes @ join ''/'' (foldl (norm_step (slashes \<noteq> [])) [] (split_char CHR ''/'' p))
      in if s = [] then ''.'' else s)"

definition abspath :: "string \<Rightarrow> string \<Rightarrow> string" where
  "abspath cwd p = normpath (if startswith p ''/'' then p else os_join cwd p)"

section \<open>Moving the commands of riscv-dv\<close>

definition sim_relocs :: "string \<Rightarrow> string \<Rightarrow> (string, (string \<times> string) list) dict" where
  "sim_relocs placeholder build =
     [(''vcs'', [(os_join placeholder ''vcs_simv'', os_join build ''vcs_simv'')]),
      (''xlm'', [(placeholder, build)]),
      (''dsim'', [(os_join placeholder ''dsim'', os_join build ''dsim'')])]"

definition always_relocs :: "string \<Rightarrow> string \<Rightarrow> string \<Rightarrow> (string \<times> string) list" where
  "always_relocs placeholder scratch testname =
     [(os_join (os_join placeholder ''asm_test'') testname, os_join scratch ''test''),
      (os_join placeholder ''asm_test'', scratch),
      (os_join placeholder (''sim_'' @ testname @ ''_0.log''), os_join scratch ''gen.log'')]"

definition arg_char :: "char \<Rightarrow> bool" where
  "arg_char c \<longleftrightarrow> is_ascii_alnum c \<or> c = CHR ''_''"

definition PLUSARG_RE :: re where
  "PLUSARG_RE = Seqs [Cap ''1'' (Seqs [Lit ''+'', Some1 arg_char, Lit ''='']), Cap ''2'' (Many any_char)]"

text \<open>\<open>+name=value\<close> is split after the sign; another word is all value.\<close>

definition plusarg :: "string \<Rightarrow> string \<times> string" where
  "plusarg word =
     (case re_match PLUSARG_RE word of
        Some e \<Rightarrow> (the (group e ''1''), the (group e ''2''))
      | None \<Rightarrow> ([], word))"

definition reloc_word :: "string \<Rightarrow> string \<Rightarrow> string \<Rightarrow> string \<Rightarrow> string \<Rightarrow> string \<Rightarrow> string \<Rightarrow> string res" where
  "reloc_word cwd simulator placeholder build scratch testname word =
     (let (pre, post) = plusarg word in
      rbind (res_of KeyError (map_of (sim_relocs placeholder build) simulator)) (\<lambda>sims.
        let post' = (case find (\<lambda>(orig, target). abspath cwd orig = abspath cwd post)
                             (sims @ always_relocs placeholder scratch testname) of
                       Some (orig, target) \<Rightarrow> target
                     | None \<Rightarrow> post);
            reloc = pre @ post'
        in if contains reloc placeholder then Err RuntimeError else Ok reloc))"

text \<open>The lines of a file of commands, split into words; empty lines are skipped.\<close>

definition command_lines :: "fs \<Rightarrow> path \<Rightarrow> string list list res" where
  "command_lines fs src = rbind (read_text fs src) (\<lambda>s. rmapM shlex_split (filter (\<lambda>l. l \<noteq> []) (map strip (text_lines s))))"

definition reloc_commands :: "string \<Rightarrow> string \<Rightarrow> string \<Rightarrow> string \<Rightarrow> string \<Rightarrow> string \<Rightarrow> fs \<Rightarrow> path \<Rightarrow> string list list res" where
  "reloc_commands cwd placeholder build scratch simulator testname fs src =
     rbind (read_text fs src) (\<lambda>s.
       rmapM (\<lambda>line. rbind (shlex_split line) (rmapM (reloc_word cwd simulator placeholder build scratch testname)))
         (filter (\<lambda>l. l \<noteq> []) (map strip (text_lines s))))"

section \<open>Files copied back\<close>

text \<open>\<open>shutil.copy\<close> of a file, into a directory under its own name.\<close>

definition copy_file :: "path \<Rightarrow> path \<Rightarrow> fs \<Rightarrow> fs res" where
  "copy_file src dst fs =
     rbind (read_text fs src) (\<lambda>s. write_text (if is_dir fs dst then path_div dst (path_name src) else dst) s fs)"

fun do_file_copies :: "path \<Rightarrow> path \<Rightarrow> (string \<times> string \<times> bool) list \<Rightarrow> bool \<Rightarrow> (fs, unit) eff" where
  "do_file_copies src_dir dst_dir [] run_failed = eret ()"
| "do_file_copies src_dir dst_dir ((src_name, dst_name, copy_on_fail) # rules) run_failed =
     ebind (if run_failed \<and> \<not> copy_on_fail then eret ()
            else ebind (eget (\<lambda>fs. path_exists fs (path_div src_dir src_name))) (\<lambda>there.
              if there then eupd (copy_file (path_div src_dir src_name) (path_div dst_dir dst_name))
              else if run_failed then eret () else eraise RuntimeError))
       (\<lambda>_. do_file_copies src_dir dst_dir rules run_failed)"

section \<open>Running commands\<close>

record flow_env =
  fe_cmd :: cmd_env
  fe_load :: decoder
  fe_exec :: "string list \<Rightarrow> fs \<Rightarrow> child \<times> fs"
  fe_cwd :: string
  fe_tmp :: path
  fe_root :: path

record flow_run = test_run +
  run_assembly :: "path option"
  run_objectfile :: "path option"
  run_binary :: "path option"
  run_vmem_main :: "path option"
  run_vmem_dm :: "path option"
  run_binary_main :: "path option"
  run_binary_dm :: "path option"
  run_compile_cmds :: "string list list"
  run_rtl_cmds :: "string list list"
  run_result :: test_run_result

text \<open>\<open>run_one\<close> without \<open>reraise\<close>: a child that does not start or does not end in time has code 1.\<close>

definition exec_one :: "flow_env \<Rightarrow> string list \<Rightarrow> (fs, int) eff" where
  "exec_one env cmd fs = (case fe_exec env cmd fs of (c, fs') \<Rightarrow> (Ok (case run_one c False of Some rc \<Rightarrow> rc | None \<Rightarrow> 1), fs'))"

definition exec_logged :: "flow_env \<Rightarrow> path \<Rightarrow> string list \<Rightarrow> (fs, int) eff" where
  "exec_logged env log_file cmd = ebind (eupd (write_text log_file [])) (\<lambda>_. exec_one env cmd)"

fun exec_all :: "flow_env \<Rightarrow> string list list \<Rightarrow> (fs, int) eff" where
  "exec_all env [] = eret 0"
| "exec_all env (cmd # cmds) = ebind (exec_one env cmd) (\<lambda>rc. if rc \<noteq> 0 then eret rc else exec_all env cmds)"

definition opt_arg :: "string option \<Rightarrow> arg" where
  "opt_arg v = (case v of None \<Rightarrow> ANone | Some s \<Rightarrow> AStr s)"

definition md_isa_ibex :: "metadata \<Rightarrow> string option" where
  "md_isa_ibex md = map_option fst (md_isas md)"

definition md_verbose :: "metadata \<Rightarrow> bool" where
  "md_verbose md = md_bool ''verbose'' False md"

definition md_signature_addr :: "metadata \<Rightarrow> string" where
  "md_signature_addr md = md_str ''signature_addr'' '' '' md"

section \<open>The generator\<close>

fun hex_text :: "nat \<Rightarrow> string" where
  "hex_text n = (if n < 16 then [hex_digit n] else hex_text (n div 16) @ [hex_digit (n mod 16)])"

declare hex_text.simps [simp del]

definition hex_int :: "int \<Rightarrow> string" where
  "hex_int i = (if i < 0 then ''-'' @ hex_text (nat (- i)) else hex_text (nat i))"

definition end_signature :: "metadata \<Rightarrow> string \<Rightarrow> string res" where
  "end_signature md testname =
     (if contains testname ''riscv_csr_test''
      then rbind (res_of ValueError (py_int16 (md_signature_addr md))) (\<lambda>a. Ok (hex_int (a - 4)))
      else Ok (md_signature_addr md))"

definition gen_sim_opts :: "ibex_config \<Rightarrow> string \<Rightarrow> string" where
  "gen_sim_opts cfg sig =
     join '' '' (map (\<lambda>(k, v). ''+'' @ k @ ''='' @ v)
       [(''uvm_set_inst_override'', ''riscv_asm_program_gen,ibex_asm_program_gen,uvm_test_top.asm_gen''),
        (''require_signature_addr'', ''1''), (''signature_addr'', sig),
        (''pmp_num_regions'', str_int (pmp_num_regions cfg)), (''pmp_granularity'', str_int (pmp_granularity cfg)),
        (''tvec_alignment'', ''8'')])"

definition gen_cmd :: "flow_env \<Rightarrow> metadata \<Rightarrow> flow_run \<Rightarrow> ibex_config \<Rightarrow> string \<Rightarrow> path \<Rightarrow> path \<Rightarrow> arg list" where
  "gen_cmd env md run cfg sig placeholder orig_list =
     get_run_cmd (project_dirs_of (fe_root env)) (md_verbose md) @
     [AStr ''--so'', AStr ''--steps=gen'', AStr ''--output'', AStr (path_str placeholder), AStr ''--simulator'', AStr (md_simulator md),
      AStr ''--isa'', opt_arg (md_isa_ibex md), AStr ''--test'', AStr (run_testname run), AStr ''--start_seed'', AStr (str_int (run_seed run)),
      AStr ''--iterations'', AStr ''1'', AStr ''--end_signature_addr'', AStr sig, AStr ''--debug'', AStr (path_str orig_list),
      AStr ''--sim_opts'', AStr (gen_sim_opts cfg sig)]"

definition gen_file_copies :: "string \<Rightarrow> (string \<times> string \<times> bool) list" where
  "gen_file_copies testname =
     (if testname = ''riscv_csr_test'' then [(''riscv_csr_test_0.S'', ''test.S'', False)]
      else [(''gen.log'', ''gen.log'', True), (''test_0.S'', ''test.S'', False)])"

text \<open>The part of \<open>_main\<close> inside the temporary directory; the first component is set when the script returns from there.\<close>

definition generate_test :: "flow_env \<Rightarrow> metadata \<Rightarrow> flow_run \<Rightarrow> ibex_config \<Rightarrow> string \<Rightarrow> (fs, int option \<times> flow_run) eff" where
  "generate_test env md run cfg sig =
     (let td = fe_tmp env; orig_list = path_div td ''cmds.list''; placeholder = path_div td ''@@PLACEHOLDER@@'';
          dir_gen = md_dir_instruction_generator md; resolve = ce_resolve (fe_cmd env) in
      ebind (eupd (mkdir_parents (run_dir_test run))) (\<lambda>_.
      ebind (elift (format_to_cmd resolve (gen_cmd env md run cfg sig placeholder orig_list))) (\<lambda>cmd.
      ebind (exec_logged env (path_div dir_gen ''riscvdv_cmds.log'') cmd) (\<lambda>gen_retcode.
        if gen_retcode \<noteq> 0 then eret (Some gen_retcode, run)
        else
          ebind (eget (\<lambda>fs. reloc_commands (fe_cwd env) (path_str placeholder) (path_str (resolve dir_gen)) (path_str td)
                  (md_simulator md) (run_testname run) fs orig_list)) (\<lambda>r.
          ebind (elift r) (\<lambda>cmds.
          ebind (eupd (write_text (path_div dir_gen ''riscvdv_run.log'') [])) (\<lambda>_.
          ebind (exec_all env cmds) (\<lambda>ret.
          ebind (do_file_copies td (run_dir_test run) (gen_file_copies (run_testname run)) (ret \<noteq> 0)) (\<lambda>_.
            eret (None, run\<lparr>run_assembly := Some (path_div (run_dir_test run) ''test.S'')\<rparr>)))))))))) "

definition run_instr_gen :: "flow_env \<Rightarrow> metadata \<Rightarrow> flow_run \<Rightarrow> (fs, int \<times> flow_run) eff" where
  "run_instr_gen env md run =
     ebind (eget (\<lambda>fs. get_config (fe_load env) fs (fe_root env) (md_ibex_config md))) (\<lambda>r.
     ebind (elift r) (\<lambda>cfg.
     ebind (elift (end_signature md (run_testname run))) (\<lambda>sig.
     ebind (efinally (ebind (eupd (mkdir_parents (fe_tmp env))) (\<lambda>_. generate_test env md run cfg sig))
              (eupd (\<lambda>fs. Ok (remove_tree (fe_tmp env) fs)))) (\<lambda>(early, run').
       eret (case early of Some rc \<Rightarrow> rc | None \<Rightarrow> 0, run')))))"

text \<open>\<open>build_instr_gen.py\<close>\<close>

definition build_instr_gen :: "flow_env \<Rightarrow> metadata \<Rightarrow> (fs, int) eff" where
  "build_instr_gen env md =
     (let dir_gen = md_dir_instruction_generator md in
      ebind (eupd (\<lambda>fs. Ok (remove_tree dir_gen fs))) (\<lambda>_.
      ebind (eupd (mkdir_parents dir_gen)) (\<lambda>_.
      ebind (elift (format_to_cmd (ce_resolve (fe_cmd env))
          (get_run_cmd (project_dirs_of (fe_root env)) (md_verbose md) @
           [AStr ''--co'', AStr ''--steps=gen'', AStr ''--simulator'', AStr (md_simulator md), AStr ''--output'', APath dir_gen,
            AStr ''--isa'', opt_arg (md_isa_ibex md), AStr ''--end_signature_addr'', AStr (md_signature_addr md)]))) (\<lambda>cmd.
        exec_logged env (path_div dir_gen ''build_stdout.log'') cmd))))"

section \<open>Compilation\<close>

definition compile_list_cmd :: "flow_env \<Rightarrow> metadata \<Rightarrow> flow_run \<Rightarrow> path \<Rightarrow> path \<Rightarrow> arg list" where
  "compile_list_cmd env md run placeholder orig_list =
     get_run_cmd (project_dirs_of (fe_root env)) (md_verbose md) @
     [AStr ''--verbose'', AStr ''--output'', APath placeholder, AStr ''--steps=gcc_compile'', AStr ''--test'', AStr (run_testname run),
      AStr ''--start_seed'', AStr (str_int (run_seed run)), AStr ''--iterations'', AStr ''1'', AStr ''--isa'', opt_arg (md_isa_ibex md),
      AStr ''--debug'', APath orig_list]"

text \<open>riscv-dv lists the commands, inside the temporary directory: its return code if that is not 0, or the commands.\<close>

definition list_compile_cmds :: "flow_env \<Rightarrow> metadata \<Rightarrow> flow_run \<Rightarrow> (fs, int + string list list) eff" where
  "list_compile_cmds env md run =
     (let td = fe_tmp env; placeholder = path_div td ''@@PLACEHOLDER@@''; orig_list = path_div td ''orig-cmds.list'' in
      efinally (ebind (eupd (mkdir_parents td)) (\<lambda>_.
        ebind (elift (format_to_cmd (ce_resolve (fe_cmd env)) (compile_list_cmd env md run placeholder orig_list))) (\<lambda>cmd.
        ebind (exec_logged env (path_div (run_dir_test run) ''compile_gen.riscv-dv.log'') cmd) (\<lambda>dv_ret.
          if dv_ret \<noteq> 0 then eret (Inl dv_ret)
          else ebind (eget (\<lambda>fs. command_lines fs orig_list)) (\<lambda>r. ebind (elift r) (\<lambda>cmds. eret (Inr cmds)))))))
        (eupd (\<lambda>fs. Ok (remove_tree td fs))))"

definition opt_path :: "path option \<Rightarrow> string" where
  "opt_path p = (case p of None \<Rightarrow> ''None'' | Some q \<Rightarrow> path_str q)"

definition compile_rewrites :: "string \<Rightarrow> flow_run \<Rightarrow> (string \<times> string) list" where
  "compile_rewrites placeholder run =
     [(placeholder @ ''/asm_test/'' @ run_testname run @ ''_0.S'', opt_path (run_assembly run)),
      (placeholder @ ''/asm_test/'' @ run_testname run @ ''_0.o'', opt_path (run_objectfile run)),
      (placeholder @ ''/asm_test/'' @ run_testname run @ ''_0.bin'', opt_path (run_binary run))]"

definition move_word :: "string \<Rightarrow> (string \<times> string) list \<Rightarrow> string \<Rightarrow> string res" where
  "move_word placeholder rewrites word =
     (let w = fold (\<lambda>(old, new) w. replace_all old new w) rewrites word
      in if contains w placeholder then Err RuntimeError else Ok w)"

definition dm_sections :: "string list" where
  "dm_sections = [''.debug_module'', ''.dm_scratch'']"

definition objcopy_cmd :: "flow_env \<Rightarrow> string \<Rightarrow> string \<Rightarrow> path option \<Rightarrow> path option \<Rightarrow> arg list" where
  "objcopy_cmd env kind option obj out =
     [opt_arg (ce_environ (fe_cmd env) ''RISCV_OBJCOPY''), AStr ''-O'', AStr kind]
       @ concat (map (\<lambda>s. [AStr option, AStr s]) dm_sections) @ [AStr (opt_path obj), AStr (opt_path out)]"

text \<open>The commands of a test with a separate memory of the debug module.\<close>

definition debug_module_cmds :: "flow_env \<Rightarrow> flow_run \<Rightarrow> string list list \<Rightarrow> (arg list list \<times> flow_run) res" where
  "debug_module_cmds env run cmds =
     (if cmds = [] then Err IndexError
      else
        let script = ''-T'' @ path_str (path_div (riscv_dv_extension (project_dirs_of (fe_root env))) ''ddm_link.ld'');
            moved = map (map (\<lambda>w. if startswith w ''-T'' then script else w)) (butlast cmds);
            dir = run_dir_test run;
            run' = run\<lparr>run_vmem_main := Some (path_div dir ''test.main.vmem''), run_vmem_dm := Some (path_div dir ''test.dm.vmem''),
                       run_binary_main := Some (path_div dir ''test.main.bin''), run_binary_dm := Some (path_div dir ''test.dm.bin'')\<rparr>;
            obj = run_objectfile run'
        in Ok (map (map AStr) moved @
                 [objcopy_cmd env ''verilog'' ''--only-section'' obj (run_vmem_dm run'),
                  objcopy_cmd env ''verilog'' ''--remove-section'' obj (run_vmem_main run'),
                  objcopy_cmd env ''binary'' ''--only-section'' obj (run_binary_dm run'),
                  objcopy_cmd env ''binary'' ''--remove-section'' obj (run_binary_main run')], run'))"

definition with_outputs :: "flow_run \<Rightarrow> flow_run" where
  "with_outputs run = run\<lparr>run_objectfile := Some (path_div (run_dir_test run) ''test.o''),
                          run_binary := Some (path_div (run_dir_test run) ''test.bin'')\<rparr>"

definition move_compile_cmds :: "flow_env \<Rightarrow> flow_run \<Rightarrow> string list list \<Rightarrow> (arg list list \<times> flow_run) res" where
  "move_compile_cmds env run cmds =
     (let placeholder = path_str (path_div (fe_tmp env) ''@@PLACEHOLDER@@'') in
      rbind (rmapM (rmapM (move_word placeholder (compile_rewrites placeholder run))) cmds) (\<lambda>new_cmds.
        if run_discrete_debug_module run = Some True then debug_module_cmds env run new_cmds
        else Ok (map (map AStr) new_cmds, run)))"

definition get_riscvdv_compile_cmds :: "flow_env \<Rightarrow> metadata \<Rightarrow> flow_run \<Rightarrow> (fs, (int + arg list list) \<times> flow_run) eff" where
  "get_riscvdv_compile_cmds env md run =
     ebind (list_compile_cmds env md run) (\<lambda>listed.
       case listed of
         Inl rc \<Rightarrow> eret (Inl rc, run)
       | Inr cmds \<Rightarrow> ebind (elift (move_compile_cmds env (with_outputs run) cmds)) (\<lambda>(cs, run'). eret (Inr cs, run')))"

definition get_directed_compile_cmds :: "flow_env \<Rightarrow> flow_run \<Rightarrow> (string list list \<times> flow_run) res" where
  "get_directed_compile_cmds env run =
     (case map (ce_environ (fe_cmd env)) [''RISCV_TOOLCHAIN'', ''RISCV_GCC'', ''RISCV_OBJCOPY''] of
        [Some toolchain, Some gcc, Some objcopy] \<Rightarrow>
          rbind (res_of AttributeError (run_directed_data run)) (\<lambda>d.
            let run' = (with_outputs run)\<lparr>run_assembly :=
                  (case get_or_none d ''test_srcs'' of JStr s \<Rightarrow> Some (path_of s) | _ \<Rightarrow> None)\<rparr>
            in rbind (case get_or_none d ''gcc_opts'' of JStr s \<Rightarrow> Ok s | _ \<Rightarrow> Err TypeError) (\<lambda>gcc_opts.
               rbind (shlex_split (join '' '' [gcc, gcc_opts, ''-I'' @ py_str (get_or_none d ''includes''),
                  ''-T'' @ py_str (get_or_none d ''ld_script''), ''-o '' @ opt_path (run_objectfile run'), opt_path (run_assembly run')])) (\<lambda>c1.
               rbind (shlex_split (join '' '' [objcopy, ''-O binary '' @ opt_path (run_objectfile run'), opt_path (run_binary run')])) (\<lambda>c2.
                 Ok ([c1, c2], run')))))
      | _ \<Rightarrow> Err RuntimeError)"

text \<open>A return code in place of the commands is not a list: iterating over it raises.\<close>

definition compile_test :: "flow_env \<Rightarrow> metadata \<Rightarrow> flow_run \<Rightarrow> (fs, int \<times> flow_run) eff" where
  "compile_test env md run =
     ebind (if run_directed run
            then elift (rbind (get_directed_compile_cmds env run) (\<lambda>(cs, run'). Ok (Inr (map (map AStr) cs), run')))
            else get_riscvdv_compile_cmds env md run) (\<lambda>(cmds, run').
       case cmds of
         Inl rc \<Rightarrow> eraise TypeError
       | Inr cs \<Rightarrow>
           ebind (elift (rmapM (format_to_cmd (ce_resolve (fe_cmd env))) cs)) (\<lambda>cmds.
           ebind (eupd (write_text (path_div (run_dir_test run)
              (if run_directed run then ''compile.directed.log'' else ''compile.riscvdv.log'')) [])) (\<lambda>_.
           ebind (exec_all env cmds) (\<lambda>ret. eret (ret, run'\<lparr>run_compile_cmds := cmds\<rparr>)))))"

section \<open>Relocated words\<close>

lemma reloc_word_clean: "reloc_word cwd sim ph build scratch t w = Ok w' \<Longrightarrow> \<not> contains w' ph"
  by (auto simp: reloc_word_def Let_def rbind_eq_Ok split: prod.splits if_splits)

text \<open>No word of a relocated command mentions the placeholder.\<close>

theorem reloc_commands_clean:
  assumes "reloc_commands cwd ph build scratch sim t fs src = Ok cmds" "cmd \<in> set cmds" "w \<in> set cmd"
  shows "\<not> contains w ph"
  using assms by (auto simp: reloc_commands_def rbind_eq_Ok dest!: rmapM_Ok_mem dest: reloc_word_clean)

lemma contains_split: "contains s p \<Longrightarrow> \<exists>a b. s = a @ p @ b"
  unfolding contains_def using find_sub_Some by (metis append_take_drop_id not_None_eq)

lemma contains_count: "contains s p \<Longrightarrow> count_list p c \<le> count_list s c"
  by (drule contains_split) auto

definition good_part :: "string \<Rightarrow> bool" where
  "good_part s \<longleftrightarrow> s \<noteq> [] \<and> CHR ''/'' \<notin> set s \<and> NL \<notin> set s \<and> s \<noteq> ''.'' \<and> s \<noteq> ''..''"

definition abs_name :: "string list \<Rightarrow> string" where
  "abs_name ps = ''/'' @ join ''/'' ps"

lemma join_snoc: "ps \<noteq> [] \<Longrightarrow> join sep (ps @ [p]) = join sep ps @ sep @ p"
proof (induction ps)
  case (Cons a ps)
  then show ?case by (cases "ps = []") (simp_all add: join_Cons)
qed simp

lemma abs_name_snoc: "ps \<noteq> [] \<Longrightarrow> abs_name (ps @ [p]) = abs_name ps @ ''/'' @ p"
  by (simp add: abs_name_def join_snoc)

lemma abs_name_start [simp]: "abs_name ps \<noteq> []" "startswith (abs_name ps) ''/''" "hd (abs_name ps) = CHR ''/''"
  by (simp_all add: abs_name_def startswith_def)

lemma norm_steps: "list_all good_part ps \<Longrightarrow> foldl (norm_step True) acc ps = acc @ ps"
  by (induction ps arbitrary: acc) (auto simp: norm_step_def good_part_def)

lemma good_part_hd: "good_part p \<Longrightarrow> hd p \<noteq> CHR ''/''"
  by (cases p) (auto simp: good_part_def)

lemma normpath_abs_name:
  assumes "list_all good_part ps" "ps \<noteq> []"
  shows "normpath (abs_name ps) = abs_name ps"
proof -
  obtain p qs where ps: "ps = p # qs" using assms(2) by (cases ps) auto
  then have "join ''/'' ps \<noteq> [] \<and> hd (join ''/'' ps) \<noteq> CHR ''/''"
    using assms(1) good_part_hd [of p] by (cases qs) (auto simp: join_Cons good_part_def hd_append)
  then have two: "\<not> startswith (abs_name ps) ''//''"
    by (cases "join ''/'' ps") (auto simp: abs_name_def startswith_def)
  have "split_char CHR ''/'' (join [CHR ''/''] ps) = ps"
    using assms by (intro split_char_join) (auto simp: list_all_iff good_part_def)
  then have split: "split_char CHR ''/'' (abs_name ps) = [] # ps"
    using split_char_append_sep [of "CHR ''/''" "[]" "join ''/'' ps"] by (simp add: abs_name_def)
  show ?thesis
    using two assms(1) by (simp add: normpath_def split norm_step_def norm_steps Let_def) (simp add: abs_name_def)
qed

lemma abspath_abs_name: "list_all good_part ps \<Longrightarrow> ps \<noteq> [] \<Longrightarrow> abspath cwd (abs_name ps) = abs_name ps"
  by (simp add: abspath_def normpath_abs_name)

lemma abs_name_last:
  assumes "list_all good_part ps" "ps \<noteq> []"
  shows "last (abs_name ps) \<noteq> CHR ''/''"
proof -
  obtain qs q where ps: "ps = qs @ [q]" using assms(2) by (cases ps rule: rev_cases) auto
  then have q: "q \<noteq> []" "CHR ''/'' \<notin> set q" using assms(1) by (auto simp: good_part_def)
  have "\<exists>x. abs_name ps = x @ q"
    unfolding ps by (cases "qs = []") (auto simp: abs_name_def join_snoc)
  then show ?thesis using q by (metis last_appendR last_in_set)
qed

lemma os_join_part:
  assumes "good_part p" "list_all good_part ps" "ps \<noteq> []"
  shows "os_join (abs_name ps) p = abs_name (ps @ [p])"
proof -
  have "\<not> startswith p ''/''" using assms(1) by (cases p) (auto simp: startswith_def good_part_def)
  moreover have "\<not> endswith (abs_name ps) ''/''"
  proof
    assume "endswith (abs_name ps) ''/''"
    then have "drop (length (abs_name ps) - 1) (abs_name ps) = ''/''" by (simp add: endswith_def)
    then have "last (abs_name ps) = CHR ''/''" by (metis last_drop last.simps list.simps(3) drop_eq_Nil not_le)
    with abs_name_last assms show False by blast
  qed
  ultimately show ?thesis by (simp add: os_join_def abs_name_snoc assms(3))
qed

lemma plusarg_named:
  assumes "name \<noteq> []" "list_all arg_char name" "NL \<notin> set v"
  shows "plusarg (''+'' @ name @ ''='' @ v) = (''+'' @ name @ ''='', v)"
proof -
  have "first_match (Seqs [Lit ''+'', Some1 arg_char, Lit ''='']) ((''+'' @ name @ ''='') @ v) [] v []"
    unfolding Seqs.simps
  proof (rule first_match_Seq)
    show "first_match (Lit ''+'') ((''+'' @ name @ ''='') @ v) [] (name @ ''='' @ v) []"
      using first_match_Lit [of "''+''" "name @ ''='' @ v"] by simp
    show "first_match (Seq (Some1 arg_char) (Lit ''='')) (name @ ''='' @ v) [] v []"
    proof (rule first_match_Seq)
      show "first_match (Some1 arg_char) (name @ ''='' @ v) [] (''='' @ v) []"
        using assms by (intro first_match_Some1)
          (auto simp: list_all_iff arg_char_def is_ascii_alnum_def is_upper_az_def is_lower_az_def is_digit_def code_def)
    qed (rule first_match_Lit)
  qed
  from first_match_Cap [OF this, of "''1''"]
  have "first_match (Cap ''1'' (Seqs [Lit ''+'', Some1 arg_char, Lit ''=''])) (''+'' @ name @ ''='' @ v) [] v
      [(''1'', ''+'' @ name @ ''='')]" by simp
  moreover have "first_match (Cap ''2'' (Many any_char)) v [(''1'', ''+'' @ name @ ''='')] [] [(''2'', v), (''1'', ''+'' @ name @ ''='')]"
    using first_match_Cap [OF first_match_Many [of v any_char "[]"], of "''2''"] assms(3)
    by (auto simp: any_char_def)
  ultimately have "first_match PLUSARG_RE (''+'' @ name @ ''='' @ v) [] [] [(''2'', v), (''1'', ''+'' @ name @ ''='')]"
    unfolding PLUSARG_RE_def by (subst Seqs.simps, subst Seqs.simps) (rule first_match_Seq)
  from first_match_re_match [OF this] show ?thesis by (simp add: plusarg_def group_def)
qed

lemma plusarg_path: "plusarg (CHR ''/'' # w) = ([], CHR ''/'' # w)"
  by (simp add: plusarg_def re_match_def PLUSARG_RE_def)

lemma abs_name_inj:
  assumes "list_all good_part ps" "list_all good_part qs" "ps \<noteq> []" "qs \<noteq> []" "abs_name ps = abs_name qs"
  shows "ps = qs"
proof -
  have "split_char CHR ''/'' (join [CHR ''/''] xs) = xs" if "list_all good_part xs" "xs \<noteq> []" for xs
    using that by (intro split_char_join) (auto simp: list_all_iff good_part_def)
  with assms show ?thesis by (metis abs_name_def append_Cons append_Nil list.inject)
qed

text \<open>The first entry of the table that names the same file decides.\<close>

lemma reloc_word_found:
  assumes "plusarg w = (pre, abs_name ws)" "list_all good_part ws" "ws \<noteq> []"
    and "map_of (sim_relocs ph build) sim = Some sims"
    and "sims @ always_relocs ph scratch t = map (\<lambda>(os, x). (abs_name os, x)) before @ (abs_name ws, target) # after"
    and "list_all (\<lambda>(os, x). list_all good_part os \<and> os \<noteq> [] \<and> os \<noteq> ws) before"
    and "\<not> contains (pre @ target) ph"
  shows "reloc_word cwd sim ph build scratch t w = Ok (pre @ target)"
proof -
  have "find (\<lambda>(orig, target). abspath cwd orig = abspath cwd (abs_name ws))
      (map (\<lambda>(os, x). (abs_name os, x)) before @ (abs_name ws, target) # after) = Some (abs_name ws, target)"
    using assms(6)
  proof (induction before)
    case (Cons b before)
    then have "abspath cwd (abs_name (fst b)) \<noteq> abspath cwd (abs_name ws)"
      using abs_name_inj [of "fst b" ws] assms(2,3) by (auto simp: abspath_abs_name split: prod.splits)
    with Cons show ?case by (auto split: prod.splits)
  qed simp
  with assms(1,4,5,7) show ?thesis by (simp add: reloc_word_def Let_def)
qed

lemma good_parts:
  "good_part ''@@PLACEHOLDER@@''" "good_part ''asm_test''" "good_part ''vcs_simv''" "good_part ''dsim''" "good_part ''test''"
  "good_part ''gen.log''" "good_part t \<Longrightarrow> good_part (''sim_'' @ t @ ''_0.log'')"
  by (auto simp: good_part_def NL_def)

lemma join_parts:
  assumes "list_all good_part ps" "ps \<noteq> []" "list_all good_part xs"
  shows "foldl os_join (abs_name ps) xs = abs_name (ps @ xs)"
  using assms
proof (induction xs arbitrary: ps)
  case (Cons x xs)
  have "foldl os_join (abs_name (ps @ [x])) xs = abs_name ((ps @ [x]) @ xs)" using Cons by (intro Cons.IH) auto
  with Cons.prems show ?case by (simp add: os_join_part)
qed simp

text \<open>The entries of the simulator, as parts below the placeholder.\<close>

lemma sim_relocs_parts:
  assumes "sim \<in> {''vcs'', ''xlm'', ''dsim''}" "list_all good_part ps" "ps \<noteq> []"
  obtains xs target where "map_of (sim_relocs (abs_name ps) build) sim = Some [(abs_name (ps @ xs), target)]"
    "xs \<in> {[], [''vcs_simv''], [''dsim'']}"
proof -
  have *: "os_join (abs_name ps) ''vcs_simv'' = abs_name (ps @ [''vcs_simv''])" "os_join (abs_name ps) ''dsim'' = abs_name (ps @ [''dsim''])"
    using assms(2,3) by (auto simp: os_join_part good_parts)
  consider "sim = ''vcs''" | "sim = ''xlm''" | "sim = ''dsim''" using assms(1) by auto
  then show ?thesis
  proof cases
    case 1 then show ?thesis by (intro that [of "[''vcs_simv'']" "os_join build ''vcs_simv''"]) (simp_all add: sim_relocs_def *)
  next
    case 2 then show ?thesis by (intro that [of "[]" build]) (simp_all add: sim_relocs_def)
  next
    case 3 then show ?thesis by (intro that [of "[''dsim'']" "os_join build ''dsim''"]) (simp_all add: sim_relocs_def *)
  qed
qed

lemma always_relocs_parts:
  assumes "list_all good_part ps" "ps \<noteq> []" "list_all good_part ds" "ds \<noteq> []" "good_part t"
  shows "always_relocs (abs_name ps) (abs_name ds) t =
    [(abs_name (ps @ [''asm_test'', t]), abs_name ds @ ''/test''), (abs_name (ps @ [''asm_test'']), abs_name ds),
     (abs_name (ps @ [''sim_'' @ t @ ''_0.log'']), abs_name ds @ ''/gen.log'')]"
  using assms join_parts [OF assms(1,2), of "[''asm_test'', t]"] good_parts
  by (simp add: always_relocs_def os_join_part abs_name_snoc)

lemma abs_name_nl: "list_all good_part ps \<Longrightarrow> NL \<notin> set (abs_name ps)"
proof -
  have "set (join ''/'' ps) \<subseteq> insert (CHR ''/'') (\<Union> (set (map set ps)))"
  proof (induction ps)
    case (Cons p ps)
    then show ?case by (cases "ps = []") (auto simp: join_Cons)
  qed simp
  then show "list_all good_part ps \<Longrightarrow> NL \<notin> set (abs_name ps)"
    by (auto simp: abs_name_def list_all_iff good_part_def NL_def)
qed

lemma placeholder_clean:
  assumes "count_list s CHR ''@'' = count_list d CHR ''@''"
  shows "\<not> contains s (d @ ''/@@PLACEHOLDER@@'')"
  using contains_count [of s "d @ ''/@@PLACEHOLDER@@''" "CHR ''@''"] assms by auto

text \<open>A word below the placeholder that the table of all simulators names, at position \<open>n\<close>.\<close>

lemma reloc_word_always:
  assumes "sim \<in> {''vcs'', ''xlm'', ''dsim''}" "ps \<noteq> []" "list_all good_part ps" "good_part t"
    and ph: "ph = abs_name ps @ ''/@@PLACEHOLDER@@''"
    and n: "(ys, target) = [([''asm_test'', t], abs_name ps @ ''/test''), ([''asm_test''], abs_name ps),
                   ([''sim_'' @ t @ ''_0.log''], abs_name ps @ ''/gen.log'')] ! n" "n < 3"
    and w: "plusarg w = (pre, abs_name (ps @ ''@@PLACEHOLDER@@'' # ys))" "count_list pre CHR ''@'' = 0"
  shows "reloc_word cwd sim ph build (abs_name ps) t w = Ok (pre @ target)"
proof -
  let ?q = "ps @ [''@@PLACEHOLDER@@'']"
  have q: "list_all good_part ?q" "?q \<noteq> []" and ph': "ph = abs_name ?q"
    using assms(2,3) good_parts by (auto simp: ph abs_name_snoc)
  obtain xs out where sims: "map_of (sim_relocs (abs_name ?q) build) sim = Some [(abs_name (?q @ xs), out)]"
    and xs: "xs \<in> {[], [''vcs_simv''], [''dsim'']}"
    by (rule sim_relocs_parts [OF assms(1) q])
  have gxs: "list_all good_part xs" using xs good_parts(3,4) by (elim insertE) simp_all
  let ?all = "[(?q @ xs, out), (?q @ [''asm_test'', t], abs_name ps @ ''/test''), (?q @ [''asm_test''], abs_name ps),
     (?q @ [''sim_'' @ t @ ''_0.log''], abs_name ps @ ''/gen.log'')]"
  have cases_n: "n = 0 \<or> n = 1 \<or> n = 2" using n(2) by arith
  have gs: "good_part (''sim_'' @ t @ ''_0.log'')" by (rule good_parts(7) [OF assms(4)])
  have yg: "list_all good_part ys" "ys \<notin> {[], [''vcs_simv''], [''dsim'']}" and tc: "count_list target CHR ''@'' = count_list (abs_name ps) CHR ''@''"
    using n(1) cases_n good_parts(2) good_parts(7) [OF assms(4)] assms(4) by (elim disjE; simp)+
  have neq: "xs \<noteq> ys" using xs yg(2) by metis
  have split: "[(abs_name (?q @ xs), out)] @ always_relocs (abs_name ?q) (abs_name ps) t
      = map (\<lambda>(os, x). (abs_name os, x)) (take (Suc n) ?all) @ (abs_name (?q @ ys), target) # map (\<lambda>(os, x). (abs_name os, x)) (drop (n + 2) ?all)"
    using n(1) cases_n by (elim disjE) (simp_all add: always_relocs_parts [OF q assms(3,2,4)])
  have good: "list_all (\<lambda>(os, x). list_all good_part os \<and> os \<noteq> [] \<and> os \<noteq> ?q @ ys) (take (Suc n) ?all)"
    using n(1) cases_n q(1) gxs neq good_parts(2) assms(4) by (elim disjE) (simp_all add: numeral_2_eq_2)
  have "reloc_word cwd sim (abs_name ?q) build (abs_name ps) t w = Ok (pre @ target)"
  proof (rule reloc_word_found [OF _ _ _ sims split good])
    show "plusarg w = (pre, abs_name (?q @ ys))" using w(1) by simp
    show "list_all good_part (?q @ ys)" "?q @ ys \<noteq> []" using q yg by auto
    show "\<not> contains (pre @ target) (abs_name ?q)"
      unfolding ph' [symmetric] ph using w(2) tc by (intro placeholder_clean) simp
  qed
  then show ?thesis by (simp add: ph')
qed

text \<open>C23: in the temporary directory \<open>/p1/../pn\<close>, whatever the simulator and the working directory, the three outputs riscv-dv
  names below the placeholder are moved there: the test (given as a plus argument), the directory of tests, and the log.\<close>

theorem reloc_moves_outputs:
  assumes "sim \<in> {''vcs'', ''xlm'', ''dsim''}" "ps \<noteq> []" "list_all good_part ps" "good_part t" "name \<noteq> []" "list_all arg_char name"
    and ph: "ph = abs_name ps @ ''/@@PLACEHOLDER@@''"
  shows "reloc_word cwd sim ph build (abs_name ps) t (''+'' @ name @ ''='' @ ph @ ''/asm_test/'' @ t)
           = Ok (''+'' @ name @ ''='' @ abs_name ps @ ''/test'') \<and>
         reloc_word cwd sim ph build (abs_name ps) t (ph @ ''/asm_test'') = Ok (abs_name ps) \<and>
         reloc_word cwd sim ph build (abs_name ps) t (ph @ ''/sim_'' @ t @ ''_0.log'') = Ok (abs_name ps @ ''/gen.log'')"
proof (intro conjI)
  let ?w = "\<lambda>ys. abs_name (ps @ ''@@PLACEHOLDER@@'' # ys)"
  note word = reloc_word_always [OF assms(1-4) ph]
  have q: "?w [y] = ph @ ''/'' @ y" "?w [y, z] = ph @ ''/'' @ y @ ''/'' @ z" for y z
    using assms(2) abs_name_snoc [of ps "''@@PLACEHOLDER@@''"] abs_name_snoc [of "ps @ [''@@PLACEHOLDER@@'']" y]
      abs_name_snoc [of "ps @ [''@@PLACEHOLDER@@'', y]" z] by (simp_all add: ph)
  have hd: "\<exists>r. ?w ys = CHR ''/'' # r" for ys by (simp add: abs_name_def)
  have pl: "plusarg (?w ys) = ([], ?w ys)" for ys using hd [of ys] plusarg_path by metis
  have "CHR ''@'' \<notin> set name"
    using assms(6) by (auto simp: list_all_iff arg_char_def is_ascii_alnum_def is_upper_az_def is_lower_az_def is_digit_def code_def)
  then have no_at: "count_list (''+'' @ name @ ''='') CHR ''@'' = 0" by (simp add: count_list_0_iff)
  have "NL \<notin> set (?w [''asm_test'', t])"
    using assms(3,4) good_parts(1,2) by (intro abs_name_nl) simp
  from word [of "[''asm_test'', t]" _ 0, OF _ _ plusarg_named [OF assms(5,6) this] no_at]
  show "reloc_word cwd sim ph build (abs_name ps) t (''+'' @ name @ ''='' @ ph @ ''/asm_test/'' @ t)
      = Ok (''+'' @ name @ ''='' @ abs_name ps @ ''/test'')" by (simp add: q)
  from word [of "[''asm_test'']" _ 1, OF _ _ pl]
  show "reloc_word cwd sim ph build (abs_name ps) t (ph @ ''/asm_test'') = Ok (abs_name ps)" by (simp add: q)
  from word [of "[''sim_'' @ t @ ''_0.log'']" _ 2, OF _ _ pl]
  show "reloc_word cwd sim ph build (abs_name ps) t (ph @ ''/sim_'' @ t @ ''_0.log'') = Ok (abs_name ps @ ''/gen.log'')" by (simp add: q)
qed

theorem reloc_moves_outputs_witness:
  "abs_name [''tmp'', ''tmpx1''] = ''/tmp/tmpx1'' \<and>
   reloc_word ''/ibex'' ''xlm'' ''/tmp/tmpx1/@@PLACEHOLDER@@'' ''/out/build/instr_gen'' ''/tmp/tmpx1'' ''riscv_arith_basic_test''
     ''+asm_file_name=/tmp/tmpx1/@@PLACEHOLDER@@/asm_test/riscv_arith_basic_test'' = Ok ''+asm_file_name=/tmp/tmpx1/test''"
proof -
  have d: "abs_name [''tmp'', ''tmpx1''] = ''/tmp/tmpx1''" by code_simp
  have "list_all good_part [''tmp'', ''tmpx1''] \<and> good_part ''riscv_arith_basic_test'' \<and> list_all arg_char ''asm_file_name''"
    by code_simp
  with reloc_moves_outputs [of "''xlm''" "[''tmp'', ''tmpx1'']" "''riscv_arith_basic_test''" "''asm_file_name''"
      "''/tmp/tmpx1/@@PLACEHOLDER@@''" "''/ibex''" "''/out/build/instr_gen''"]
  show ?thesis by (simp add: d)
qed

section \<open>Exit codes\<close>

text \<open>Children whose return code is a function of the command.\<close>

definition exec_codes :: "flow_env \<Rightarrow> (string list \<Rightarrow> int) \<Rightarrow> bool" where
  "exec_codes env st \<longleftrightarrow> (\<forall>c fs. fst (fe_exec env c fs) = Returned (st c))"

lemma exec_codes_at: "exec_codes env st \<Longrightarrow> fst (fe_exec env c fs) = Returned (st c)"
  by (simp add: exec_codes_def)

lemma exec_one_code: "exec_codes env st \<Longrightarrow> exec_one env c fs = (Ok (st c), snd (fe_exec env c fs))"
  by (cases "fe_exec env c fs") (auto simp: exec_one_def run_one_def dest!: exec_codes_at [of env st c fs])

lemma exec_logged_code: "exec_codes env st \<Longrightarrow> exec_logged env p c fs = (Ok rc, fs') \<Longrightarrow> rc = st c"
  by (auto simp: exec_logged_def ebind_result_Ok exec_one_code)

lemma exec_all_code:
  "exec_codes env st \<Longrightarrow> exec_all env cs fs = (r, fs') \<Longrightarrow> \<exists>rc. r = Ok rc \<and> (rc = 0 \<longleftrightarrow> (\<forall>c \<in> set cs. st c = 0))"
  by (induction cs arbitrary: fs) (auto simp: ebind_def exec_one_code split: if_splits)

text \<open>The exit code of the generation of a test is the code of the command that lists the generator's commands: how the
  commands themselves end has no influence on it, and the record names a test file in either case.\<close>

theorem run_instr_gen_code:
  assumes "exec_codes env st" "run_instr_gen env md run fs = (Ok (rc, run'), fs')"
  shows "\<exists>cfg sig cmd. format_to_cmd (ce_resolve (fe_cmd env)) (gen_cmd env md run cfg sig (path_div (fe_tmp env) ''@@PLACEHOLDER@@'')
             (path_div (fe_tmp env) ''cmds.list'')) = Ok cmd \<and> rc = st cmd
           \<and> run' = (if rc = 0 then run\<lparr>run_assembly := Some (path_div (run_dir_test run) ''test.S'')\<rparr> else run)"
proof -
  obtain cfg sig early fs1 fs2 where
    g: "generate_test env md run cfg sig fs1 = (Ok (early, run'), fs2)" and rc: "rc = (case early of Some rc \<Rightarrow> rc | None \<Rightarrow> 0)"
    using assms(2) by (auto simp: run_instr_gen_def ebind_result_Ok efinally_Ok eupd_Ok split: prod.splits)
  show ?thesis
    using g rc exec_logged_code [OF assms(1)]
    by (auto simp: generate_test_def Let_def ebind_result_Ok eupd_Ok split: if_splits prod.splits) (metis)+
qed

lemma list_compile_code:
  assumes "exec_codes env st" "list_compile_cmds env md run fs = (Ok listed, fs')"
  obtains cmd where "format_to_cmd (ce_resolve (fe_cmd env)) (compile_list_cmd env md run (path_div (fe_tmp env) ''@@PLACEHOLDER@@'')
      (path_div (fe_tmp env) ''orig-cmds.list'')) = Ok cmd" "case listed of Inl rc \<Rightarrow> rc \<noteq> 0 \<and> st cmd = rc | Inr cmds \<Rightarrow> st cmd = 0"
  using assms(2) exec_logged_code [OF assms(1)]
  by (auto simp: list_compile_cmds_def Let_def ebind_result_Ok efinally_Ok eupd_Ok split: if_splits prod.splits)

lemma move_word_clean: "move_word ph rs w = Ok w' \<Longrightarrow> \<not> contains w' ph"
  by (auto simp: move_word_def Let_def split: if_splits)

lemma format_to_cmd_texts: "format_to_cmd resolve (map AStr ws) = Ok ws"
  unfolding format_to_cmd_def by (induction ws) auto

lemma move_compile_cmds_record:
  assumes "move_compile_cmds env run cmds = Ok (cs, run')"
  shows "run_objectfile run' = run_objectfile run" "run_binary run' = run_binary run"
  using assms by (auto simp: move_compile_cmds_def debug_module_cmds_def Let_def rbind_eq_Ok split: if_splits)

lemma compile_test_OkE:
  assumes "\<not> run_directed run" "compile_test env md run fs = (Ok (rc, run'), fs')"
  obtains cs run1 cmds fs1 fs2 s1 where "get_riscvdv_compile_cmds env md run fs = (Ok (Inr cs, run1), s1)"
    "rmapM (format_to_cmd (ce_resolve (fe_cmd env))) cs = Ok cmds" "exec_all env cmds fs1 = (Ok rc, fs2)" "run' = run1\<lparr>run_compile_cmds := cmds\<rparr>"
proof -
  from assms obtain cmds run1 s1 where "get_riscvdv_compile_cmds env md run fs = (Ok (cmds, run1), s1)"
    by (auto simp: compile_test_def ebind_result_Ok)
  with assms that show ?thesis
    by (cases cmds) (auto simp: compile_test_def ebind_Ok ebind_result_Ok eupd_Ok)
qed

lemma get_riscvdv_OkE:
  assumes "get_riscvdv_compile_cmds env md run fs = (Ok (Inr cs, run1), s1)"
  obtains listed where "move_compile_cmds env (with_outputs run) listed = Ok (cs, run1)"
proof -
  from assms obtain listed s where "list_compile_cmds env md run fs = (Ok listed, s)"
    by (auto simp: get_riscvdv_compile_cmds_def ebind_result_Ok)
  with assms that show ?thesis
    by (cases listed) (auto simp: get_riscvdv_compile_cmds_def ebind_Ok ebind_result_Ok)
qed

text \<open>A listing that fails stops the script: its code is taken for the list of commands.\<close>

theorem compile_listing_fails:
  assumes "\<not> run_directed run" "list_compile_cmds env md run fs = (Ok (Inl rc), fs')"
  shows "compile_test env md run fs = (Err TypeError, fs')"
  using assms by (simp add: compile_test_def get_riscvdv_compile_cmds_def ebind_Ok)

text \<open>What a compilation of a generated test that returns has done: riscv-dv listed the commands, they were recorded with
  the outputs, without the placeholder unless the debug module has its own memory, and the exit code is 0 exactly when
  every recorded command returned 0.\<close>

theorem compile_test_outcome:
  assumes "exec_codes env st" "\<not> run_directed run" "compile_test env md run fs = (Ok (rc, run'), fs')"
  shows "rc = 0 \<longleftrightarrow> list_all (\<lambda>c. st c = 0) (run_compile_cmds run')"
    and "run_objectfile run' = Some (path_div (run_dir_test run) ''test.o'')" "run_binary run' = Some (path_div (run_dir_test run) ''test.bin'')"
    and "run_discrete_debug_module run \<noteq> Some True \<Longrightarrow> c \<in> set (run_compile_cmds run') \<Longrightarrow> w \<in> set c
      \<Longrightarrow> \<not> contains w (path_str (path_div (fe_tmp env) ''@@PLACEHOLDER@@''))"
proof -
  obtain cs run1 cmds fs1 fs2 s1 where
    g: "get_riscvdv_compile_cmds env md run fs = (Ok (Inr cs, run1), s1)" and
    f: "rmapM (format_to_cmd (ce_resolve (fe_cmd env))) cs = Ok cmds" and
    e: "exec_all env cmds fs1 = (Ok rc, fs2)" and r: "run' = run1\<lparr>run_compile_cmds := cmds\<rparr>"
    using assms(2,3) by (rule compile_test_OkE)
  from get_riscvdv_OkE [OF g] obtain listed where m: "move_compile_cmds env (with_outputs run) listed = Ok (cs, run1)" .
  show "rc = 0 \<longleftrightarrow> list_all (\<lambda>c. st c = 0) (run_compile_cmds run')"
    using exec_all_code [OF assms(1) e] by (simp add: r list_all_iff)
  show "run_objectfile run' = Some (path_div (run_dir_test run) ''test.o'')" "run_binary run' = Some (path_div (run_dir_test run) ''test.bin'')"
    using move_compile_cmds_record [OF m] by (simp_all add: r with_outputs_def)
  assume d: "run_discrete_debug_module run \<noteq> Some True" and w: "c \<in> set (run_compile_cmds run')" "w \<in> set c"
  from m d f w show "\<not> contains w (path_str (path_div (fe_tmp env) ''@@PLACEHOLDER@@''))"
    by (auto simp: move_compile_cmds_def Let_def rbind_eq_Ok with_outputs_def r format_to_cmd_texts dest!: rmapM_Ok_mem dest: move_word_clean)
qed

end
