(* ===== verification/Uvm_Simulate.thy ===== *)
theory Uvm_Simulate
  imports Uvm_Generate
begin

text \<open>
  Simulation of one test and merging of the coverage (\<open>scripts/run_rtl.py\<close>, \<open>scripts/compile_tb.py\<close>, \<open>scripts/merge_cov.py\<close>,
  \<open>scripts/get_fcov.py\<close>). The commands come from the simulator's entry (\<open>Uvm_Commands\<close>), child processes and files are as in
  \<open>Uvm_Generate\<close>. The lists of the YAML files are arguments. Of the record of a run, \<open>run_result\<close> holds the
  fields the check of the logs reads (\<open>Uvm_Log\<close>).

  Shown: the verdict of a run is decided by its last simulation and its logs, unless an earlier simulation was killed: that
  mark is never taken back; the flags pkg-config prints reach the compiler word by word; merging without a
  coverage database raises.
\<close>

section \<open>Simulation\<close>

definition md_run_rtl_timeout_s :: "metadata \<Rightarrow> int" where
  "md_run_rtl_timeout_s md = md_int ''run_rtl_timeout_s'' 1800 md"

definition md_dir_shared_cov :: "metadata \<Rightarrow> path" where
  "md_dir_shared_cov md = path_div (md_dir_cov md) ''shared_cov''"

definition md_cov :: "metadata \<Rightarrow> bool" where
  "md_cov md = md_bool ''cov'' False md"

definition md_waves :: "metadata \<Rightarrow> bool" where
  "md_waves md = md_bool ''waves'' False md"

definition test_options :: "json list \<Rightarrow> flow_run \<Rightarrow> (string \<times> json) list res" where
  "test_options testlist run =
     (if run_directed run then res_of TypeError (run_directed_data run)
      else rbind (get_test_entry (run_testname run) testlist) as_dict)"

text \<open>\<open>testopts.get('timeout_s') or md.run_rtl_timeout_s\<close>\<close>

definition test_timeout :: "metadata \<Rightarrow> (string \<times> json) list \<Rightarrow> json" where
  "test_timeout md opts =
     (let v = get_or_none opts ''timeout_s'' in if jtruth v then v else JInt (md_run_rtl_timeout_s md))"

definition extra_sim_opts :: "(string \<times> json) list \<Rightarrow> string res" where
  "extra_sim_opts opts =
     (let v = get_or_none opts ''sim_opts'' in
      if jtruth v then rbind (as_text v) (\<lambda>s. Ok (filter (\<lambda>c. c \<noteq> NL) s)) else Ok [])"

definition ddm_sim_opts :: "flow_run \<Rightarrow> string" where
  "ddm_sim_opts run =
     (if \<not> run_directed run \<and> run_discrete_debug_module run = Some True
      then '' +vmem_main='' @ opt_path (run_vmem_main run) @ [NL] @ '' +vmem_dm='' @ opt_path (run_vmem_dm run) @ [NL] @
           '' +bin_main='' @ opt_path (run_binary_main run) @ [NL] @ '' +bin_dm='' @ opt_path (run_binary_dm run) @ [NL]
      else [])"

definition rtl_log_of :: "metadata \<Rightarrow> path \<Rightarrow> path" where
  "rtl_log_of md dir = path_div dir (if md_simulator md = ''vcs'' then ''rtl_sim_stdstreams.log'' else ''rtl_sim.log'')"

definition rtl_trace_of :: "path \<Rightarrow> path" where
  "rtl_trace_of dir = path_div dir ''trace_core_00000000.log''"

text \<open>The substitutions of the command; the types of the values are checked, so a run without a binary raises.\<close>

definition rtl_subst :: "flow_env \<Rightarrow> metadata \<Rightarrow> flow_run \<Rightarrow> (string \<times> json) list \<Rightarrow> string \<Rightarrow> (string, subst_value) dict res" where
  "rtl_subst env md run opts cfg_opts =
     rbind (jindex opts ''rtl_test'') (\<lambda>rtl_test.
     rbind (extra_sim_opts opts) (\<lambda>sim_opts.
     rbind (case rtl_test of JStr s \<Rightarrow> Ok s | _ \<Rightarrow> Err TypeError) (\<lambda>rtl_test.
     rbind (res_of TypeError (run_binary run)) (\<lambda>bin.
       let dir = run_dir_test run; pd = project_dirs_of (fe_root env) in
       Ok [(''cwd'', SPath (IBEX_ROOT pd)), (''test_name'', SText (run_testname run)), (''rtl_test'', SText rtl_test),
           (''seed'', SText (str_int (run_seed run))), (''binary'', SPath bin), (''test_dir'', SPath dir), (''tb_dir'', SPath (md_dir_tb md)),
           (''dir_shared_cov'', SPath (md_dir_shared_cov md)), (''rtl_sim_log'', SPath (path_div dir ''rtl_sim.log'')),
           (''rtl_trace'', SPath (path_div (path_parent (rtl_trace_of dir)) ''trace_core'')),
           (''iss_cosim_trace'', SPath (path_div dir (md_iss md @ ''_cosim_trace_core_00000000.log''))), (''core_ibex'', SPath (CORE_IBEX pd)),
           (''sim_opts'', SText (''+signature_addr='' @ md_signature_addr md @ [NL] @ ''+test_timeout_s='' @ py_str (test_timeout md opts) @ [NL] @
              cfg_opts @ [NL] @ ddm_sim_opts run @ sim_opts))]))))"

text \<open>The commands are run in turn, whatever their codes, until one exceeds the time limit (\<open>True\<close>).\<close>

definition log_write :: "path \<Rightarrow> string \<Rightarrow> fs \<Rightarrow> fs res" where
  "log_write p s fs = rbind (read_text fs p) (\<lambda>old. write_text p (old @ s) fs)"

definition exec_reraise :: "flow_env \<Rightarrow> string list \<Rightarrow> (fs, int option) eff" where
  "exec_reraise env cmd fs = (case fe_exec env cmd fs of (c, fs') \<Rightarrow> (Ok (run_one c True), fs'))"

fun simulate_cmds :: "flow_env \<Rightarrow> path \<Rightarrow> string list list \<Rightarrow> (fs, bool) eff" where
  "simulate_cmds env log_file [] = eret False"
| "simulate_cmds env log_file (cmd # cmds) =
     ebind (eupd (log_write log_file (''Running run-rtl command :'' @ [NL] @ join '' '' cmd @ [NL]))) (\<lambda>_.
     ebind (exec_reraise env cmd) (\<lambda>ended.
       case ended of None \<Rightarrow> eret True | Some rc \<Rightarrow> simulate_cmds env log_file cmds))"

definition user_enables :: "metadata \<Rightarrow> string \<Rightarrow> bool" where
  "user_enables md k = (if k = ''cov_opts'' then md_cov md else if k = ''wave_opts'' then md_waves md else False)"

definition timed_out :: "metadata \<Rightarrow> test_run_result \<Rightarrow> test_run_result" where
  "timed_out md trr = trr\<lparr>tr_failure_mode := Some TIMEOUT,
     tr_failure_message := Some (''[FAILURE] Simulation process killed due to timeout ['' @ str_int (md_run_rtl_timeout_s md + 60) @ ''s].'' @ [NL])\<rparr>"

definition run_rtl :: "flow_env \<Rightarrow> metadata \<Rightarrow> json list \<Rightarrow> json list \<Rightarrow> flow_run \<Rightarrow> (fs, int \<times> flow_run) eff" where
  "run_rtl env md testlist simulators run =
     (let dir = run_dir_test run in
      ebind (elift (test_options testlist run)) (\<lambda>opts.
      ebind (elift (rbind (jindex opts ''rtl_test'') (\<lambda>_. extra_sim_opts opts))) (\<lambda>_.
      ebind (eget (\<lambda>fs. get_sim_opts (fe_load env) fs (fe_root env) (md_ibex_config md) (md_simulator md))) (\<lambda>cfg_opts.
      ebind (elift cfg_opts) (\<lambda>cfg_opts.
      ebind (elift (rtl_subst env md run opts cfg_opts)) (\<lambda>subst_vars.
      ebind (elift (get_tool_cmds (fe_cmd env) simulators (md_simulator md) ''sim'' (user_enables md) subst_vars)) (\<lambda>sim_cmds.
      ebind (eupd (mkdir_parents dir)) (\<lambda>_.
      ebind (eupd (write_text (path_div dir ''rtl_sim_stdstreams.log'') [])) (\<lambda>_.
      ebind (simulate_cmds env (path_div dir ''rtl_sim_stdstreams.log'') sim_cmds) (\<lambda>killed.
        let trr = (run_result run)\<lparr>tr_timeout_s := (case test_timeout md opts of JInt t \<Rightarrow> Some t | _ \<Rightarrow> None),
                     tr_rtl_log := rtl_log_of md dir, tr_rtl_trace := rtl_trace_of dir\<rparr>
        in eret (0, run\<lparr>run_rtl_cmds := sim_cmds, run_result := (if killed then timed_out md trr else trr)\<rparr>)))))))))))"

section \<open>Compilation of the testbench\<close>

definition rpath_prefix :: string where
  "rpath_prefix = ''-Wl,-rpath,''"

definition fixup_xcelium_rpath_token :: "string \<Rightarrow> string \<Rightarrow> string" where
  "fixup_xcelium_rpath_token simulator t =
     (if simulator = ''xlm'' \<and> startswith t rpath_prefix
      then ''-Wld,-Xlinker,-rpath,'' @ join '','' (map (\<lambda>p. ''-Xlinker,'' @ p) (split_char CHR '','' (drop (length rpath_prefix) t)))
      else t)"

definition get_iss_pkgconfig_flags :: "(string list \<Rightarrow> string res) \<Rightarrow> string list \<Rightarrow> string list \<Rightarrow> string \<Rightarrow> string res" where
  "get_iss_pkgconfig_flags check_output specifiers iss_pc simulator =
     rbind (rmapM (\<lambda>s. rbind (check_output (''pkg-config'' # s # iss_pc)) (\<lambda>out.
              rbind (shlex_split (strip out)) (\<lambda>tokens. Ok (map (fixup_xcelium_rpath_token simulator) tokens)))) specifiers)
       (\<lambda>tss. Ok (shlex_join (concat tss)))"

definition spike_iss_pc :: "string list" where
  "spike_iss_pc = [''riscv-riscv'', ''riscv-disasm'', ''riscv-fdt'', ''riscv-fesvr'']"

definition tb_defines :: string where
  "tb_defines = '' +define+DM_ADDR=1A11_0000 '' @ '' +define+DM_ADDR_MASK=0000_0FFF'' @ '' +define+BOOT_ADDR=8000_0000 '' @
     '' +define+DEBUG_MODE_HALT_ADDR=8000_0000 '' @ '' +define+DEBUG_MODE_EXCEPTION_ADDR=8000_0008 ''"

definition tb_subst :: "flow_env \<Rightarrow> metadata \<Rightarrow> string \<Rightarrow> (string \<times> string) list \<Rightarrow> (string, subst_value) dict" where
  "tb_subst env md cmp_opts iss_flags =
     (let pd = project_dirs_of (fe_root env) in
      dict_update
        [(''core_ibex'', SPath (CORE_IBEX pd)), (''tb_dir'', SPath (md_dir_tb md)), (''tb_build_log'', SPath (path_div (md_dir_tb md) ''compile_tb.log'')),
         (''cmp_opts'', SText (cmp_opts @ tb_defines)), (''dir_shared_cov'', if md_cov md then SPath (md_dir_shared_cov md) else SText []),
         (''xlm_cov_cfg_file'', SText (path_str (path_div (OT_LOWRISC_IP pd) ''dv/tools/xcelium'') @ ''/cover.ccf'')),
         (''dut_cov_rtl_path'', SText (md_str ''dut_cov_rtl_path'' [] md))]
        (map (\<lambda>(k, v). (k, SText v)) iss_flags))"

fun build_tb_cmds :: "flow_env \<Rightarrow> path \<Rightarrow> string list list \<Rightarrow> (fs, int) eff" where
  "build_tb_cmds env log_file [] = eret 0"
| "build_tb_cmds env log_file (cmd # cmds) =
     ebind (eupd (log_write log_file (''Running compile_tb command :'' @ [NL] @ join '' '' cmd @ [NL]))) (\<lambda>_.
     ebind (exec_one env cmd) (\<lambda>rc. if rc \<noteq> 0 then eret rc else build_tb_cmds env log_file cmds))"

definition compile_tb :: "flow_env \<Rightarrow> (string list \<Rightarrow> string res) \<Rightarrow> metadata \<Rightarrow> json list \<Rightarrow> (fs, int) eff" where
  "compile_tb env check_output md simulators =
     (if list_ex (\<lambda>v. ce_environ (fe_cmd env) v = None) [''PRJ_DIR'', ''LOWRISC_IP_DIR''] then eraise RuntimeError
      else
        ebind (eupd (mkdir_parents (md_dir_tb md))) (\<lambda>_.
        ebind (elift (rcatch (\<lambda>e. e = CalledProcessError) RuntimeError (check_output ([''pkg-config'', ''--exists''] @ spike_iss_pc)))) (\<lambda>_.
        ebind (elift (rmapM (\<lambda>(k, v). rbind (get_iss_pkgconfig_flags check_output v spike_iss_pc (md_simulator md)) (\<lambda>s. Ok (k, s)))
           [(''ISS_CFLAGS'', [''--cflags'']), (''ISS_LDFLAGS'', [''--libs-only-other'']), (''ISS_LIBS'', [''--libs-only-l'', ''--libs-only-L''])])) (\<lambda>iss_flags.
        ebind (eget (\<lambda>fs. get_compile_opts (fe_load env) fs (fe_root env) (md_ibex_config md) (md_simulator md))) (\<lambda>r.
        ebind (elift r) (\<lambda>cmp_opts.
        ebind (elift (get_tool_cmds (fe_cmd env) simulators (md_simulator md) ''compile''
            (\<lambda>k. k = ''cosim_opts'' \<or> user_enables md k) (tb_subst env md cmp_opts iss_flags))) (\<lambda>cmds.
        let log_file = path_div (md_dir_tb md) ''compile_tb_stdstreams.log'' in
        ebind (eupd (write_text log_file [])) (\<lambda>_. build_tb_cmds env log_file cmds))))))))"

section \<open>Coverage\<close>

text \<open>\<open>find_cov_dbs\<close>: \<open>None\<close> is the number 1 it returns when there is no database.\<close>

definition find_cov_dbs :: "fs \<Rightarrow> path \<Rightarrow> string \<Rightarrow> path list option" where
  "find_cov_dbs fs start_dir simulator =
     (let dbs = (if simulator = ''xlm'' then rglob_suffix fs start_dir ''.ucd'' else [])
              @ (if simulator = ''vcs'' then rglob_name fs start_dir ''test.vdb'' else [])
      in if dbs = [] then None else Some (uniq dbs))"

definition md_dir_fcov :: "metadata \<Rightarrow> path" where "md_dir_fcov md = path_div (md_dir_cov md) ''fcov''"

definition md_dir_cov_merged :: "metadata \<Rightarrow> path" where "md_dir_cov_merged md = path_div (md_dir_cov md) ''merged''"

definition md_dir_cov_report :: "metadata \<Rightarrow> path" where "md_dir_cov_report md = path_div (md_dir_cov md) ''report''"

definition urg_cmd :: "metadata \<Rightarrow> path list \<Rightarrow> string list" where
  "urg_cmd md dbs =
     [''urg'', ''-full64'', ''-format'', ''both'', ''-dbname'', path_str (path_div (md_dir_cov md) ''merged.vdb''),
      ''-report'', path_str (path_div (md_dir_cov md) ''report''), ''-log'', path_str (path_div (md_dir_cov md) ''merge.log''), ''-dir'']
     @ map path_str dbs"

definition merge_cov_vcs :: "flow_env \<Rightarrow> metadata \<Rightarrow> path list \<Rightarrow> (fs, int) eff" where
  "merge_cov_vcs env md dbs = exec_logged env (path_div (md_dir_cov md) ''merge.log.stdout'') (urg_cmd md dbs)"

type_synonym exec_env = "(string, string) dict \<Rightarrow> string list \<Rightarrow> fs \<Rightarrow> child \<times> fs"

definition imc_logged :: "exec_env \<Rightarrow> (string, string) dict \<Rightarrow> path \<Rightarrow> string list \<Rightarrow> (fs, int) eff" where
  "imc_logged exec vars log_file cmd =
     ebind (eupd (write_text log_file [])) (\<lambda>_ fs.
       case exec vars cmd fs of (c, fs') \<Rightarrow> (Ok (case run_one c False of Some rc \<Rightarrow> rc | None \<Rightarrow> 1), fs'))"

text \<open>The two commands of \<open>imc\<close>, with the variables set in addition to the environment.\<close>

definition merge_cov_xlm :: "flow_env \<Rightarrow> exec_env \<Rightarrow> metadata \<Rightarrow> path list \<Rightarrow> (fs, int) eff" where
  "merge_cov_xlm env exec md dbs =
     (let cov = md_dir_cov md; pd = project_dirs_of (fe_root env); scripts = path_div (OT_LOWRISC_IP pd) ''dv/tools/xcelium'';
          imc = [''imc'', ''-64bit'', ''-licqueue''];
          merge_cmd = imc @ [''-exec'', path_str (path_div scripts ''cov_merge.tcl''), ''-logfile'', path_str (path_div cov ''merge.log'')];
          report_cmd = imc @ [''-load'', path_str (md_dir_cov_merged md),
            ''-init'', path_str (path_div (CORE_IBEX pd) ''waivers/coverage_waivers_xlm.tcl''),
            ''-exec'', path_str (path_div scripts ''cov_report.tcl''), ''-logfile'', path_str (path_div cov ''report.log'')];
          vars = [(''cov_merge_db_dir'', path_str (md_dir_cov_merged md)), (''cov_report_dir'', path_str (md_dir_cov_report md)), (''cov_db_dirs'', []),
            (''cov_db_runfile'', path_str (path_div cov ''cov_db_runfile'')), (''DUT_TOP'', md_str ''dut_cov_rtl_path'' [] md)]
      in ebind (eupd (write_text (path_div cov ''cov_db_runfile'') (join [NL] (map (\<lambda>d. path_str (path_parent d)) dbs) @ [NL]))) (\<lambda>_.
         ebind (eupd (mkdir_parents (md_dir_cov_merged md))) (\<lambda>_.
         ebind (imc_logged exec vars (path_div cov ''merge.log.stdout'') merge_cmd) (\<lambda>merge_ret.
           if merge_ret \<noteq> 0 then eret merge_ret
           else ebind (eupd (mkdir_parents (md_dir_cov_report md))) (\<lambda>_.
             imc_logged exec vars (path_div cov ''report.log.stdout'') report_cmd)))))"

text \<open>\<open>set_order\<close> is the order in which the set of databases is iterated. The message of the \<open>ValueError\<close> for an unknown
  simulator reads an argument that the parser does not have.\<close>

definition merge_cov :: "flow_env \<Rightarrow> exec_env \<Rightarrow> (path list \<Rightarrow> path list) \<Rightarrow> metadata \<Rightarrow> (fs, int) eff" where
  "merge_cov env exec set_order md =
     (if md_simulator md \<notin> {''xlm'', ''vcs''} then eraise AttributeError
      else
        ebind (eupd (mkdir_parents (md_dir_cov md))) (\<lambda>_.
        ebind (eget (\<lambda>fs. find_cov_dbs fs (md_dir_run md) (md_simulator md))) (\<lambda>found.
          case found of
            None \<Rightarrow> eraise TypeError
          | Some dbs \<Rightarrow> if md_simulator md = ''vcs'' then merge_cov_vcs env md (set_order dbs) else merge_cov_xlm env exec md (set_order dbs))))"

definition get_fcov :: "flow_env \<Rightarrow> metadata \<Rightarrow> (fs, int) eff" where
  "get_fcov env md =
     ebind (eupd (mkdir_parents (md_dir_fcov md))) (\<lambda>_.
       case md_isa_ibex md of
         None \<Rightarrow> eraise TypeError
       | Some isa \<Rightarrow> exec_logged env (path_div (md_dir_fcov md) ''riscvdv_fcov_stdout.log'')
           (get_cov_cmd (project_dirs_of (fe_root env)) (md_dir_run md) (md_dir_fcov md) (md_simulator md) isa (md_verbose md)))"

section \<open>The verdict of a simulated run\<close>

text \<open>Children whose end is a function of the command.\<close>

definition exec_ends :: "flow_env \<Rightarrow> (string list \<Rightarrow> child) \<Rightarrow> bool" where
  "exec_ends env en \<longleftrightarrow> (\<forall>c fs. fst (fe_exec env c fs) = en c)"

lemma exec_reraise_ends: "exec_ends env en \<Longrightarrow> exec_reraise env c fs = (Ok (run_one (en c) True), snd (fe_exec env c fs))"
  by (cases "fe_exec env c fs") (simp add: exec_reraise_def exec_ends_def, metis fst_conv)

lemma run_one_None: "run_one c True = None \<longleftrightarrow> c = TimedOut"
  by (cases c) (simp_all add: run_one_def)

lemma simulate_cmds_killed:
  assumes "exec_ends env en" "simulate_cmds env p cs fs = (Ok killed, fs')"
  shows "killed \<longleftrightarrow> TimedOut \<in> en ` set cs"
  using assms(2)
proof (induction cs arbitrary: fs)
  case (Cons c cs)
  then obtain fs1 where
    "(case run_one (en c) True of None \<Rightarrow> eret True | Some rc \<Rightarrow> simulate_cmds env p cs) fs1 = (Ok killed, fs')"
    by (auto simp: ebind_result_Ok exec_reraise_ends [OF assms(1)])
  with Cons.IH run_one_None [of "en c"] show ?case by (cases "run_one (en c) True") auto
qed simp

lemma run_rtl_OkE:
  assumes "run_rtl env md testlist sims run fs = (Ok (rc, run'), fs')"
  obtains opts killed fs1 where "rc = 0" "simulate_cmds env (path_div (run_dir_test run) ''rtl_sim_stdstreams.log'') (run_rtl_cmds run') fs1 = (Ok killed, fs')"
    "run_result run' = (if killed then timed_out md else id) ((run_result run)\<lparr>tr_timeout_s := (case test_timeout md opts of JInt t \<Rightarrow> Some t | _ \<Rightarrow> None),
       tr_rtl_log := rtl_log_of md (run_dir_test run), tr_rtl_trace := rtl_trace_of (run_dir_test run)\<rparr>)"
  using assms unfolding run_rtl_def Let_def ebind_result_Ok eupd_Ok
  by (elim exE conjE) (auto simp: ebind_result_Ok split: if_splits)


text \<open>C40: a run that was killed once can not pass again: a later simulation does not take the mark back, and the check fails the
  run without reading its logs.\<close>

theorem killed_run_never_passes:
  assumes "tr_failure_mode (run_result run) = Some TIMEOUT" "run_rtl env md testlist sims run fs = (Ok (rc, run'), fs1)"
  shows "\<exists>trr. compare_test_run dv describe (run_result run') fs1 = (Ok trr, fs1) \<and> tr_passed trr = Some False"
proof -
  have "tr_failure_mode (run_result run') = Some TIMEOUT"
    using assms(2) by (rule run_rtl_OkE) (simp add: assms(1) timed_out_def)
  then show ?thesis by (simp add: compare_test_run_def)
qed

lemma list_all2_image: "list_all2 (\<lambda>x y. \<exists>t. P x t \<and> f t = y) xs ys \<Longrightarrow> \<exists>ts. list_all2 P xs ts \<and> ys = map f ts"
proof (induction rule: list_all2_induct)
  case (Cons x xs y ys)
  from Cons.hyps(1) obtain t where "P x t" "f t = y" by blast
  moreover from Cons.IH obtain ts where "list_all2 P xs ts" "ys = map f ts" by blast
  ultimately have "list_all2 P (x # xs) (t # ts) \<and> y # ys = map f (t # ts)" by simp
  then show ?case by (rule exI)
qed simp

text \<open>The flags of pkg-config reach the compiler word by word.\<close>

theorem pkgconfig_flags_words:
  assumes "get_iss_pkgconfig_flags check_output specifiers iss_pc simulator = Ok flags"
  shows "\<exists>tss. list_all2 (\<lambda>s ts. \<exists>out. check_output (''pkg-config'' # s # iss_pc) = Ok out \<and> shlex_split (strip out) = Ok ts) specifiers tss
    \<and> shlex_split flags = Ok (map (fixup_xcelium_rpath_token simulator) (concat tss))"
proof -
  let ?P = "\<lambda>s ts. \<exists>out. check_output (''pkg-config'' # s # iss_pc) = Ok out \<and> shlex_split (strip out) = Ok ts"
  from assms obtain yss where z: "list_all2 (\<lambda>s ys. \<exists>out. check_output (''pkg-config'' # s # iss_pc) = Ok out
        \<and> (\<exists>ts. shlex_split (strip out) = Ok ts \<and> map (fixup_xcelium_rpath_token simulator) ts = ys)) specifiers yss"
      and flags: "flags = shlex_join (concat yss)"
    by (auto simp: get_iss_pkgconfig_flags_def rbind_eq_Ok rmapM_eq_Ok)
  have y: "list_all2 (\<lambda>s ys. \<exists>ts. ?P s ts \<and> map (fixup_xcelium_rpath_token simulator) ts = ys) specifiers yss"
    by (rule list_all2_mono [OF z]) blast
  from list_all2_image [OF y] obtain tss where "list_all2 ?P specifiers tss" "yss = map (map (fixup_xcelium_rpath_token simulator)) tss"
    by (elim exE conjE)
  then show ?thesis by (intro exI [of _ tss]) (simp add: flags shlex_split_join map_concat)
qed

text \<open>The databases that are merged are those below the directory of the runs, each once; without one, the merge raises.\<close>

theorem merge_cov_databases:
  assumes "md_simulator md = ''vcs''" "mkdir_parents (md_dir_cov md) fs = Ok fs1" "\<And>xs. set (set_order xs) = set xs \<and> distinct (set_order xs) = distinct xs"
  shows "case find_cov_dbs fs1 (md_dir_run md) ''vcs'' of
      None \<Rightarrow> merge_cov env exec set_order md fs = (Err TypeError, fs1)
    | Some found \<Rightarrow> \<exists>dbs. set dbs = {p \<in> fst ` set fs1. is_below (md_dir_run md) p \<and> path_name p = ''test.vdb''} \<and> distinct dbs
        \<and> merge_cov env exec set_order md fs = exec_logged env (path_div (md_dir_cov md) ''merge.log.stdout'') (urg_cmd md dbs) fs1"
proof (cases "find_cov_dbs fs1 (md_dir_run md) ''vcs''")
  case None
  then show ?thesis using assms(1,2) by (simp add: merge_cov_def ebind_def eupd_def)
next
  case (Some found)
  then have "found = uniq (rglob_name fs1 (md_dir_run md) ''test.vdb'')" by (auto simp: find_cov_dbs_def Let_def split: if_splits)
  then have f: "set found = {p \<in> fst ` set fs1. is_below (md_dir_run md) p \<and> path_name p = ''test.vdb''}" "distinct found"
    by (auto simp: rglob_name_def)
  with Some assms show ?thesis
    by (auto simp: merge_cov_def ebind_def eupd_def merge_cov_vcs_def intro!: exI [of _ "set_order found"])
qed

section \<open>Examples\<close>

definition sim_md :: metadata where
  "sim_md = demo_md1\<lparr>md_settings := [(''simulator'', MStr ''xlm''), (''ibex_config'', MStr ''small'')]\<rparr>"

definition sim_entry :: json where
  "sim_entry = JObj [(''tool'', JStr ''xlm''), (''sim'', JObj [(''cmd'', JArr [JStr ''xrun +UVM_TESTNAME=<rtl_test> -svseed <seed>''])])]"

definition sim_testlist :: "json list" where
  "sim_testlist = [JObj [(''test'', JStr ''riscv_arith''), (''rtl_test'', JStr ''core_ibex_base_test'')]]"

definition sim_fs :: fs where
  "sim_fs = demo_config_fs @ [(path_of ''/out'', Directory), (path_of ''/out/t'', Directory)]"

text \<open>A simulator that writes the log and the trace of a passing run.\<close>

definition sim_env :: "child \<Rightarrow> flow_env" where
  "sim_env ended = \<lparr>fe_cmd = \<lparr>ce_resolve = \<lambda>p. p, ce_environ = \<lambda>v. None\<rparr>, fe_load = demo_load,
     fe_exec = \<lambda>cmd fs. (ended, demo_run_fs ''RISC-V UVM TEST PASSED'' @ fs),
     fe_cwd = ''/'', fe_tmp = path_of ''/tmp/x'', fe_root = path_of ''/ibex''\<rparr>"

definition sim_run :: "failure_mode option \<Rightarrow> flow_run" where
  "sim_run failed = \<lparr>run_directed = False, run_testdotseed = ''riscv_arith.5'', run_testname = ''riscv_arith'', run_seed = 5,
     run_simulator = ''xlm'', run_iss = ''spike'', run_dir_test = path_of ''/out/t'', run_metadata_pickle = path_of ''/out/md/metadata.pickle'',
     run_pickle_file = path_of ''/out/md/riscv_arith.5.pickle'', run_yaml_file = path_of ''/out/t/trr.yaml'', run_gen_test = [], run_gen_opts = [],
     run_rtl_test = [], run_sim_opts = [], run_discrete_debug_module = None, run_directed_data = None, run_assembly = None, run_objectfile = None,
     run_binary = Some (path_of ''/out/t/test.bin''), run_vmem_main = None, run_vmem_dm = None, run_binary_main = None, run_binary_dm = None,
     run_compile_cmds = [], run_rtl_cmds = [], run_result = (demo_run None)\<lparr>tr_failure_mode := failed\<rparr>\<rparr>"

lemma sim_env_ends: "exec_ends (sim_env c) (\<lambda>cmd. c)"
  by (simp add: exec_ends_def sim_env_def)

lemma sim_runs:
  "\<exists>rc run' fs1 trr fs2. run_rtl (sim_env (Returned 1)) sim_md sim_testlist [sim_entry] (sim_run None) sim_fs = (Ok (rc, run'), fs1)
     \<and> run_rtl_cmds run' = [[''xrun'', ''+UVM_TESTNAME=core_ibex_base_test'', ''-svseed'', ''5'']]
     \<and> compare_test_run demo_dv (\<lambda>e. []) (run_result run') fs1 = (Ok trr, fs2) \<and> tr_passed trr = Some True"
proof -
  have "case run_rtl (sim_env (Returned 1)) sim_md sim_testlist [sim_entry] (sim_run None) sim_fs of
      (Inr (rc, run'), fs1) \<Rightarrow> run_rtl_cmds run' = [[''xrun'', ''+UVM_TESTNAME=core_ibex_base_test'', ''-svseed'', ''5'']]
        \<and> \<not> isl (fst (compare_test_run demo_dv (\<lambda>e. []) (run_result run') fs1))
        \<and> tr_passed (projr (fst (compare_test_run demo_dv (\<lambda>e. []) (run_result run') fs1))) = Some True
    | _ \<Rightarrow> False"
    by code_simp
  then obtain rc run' fs1 where "run_rtl (sim_env (Returned 1)) sim_md sim_testlist [sim_entry] (sim_run None) sim_fs = (Ok (rc, run'), fs1)"
      "run_rtl_cmds run' = [[''xrun'', ''+UVM_TESTNAME=core_ibex_base_test'', ''-svseed'', ''5'']]"
      "\<not> isl (fst (compare_test_run demo_dv (\<lambda>e. []) (run_result run') fs1))"
      "tr_passed (projr (fst (compare_test_run demo_dv (\<lambda>e. []) (run_result run') fs1))) = Some True"
    by (auto split: prod.split_asm sum.split_asm)
  then show ?thesis by (metis prod.collapse sum.collapse(2))
qed


theorem killed_run_never_passes_witness:
  "\<exists>run' fs1 trr. run_rtl (sim_env (Returned 0)) sim_md sim_testlist [sim_entry] (sim_run (Some TIMEOUT)) sim_fs = (Ok (0, run'), fs1)
     \<and> compare_test_run demo_dv (\<lambda>e. []) (run_result run') fs1 = (Ok trr, fs1) \<and> tr_passed trr = Some False"
proof -
  have "case run_rtl (sim_env (Returned 0)) sim_md sim_testlist [sim_entry] (sim_run (Some TIMEOUT)) sim_fs of
      (Inr (rc, run'), fs1) \<Rightarrow> rc = 0 | _ \<Rightarrow> False"
    by code_simp
  then obtain run' fs1 where r: "run_rtl (sim_env (Returned 0)) sim_md sim_testlist [sim_entry] (sim_run (Some TIMEOUT)) sim_fs = (Ok (0, run'), fs1)"
    by (auto split: prod.splits sum.splits)
  have "tr_failure_mode (run_result (sim_run (Some TIMEOUT))) = Some TIMEOUT" by (simp add: sim_run_def demo_run_def)
  from killed_run_never_passes [OF this r, of demo_dv "\<lambda>e. []"] r show ?thesis by blast
qed

end
