(* ===== verification/Process_Runner.thy ===== *)
theory Process_Runner
  imports Py_Float
begin

text \<open>
  The scheduler of the formal conductor (\<open>dv/formal/conductor.py\<close>): \<open>Process\<close>, its future, and
  \<open>ProcessRunner\<close>, which starts, kills, restarts and drops processes at every poll.

  What a poll observes is an argument (\<open>observation\<close>): the free memory, the clock, and per child process
  its resident memory, exit code and outputs. A child is named by a handle that is new at every
  \<open>Popen\<close>, a process by a number that is new at every construction (the identity of the object). What leaves the
  runner stays visible in \<open>dropped\<close>: its future is what the caller of \<open>shell\<close> waits for. Log lines are not modelled.
\<close>

section \<open>Processes\<close>

text \<open>\<open>max(a, b)\<close> and \<open>min(a, b)\<close> keep the first argument unless the second is strictly better.\<close>

definition pymax :: "pyfloat \<Rightarrow> pyfloat \<Rightarrow> pyfloat" where
  "pymax a b = (if flt a b then b else a)"

definition pymin :: "pyfloat \<Rightarrow> pyfloat \<Rightarrow> pyfloat" where
  "pymin a b = (if flt b a then b else a)"

record process_result =
  pr_code :: "int option"
  pr_reason :: string
  pr_max_mem :: pyfloat
  pr_dt :: pyfloat
  pr_stdout :: "string option"
  pr_stderr :: "string option"

datatype future = Waiting | Cancelled | Finished process_result

datatype kill_request = Kill | Restart

record process =
  proc_id :: nat
  cmd :: string
  expected_memory :: pyfloat
  expected_time :: pyfloat
  timeout :: "pyfloat option"
  kill_req :: "kill_request option"
  debug_slow_count :: int
  handle :: "nat option"
  fut :: future
  max_memory :: pyfloat
  start_time :: pyfloat

record observation =
  available :: int
  clock :: pyfloat
  start_clock :: "nat \<Rightarrow> pyfloat"
  poll_clock :: "nat \<Rightarrow> pyfloat"
  rss :: "nat \<Rightarrow> int"
  exit_code :: "nat \<Rightarrow> int option"
  out_text :: "nat \<Rightarrow> string"
  err_text :: "nat \<Rightarrow> string"

definition GB :: int where "GB = 1024 ^ 3"

definition gigabytes :: "int \<Rightarrow> pyfloat" where
  "gigabytes n = rnd (of_int n / of_int GB)"

definition global_memory_free :: "observation \<Rightarrow> pyfloat" where
  "global_memory_free ob = gigabytes (available ob)"

text \<open>\<open>floor(x)\<close>; the clock is finite.\<close>

fun ffloor :: "pyfloat \<Rightarrow> int" where
  "ffloor (Fin q) = \<lfloor>q\<rfloor>"
| "ffloor _ = 0"

definition fdiv_by :: "pyfloat \<Rightarrow> rat \<Rightarrow> pyfloat" where
  "fdiv_by x d = (case x of Fin q \<Rightarrow> rnd (q / d) | _ \<Rightarrow> x)"

definition from_proc ::
  "observation \<Rightarrow> nat \<Rightarrow> int option \<Rightarrow> string \<Rightarrow> pyfloat \<Rightarrow> pyfloat \<Rightarrow> process_result" where
  "from_proc ob h c why mem dt =
     \<lparr>pr_code = c, pr_reason = why, pr_max_mem = mem, pr_dt = dt,
      pr_stdout = Some (out_text ob h), pr_stderr = Some (err_text ob h)\<rparr>"

definition new_process :: "nat \<Rightarrow> string \<Rightarrow> pyfloat \<Rightarrow> pyfloat \<Rightarrow> pyfloat option \<Rightarrow> process" where
  "new_process i c mem time_left limit =
     \<lparr>proc_id = i, cmd = c, expected_memory = mem, expected_time = time_left, timeout = limit, kill_req = None,
      debug_slow_count = 0, handle = None, fut = Waiting, max_memory = Fin 0, start_time = Fin 0\<rparr>"

definition process_start :: "observation \<Rightarrow> nat \<Rightarrow> process \<Rightarrow> process" where
  "process_start ob h p =
     p\<lparr>handle := Some h, start_time := start_clock ob h, max_memory := Fin 0, debug_slow_count := 0\<rparr>"

definition process_kill :: "process \<Rightarrow> process" where
  "process_kill p = p\<lparr>kill_req := Some Kill\<rparr>"

definition kill_restart :: "process \<Rightarrow> process" where
  "kill_restart p = p\<lparr>kill_req := Some Restart\<rparr>"

text \<open>\<open>ProcessFuture.cancel\<close>: the process is killed whatever the state of the future.\<close>

definition future_cancel :: "process \<Rightarrow> process" where
  "future_cancel p =
     (process_kill p)\<lparr>fut := (case fut p of Waiting \<Rightarrow> Cancelled | f \<Rightarrow> f)\<rparr>"

text \<open>\<open>if not self.future.cancelled(): self.future.set_result(r)\<close>; a second result raises.\<close>

definition set_result :: "process_result \<Rightarrow> process \<Rightarrow> process res" where
  "set_result r p =
     (case fut p of Cancelled \<Rightarrow> Ok p
      | Waiting \<Rightarrow> Ok (p\<lparr>fut := Finished r\<rparr>)
      | Finished _ \<Rightarrow> Err InvalidStateError)"

definition stop_with :: "process_result \<Rightarrow> process \<Rightarrow> (bool \<times> process) res" where
  "stop_with r p = rbind (set_result r p) (\<lambda>p'. Ok (True, p'))"

definition process_poll :: "observation \<Rightarrow> process \<Rightarrow> (bool \<times> process) res" where
  "process_poll ob p0 =
     rbind (res_of AssertionError (handle p0)) (\<lambda>h.
       let mem = pymax (gigabytes (rss ob h)) (max_memory p0);
           p = p0\<lparr>max_memory := mem\<rparr>;
           dt = fsub (poll_clock ob h) (start_time p);
           c = exit_code ob h
       in if c \<noteq> None \<and> kill_req p = None then stop_with (from_proc ob h c ''OK'' mem dt) p
          else if kill_req p = Some Restart then
            Ok (True, p\<lparr>kill_req := None, expected_memory := pymax (expected_memory p) mem,
                        expected_time := pymax (expected_time p) dt\<rparr>)
          else if (case timeout p of None \<Rightarrow> False | Some limit \<Rightarrow> flt limit dt) then
            stop_with (from_proc ob h None ''TIMEOUT'' mem dt) p
          else if kill_req p = Some Kill then
            stop_with (from_proc ob h None ''UNINTERESTED'' mem dt) p
          else let n = ffloor (fdiv_by dt 60)
            in Ok (False, if debug_slow_count p < n then p\<lparr>debug_slow_count := n\<rparr> else p))"

section \<open>The runner\<close>

text \<open>\<open>sum\<close> over floats is compensated (Python 3.12, which the syntax of the source needs).\<close>

definition fabs :: "pyfloat \<Rightarrow> pyfloat" where
  "fabs x = (case x of Fin q \<Rightarrow> Fin \<bar>q\<bar> | NaN \<Rightarrow> NaN | _ \<Rightarrow> PInf)"

fun neumaier :: "pyfloat \<Rightarrow> pyfloat \<Rightarrow> pyfloat list \<Rightarrow> pyfloat" where
  "neumaier s c [] = (if isfinite c then fadd s c else s)"
| "neumaier s c (x # xs) =
     (let t = fadd s x
      in neumaier t (fadd c (if fle (fabs x) (fabs s) then fadd (fsub s t) x else fadd (fsub x t) s)) xs)"

definition py_sum :: "pyfloat list \<Rightarrow> pyfloat" where
  "py_sum xs = neumaier (Fin 0) (Fin 0) xs"

record runner_args =
  max_mem :: pyfloat
  no_kill :: bool
  cpu_count :: "int option"

definition GLOBAL_MEMORY_BUFFER :: pyfloat where "GLOBAL_MEMORY_BUFFER = Fin 5"

definition MAX_RUNNING :: "runner_args \<Rightarrow> int" where
  "MAX_RUNNING a = (case cpu_count a of None \<Rightarrow> 8 | Some n \<Rightarrow> if n = 0 then 8 else n) - 2"

record runner =
  pending :: "process list"
  running :: "process list"
  dropped :: "process list"
  next_handle :: nat
  next_id :: nat
  first_start :: pyfloat
  debug_count :: int

definition runner_init :: "pyfloat \<Rightarrow> runner" where
  "runner_init now =
     \<lparr>pending = [], running = [], dropped = [], next_handle = 0, next_id = 0, first_start = now, debug_count = 0\<rparr>"

definition runner_append :: "process \<Rightarrow> runner \<Rightarrow> runner" where
  "runner_append p s = s\<lparr>pending := p # pending s\<rparr>"

definition children_used_mem :: "process list \<Rightarrow> pyfloat" where
  "children_used_mem ps = py_sum (map max_memory ps)"

definition mem_avail :: "runner_args \<Rightarrow> observation \<Rightarrow> process list \<Rightarrow> pyfloat" where
  "mem_avail a ob ps =
     (if feq (max_mem a) (Fin 0) then global_memory_free ob
      else pymin (global_memory_free ob) (pymax (fsub (max_mem a) (children_used_mem ps)) (Fin 0)))"

function kill_loop :: "runner_args \<Rightarrow> observation \<Rightarrow> pyfloat \<Rightarrow> process list \<Rightarrow> process list
    \<Rightarrow> (pyfloat \<times> process list \<times> process list) res" where
  "kill_loop a ob free pend run =
     (if \<not> no_kill a \<and> flt free GLOBAL_MEMORY_BUFFER \<and> 1 < length run then
        rbind (process_poll ob (kill_restart (last run))) (\<lambda>(_, p).
          kill_loop a ob (fadd free (pymax (max_memory (last run)) (Fin 3))) (pend @ [p]) (butlast run))
      else Ok (free, pend, run))"
  by auto
termination
  by (relation "measure (\<lambda>(a, ob, free, pend, run). length run)") auto

function start_pending :: "runner_args \<Rightarrow> observation \<Rightarrow> pyfloat \<Rightarrow> nat \<Rightarrow> process list \<Rightarrow> process list
    \<Rightarrow> nat \<times> process list \<times> process list" where
  "start_pending a ob free h pend run =
     (if int (length run) < MAX_RUNNING a \<and> pend \<noteq> []
         \<and> flt (fadd (expected_memory (last pend)) GLOBAL_MEMORY_BUFFER) free then
        start_pending a ob (fsub free (pymax (expected_memory (last pend)) (Fin 3))) (Suc h) (butlast pend)
          (run @ [process_start ob h (last pend)])
      else (h, pend, run))"
  by auto
termination
  by (relation "measure (\<lambda>(a, ob, free, h, pend, run). length pend)") auto

declare kill_loop.simps [simp del] start_pending.simps [simp del]

text \<open>The processes that stay, and those that finished, in order.\<close>

fun drop_finished :: "observation \<Rightarrow> process list \<Rightarrow> (process list \<times> process list) res" where
  "drop_finished ob [] = Ok ([], [])"
| "drop_finished ob (p # ps) =
     rbind (process_poll ob p) (\<lambda>(stop, p').
     rbind (drop_finished ob ps) (\<lambda>(stay, gone).
       Ok (if stop then (stay, p' # gone) else (p' # stay, gone))))"

definition runner_poll :: "runner_args \<Rightarrow> observation \<Rightarrow> runner \<Rightarrow> runner res" where
  "runner_poll a ob s =
     rbind (kill_loop a ob (mem_avail a ob (running s)) (pending s) (running s)) (\<lambda>(free, pend, run).
       let (h, pend', run') = start_pending a ob free (next_handle s) pend run;
           start = (if h \<noteq> next_handle s \<and> feq (first_start s) (Fin 0) then clock ob else first_start s);
           n = ffloor (fdiv_by (fsub (clock ob) start) 30)
       in rbind (drop_finished ob run') (\<lambda>(stay, gone).
          Ok (s\<lparr>pending := pend', running := stay, dropped := dropped s @ gone, next_handle := h,
                first_start := start, debug_count := (if debug_count s < n then n else debug_count s)\<rparr>)))"

text \<open>Between two polls: \<open>shell\<close> constructs a process and appends it; a future is cancelled.\<close>

datatype request = Shell string pyfloat "pyfloat option" | CancelFuture nat

definition shell :: "string \<Rightarrow> pyfloat \<Rightarrow> pyfloat option \<Rightarrow> runner \<Rightarrow> runner" where
  "shell c mem limit s =
     runner_append (new_process (next_id s) c mem (Fin 0) limit) (s\<lparr>next_id := Suc (next_id s)\<rparr>)"

definition cancel_in :: "nat \<Rightarrow> process list \<Rightarrow> process list" where
  "cancel_in i ps = map (\<lambda>p. if proc_id p = i then future_cancel p else p) ps"

fun serve :: "request \<Rightarrow> runner \<Rightarrow> runner" where
  "serve (Shell c mem limit) s = shell c mem limit s"
| "serve (CancelFuture i) s =
     s\<lparr>pending := cancel_in i (pending s), running := cancel_in i (running s), dropped := cancel_in i (dropped s)\<rparr>"

text \<open>One turn of the event loop: what the tasks asked for since the last poll, then the poll.\<close>

definition tick :: "runner_args \<Rightarrow> request list \<times> observation \<Rightarrow> runner \<Rightarrow> runner res" where
  "tick a e s = runner_poll a (snd e) (fold serve (fst e) s)"

primrec run_steps :: "('e \<Rightarrow> 's \<Rightarrow> 's res) \<Rightarrow> (nat \<Rightarrow> 'e) \<Rightarrow> 's \<Rightarrow> nat \<Rightarrow> 's res" where
  "run_steps f env s 0 = Ok s"
| "run_steps f env s (Suc t) = rbind (run_steps f env s t) (f (env t))"

section \<open>What a poll keeps\<close>

text \<open>A process the runner holds: no restart is left over, and its future has no result yet.\<close>

definition wf_queued :: "process \<Rightarrow> bool" where
  "wf_queued p \<longleftrightarrow> kill_req p \<noteq> Some Restart \<and> (\<forall>r. fut p \<noteq> Finished r)"

definition queue :: "runner \<Rightarrow> process list" where
  "queue s = running s @ rev (pending s)"

abbreviation ids :: "process list \<Rightarrow> nat list" where
  "ids ps \<equiv> map proc_id ps"

definition runner_inv :: "runner \<Rightarrow> bool" where
  "runner_inv s \<longleftrightarrow> list_all wf_queued (queue s) \<and> list_all (\<lambda>p. handle p \<noteq> None) (running s)
     \<and> list_all (\<lambda>p. fut p \<noteq> Waiting) (dropped s)
     \<and> distinct (ids (queue s @ dropped s)) \<and> list_all (\<lambda>i. i < next_id s) (ids (queue s @ dropped s))"

lemma map_butlast_last: "xs \<noteq> [] \<Longrightarrow> map f (butlast xs) @ f (last xs) # ys = map f xs @ ys"
  by (cases xs rule: rev_cases) auto

lemma map_rev_butlast_last: "xs \<noteq> [] \<Longrightarrow> f (last xs) # map f (rev (butlast xs)) = map f (rev xs)"
  by (cases xs rule: rev_cases) auto

lemma stop_with_queued:
  "wf_queued p \<Longrightarrow> \<exists>p'. stop_with r p = Ok (True, p') \<and> fut p' \<noteq> Waiting \<and> proc_id p' = proc_id p
     \<and> (fut p = Waiting \<longrightarrow> fut p' = Finished r)"
  by (cases "fut p") (auto simp: stop_with_def set_result_def wf_queued_def)

lemma poll_running:
  assumes "handle p = Some h" and "wf_queued p"
  shows "\<exists>b p'. process_poll ob p = Ok (b, p') \<and> proc_id p' = proc_id p
     \<and> (b \<longrightarrow> fut p' \<noteq> Waiting) \<and> (\<not> b \<longrightarrow> wf_queued p' \<and> handle p' = Some h \<and> exit_code ob h = None)"
proof -
  have stop: "\<exists>b p'. stop_with r (p\<lparr>max_memory := m\<rparr>) = Ok (b, p') \<and> proc_id p' = proc_id p
     \<and> (b \<longrightarrow> fut p' \<noteq> Waiting) \<and> (\<not> b \<longrightarrow> Q p')" for r m Q
    using stop_with_queued [of "p\<lparr>max_memory := m\<rparr>" r] assms(2) by (auto simp: wf_queued_def)
  consider "kill_req p = None" | "kill_req p = Some Kill"
    using assms(2) by (cases "kill_req p") (auto simp: wf_queued_def intro: kill_request.exhaust)
  then show ?thesis
    using assms by cases (auto simp: process_poll_def Let_def stop wf_queued_def)
qed

lemma poll_restart:
  assumes "handle p \<noteq> None" and "wf_queued p"
  shows "\<exists>p'. process_poll ob (kill_restart p) = Ok (True, p') \<and> proc_id p' = proc_id p \<and> wf_queued p'"
  using assms by (auto simp: process_poll_def Let_def kill_restart_def wf_queued_def)
lemma kill_loop_queue:
  assumes "list_all wf_queued pend" and "list_all wf_queued run" and "list_all (\<lambda>p. handle p \<noteq> None) run"
  shows "\<exists>free' pend' n. kill_loop a ob free pend run = Ok (free', pend', take n run)
     \<and> ids (take n run @ rev pend') = ids (run @ rev pend) \<and> list_all wf_queued pend'
     \<and> (run = [] \<or> 0 < n)"
  using assms
proof (induction a ob free pend run rule: kill_loop.induct)
  case (1 a ob free pend run)
  let ?go = "\<not> no_kill a \<and> flt free GLOBAL_MEMORY_BUFFER \<and> 1 < length run"
  show ?case
  proof (cases ?go)
    case True
    then have run: "run \<noteq> []" "butlast run \<noteq> []" by (auto simp: butlast_conv_take)
    with "1.prems" have l: "handle (last run) \<noteq> None" "wf_queued (last run)" by (auto simp: list_all_iff)
    from poll_restart [OF this] obtain p where p: "process_poll ob (kill_restart (last run)) = Ok (True, p)"
      "proc_id p = proc_id (last run)" "wf_queued p" by blast
    let ?free = "fadd free (pymax (max_memory (last run)) (Fin 3))"
    have "\<exists>free' pend' n. kill_loop a ob ?free (pend @ [p]) (butlast run) = Ok (free', pend', take n (butlast run))
        \<and> ids (take n (butlast run) @ rev pend') = ids (butlast run @ rev (pend @ [p])) \<and> list_all wf_queued pend'
        \<and> (butlast run = [] \<or> 0 < n)"
      by (rule "1.IH" [OF True p(1)]) (use "1.prems" p(3) in \<open>auto simp: list_all_iff dest: in_set_butlastD\<close>)
    then obtain free' pend' n where *: "kill_loop a ob ?free (pend @ [p]) (butlast run)
        = Ok (free', pend', take n (butlast run))"
      "ids (take n (butlast run) @ rev pend') = ids (butlast run @ rev (pend @ [p]))" "list_all wf_queued pend'" "0 < n"
      using run(2) by blast
    have "take n (butlast run) = take (min n (length run - 1)) run"
      by (simp add: butlast_conv_take min.commute)
    moreover have "ids (butlast run @ rev (pend @ [p])) = ids (run @ rev pend)"
      using run(1) p(2) by (simp add: map_butlast_last)
    moreover have "kill_loop a ob free pend run = kill_loop a ob ?free (pend @ [p]) (butlast run)"
      using True p(1) by (subst kill_loop.simps) simp
    moreover have "0 < min n (length run - 1)" using True *(4) by auto
    ultimately show ?thesis using * by metis
  next
    case False
    then have "kill_loop a ob free pend run = Ok (free, pend, run)" by (subst kill_loop.simps) auto
    with "1.prems" show ?thesis by (intro exI [of _ free] exI [of _ pend] exI [of _ "length run"]) auto
  qed
qed

lemma start_pending_queue:
  assumes "start_pending a ob free h pend run = (h', pend', run')"
    and "list_all wf_queued pend" and "list_all wf_queued run" and "list_all (\<lambda>p. handle p \<noteq> None) run"
  shows "ids (run' @ rev pend') = ids (run @ rev pend) \<and> list_all wf_queued pend' \<and> list_all wf_queued run'
     \<and> list_all (\<lambda>p. handle p \<noteq> None) run' \<and> take (length run) run' = run"
  using assms
proof (induction a ob free h pend run rule: start_pending.induct)
  case (1 a ob free h pend run)
  let ?go = "int (length run) < MAX_RUNNING a \<and> pend \<noteq> []
    \<and> flt (fadd (expected_memory (last pend)) GLOBAL_MEMORY_BUFFER) free"
  show ?case
  proof (cases ?go)
    case True
    let ?p = "process_start ob h (last pend)"
    have "wf_queued ?p" "handle ?p \<noteq> None" "proc_id ?p = proc_id (last pend)"
      using "1.prems"(2) True by (auto simp: process_start_def wf_queued_def list_all_iff)
    moreover have "ids (run' @ rev pend') = ids ((run @ [?p]) @ rev (butlast pend)) \<and> list_all wf_queued pend'
        \<and> list_all wf_queued run' \<and> list_all (\<lambda>p. handle p \<noteq> None) run' \<and> take (length (run @ [?p])) run' = run @ [?p]"
      by (rule "1.IH" [OF True]) (use "1.prems" True calculation in
          \<open>auto simp: list_all_iff start_pending.simps [of a ob free h pend run] dest: in_set_butlastD\<close>)
    moreover have "take (length run) run' = take (length run) (take (length (run @ [?p])) run')"
      by (simp add: min_def)
    ultimately show ?thesis using True by (simp add: map_rev_butlast_last)
  next
    case False
    with "1.prems" show ?thesis by (simp add: start_pending.simps [of a ob free h pend run])
  qed
qed
lemma start_pending_bound:
  assumes "start_pending a ob free h pend run = (h', pend', run')"
  shows "int (length run') \<le> max (int (length run)) (MAX_RUNNING a)"
  using assms
proof (induction a ob free h pend run rule: start_pending.induct)
  case (1 a ob free h pend run)
  then show ?case by (subst (asm) (2) start_pending.simps) (auto split: if_splits)
qed

lemma start_pending_starts:
  assumes "start_pending a ob free h pend [] = (h', pend', run')" and "pend \<noteq> []" and "0 < MAX_RUNNING a"
    and "flt (fadd (expected_memory (last pend)) GLOBAL_MEMORY_BUFFER) free"
    and "list_all wf_queued pend"
  shows "run' \<noteq> []"
proof -
  let ?p = "process_start ob h (last pend)"
  have p: "wf_queued ?p" "handle ?p \<noteq> None"
    using assms by (auto simp: process_start_def wf_queued_def list_all_iff)
  have "start_pending a ob (fsub free (pymax (expected_memory (last pend)) (Fin 3))) (Suc h) (butlast pend) [?p]
      = (h', pend', run')"
    unfolding assms(1) [symmetric] by (subst (2) start_pending.simps) (use assms(2-4) in simp)
  moreover have "list_all wf_queued (butlast pend)"
    using assms(5) by (auto simp: list_all_iff dest: in_set_butlastD)
  ultimately have "take (length [?p]) run' = [?p]"
    using p by (blast dest: start_pending_queue [of a ob _ _ _ "[?p]", simplified list.pred_inject])
  then show ?thesis by auto
qed

lemma drop_finished_queue:
  assumes "list_all wf_queued ps" and "list_all (\<lambda>p. handle p \<noteq> None) ps" and "distinct (ids ps)"
  shows "\<exists>stay gone. drop_finished ob ps = Ok (stay, gone) \<and> list_all wf_queued stay
     \<and> list_all (\<lambda>p. handle p \<noteq> None) stay \<and> list_all (\<lambda>p. fut p \<noteq> Waiting) gone
     \<and> ids stay = filter (\<lambda>i. i \<notin> set (ids gone)) (ids ps) \<and> mset (ids ps) = mset (ids stay) + mset (ids gone)
     \<and> length stay \<le> length ps"
  using assms
proof (induction ps)
  case (Cons p ps)
  then obtain h where h: "handle p = Some h" "wf_queued p" by auto
  from poll_running [OF this] obtain b p' where p': "process_poll ob p = Ok (b, p')" "proc_id p' = proc_id p"
    "b \<longrightarrow> fut p' \<noteq> Waiting" "\<not> b \<longrightarrow> wf_queued p' \<and> handle p' = Some h \<and> exit_code ob h = None" by blast
  from Cons obtain stay gone where IH: "drop_finished ob ps = Ok (stay, gone)" "list_all wf_queued stay"
    "list_all (\<lambda>p. handle p \<noteq> None) stay" "list_all (\<lambda>p. fut p \<noteq> Waiting) gone"
    "ids stay = filter (\<lambda>i. i \<notin> set (ids gone)) (ids ps)" "mset (ids ps) = mset (ids stay) + mset (ids gone)"
    "length stay \<le> length ps"
    using Cons.IH Cons.prems unfolding list.pred_inject list.map distinct.simps by blast
  from IH(6) have "set (ids ps) = set (ids stay) \<union> set (ids gone)"
    by (metis set_mset_mset set_mset_union)
  with Cons.prems(3) have new: "proc_id p \<notin> set (ids gone)" "proc_id p \<notin> set (ids ps)" by auto
  then have "filter (\<lambda>i. i \<notin> set (ids (p' # gone))) (ids ps) = filter (\<lambda>i. i \<notin> set (ids gone)) (ids ps)"
    using p'(2) by (intro filter_cong) (auto simp: image_iff)
  moreover from IH(6) have "image_mset proc_id (mset ps) = image_mset proc_id (mset stay) + image_mset proc_id (mset gone)"
    by simp
  ultimately show ?case
    using IH(1-5,7) p' new by (cases b) auto
qed simp

text \<open>
  One poll, seen from the queue: the processes that stop leave it, the others stay in their order; a process that is
  killed for its memory is back at the place it had.
\<close>

lemma runner_poll_queue:
  assumes "runner_inv s"
  shows "\<exists>s' gone. runner_poll a ob s = Ok s' \<and> runner_inv s' \<and> dropped s' = dropped s @ gone
     \<and> ids (queue s') = filter (\<lambda>i. i \<notin> set (ids gone)) (ids (queue s))
     \<and> mset (ids (queue s)) = mset (ids (queue s')) + mset (ids gone)
     \<and> next_id s' = next_id s
     \<and> int (length (running s')) \<le> max (int (length (running s))) (MAX_RUNNING a)"
proof -
  have inv: "list_all wf_queued (pending s)" "list_all wf_queued (running s)"
    "list_all (\<lambda>p. handle p \<noteq> None) (running s)" "list_all (\<lambda>p. fut p \<noteq> Waiting) (dropped s)"
    "distinct (ids (queue s @ dropped s))" "list_all (\<lambda>i. i < next_id s) (ids (queue s @ dropped s))"
    using assms by (auto simp: runner_inv_def queue_def)
  from kill_loop_queue [OF inv(1-3), of a ob "mem_avail a ob (running s)"] obtain free pend n where
    k: "kill_loop a ob (mem_avail a ob (running s)) (pending s) (running s) = Ok (free, pend, take n (running s))"
      "ids (take n (running s) @ rev pend) = ids (queue s)" "list_all wf_queued pend"
    by (auto simp: queue_def)
  obtain h pend' run where st: "start_pending a ob free (next_handle s) pend (take n (running s)) = (h, pend', run)"
    by (metis prod_cases3)
  have tk: "list_all wf_queued (take n (running s))" "list_all (\<lambda>p. handle p \<noteq> None) (take n (running s))"
    using inv(2,3) by (auto simp: list_all_iff dest: in_set_takeD)
  from start_pending_queue [OF st k(3) tk] have
    q: "ids (run @ rev pend') = ids (queue s)" "list_all wf_queued pend'" "list_all wf_queued run"
      "list_all (\<lambda>p. handle p \<noteq> None) run" using k(2) by auto
  have d: "distinct (ids (run @ rev pend'))" unfolding q(1) using inv(5) by simp
  then have "distinct (ids run)" by simp
  from drop_finished_queue [OF q(3,4) this, of ob] obtain stay gone where
    f: "drop_finished ob run = Ok (stay, gone)" "list_all wf_queued stay" "list_all (\<lambda>p. handle p \<noteq> None) stay"
      "list_all (\<lambda>p. fut p \<noteq> Waiting) gone" "ids stay = filter (\<lambda>i. i \<notin> set (ids gone)) (ids run)"
      "mset (ids run) = mset (ids stay) + mset (ids gone)" "length stay \<le> length run" by blast
  obtain s' where s': "runner_poll a ob s = Ok s'" "pending s' = pend'" "running s' = stay"
    "dropped s' = dropped s @ gone" "next_id s' = next_id s"
    by (simp add: runner_poll_def k(1) st f(1) Let_def)
  have gone: "set (ids gone) \<subseteq> set (ids run)"
    using f(6) by (metis Un_upper2 set_mset_mset set_mset_union)
  have ms: "mset (ids (queue s)) = mset (ids (queue s')) + mset (ids gone)"
    unfolding q(1) [symmetric] using f(6) by (simp add: queue_def s')
  have "filter (\<lambda>i. i \<notin> set (ids gone)) (ids (rev pend')) = ids (rev pend')"
    using d gone by (intro filter_True) auto
  then have "ids (queue s') = filter (\<lambda>i. i \<notin> set (ids gone)) (ids (queue s))"
    unfolding q(1) [symmetric] using f(5) by (simp add: queue_def s')
  moreover have "mset (ids (queue s' @ dropped s')) = mset (ids (queue s @ dropped s))"
    using ms by (simp add: s'(4))
  then have "distinct (ids (queue s' @ dropped s'))" "set (ids (queue s' @ dropped s')) = set (ids (queue s @ dropped s))"
    using inv(5) mset_eq_imp_distinct_iff mset_eq_setD by blast+
  then have "runner_inv s'"
    using inv(4,6) f q(2) by (auto simp: runner_inv_def queue_def s' list_all_iff)
  moreover have "int (length run) \<le> max (int (length (running s))) (MAX_RUNNING a)"
    using start_pending_bound [OF st] by auto
  then have "int (length (running s')) \<le> max (int (length (running s))) (MAX_RUNNING a)"
    using f(7) s'(3) by simp
  ultimately show ?thesis using s' ms by blast
qed

section \<open>First come, first served\<close>

text \<open>
  What a service promises that takes requests in order: a step keeps the order of those who wait and adds new ones
  at the end only; who no longer waits was served.
\<close>

lemma takeWhile_filter_neq: "keep i \<Longrightarrow> takeWhile (\<lambda>j. j \<noteq> i) (filter keep xs) = filter keep (takeWhile (\<lambda>j. j \<noteq> i) xs)"
  by (induction xs) auto

locale fifo_service =
  fixes inv :: "'s \<Rightarrow> bool" and waiting :: "'s \<Rightarrow> nat list" and served :: "'s \<Rightarrow> nat list"
    and fresh :: "'s \<Rightarrow> nat" and step :: "'e \<Rightarrow> 's \<Rightarrow> 's res"
  assumes step_fifo: "inv s \<Longrightarrow> \<exists>s' keep new. step e s = Ok s' \<and> inv s' \<and> waiting s' = filter keep (waiting s) @ new
      \<and> fresh s \<le> fresh s' \<and> list_all (\<lambda>i. fresh s \<le> i) new
      \<and> set (waiting s) \<union> set (served s) \<subseteq> set (waiting s') \<union> set (served s')"
    and known: "inv s \<Longrightarrow> i \<in> set (waiting s) \<Longrightarrow> i < fresh s"
begin

lemma run_inv: "inv s \<Longrightarrow> \<exists>s'. run_steps step env s t = Ok s' \<and> inv s'"
proof (induction t)
  case (Suc t)
  then obtain s' where "run_steps step env s t = Ok s'" "inv s'" by blast
  with step_fifo [of s' "env t"] show ?case by auto
qed simp

lemma run_fifo:
  assumes "inv s" and "run_steps step env s t = Ok s1"
  shows "\<exists>s2 keep new. run_steps step env s (t + u) = Ok s2 \<and> inv s2 \<and> waiting s2 = filter keep (waiting s1) @ new
      \<and> fresh s1 \<le> fresh s2 \<and> list_all (\<lambda>i. fresh s1 \<le> i) new
      \<and> set (waiting s1) \<union> set (served s1) \<subseteq> set (waiting s2) \<union> set (served s2)"
proof (induction u)
  case 0
  from run_inv [OF assms(1), of env t] assms(2) have "inv s1" by auto
  with assms(2) show ?case by (auto intro!: exI [of _ "\<lambda>_. True"])
next
  case (Suc u)
  then obtain s2 keep new where s2: "run_steps step env s (t + u) = Ok s2" "inv s2"
    "waiting s2 = filter keep (waiting s1) @ new" "fresh s1 \<le> fresh s2" "list_all (\<lambda>i. fresh s1 \<le> i) new"
    "set (waiting s1) \<union> set (served s1) \<subseteq> set (waiting s2) \<union> set (served s2)" by blast
  from step_fifo [OF s2(2), of "env (t + u)"] obtain s3 keep' new' where s3: "step (env (t + u)) s2 = Ok s3" "inv s3"
    "waiting s3 = filter keep' (waiting s2) @ new'" "fresh s2 \<le> fresh s3" "list_all (\<lambda>i. fresh s2 \<le> i) new'"
    "set (waiting s2) \<union> set (served s2) \<subseteq> set (waiting s3) \<union> set (served s3)" by blast
  have "waiting s3 = filter (\<lambda>i. keep i \<and> keep' i) (waiting s1) @ (filter keep' new @ new')"
    using s2(3) s3(3) by (simp add: conj_commute)
  moreover have "list_all (\<lambda>i. fresh s1 \<le> i) (filter keep' new @ new')"
    using s2(4,5) s3(5) by (auto simp: list_all_iff)
  moreover have "run_steps step env s (t + Suc u) = Ok s3" using s2(1) s3(1) by simp
  ultimately show ?case using s2(4,6) s3(2,4,6) by (meson order.trans)
qed

text \<open>When whoever is first leaves eventually, everyone is served eventually.\<close>

lemma all_served:
  assumes "inv s"
    and head: "\<And>t s'. run_steps step env s t = Ok s' \<Longrightarrow> waiting s' \<noteq> []
      \<Longrightarrow> \<exists>u s''. run_steps step env s (t + u) = Ok s'' \<and> hd (waiting s') \<notin> set (waiting s'')"
    and "run_steps step env s t = Ok s'" and "i \<in> set (waiting s')"
  shows "\<exists>u s''. run_steps step env s (t + u) = Ok s'' \<and> i \<in> set (served s'')"
  using assms(3,4)
proof (induction "length (takeWhile (\<lambda>j. j \<noteq> i) (waiting s'))" arbitrary: t s' rule: less_induct)
  case less
  then have ne: "waiting s' \<noteq> []" by auto
  from head [OF less.prems(1) this] obtain u s2 where u: "run_steps step env s (t + u) = Ok s2"
    "hd (waiting s') \<notin> set (waiting s2)" by blast
  from run_fifo [OF assms(1) less.prems(1), of u] u(1) obtain keep new where
    f: "waiting s2 = filter keep (waiting s') @ new" "list_all (\<lambda>i. fresh s' \<le> i) new"
      "set (waiting s') \<subseteq> set (waiting s2) \<union> set (served s2)" by auto
  show ?case
  proof (cases "i \<in> set (waiting s2)")
    case False
    with f(3) less.prems(2) u(1) show ?thesis by blast
  next
    case True
    from run_inv [OF assms(1), of env t] less.prems(1) have "inv s'" by auto
    from known [OF this less.prems(2)] f(2) have "i \<notin> set new" by (auto simp: list_all_iff)
    with True f(1) have i: "keep i" "i \<in> set (filter keep (waiting s'))" by auto
    have h: "\<not> keep (hd (waiting s'))" using u(2) f(1) ne by auto
    then have hi: "hd (waiting s') \<noteq> i" using i by auto
    have "takeWhile (\<lambda>j. j \<noteq> i) (waiting s2) = takeWhile (\<lambda>j. j \<noteq> i) (filter keep (waiting s'))"
      using i(2) f(1) by (simp add: takeWhile_append1)
    also have "\<dots> = filter keep (takeWhile (\<lambda>j. j \<noteq> i) (waiting s'))"
      using i(1) by (rule takeWhile_filter_neq)
    also have "length \<dots> < length (takeWhile (\<lambda>j. j \<noteq> i) (waiting s'))"
      using ne h hi by (cases "waiting s'") (auto simp: le_imp_less_Suc)
    finally have "\<exists>v s''. run_steps step env s (t + u + v) = Ok s'' \<and> i \<in> set (served s'')"
      using less.hyps u(1) True by blast
    then show ?thesis by (metis add.assoc)
  qed
qed

end

lemma serve_queue:
  assumes "runner_inv s"
  shows "runner_inv (serve r s) \<and> next_id s \<le> next_id (serve r s)
     \<and> (\<exists>new. ids (queue (serve r s)) = ids (queue s) @ new \<and> list_all (\<lambda>i. next_id s \<le> i) new)
     \<and> ids (dropped (serve r s)) = ids (dropped s) \<and> length (running (serve r s)) = length (running s)"
proof (cases r)
  case (Shell c mem limit)
  let ?p = "new_process (next_id s) c mem (Fin 0) limit"
  have "wf_queued ?p" "proc_id ?p = next_id s" by (simp_all add: new_process_def wf_queued_def)
  with assms show ?thesis
    by (auto simp: Shell shell_def runner_append_def runner_inv_def queue_def list_all_iff less_Suc_eq)
next
  case (CancelFuture i)
  have wf: "wf_queued (future_cancel p)" if "wf_queued p" for p
    using that by (auto simp: future_cancel_def process_kill_def wf_queued_def split: future.splits)
  have c: "ids (cancel_in i ps) = ids ps" "rev (cancel_in i ps) = cancel_in i (rev ps)"
    "cancel_in i (ps @ qs) = cancel_in i ps @ cancel_in i qs" for ps qs
    by (auto simp: cancel_in_def future_cancel_def process_kill_def rev_map)
  have "list_all wf_queued (cancel_in i ps)" if "list_all wf_queued ps" for ps
    using that wf by (auto simp: cancel_in_def list_all_iff)
  moreover have "list_all (\<lambda>p. handle p \<noteq> None) (cancel_in i ps)" if "list_all (\<lambda>p. handle p \<noteq> None) ps" for ps
    using that by (auto simp: cancel_in_def list_all_iff future_cancel_def process_kill_def)
  moreover have "list_all (\<lambda>p. fut p \<noteq> Waiting) (cancel_in i ps)" if "list_all (\<lambda>p. fut p \<noteq> Waiting) ps" for ps
    using that by (auto simp: cancel_in_def list_all_iff future_cancel_def process_kill_def split: future.splits)
  moreover have "queue (serve r s) = cancel_in i (queue s)" by (simp add: CancelFuture queue_def c)
  ultimately show ?thesis
    using assms unfolding runner_inv_def by (simp add: CancelFuture c) (simp add: cancel_in_def)
qed

lemma fold_serve_queue:
  assumes "runner_inv s"
  shows "runner_inv (fold serve rs s) \<and> next_id s \<le> next_id (fold serve rs s)
     \<and> (\<exists>new. ids (queue (fold serve rs s)) = ids (queue s) @ new \<and> list_all (\<lambda>i. next_id s \<le> i) new)
     \<and> ids (dropped (fold serve rs s)) = ids (dropped s) \<and> length (running (fold serve rs s)) = length (running s)"
  using assms
proof (induction rs arbitrary: s)
  case (Cons r rs)
  from serve_queue [OF Cons.prems, of r] obtain new where
    r: "runner_inv (serve r s)" "next_id s \<le> next_id (serve r s)" "ids (queue (serve r s)) = ids (queue s) @ new"
      "list_all (\<lambda>i. next_id s \<le> i) new" "ids (dropped (serve r s)) = ids (dropped s)"
      "length (running (serve r s)) = length (running s)" by blast
  from Cons.IH [OF r(1)] obtain new' where
    rs: "runner_inv (fold serve rs (serve r s))" "next_id (serve r s) \<le> next_id (fold serve rs (serve r s))"
      "ids (queue (fold serve rs (serve r s))) = ids (queue (serve r s)) @ new'"
      "list_all (\<lambda>i. next_id (serve r s) \<le> i) new'"
      "ids (dropped (fold serve rs (serve r s))) = ids (dropped (serve r s))"
      "length (running (fold serve rs (serve r s))) = length (running (serve r s))" by blast
  have "list_all (\<lambda>i. next_id s \<le> i) (new @ new')" using r(2,4) rs(4) by (auto simp: list_all_iff)
  then show ?case using r rs by auto
qed simp

lemma tick_queue:
  assumes "runner_inv s"
  shows "\<exists>s' gone new. tick a e s = Ok s' \<and> runner_inv s'
     \<and> ids (queue s') = filter (\<lambda>i. i \<notin> set gone) (ids (queue s)) @ new
     \<and> ids (dropped s') = ids (dropped s) @ gone \<and> next_id s \<le> next_id s'
     \<and> list_all (\<lambda>i. next_id s \<le> i) new
     \<and> int (length (running s')) \<le> max (int (length (running s))) (MAX_RUNNING a)"
proof -
  let ?m = "fold serve (fst e) s"
  from fold_serve_queue [OF assms, of "fst e"] obtain new where
    m: "runner_inv ?m" "next_id s \<le> next_id ?m" "ids (queue ?m) = ids (queue s) @ new"
      "list_all (\<lambda>i. next_id s \<le> i) new" "ids (dropped ?m) = ids (dropped s)"
      "length (running ?m) = length (running s)" by blast
  from runner_poll_queue [OF m(1), of a "snd e"] obtain s' gone where
    p: "runner_poll a (snd e) ?m = Ok s'" "runner_inv s'" "dropped s' = dropped ?m @ gone"
      "ids (queue s') = filter (\<lambda>i. i \<notin> set (ids gone)) (ids (queue ?m))" "next_id s' = next_id ?m"
      "int (length (running s')) \<le> max (int (length (running ?m))) (MAX_RUNNING a)" by blast
  have "list_all (\<lambda>i. next_id s \<le> i) (filter (\<lambda>i. i \<notin> set (ids gone)) new)"
    using m(4) by (auto simp: list_all_iff)
  moreover have "ids (queue s') = filter (\<lambda>i. i \<notin> set (ids gone)) (ids (queue s)) @ filter (\<lambda>i. i \<notin> set (ids gone)) new"
    unfolding p(4) m(3) by simp
  moreover have "ids (dropped s') = ids (dropped s) @ ids gone" using p(3) m(5) by simp
  moreover have "tick a e s = Ok s'" using p(1) by (simp add: tick_def)
  ultimately show ?thesis using p(2,5,6) m(2,6) by fastforce
qed

interpretation conductor_queue: fifo_service runner_inv "\<lambda>s. ids (queue s)" "\<lambda>s. ids (dropped s)" next_id "tick a"
  for a
proof
  fix s :: runner and e
  assume "runner_inv s"
  from tick_queue [OF this, of a e] obtain s' gone new where t: "tick a e s = Ok s'" "runner_inv s'"
     "ids (queue s') = filter (\<lambda>i. i \<notin> set gone) (ids (queue s)) @ new"
     "ids (dropped s') = ids (dropped s) @ gone" "next_id s \<le> next_id s'"
     "list_all (\<lambda>i. next_id s \<le> i) new" by blast
  then have "set (ids (queue s)) \<union> set (ids (dropped s)) \<subseteq> set (ids (queue s')) \<union> set (ids (dropped s'))"
    unfolding t(3,4) set_append set_filter by auto
  with t show "\<exists>s' keep new. tick a e s = Ok s' \<and> runner_inv s' \<and> ids (queue s') = filter keep (ids (queue s)) @ new
      \<and> next_id s \<le> next_id s' \<and> list_all (\<lambda>i. next_id s \<le> i) new
      \<and> set (ids (queue s)) \<union> set (ids (dropped s)) \<subseteq> set (ids (queue s')) \<union> set (ids (dropped s'))"
    by blast
next
  fix s :: runner and i
  assume "runner_inv s" "i \<in> set (ids (queue s))"
  then show "i < next_id s" by (auto simp: runner_inv_def list_all_iff)
qed

end
