(* ===== verification/Process_Progress.thy ===== *)
theory Process_Progress
  imports Process_Runner
begin

text \<open>
  What the scheduler of the conductor guarantees over time: it stays in a good state, it serves in order, and on a
  machine that can run the largest process every process is served. The first process of the queue is never
  killed for memory, so it ends with its child; then the next one is the first.
\<close>

section \<open>Progress of the first process\<close>

lemma drop_finished_head:
  assumes "drop_finished ob (p # ps) = Ok (stay, gone)" and "handle p = Some h" and "wf_queued p"
  shows "(\<exists>q \<in> set gone. proc_id q = proc_id p)
     \<or> stay \<noteq> [] \<and> proc_id (hd stay) = proc_id p \<and> handle (hd stay) = Some h \<and> exit_code ob h = None"
proof -
  from poll_running [OF assms(2,3), of ob] obtain b p' where "process_poll ob p = Ok (b, p')" "proc_id p' = proc_id p"
    "\<not> b \<longrightarrow> wf_queued p' \<and> handle p' = Some h \<and> exit_code ob h = None" by blast
  with assms(1) show ?thesis by (cases b) (auto simp: rbind_eq_Ok split: prod.splits)
qed

definition idle_start :: "runner_args \<Rightarrow> observation \<Rightarrow> runner \<Rightarrow> bool" where
  "idle_start a ob s \<longleftrightarrow> 0 < MAX_RUNNING a
     \<and> flt (fadd (expected_memory (last (pending s))) GLOBAL_MEMORY_BUFFER) (mem_avail a ob [])"

lemma poll_head:
  assumes inv: "runner_inv s" and "runner_poll a ob s = Ok s'" and "queue s \<noteq> []"
    and idle: "running s = [] \<longrightarrow> idle_start a ob s"
  shows "proc_id (hd (queue s)) \<notin> set (ids (queue s'))
     \<or> running s' \<noteq> [] \<and> proc_id (hd (running s')) = proc_id (hd (queue s))
        \<and> (running s \<noteq> [] \<longrightarrow> handle (hd (running s')) = handle (hd (running s))
             \<and> exit_code ob (the (handle (hd (running s)))) = None)"
proof -
  have wf: "list_all wf_queued (pending s)" "list_all wf_queued (running s)" "list_all (\<lambda>p. handle p \<noteq> None) (running s)"
    using inv by (auto simp: runner_inv_def queue_def)
  from kill_loop_queue [OF wf, of a ob "mem_avail a ob (running s)"] obtain free pend n where
    k: "kill_loop a ob (mem_avail a ob (running s)) (pending s) (running s) = Ok (free, pend, take n (running s))"
      "ids (take n (running s) @ rev pend) = ids (queue s)" "list_all wf_queued pend" "running s = [] \<or> 0 < n"
    by (auto simp: queue_def)
  obtain h pend' run where st: "start_pending a ob free (next_handle s) pend (take n (running s)) = (h, pend', run)"
    by (metis prod_cases3)
  have tk: "list_all wf_queued (take n (running s))" "list_all (\<lambda>p. handle p \<noteq> None) (take n (running s))"
    using wf by (auto simp: list_all_iff dest: in_set_takeD)
  note q = start_pending_queue [OF st k(3) tk]
  have run: "run \<noteq> []" and same: "running s \<noteq> [] \<Longrightarrow> hd run = hd (running s)"
  proof -
    show "hd run = hd (running s)" if "running s \<noteq> []"
      using q k(4) that by (metis append_take_drop_id hd_append2 hd_take list.size(3) length_0_conv take_eq_Nil neq0_conv)
    show "run \<noteq> []"
    proof (cases "running s = []")
      case True
      then have "free = mem_avail a ob []" "pend = pending s"
        using k(1) by (auto simp: kill_loop.simps)
      moreover have "pending s \<noteq> []" using assms(3) True by (simp add: queue_def)
      ultimately show ?thesis
        using start_pending_starts [of a ob free "next_handle s" pend h pend' run] st True idle wf(1)
        by (simp add: idle_start_def)
    next
      case False
      then show ?thesis using q k(4) by auto
    qed
  qed
  have "hd (ids (run @ rev pend')) = hd (ids (queue s))" using q k(2) by simp
  then have hd: "proc_id (hd run) = proc_id (hd (queue s))"
    using run assms(3) by (simp add: hd_append hd_map)
  obtain h' where h': "handle (hd run) = Some h'" "wf_queued (hd run)"
    using q run by (cases run) auto
  from assms(2) obtain stay gone where d: "drop_finished ob run = Ok (stay, gone)" "running s' = stay"
    "dropped s' = dropped s @ gone" by (auto simp: runner_poll_def k(1) st Let_def rbind_eq_Ok)
  from runner_poll_queue [OF inv, of a ob] assms(2) d(3) have qs': "ids (queue s') = filter (\<lambda>i. i \<notin> set (ids gone)) (ids (queue s))"
    by auto
  from drop_finished_head [of ob "hd run" "tl run", OF _ h'] run d(1)
  have "(\<exists>p \<in> set gone. proc_id p = proc_id (hd run))
     \<or> stay \<noteq> [] \<and> proc_id (hd stay) = proc_id (hd run) \<and> handle (hd stay) = Some h' \<and> exit_code ob h' = None"
    by simp
  then show ?thesis
  proof
    assume "\<exists>p \<in> set gone. proc_id p = proc_id (hd run)"
    then have "proc_id (hd (queue s)) \<in> set (ids gone)" using hd by (metis image_eqI set_map)
    then show ?thesis unfolding qs' by simp
  next
    assume "stay \<noteq> [] \<and> proc_id (hd stay) = proc_id (hd run) \<and> handle (hd stay) = Some h' \<and> exit_code ob h' = None"
    then show ?thesis using hd same h' by (auto simp: d(2))
  qed
qed

text \<open>The memory a process needs, as far as the runner can know it, stays below a bound.\<close>

definition fits :: "pyfloat \<Rightarrow> process \<Rightarrow> bool" where
  "fits m p \<longleftrightarrow> fle (Fin 0) (expected_memory p) \<and> fle (expected_memory p) m \<and> fle (max_memory p) m"

lemma pymax_fle: "fle a m \<Longrightarrow> fle b m \<Longrightarrow> fle (pymax a b) m"
  by (simp add: pymax_def)

lemma pymax_nonneg: "fle (Fin 0) a \<Longrightarrow> fle (Fin 0) (pymax a b)"
  by (cases a; cases b) (auto simp: pymax_def flt_def)

lemma fits_poll:
  assumes "process_poll ob p = Ok (b, p')" and "fits m p" and "\<And>h. fle (gigabytes (rss ob h)) m"
  shows "fits m p'"
proof -
  obtain h where h: "handle p = Some h" using assms(1) by (auto simp: process_poll_def rbind_eq_Ok)
  let ?mem = "pymax (gigabytes (rss ob h)) (max_memory p)"
  have mem: "fle ?mem m" using assms(2,3) by (simp add: fits_def pymax_fle)
  have stop: "fits m q'" if "stop_with r q = Ok (b', q')" "fits m q" for r q b' q'
    using that by (auto simp: stop_with_def set_result_def rbind_eq_Ok fits_def split: future.splits)
  have "fits m (p\<lparr>max_memory := ?mem\<rparr>)" using assms(2) mem by (simp add: fits_def)
  note stop [OF _ this]
  with assms(1,2) mem h show ?thesis
    by (auto simp: process_poll_def Let_def fits_def pymax_fle pymax_nonneg split: if_splits)
qed

lemma kill_loop_fits:
  assumes "kill_loop a ob free pend run = Ok (free', pend', run')"
    and "list_all (fits m) pend" and "list_all (fits m) run" and "\<And>h. fle (gigabytes (rss ob h)) m"
  shows "list_all (fits m) pend' \<and> list_all (fits m) run'"
  using assms
proof (induction a ob free pend run rule: kill_loop.induct)
  case (1 a ob free pend run)
  show ?case
  proof (cases "\<not> no_kill a \<and> flt free GLOBAL_MEMORY_BUFFER \<and> 1 < length run")
    case True
    with "1.prems"(1) obtain b p where p: "process_poll ob (kill_restart (last run)) = Ok (b, p)"
      "kill_loop a ob (fadd free (pymax (max_memory (last run)) (Fin 3))) (pend @ [p]) (butlast run) = Ok (free', pend', run')"
      by (subst (asm) kill_loop.simps) (auto simp: rbind_eq_Ok)
    have "run \<noteq> []" using True by auto
    then have "fits m (kill_restart (last run))" using "1.prems"(3) by (auto simp: kill_restart_def fits_def list_all_iff)
    from fits_poll [OF p(1) this "1.prems"(4)] have "fits m p" .
    with "1.prems"(2,3) have "list_all (fits m) (pend @ [p])" "list_all (fits m) (butlast run)"
      by (auto simp: list_all_iff dest: in_set_butlastD)
    with p(2) "1.prems"(4) show ?thesis by (intro "1.IH" [OF True p(1)]) auto
  next
    case False
    with "1.prems" show ?thesis by (subst (asm) kill_loop.simps) auto
  qed
qed

lemma start_pending_fits:
  assumes "start_pending a ob free h pend run = (h', pend', run')"
    and "list_all (fits m) pend" and "list_all (fits m) run" and "fle (Fin 0) m"
  shows "list_all (fits m) pend' \<and> list_all (fits m) run'"
  using assms(1-3)
proof (induction a ob free h pend run rule: start_pending.induct)
  case (1 a ob free h pend run)
  show ?case
  proof (cases "int (length run) < MAX_RUNNING a \<and> pend \<noteq> []
      \<and> flt (fadd (expected_memory (last pend)) GLOBAL_MEMORY_BUFFER) free")
    case True
    then have "fits m (process_start ob h (last pend))"
      using "1.prems"(2) assms(4) by (auto simp: process_start_def fits_def list_all_iff)
    then show ?thesis
      by (intro "1.IH" [OF True]) (use "1.prems" True in
          \<open>auto simp: list_all_iff start_pending.simps [of a ob free h pend run] dest: in_set_butlastD\<close>)
  next
    case False
    with "1.prems" show ?thesis by (simp add: start_pending.simps [of a ob free h pend run])
  qed
qed

lemma drop_finished_fits:
  assumes "drop_finished ob ps = Ok (stay, gone)" and "list_all (fits m) ps" and "\<And>h. fle (gigabytes (rss ob h)) m"
  shows "list_all (fits m) stay"
  using assms(1,2)
  by (induction ps arbitrary: stay gone) (auto simp: rbind_eq_Ok split: if_splits dest: fits_poll [OF _ _ assms(3)])

lemma runner_poll_OkE:
  assumes "runner_poll a ob s = Ok s'"
  obtains free pend run h run' gone where
    "kill_loop a ob (mem_avail a ob (running s)) (pending s) (running s) = Ok (free, pend, run)"
    "start_pending a ob free (next_handle s) pend run = (h, pending s', run')"
    "drop_finished ob run' = Ok (running s', gone)"
proof -
  from assms obtain free pend run where
    k: "kill_loop a ob (mem_avail a ob (running s)) (pending s) (running s) = Ok (free, pend, run)"
    by (auto simp: runner_poll_def rbind_eq_Ok)
  obtain h pend' run' where st: "start_pending a ob free (next_handle s) pend run = (h, pend', run')"
    by (metis prod_cases3)
  from assms k st obtain gone where "drop_finished ob run' = Ok (running s', gone)" "pending s' = pend'"
    by (auto simp: runner_poll_def Let_def rbind_eq_Ok)
  with k st that show thesis by blast
qed

lemma runner_poll_fits:
  assumes "runner_poll a ob s = Ok s'" and "list_all (fits m) (queue s)" and "\<And>h. fle (gigabytes (rss ob h)) m"
    and "fle (Fin 0) m"
  shows "list_all (fits m) (queue s')"
proof -
  from assms(2) have q: "list_all (fits m) (pending s)" "list_all (fits m) (running s)" by (auto simp: queue_def)
  from assms(1) obtain free pend run h run' gone where
    p: "kill_loop a ob (mem_avail a ob (running s)) (pending s) (running s) = Ok (free, pend, run)"
      "start_pending a ob free (next_handle s) pend run = (h, pending s', run')"
      "drop_finished ob run' = Ok (running s', gone)" by (rule runner_poll_OkE)
  from kill_loop_fits [OF p(1) q assms(3)] have k: "list_all (fits m) pend" "list_all (fits m) run" by auto
  from start_pending_fits [OF p(2) k assms(4)] have st: "list_all (fits m) (pending s')" "list_all (fits m) run'" by auto
  from drop_finished_fits [OF p(3) st(2) assms(3)] st(1) show ?thesis by (simp add: queue_def)
qed

lemma serve_fits:
  assumes "list_all (fits m) (queue s)" and "fle (Fin 0) m"
    and "case r of Shell c mem limit \<Rightarrow> fle (Fin 0) mem \<and> fle mem m | _ \<Rightarrow> True"
  shows "list_all (fits m) (queue (serve r s))"
proof (cases r)
  case (Shell c mem limit)
  then show ?thesis using assms
    by (auto simp: shell_def runner_append_def queue_def fits_def new_process_def list_all_iff)
next
  case (CancelFuture i)
  then show ?thesis using assms
    by (auto simp: queue_def fits_def cancel_in_def future_cancel_def process_kill_def list_all_iff)
qed

lemma fold_serve_running:
  "map (\<lambda>p. (proc_id p, handle p)) (running (fold serve rs s)) = map (\<lambda>p. (proc_id p, handle p)) (running s)"
proof (induction rs arbitrary: s)
  case (Cons r rs)
  have "map (\<lambda>p. (proc_id p, handle p)) (running (serve r s)) = map (\<lambda>p. (proc_id p, handle p)) (running s)"
    by (cases r) (auto simp: shell_def runner_append_def cancel_in_def future_cancel_def process_kill_def)
  with Cons.IH show ?case by simp
qed simp

definition small_request :: "pyfloat \<Rightarrow> request \<Rightarrow> bool" where
  "small_request m r = (case r of Shell c mem limit \<Rightarrow> fle (Fin 0) mem \<and> fle mem m | _ \<Rightarrow> True)"

lemma fold_serve_fits:
  assumes "list_all (fits m) (queue s)" and "fle (Fin 0) m" and "list_all (small_request m) rs"
  shows "list_all (fits m) (queue (fold serve rs s))"
  using assms by (induction rs arbitrary: s) (auto simp: small_request_def serve_fits)

text \<open>
  A machine on which the runner can work: it has a spare processor and, when nothing runs, memory for a process of
  size \<open>m\<close>; no process is larger; and every child process ends at some time.
\<close>

definition workable :: "runner_args \<Rightarrow> pyfloat \<Rightarrow> (nat \<Rightarrow> request list \<times> observation) \<Rightarrow> bool" where
  "workable a m env \<longleftrightarrow> 0 < MAX_RUNNING a \<and> fle (Fin 0) m
     \<and> (\<forall>t. list_all (small_request m) (fst (env t)))
     \<and> (\<forall>t h. fle (gigabytes (rss (snd (env t)) h)) m)
     \<and> (\<forall>t e. fle (Fin 0) e \<and> fle e m \<longrightarrow> flt (fadd e GLOBAL_MEMORY_BUFFER) (mem_avail a (snd (env t)) []))
     \<and> (\<forall>h. \<exists>t0. \<forall>t \<ge> t0. exit_code (snd (env t)) h \<noteq> None)"

lemma tick_head:
  assumes "workable a m env" and "runner_inv s" and fit: "list_all (fits m) (queue s)"
    and "tick a (env t) s = Ok s'" and ne: "queue s \<noteq> []"
  shows "proc_id (hd (queue s)) \<notin> set (ids (queue s'))
     \<or> running s' \<noteq> [] \<and> proc_id (hd (running s')) = proc_id (hd (queue s))
        \<and> (running s \<noteq> [] \<longrightarrow> handle (hd (running s')) = handle (hd (running s))
             \<and> exit_code (snd (env t)) (the (handle (hd (running s)))) = None)"
proof -
  let ?m = "fold serve (fst (env t)) s"
  have inv: "runner_inv ?m" and q: "\<exists>new. ids (queue ?m) = ids (queue s) @ new"
    using fold_serve_queue [OF assms(2)] by blast+
  from q ne have mne: "queue ?m \<noteq> []" by auto
  then have hd: "proc_id (hd (queue ?m)) = proc_id (hd (queue s))"
    using q ne by (metis hd_append2 hd_map map_is_Nil_conv)
  have same: "running ?m = [] \<longleftrightarrow> running s = []"
    "running s \<noteq> [] \<Longrightarrow> handle (hd (running ?m)) = handle (hd (running s))"
    using fold_serve_running [of "fst (env t)" s] by (auto simp: neq_Nil_conv Cons_eq_map_conv map_eq_Cons_conv)
  have "list_all (fits m) (queue ?m)"
    using fold_serve_fits [OF fit] assms(1) by (auto simp: workable_def)
  then have "running ?m = [] \<longrightarrow> idle_start a (snd (env t)) ?m"
    using mne assms(1) by (auto simp: workable_def idle_start_def queue_def fits_def list_all_iff)
  from poll_head [OF inv _ mne this, of s'] assms(4) show ?thesis
    unfolding hd tick_def same(1) using same(2) by auto
qed

lemma tick_fits:
  assumes "workable a m env" and "list_all (fits m) (queue s)" and "tick a (env t) s = Ok s'"
  shows "list_all (fits m) (queue s')"
  using assms runner_poll_fits [of a "snd (env t)" _ s' m] fold_serve_fits [of m s "fst (env t)"]
  by (auto simp: workable_def tick_def)

lemma run_fits:
  assumes "workable a m env" and "list_all (fits m) (queue s)" and "run_steps (tick a) env s t = Ok s'"
  shows "list_all (fits m) (queue s')"
  using assms(2,3)
  by (induction t arbitrary: s') (auto simp: rbind_eq_Ok dest: tick_fits [OF assms(1)])

lemma running_head_leaves:
  assumes w: "workable a m env" and inv: "runner_inv s" and fit: "list_all (fits m) (queue s)"
    and t: "run_steps (tick a) env s t = Ok s1" and run: "running s1 \<noteq> []"
  shows "\<exists>u s2. run_steps (tick a) env s (t + u) = Ok s2 \<and> proc_id (hd (running s1)) \<notin> set (ids (queue s2))"
proof (rule ccontr)
  assume no: "\<not> ?thesis"
  have stays: "\<exists>s2. run_steps (tick a) env s (t + u) = Ok s2 \<and> runner_inv s2 \<and> running s2 \<noteq> []
      \<and> proc_id (hd (running s2)) = proc_id (hd (running s1)) \<and> handle (hd (running s2)) = handle (hd (running s1))
      \<and> (0 < u \<longrightarrow> exit_code (snd (env (t + u - 1))) (the (handle (hd (running s1)))) = None)" for u
  proof (induction u)
    case 0
    from conductor_queue.run_inv [OF inv, of a env t] t run show ?case by auto
  next
    case (Suc u)
    then obtain s2 where s2: "run_steps (tick a) env s (t + u) = Ok s2" "runner_inv s2" "running s2 \<noteq> []"
      "proc_id (hd (running s2)) = proc_id (hd (running s1))" "handle (hd (running s2)) = handle (hd (running s1))"
      by blast
    obtain s3 where s3: "tick a (env (t + u)) s2 = Ok s3" "runner_inv s3"
      using tick_queue [OF s2(2)] by blast
    have r: "run_steps (tick a) env s (t + Suc u) = Ok s3" using s2(1) s3(1) by simp
    have q: "queue s2 \<noteq> []" "hd (queue s2) = hd (running s2)" using s2(3) by (auto simp: queue_def)
    from no r have "proc_id (hd (running s1)) \<in> set (ids (queue s3))" by blast
    with tick_head [OF w s2(2) run_fits [OF w fit s2(1)] s3(1) q(1)] q(2) s2 s3 r show ?case by auto
  qed
  from w obtain t0 where t0: "\<forall>t \<ge> t0. exit_code (snd (env t)) (the (handle (hd (running s1)))) \<noteq> None"
    unfolding workable_def by blast
  from stays [of "Suc t0"] have "exit_code (snd (env (t + t0))) (the (handle (hd (running s1)))) = None" by auto
  with t0 show False by (metis le_add2)
qed

lemma queue_head_leaves:
  assumes w: "workable a m env" and inv: "runner_inv s" and fit: "list_all (fits m) (queue s)"
    and t: "run_steps (tick a) env s t = Ok s1" and ne: "queue s1 \<noteq> []"
  shows "\<exists>u s2. run_steps (tick a) env s (t + u) = Ok s2 \<and> hd (ids (queue s1)) \<notin> set (ids (queue s2))"
proof -
  from conductor_queue.run_inv [OF inv, of a env t] t have inv1: "runner_inv s1" by auto
  obtain s2 where s2: "tick a (env t) s1 = Ok s2" using tick_queue [OF inv1] by blast
  have r: "run_steps (tick a) env s (t + 1) = Ok s2" using t s2 by simp
  from tick_head [OF w inv1 run_fits [OF w fit t] s2 ne] show ?thesis
  proof
    assume "proc_id (hd (queue s1)) \<notin> set (ids (queue s2))"
    with r ne show ?thesis by (metis hd_map)
  next
    assume "running s2 \<noteq> [] \<and> proc_id (hd (running s2)) = proc_id (hd (queue s1))
        \<and> (running s1 \<noteq> [] \<longrightarrow> handle (hd (running s2)) = handle (hd (running s1))
             \<and> exit_code (snd (env t)) (the (handle (hd (running s1)))) = None)"
    then have "running s2 \<noteq> []" "proc_id (hd (running s2)) = hd (ids (queue s1))" using ne by (auto simp: hd_map)
    with running_head_leaves [OF w inv fit r this(1)] show ?thesis by (metis add.assoc)
  qed
qed

lemma runner_init_inv: "runner_inv (runner_init now)" "queue (runner_init now) = []"
  by (simp_all add: runner_init_def runner_inv_def queue_def)

text \<open>C5: Every process handed to the runner stops eventually, and its future is decided (a result, or cancelled), on
  a machine with a spare processor and enough memory where every child process ends, whatever
  is submitted or cancelled later, and however often processes are killed and restarted for their memory.\<close>

theorem every_process_served:
  assumes "workable a m env"
    and "run_steps (tick a) env (runner_init now) t = Ok s" and "p \<in> set (queue s)"
  shows "\<exists>u s' p'. run_steps (tick a) env (runner_init now) (t + u) = Ok s' \<and> p' \<in> set (dropped s')
    \<and> proc_id p' = proc_id p \<and> fut p' \<noteq> Waiting"
proof -
  note init = runner_init_inv(1) [of now]
  have "\<exists>u s'. run_steps (tick a) env (runner_init now) (t + u) = Ok s' \<and> proc_id p \<in> set (ids (dropped s'))"
    using conductor_queue.all_served [OF init _ assms(2), of "proc_id p"]
      queue_head_leaves [OF assms(1) init] assms(3) runner_init_inv(2) by simp
  then obtain u s' where s': "run_steps (tick a) env (runner_init now) (t + u) = Ok s'"
    "proc_id p \<in> set (ids (dropped s'))" by blast
  from conductor_queue.run_inv [OF init, of a env "t + u"] s'(1) have "runner_inv s'" by auto
  with s' show ?thesis by (fastforce simp: runner_inv_def list_all_iff)
qed

text \<open>A workable machine: four processors, 64 GB, every child ends at once.\<close>

definition quiet_observation :: observation where
  "quiet_observation = \<lparr>available = 64 * GB, clock = Fin 0, start_clock = (\<lambda>_. Fin 0), poll_clock = (\<lambda>_. Fin 0),
     rss = (\<lambda>_. 0), exit_code = (\<lambda>_. Some 20), out_text = (\<lambda>_. []), err_text = (\<lambda>_. [])\<rparr>"

definition quiet_env :: "nat \<Rightarrow> request list \<times> observation" where
  "quiet_env t = (if t = 0 then [Shell ''rIC3'' (Fin 0) None] else [], quiet_observation)"

definition quiet_args :: runner_args where
  "quiet_args = \<lparr>max_mem = Fin 0, no_kill = False, cpu_count = Some 4\<rparr>"

lemma rnd_small_int: "\<bar>i\<bar> \<le> 2 ^ 53 \<Longrightarrow> rnd (of_int i) = Fin (of_int i)"
  by (rule is_double_rnd) (rule is_double_int)

lemma gigabytes_int: "\<bar>n\<bar> \<le> 2 ^ 53 \<Longrightarrow> gigabytes (n * GB) = Fin (of_int n)"
  using rnd_small_int [of n] by (simp add: gigabytes_def GB_def)

lemma quiet_mem: "mem_avail quiet_args quiet_observation ps = Fin 64"
  using gigabytes_int [of 64]
  by (simp add: mem_avail_def quiet_args_def feq_def global_memory_free_def quiet_observation_def)

lemma rnd_near:
  assumes "\<bar>q\<bar> < 2 ^ 52"
  shows "\<exists>r. rnd q = Fin r \<and> r \<le> q + 1 / 2"
proof (cases "q = 0")
  case True
  then show ?thesis by (simp add: rnd_def rnd_rat_def)
next
  case False
  let ?u = "ulp_exp q"
  have "expo q < 52" using False assms by (intro expo_less) (simp_all add: power_int_def)
  then have "?u \<le> 0" by (simp add: ulp_exp_def)
  then have "(2::rat) powi ?u \<le> 2 powi 0" by (intro power_int_increasing) auto
  then have u: "(2::rat) powi ?u \<le> 1" "(0::rat) < 2 powi ?u" by simp_all
  have r: "rnd_rat q = of_int (round_half_even (q / 2 powi ?u)) * 2 powi ?u" using False by (simp add: rnd_rat_def)
  also have "\<dots> \<le> (q / 2 powi ?u + 1 / 2) * 2 powi ?u"
    by (rule mult_right_mono [OF round_half_even_bounds(1)]) (use u in simp)
  also have "\<dots> = q + 2 powi ?u / 2" using u(2) by (simp add: field_simps)
  finally have up: "rnd_rat q \<le> q + 1 / 2" using u(1) by linarith
  have "q - 2 powi ?u / 2 = (q / 2 powi ?u - 1 / 2) * 2 powi ?u" using u(2) by (simp add: field_simps)
  also have "\<dots> \<le> rnd_rat q"
    unfolding r by (rule mult_right_mono [OF round_half_even_bounds(2)]) (use u in simp)
  finally have "q - 1 / 2 \<le> rnd_rat q" using u(1) by linarith
  with up assms have "\<bar>rnd_rat q\<bar> < 2 ^ 52 + 1" by linarith
  also have "(2::rat) ^ 52 + 1 \<le> 2 ^ 53" by simp
  also have "(2::rat) ^ 53 \<le> 2 ^ 1024" by (rule power_increasing) auto
  finally show ?thesis using up by (simp add: rnd_def Let_def)
qed

lemma quiet_workable: "workable quiet_args (Fin 10) quiet_env"
proof -
  have mem: "flt (fadd e (Fin 5)) (Fin 64)" if "fle (Fin 0) e" "fle e (Fin 10)" for e
  proof -
    from that obtain q where q: "e = Fin q" "0 \<le> q" "q \<le> 10" by (cases e) auto
    from rnd_near [of "q + 5"] q(2,3) obtain r where "rnd (q + 5) = Fin r" "r \<le> q + 5 + 1 / 2" by auto
    with q show ?thesis by (simp add: flt_def)
  qed
  have "gigabytes 0 = Fin 0" using gigabytes_int [of 0] by simp
  with mem show ?thesis
    by (auto simp: workable_def quiet_mem quiet_env_def small_request_def GLOBAL_MEMORY_BUFFER_def)
       (auto simp: quiet_args_def quiet_observation_def MAX_RUNNING_def)
qed


text \<open>C21: Processes are served in the order they were handed in: a turn of the event loop removes the
  processes that stop and adds the new ones at the end; killing for memory and restarting changes no position.\<close>

theorem tick_keeps_order:
  assumes "runner_inv s"
  shows "\<exists>s' gone new. tick a e s = Ok s' \<and> runner_inv s'
     \<and> ids (queue s') = filter (\<lambda>i. i \<notin> set gone) (ids (queue s)) @ new
     \<and> ids (dropped s') = ids (dropped s) @ gone \<and> list_all (\<lambda>i. next_id s \<le> i) new"
  using tick_queue [OF assms, of a e] by blast

lemma serve_dropped: "dropped s = [] \<Longrightarrow> dropped (serve r s) = []"
  by (cases r) (auto simp: shell_def runner_append_def cancel_in_def)

lemma fold_serve_dropped: "dropped s = [] \<Longrightarrow> dropped (fold serve rs s) = []"
  by (induction rs arbitrary: s) (auto simp: serve_dropped)

lemma tick_no_processor:
  assumes "MAX_RUNNING a \<le> 0" and "running s = []" and "dropped s = []"
  shows "\<exists>s'. tick a e s = Ok s' \<and> running s' = [] \<and> dropped s' = []"
proof -
  let ?m = "fold serve (fst e) s"
  have "running ?m = []" using fold_serve_running [of "fst e" s] assms(2) by simp
  moreover have "dropped ?m = []"
    using assms(3) by (rule fold_serve_dropped)
  ultimately show ?thesis
    using assms(1) by (simp add: tick_def runner_poll_def kill_loop.simps start_pending.simps Let_def)
qed

text \<open>On a machine with one or two processors \<open>MAX_RUNNING\<close> is not positive, and no process is ever
  started: every future stays undecided.\<close>

theorem no_spare_processor:
  assumes "MAX_RUNNING a \<le> 0"
  shows "\<exists>s. run_steps (tick a) env (runner_init now) t = Ok s \<and> running s = [] \<and> dropped s = []"
proof (induction t)
  case 0
  then show ?case by (simp add: runner_init_def)
next
  case (Suc t)
  then show ?case using tick_no_processor [OF assms, of _ "env t"] by auto
qed

text \<open>A process that is killed for its memory is queued to run again whatever is known of it: a
  cancellation that was asked for is forgotten, and so is the result of a process that has already ended.\<close>

theorem kill_restart_forgets:
  assumes "handle p = Some h"
  shows "\<exists>p'. process_poll ob (kill_restart p) = Ok (True, p') \<and> kill_req p' = None \<and> fut p' = fut p"
  using assms by (simp add: process_poll_def kill_restart_def Let_def)

section \<open>Examples\<close>

definition quiet_args_2 :: runner_args where
  "quiet_args_2 = \<lparr>max_mem = Fin 0, no_kill = False, cpu_count = Some 2\<rparr>"

definition three_waiting :: runner where
  "three_waiting = fold serve [Shell ''a'' (Fin 0) None, Shell ''b'' (Fin 0) None, CancelFuture 0] (runner_init (Fin 0))"

lemma three_waiting_inv: "runner_inv three_waiting"
  unfolding three_waiting_def using fold_serve_queue [OF runner_init_inv(1)] by blast

theorem tick_keeps_order_witness:
  "\<exists>s' gone new. tick quiet_args ([], quiet_observation) three_waiting = Ok s' \<and> runner_inv s'
     \<and> ids (queue s') = filter (\<lambda>i. i \<notin> set gone) (ids (queue three_waiting)) @ new
     \<and> ids (dropped s') = ids (dropped three_waiting) @ gone \<and> list_all (\<lambda>i. next_id three_waiting \<le> i) new"
  by (rule tick_keeps_order [OF three_waiting_inv])

theorem no_spare_processor_witness:
  "\<exists>s. run_steps (tick quiet_args_2) quiet_env (runner_init (Fin 0)) 7 = Ok s \<and> running s = [] \<and> dropped s = []"
  by (rule no_spare_processor) (simp add: quiet_args_2_def MAX_RUNNING_def)

theorem kill_restart_forgets_witness:
  "\<exists>p'. process_poll quiet_observation (kill_restart (future_cancel (process_start quiet_observation 0
      (new_process 0 ''rIC3'' (Fin 10) (Fin 0) None)))) = Ok (True, p') \<and> kill_req p' = None
      \<and> fut p' = fut (future_cancel (process_start quiet_observation 0 (new_process 0 ''rIC3'' (Fin 10) (Fin 0) None)))"
  by (rule kill_restart_forgets [where h = 0])
     (simp add: process_start_def new_process_def future_cancel_def process_kill_def)

text \<open>The first process of two is still waiting after a poll at which its child had not ended yet.\<close>

definition busy_env :: "nat \<Rightarrow> request list \<times> observation" where
  "busy_env t = (if t = 0 then [Shell ''rIC3'' (Fin 0) None, Shell ''rIC3 -e kind'' (Fin 10) None] else [],
     quiet_observation\<lparr>exit_code := (\<lambda>_. if t < 3 then None else Some 20)\<rparr>)"

lemma busy_workable: "workable quiet_args (Fin 10) busy_env"
proof -
  have eq: "mem_avail a (ob\<lparr>exit_code := c\<rparr>) ps = mem_avail a ob ps" for a ob c ps
    by (simp add: mem_avail_def global_memory_free_def)
  have "mem_avail quiet_args (snd (busy_env t)) ps = Fin 64" "rss (snd (busy_env t)) = rss (snd (quiet_env t))" for t ps
    by (simp_all add: busy_env_def quiet_env_def eq quiet_mem)
  moreover have "list_all (small_request (Fin 10)) (fst (busy_env t))" for t
    by (simp add: busy_env_def small_request_def)
  moreover have "\<exists>t0. \<forall>t \<ge> t0. exit_code (snd (busy_env t)) h \<noteq> None" for h
    by (intro exI [of _ 3]) (simp add: busy_env_def)
  ultimately show ?thesis
    using quiet_workable unfolding workable_def by (auto simp: quiet_env_def quiet_mem)
qed

lemma busy_first_poll:
  "\<exists>s. run_steps (tick quiet_args) busy_env (runner_init (Fin 0)) 1 = Ok s \<and> ids (queue s) = [0, 1]"
proof -
  have g: "gigabytes 0 = Fin 0" "gigabytes (64 * GB) = Fin 64" using gigabytes_int [of 0] gigabytes_int [of 64] by simp_all
  have r: "rnd 5 = Fin 5" "rnd 15 = Fin 15" "rnd 61 = Fin 61" "rnd 0 = Fin 0"
    using rnd_small_int [of 5] rnd_small_int [of 15] rnd_small_int [of 61] rnd_small_int [of 0] by simp_all
  note defs = tick_def busy_env_def quiet_observation_def runner_init_def shell_def runner_append_def new_process_def
    runner_poll_def quiet_args_def mem_avail_def global_memory_free_def process_start_def process_poll_def
    MAX_RUNNING_def GLOBAL_MEMORY_BUFFER_def pymax_def flt_def feq_def fsub_def fdiv_by_def queue_def Let_def
  show ?thesis
    by (simp add: defs kill_loop.simps start_pending.simps g r)
qed

theorem every_process_served_witness:
  "\<exists>s p u s' p'. run_steps (tick quiet_args) busy_env (runner_init (Fin 0)) 1 = Ok s
    \<and> p \<in> set (queue s) \<and> proc_id p = 1
    \<and> run_steps (tick quiet_args) busy_env (runner_init (Fin 0)) (1 + u) = Ok s' \<and> p' \<in> set (dropped s')
    \<and> proc_id p' = proc_id p \<and> fut p' \<noteq> Waiting"
proof -
  obtain s where s: "run_steps (tick quiet_args) busy_env (runner_init (Fin 0)) 1 = Ok s"
    "ids (queue s) = [0, 1]" by (use busy_first_poll in \<open>elim exE conjE\<close>)
  then have "1 \<in> set (ids (queue s))" by simp
  then obtain p where p: "p \<in> set (queue s)" "proc_id p = 1" by auto
  from every_process_served [OF busy_workable s(1) p(1)] s(1) p show ?thesis by blast
qed

end
