(* ===== verification/Proof_Strategy.thy ===== *)
theory Proof_Strategy
  imports Process_Runner Py_Json Py_Regex Py_System
begin

text \<open>
  The data of the formal conductor (\<open>dv/formal/conductor.py\<close>): a strategy, its file, the tree of properties that the names
  give, and the properties by step. JSON is read and written by parameters; a value of another
  type than the annotations of the class give is read as a \<open>TypeError\<close>.
\<close>

section \<open>Strategies and their files\<close>

record strategy =
  st_step :: int
  st_props :: "string list"
  st_config :: string
  st_procres :: process_result

text \<open>\<open>v[i]\<close> of a decoded value, and the types of the fields.\<close>

fun jnth :: "json \<Rightarrow> nat \<Rightarrow> json res" where
  "jnth (JArr xs) i = (if i < length xs then Ok (xs ! i) else Err IndexError)"
| "jnth (JStr s) i = (if i < length s then Ok (JStr [s ! i]) else Err IndexError)"
| "jnth (JObj kvs) i = Err KeyError"
| "jnth _ i = Err TypeError"

fun jlen :: "json \<Rightarrow> nat res" where
  "jlen (JArr xs) = Ok (length xs)"
| "jlen (JStr s) = Ok (length s)"
| "jlen (JObj kvs) = Ok (length kvs)"
| "jlen _ = Err TypeError"

fun j_int :: "json \<Rightarrow> int res" where
  "j_int (JInt i) = Ok i"
| "j_int _ = Err TypeError"

fun j_str :: "json \<Rightarrow> string res" where
  "j_str (JStr s) = Ok s"
| "j_str _ = Err TypeError"

fun j_num :: "json \<Rightarrow> pyfloat res" where
  "j_num (JFloat f) = Ok f"
| "j_num (JInt i) = float_of_int i"
| "j_num _ = Err TypeError"

fun j_list :: "json \<Rightarrow> json list res" where
  "j_list (JArr xs) = Ok xs"
| "j_list _ = Err TypeError"

definition j_opt :: "(json \<Rightarrow> 'a res) \<Rightarrow> json \<Rightarrow> 'a option res" where
  "j_opt f v = (if v = JNull then Ok None else rbind (f v) (\<lambda>x. Ok (Some x)))"

text \<open>\<open>v[i] if len(v) > i else None\<close>\<close>

definition jnth_opt :: "json \<Rightarrow> nat \<Rightarrow> json res" where
  "jnth_opt v i = rbind (jlen v) (\<lambda>n. if i < n then jnth v i else Ok JNull)"

definition decode_strategy :: "json \<Rightarrow> strategy res" where
  "decode_strategy v =
     rbind (rbind (jnth v 0) j_int) (\<lambda>step.
     rbind (rbind (rbind (jnth v 1) j_list) (rmapM j_str)) (\<lambda>props.
     rbind (rbind (jnth v 2) j_str) (\<lambda>config.
     rbind (jnth v 3) (\<lambda>r.
     rbind (rbind (jnth r 0) (j_opt j_int)) (\<lambda>c.
     rbind (rbind (jnth r 3) j_str) (\<lambda>why.
     rbind (rbind (jnth r 1) j_num) (\<lambda>mem.
     rbind (rbind (jnth r 2) j_num) (\<lambda>dt.
     rbind (rbind (jnth_opt r 4) (j_opt j_str)) (\<lambda>out.
     rbind (rbind (jnth_opt r 5) (j_opt j_str)) (\<lambda>err.
       Ok \<lparr>st_step = step, st_props = props, st_config = config,
           st_procres = \<lparr>pr_code = c, pr_reason = why, pr_max_mem = mem, pr_dt = dt,
                         pr_stdout = out, pr_stderr = err\<rparr>\<rparr>))))))))))"

definition enc_opt :: "('a \<Rightarrow> json) \<Rightarrow> 'a option \<Rightarrow> json" where
  "enc_opt f x = (case x of None \<Rightarrow> JNull | Some y \<Rightarrow> f y)"

definition encode_strategy :: "strategy \<Rightarrow> json" where
  "encode_strategy s =
     (let r = st_procres s
      in JArr [JInt (st_step s), JArr (map JStr (st_props s)), JStr (st_config s),
           JArr [enc_opt JInt (pr_code r), JFloat (pr_max_mem r), JFloat (pr_dt r), JStr (pr_reason r),
                 enc_opt JStr (pr_stdout r), enc_opt JStr (pr_stderr r)]])"

record args =
  fresh :: bool
  no_store :: bool
  by_step :: bool
  properties :: "string list"
  missing :: bool
  start :: int
  bmc_step :: int
  bmc_start :: int
  hard :: bool
  no_run :: bool
  check_complete :: bool

definition step_file :: "int \<Rightarrow> path" where
  "step_file step = Path [] [''strategies'', ''step'' @ str_int step @ ''.json'']"

definition load_strategy :: "decoder \<Rightarrow> args \<Rightarrow> fs \<Rightarrow> int \<Rightarrow> strategy list option res" where
  "load_strategy loads a fs step =
     (if fresh a then Ok None
      else case map_of fs (step_file step) of
        None \<Rightarrow> Ok None
      | Some Directory \<Rightarrow> Err OSError
      | Some (File s) \<Rightarrow>
          (case loads s of
             None \<Rightarrow> Ok None
           | Some v \<Rightarrow> rbind (rbind (to_iter v) (rmapM decode_strategy)) (\<lambda>ss. Ok (Some ss))))"

text \<open>\<open>store_strategy\<close>: a file that cannot be written is reported and ignored.\<close>

definition store_strategy :: "(json \<Rightarrow> string) \<Rightarrow> args \<Rightarrow> int \<Rightarrow> strategy list \<Rightarrow> fs \<Rightarrow> strategy list res \<times> fs" where
  "store_strategy dumps a step strat fs =
     (let encoded = map encode_strategy strat
      in (rmapM decode_strategy encoded,
          if no_store a then fs
          else case mkdir_parents (Path [] [''strategies'']) fs of
            Inl e \<Rightarrow> fs
          | Inr fs1 \<Rightarrow> (case write_text (step_file step) (dumps (JArr encoded)) fs1 of Inl e \<Rightarrow> fs1 | Inr fs2 \<Rightarrow> fs2)))"

text \<open>\<open>list(set(props).difference(done_props))\<close>; \<open>set_order\<close> is the order in which a set is iterated.\<close>

definition missing_from :: "(string list \<Rightarrow> string list) \<Rightarrow> strategy list \<Rightarrow> string list \<Rightarrow> string list" where
  "missing_from set_order strat props =
     (let done_props = concat (map st_props strat)
      in set_order (filter (\<lambda>p. p \<notin> set done_props) (uniq props)))"

section \<open>The tree of names\<close>

datatype ptree = PName string | PTree "ptree list"

text \<open>\<open>re.split\<close> by an expression with two groups, one match at a time: the text before, and the two groups.\<close>

function re_split2 :: "re \<Rightarrow> string \<Rightarrow> string \<Rightarrow> (string \<times> (string option \<times> string option)) list \<times> string" where
  "re_split2 r acc s =
     (case rx r s [] of
        (s', e) # _ \<Rightarrow>
          if length s' < length s then
            (let (ps, rest) = re_split2 r [] s' in ((acc, (group e ''1'', group e ''2'')) # ps, rest))
          else (case s of [] \<Rightarrow> ([], acc) | c # cs \<Rightarrow> re_split2 r (acc @ [c]) cs)
      | [] \<Rightarrow> (case s of [] \<Rightarrow> ([], acc) | c # cs \<Rightarrow> re_split2 r (acc @ [c]) cs))"
  by pat_completeness auto
termination
  by (relation "measure (\<lambda>(r, acc, s). length s)") auto

declare re_split2.simps [simp del]

text \<open>\<open>_([A-Z])|_|([A-Z])\<close>\<close>

definition chunk_sep :: re where
  "chunk_sep = Alt (Seq (Lit ''_'') (Cap ''1'' (One is_upper_az))) (Alt (Lit ''_'') (Cap ''2'' (One is_upper_az)))"

definition nts :: "string option \<Rightarrow> string" where
  "nts x = (case x of None \<Rightarrow> [] | Some s \<Rightarrow> s)"

text \<open>The pieces of \<open>re.split\<close> that follow a separator: its groups, and the text up to the next one.\<close>

fun after_seps :: "(string \<times> (string option \<times> string option)) list \<Rightarrow> string \<Rightarrow> string list" where
  "after_seps [] rest = []"
| "after_seps [(t, g)] rest = [nts (fst g) @ nts (snd g) @ rest]"
| "after_seps ((t, g) # (t', g') # ps) rest = (nts (fst g) @ nts (snd g) @ t') # after_seps ((t', g') # ps) rest"

definition chunk_name :: "string \<Rightarrow> string list" where
  "chunk_name name =
     (let (ps, rest) = re_split2 chunk_sep [] name;
          first = (case ps of [] \<Rightarrow> rest | (t, _) # _ \<Rightarrow> t)
      in (if first \<noteq> [] then [first] else []) @ after_seps ps rest)"

definition bucket_items :: "(string list \<times> string) list \<Rightarrow> (string list \<times> string) list" where
  "bucket_items props = filter (\<lambda>(chunks, name). length chunks \<noteq> 1) props"

definition done_names :: "(string list \<times> string) list \<Rightarrow> string list" where
  "done_names props = map snd (filter (\<lambda>(chunks, name). length chunks = 1) props)"

definition buckets :: "(string list \<times> string) list \<Rightarrow> (string, (string list \<times> string) list) dict" where
  "buckets props =
     map (\<lambda>(pre, items). (pre, map (\<lambda>(chunks, name). (tl chunks, name)) items))
       (group_by (\<lambda>(chunks, name). hd chunks) (bucket_items props))"

definition chunk_total :: "(string list \<times> string) list \<Rightarrow> nat" where
  "chunk_total props = sum_list (map (\<lambda>(chunks, name). length chunks) props)"

lemma chunk_total_simps [simp]:
  "chunk_total [] = 0" "chunk_total ((c, n) # props) = length c + chunk_total props"
  by (simp_all add: chunk_total_def)

lemma chunk_total_filter_le: "chunk_total (filter P props) \<le> chunk_total props"
  by (induction props) (auto simp: chunk_total_def)

lemma chunk_total_bucket:
  assumes "\<not> list_ex (\<lambda>(chunks, name). chunks = []) props" and "(pre, items) \<in> set (buckets props)"
  shows "chunk_total items < chunk_total props"
proof -
  let ?p = "\<lambda>x :: string list \<times> string. (case x of (chunks, name) \<Rightarrow> hd chunks) = pre"
  from assms(2) have items: "items = map (\<lambda>(chunks, name). (tl chunks, name)) (filter ?p (bucket_items props))"
    and ne: "filter ?p (bucket_items props) \<noteq> []"
    by (auto simp: buckets_def group_by_mem)
  have "chunk_total (map (\<lambda>(chunks, name). (tl chunks, name)) xs) < chunk_total xs"
    if "xs \<noteq> []" "\<And>c n. (c, n) \<in> set xs \<Longrightarrow> c \<noteq> []" for xs :: "(string list \<times> string) list"
    using that
  proof (induction xs)
    case (Cons x xs)
    obtain c n where x: "x = (c, n)" by (cases x)
    with Cons.prems(2) [of c n] have "length (tl c) < length c" by (cases c) auto
    moreover have "xs = [] \<or> chunk_total (map (\<lambda>(chunks, name). (tl chunks, name)) xs) < chunk_total xs"
      using Cons.IH Cons.prems(2) by auto
    ultimately show ?case by (auto simp: x simp del: length_tl)
  qed simp
  from this [OF ne] assms(1) have "chunk_total items < chunk_total (filter ?p (bucket_items props))"
    unfolding items by (force simp: bucket_items_def list_ex_iff)
  also have "\<dots> \<le> chunk_total props"
    unfolding bucket_items_def using chunk_total_filter_le order.trans by blast
  finally show ?thesis .
qed

text \<open>\<open>group\<close>: a name without chunks is the \<open>IndexError\<close> of \<open>chunks[0]\<close>.\<close>

function group_names :: "(string list \<times> string) list \<Rightarrow> ptree list res" where
  "group_names props =
     (if list_ex (\<lambda>(chunks, name). chunks = []) props then Err IndexError
      else rbind (rmapM (\<lambda>b. rbind (group_names (snd b)) (\<lambda>t. Ok (PTree t))) (buckets props)) (\<lambda>bs.
        Ok (map PName (done_names props) @ bs)))"
  by auto
termination
  by (relation "measure chunk_total") (auto simp: chunk_total_bucket)

declare group_names.simps [simp del]

definition split_by_prefixes :: "string list \<Rightarrow> ptree list res" where
  "split_by_prefixes names = group_names (map (\<lambda>name. (chunk_name name, name)) names)"

text \<open>\<open>find_all\<close> of \<open>build_strategy_rec\<close>: the names of a tree, in order.\<close>

fun find_all :: "ptree list \<Rightarrow> string list" where
  "find_all [] = []"
| "find_all (PName p # ts) = p # find_all ts"
| "find_all (PTree t # ts) = find_all t @ find_all ts"

section \<open>Properties by step\<close>

text \<open>\<open>s.split(sep, maxsplit=1)\<close> into exactly two parts.\<close>

definition split2 :: "char \<Rightarrow> string \<Rightarrow> (string \<times> string) res" where
  "split2 sep s =
     (if sep \<in> set s then Ok (takeWhile (\<lambda>c. c \<noteq> sep) s, tl (dropWhile (\<lambda>c. c \<noteq> sep) s)) else Err ValueError)"

definition preproc_name :: "string \<Rightarrow> (int \<times> string) res" where
  "preproc_name name =
     (let parts = split_char CHR ''$'' name
      in if length parts < 2 then Err IndexError
         else let first = drop 5 (parts ! 1)
           in if \<not> startswith first ''Step'' then Err AssertionError
              else rbind (split2 CHR ''_'' first) (\<lambda>(step, rest).
                rbind (res_of ValueError (py_int (drop 4 step))) (\<lambda>n. Ok (n, rest))))"

text \<open>\<open>while step >= len(xs): xs.append([])\<close>\<close>

definition grow :: "int \<Rightarrow> 'a list list \<Rightarrow> 'a list list" where
  "grow step xs = xs @ replicate (nat (step + 1 - int (length xs))) []"

text \<open>\<open>xs[step].append(name)\<close>, with Python's negative indices.\<close>

definition append_at :: "int \<Rightarrow> 'a \<Rightarrow> 'a list list \<Rightarrow> 'a list list res" where
  "append_at step x xs =
     (let i = (if step < 0 then step + int (length xs) else step)
      in if 0 \<le> i \<and> i < int (length xs) then Ok (xs[nat i := xs ! nat i @ [x]]) else Err IndexError)"

definition group_by_step :: "(int \<times> string) list \<Rightarrow> int option \<Rightarrow> string list list res" where
  "group_by_step names mx =
     rbind (rfoldM (\<lambda>xs (step, name). append_at step name (grow step xs)) [] names) (\<lambda>xs.
       Ok (case mx of None \<Rightarrow> xs | Some m \<Rightarrow> grow m xs))"

section \<open>Round trip of a stored strategy\<close>

lemma rmapM_j_str [simp]: "rmapM j_str (map JStr xs) = Ok xs"
  by (induction xs) auto

lemma decode_encode_strategy [simp]: "decode_strategy (encode_strategy s) = Ok s"
proof -
  have "rbind (jnth_opt (JArr xs) i) (j_opt j_str) = Ok x" if "i < length xs" "xs ! i = enc_opt JStr x" for xs i x
    using that by (cases x) (auto simp: jnth_opt_def j_opt_def enc_opt_def)
  moreover have "j_opt j_int (enc_opt JInt c) = Ok c" for c
    by (cases c) (auto simp: j_opt_def enc_opt_def)
  ultimately show ?thesis
    by (cases s; cases "st_procres s") (simp add: decode_strategy_def encode_strategy_def Let_def)
qed

lemma decode_encode_all [simp]: "rmapM decode_strategy (map encode_strategy ss) = Ok ss"
  by (induction ss) auto

interpretation strategy_json: codec encode_strategy "\<lambda>v. case decode_strategy v of Inr s \<Rightarrow> Some s | Inl _ \<Rightarrow> None" "\<lambda>_. True"
  by unfold_locales simp

lemma mkdir_strategies:
  assumes "\<not> is_file fs (Path [] [''strategies''])"
  shows "\<exists>fs1. mkdir_parents (Path [] [''strategies'']) fs = Ok fs1 \<and> is_dir fs1 (Path [] [''strategies''])
     \<and> (\<forall>p. p \<noteq> Path [] [''strategies''] \<longrightarrow> map_of fs1 p = map_of fs p)"
  using assms by (auto simp: mkdir_parents_def is_dir_def map_of_AList_update)

text \<open>C19: A strategy that is stored is the one that is loaded later: in the same step every proof step with its
  properties, engine and measured result; \<open>store_strategy\<close> itself returns it too, and the files of other steps stay.\<close>

theorem store_load_strategy:
  assumes "\<not> no_store a" and "\<not> fresh a"
    and "\<not> is_file fs (Path [] [''strategies''])" and "\<not> is_dir fs (step_file step)"
    and "loads (dumps (JArr (map encode_strategy strat))) = Some (JArr (map encode_strategy strat))"
  shows "\<exists>fs'. store_strategy dumps a step strat fs = (Ok strat, fs')
     \<and> load_strategy loads a fs' step = Ok (Some strat)
     \<and> (\<forall>k. k \<noteq> step \<longrightarrow> load_strategy loads a fs' k = load_strategy loads a fs k)"
proof -
  let ?d = "Path [] [''strategies'']" and ?t = "dumps (JArr (map encode_strategy strat))"
  from mkdir_strategies [OF assms(3)] obtain fs1 where
    fs1: "mkdir_parents ?d fs = Ok fs1" "is_dir fs1 ?d" "\<And>p. p \<noteq> ?d \<Longrightarrow> map_of fs1 p = map_of fs p" by blast
  have par: "path_parent (step_file step) = ?d" by (simp add: path_parent_def step_file_def)
  have nd: "step_file k \<noteq> ?d" for k by (simp add: step_file_def)
  have "\<not> is_dir fs1 (step_file step)"
    using assms(4) fs1(3) [OF nd] by (simp add: is_dir_def step_file_def)
  with fs1(2) have w: "write_text (step_file step) ?t fs1 = Ok (AList.update (step_file step) (File ?t) fs1)"
    by (simp add: write_text_def par)
  let ?fs = "AList.update (step_file step) (File ?t) fs1"
  have "step_file k \<noteq> step_file step" if "k \<noteq> step" for k
    using that int_text.enc_inj [of k step] by (simp add: step_file_def)
  then have other: "map_of ?fs (step_file k) = map_of fs (step_file k)" if "k \<noteq> step" for k
    using that fs1(3) [OF nd] by (simp add: map_of_AList_update)
  have "store_strategy dumps a step strat fs = (Ok strat, ?fs)"
    using assms(1) fs1(1) w by (simp add: store_strategy_def Let_def)
  moreover have "load_strategy loads a ?fs step = Ok (Some strat)"
    using assms(2,5) by (simp add: load_strategy_def map_of_AList_update)
  moreover have "\<forall>k. k \<noteq> step \<longrightarrow> load_strategy loads a ?fs k = load_strategy loads a fs k"
    using other by (simp add: load_strategy_def)
  ultimately show ?thesis by blast
qed

section \<open>The tree holds the names\<close>

lemma re_split2_none: "re_split2 r acc s = ([], rest) \<Longrightarrow> rest = acc @ s"
proof (induction s arbitrary: acc)
  case Nil
  then show ?case
    by (subst (asm) re_split2.simps) (auto split: list.splits prod.splits)
next
  case (Cons c s)
  from Cons.prems show ?case
    by (subst (asm) re_split2.simps) (auto split: list.splits prod.splits if_splits dest: Cons.IH)
qed

lemma after_seps_eq_Nil [simp]: "after_seps ps rest = [] \<longleftrightarrow> ps = []"
  by (cases "(ps, rest)" rule: after_seps.cases) auto

lemma chunk_name_eq_Nil [simp]: "chunk_name name = [] \<longleftrightarrow> name = []"
proof (cases "re_split2 chunk_sep [] name")
  case (Pair ps rest)
  show ?thesis
  proof (cases "ps = []")
    case True
    with Pair have "rest = name" using re_split2_none [of chunk_sep "[]" name rest] by simp
    with Pair True show ?thesis by (simp add: chunk_name_def)
  next
    case False
    moreover have "name \<noteq> []"
    proof
      assume "name = []"
      then have "re_split2 chunk_sep [] name = ([], [])"
        by (subst re_split2.simps) (simp add: chunk_sep_def)
      with Pair False show False by simp
    qed
    ultimately show ?thesis by (simp add: chunk_name_def Pair Let_def)
  qed
qed

lemma find_all_append [simp]: "find_all (ts @ us) = find_all ts @ find_all us"
  by (induction ts rule: find_all.induct) auto

lemma find_all_names [simp]: "find_all (map PName xs) = xs"
  by (induction xs) auto

lemma rmapM_trees:
  assumes "\<And>b. b \<in> set bs \<Longrightarrow> \<exists>t. g b = Ok t \<and> mset (find_all t) = mset (f b)"
  shows "\<exists>ts. rmapM (\<lambda>b. rbind (g b) (\<lambda>t. Ok (PTree t))) bs = Ok ts
     \<and> mset (find_all ts) = mset (concat (map f bs))"
  using assms
proof (induction bs)
  case (Cons b bs)
  then obtain t ts where "g b = Ok t" "mset (find_all t) = mset (f b)"
    "rmapM (\<lambda>b. rbind (g b) (\<lambda>t. Ok (PTree t))) bs = Ok ts" "mset (find_all ts) = mset (concat (map f bs))"
    by (metis list.set_intros)
  then show ?case by simp
qed simp

lemma group_names_ok:
  assumes "\<not> list_ex (\<lambda>(chunks, name). chunks = []) props"
  shows "\<exists>ts. group_names props = Ok ts \<and> mset (find_all ts) = mset (map snd props)"
  using assms
proof (induction props rule: group_names.induct)
  case (1 props)
  have sub: "\<exists>t. group_names (snd b) = Ok t \<and> mset (find_all t) = mset (map snd (snd b))" if "b \<in> set (buckets props)" for b
  proof (rule "1.IH" [OF "1.prems" that])
    have ne: "length c \<noteq> 1 \<and> c \<noteq> []" if "(c, n) \<in> set (bucket_items props)" for c n
      using that "1.prems" by (auto simp: bucket_items_def list_ex_iff)
    have "tl c \<noteq> []" if m: "(c, n) \<in> set (bucket_items props)" for c n
      using ne [OF m] by (cases c; cases "tl c") auto
    with that show "\<not> list_ex (\<lambda>(chunks, name). chunks = []) (snd b)"
      by (fastforce simp: buckets_def group_by_mem list_ex_iff)
  qed
  from rmapM_trees [of "buckets props" "\<lambda>b. group_names (snd b)" "\<lambda>b. map snd (snd b)"] sub obtain ts where
    ts: "rmapM (\<lambda>b. rbind (group_names (snd b)) (\<lambda>t. Ok (PTree t))) (buckets props) = Ok ts"
      "mset (find_all ts) = mset (concat (map (\<lambda>b. map snd (snd b)) (buckets props)))" by blast
  have cc: "concat (map (\<lambda>b. map snd (snd b)) (buckets props))
      = map snd (concat (map snd (group_by (\<lambda>(chunks, name). hd chunks) (bucket_items props))))"
    by (simp add: buckets_def map_concat comp_def case_prod_unfold)
  have "mset (find_all ts) = mset (map snd (bucket_items props))"
    by (simp only: ts(2) cc mset_map group_by_partition)
  moreover have "mset (map snd (bucket_items props)) + mset (done_names props) = mset (map snd props)"
    by (induction props) (auto simp: bucket_items_def done_names_def)
  moreover have "group_names props = Ok (map PName (done_names props) @ ts)"
    using "1.prems" ts(1) by (subst group_names.simps) simp
  ultimately show ?case by (simp add: add.commute)
qed

lemma split_prefixes_mset:
  "(if [] \<in> set names then split_by_prefixes names = Err IndexError
    else \<exists>ts. split_by_prefixes names = Ok ts \<and> mset (find_all ts) = mset names)"
proof (cases "[] \<in> set names")
  case True
  then have "list_ex (\<lambda>(chunks, name). chunks = []) (map (\<lambda>name. (chunk_name name, name)) names)"
    by (auto simp: list_ex_iff)
  with True show ?thesis by (simp add: split_by_prefixes_def group_names.simps)
next
  case False
  then have "\<not> list_ex (\<lambda>(chunks, name). chunks = []) (map (\<lambda>name. (chunk_name name, name)) names)"
    by (auto simp: list_ex_iff)
  from group_names_ok [OF this] False show ?thesis by (simp add: split_by_prefixes_def comp_def)
qed

text \<open>C25: The tree that names are split into holds exactly these names, each as often as it is given; a list with an
  empty name is the only one that is refused (\<open>IndexError\<close>).\<close>

theorem split_by_prefixes_permutes:
  "(if [] \<in> set names then split_by_prefixes names = Err IndexError
    else \<exists>ts. split_by_prefixes names = Ok ts \<and> mset (find_all ts) = mset names)"
  by (rule split_prefixes_mset)

section \<open>Steps\<close>

lemma append_at_grow:
  assumes "0 \<le> step"
  shows "\<exists>ys. append_at step x (grow step xs) = Ok ys \<and> length ys = max (length xs) (nat step + 1)
     \<and> (\<forall>k < length ys. ys ! k = (if k < length xs then xs ! k else []) @ (if int k = step then [x] else []))"
  using assms by (auto simp: append_at_def grow_def Let_def nth_list_update nth_append max_def)

lemma group_fold_exact:
  assumes "list_all (\<lambda>(step, name). 0 \<le> step) names"
  shows "\<exists>xs. rfoldM (\<lambda>xs (step, name). append_at step name (grow step xs)) [] names = Ok xs
     \<and> list_all (\<lambda>(step, name). step < int (length xs)) names
     \<and> (\<forall>k < length xs. xs ! k = map snd (filter (\<lambda>(step, name). step = int k) names))"
  using assms
proof (induction names rule: rev_induct)
  case (snoc x names)
  obtain step name where x: "x = (step, name)" by (cases x)
  from snoc obtain xs where
    xs: "rfoldM (\<lambda>xs (step, name). append_at step name (grow step xs)) [] names = Ok xs"
      "list_all (\<lambda>(step, name). step < int (length xs)) names"
      "\<forall>k < length xs. xs ! k = map snd (filter (\<lambda>(step, name). step = int k) names)" by auto
  from append_at_grow [of step name xs] snoc.prems x obtain ys where
    ys: "append_at step name (grow step xs) = Ok ys" "length ys = max (length xs) (nat step + 1)"
      "\<forall>k < length ys. ys ! k = (if k < length xs then xs ! k else []) @ (if int k = step then [name] else [])"
    by auto
  have none: "filter (\<lambda>(step, name). step = int k) names = []" if "length xs \<le> k" for k
    using that xs(2) by (fastforce simp: filter_empty_conv list_all_iff)
  have "ys ! k = map snd (filter (\<lambda>(step, name). step = int k) (names @ [x]))" if "k < length ys" for k
    using that ys(3) xs(3) none [of k] by (auto simp: x)
  moreover have "list_all (\<lambda>(step, name). step < int (length ys)) (names @ [x])"
    using xs(2) ys(2) by (fastforce simp: list_all_iff x)
  ultimately show ?case
    using xs(1) ys(1) by (auto simp: rfoldM_append x)
qed simp

text \<open>\<open>group_by_step\<close> puts each property under its step, in the given order, for steps that are not negative; the
  list reaches to every step that occurs and to the given maximum.\<close>

theorem group_by_step_exact:
  assumes "list_all (\<lambda>(step, name). 0 \<le> step) names"
  shows "\<exists>xs. group_by_step names (Some m) = Ok xs \<and> m < int (length xs)
     \<and> list_all (\<lambda>(step, name). step < int (length xs)) names
     \<and> xs = map (\<lambda>k. map snd (filter (\<lambda>(step, name). step = int k) names)) [0..<length xs]"
proof -
  from group_fold_exact [OF assms] obtain xs where
    xs: "rfoldM (\<lambda>xs (step, name). append_at step name (grow step xs)) [] names = Ok xs"
      "list_all (\<lambda>(step, name). step < int (length xs)) names"
      "\<forall>k < length xs. xs ! k = map snd (filter (\<lambda>(step, name). step = int k) names)" by blast
  have none: "filter (\<lambda>(step, name). step = int k) names = []" if "length xs \<le> k" for k
    using that xs(2) by (fastforce simp: filter_empty_conv list_all_iff)
  have "grow m xs ! k = map snd (filter (\<lambda>(step, name). step = int k) names)" if "k < length (grow m xs)" for k
    using that xs(3) none [of k] by (auto simp: grow_def nth_append)
  then have "grow m xs = map (\<lambda>k. map snd (filter (\<lambda>(step, name). step = int k) names)) [0..<length (grow m xs)]"
    by (intro nth_equalityI) auto
  moreover have "list_all (\<lambda>(step, name). step < int (length (grow m xs))) names"
    using xs(2) by (fastforce simp: list_all_iff grow_def)
  moreover have "m < int (length (grow m xs))" by (auto simp: grow_def)
  ultimately show ?thesis using xs(1) by (auto simp: group_by_step_def)
qed

theorem group_by_step_exact_witness:
  "\<exists>xs. group_by_step [(1, ''Mem''), (0, ''Pc''), (1, ''Csr'')] (Some 2) = Ok xs \<and> 2 < int (length xs)
     \<and> list_all (\<lambda>(step, name). step < int (length xs)) [(1, ''Mem''), (0, ''Pc''), (1, ''Csr'')]
     \<and> xs = map (\<lambda>k. map snd (filter (\<lambda>(step, name). step = int k) [(1, ''Mem''), (0, ''Pc''), (1, ''Csr'')])) [0..<length xs]"
  by (rule group_by_step_exact) simp

text \<open>Examples: the tree of the comment in the code, and a stored strategy.\<close>

lemma split_by_prefixes_example:
  "split_by_prefixes [''a_x'', ''a_y'', ''b''] = Ok [PName ''b'', PTree [PName ''a_x'', PName ''a_y'']]"
  by code_simp

definition sample_strategy :: strategy where
  "sample_strategy = \<lparr>st_step = 3, st_props = [''Mem'', ''Pc''], st_config = ''rIC3 -e kind --no-preproc'',
     st_procres = \<lparr>pr_code = Some 20, pr_reason = ''OK'', pr_max_mem = Fin 2, pr_dt = Fin 17, pr_stdout = Some [],
       pr_stderr = None\<rparr>\<rparr>"

definition sample_args :: args where
  "sample_args = \<lparr>fresh = False, no_store = False, by_step = False, properties = [], missing = False, start = 0,
     bmc_step = 1, bmc_start = 4, hard = False, no_run = False, check_complete = True\<rparr>"

theorem store_load_strategy_witness:
  "\<exists>fs'. store_strategy (\<lambda>_. ''[]'') sample_args 3 [sample_strategy] [] = (Ok [sample_strategy], fs')
     \<and> load_strategy (\<lambda>_. Some (JArr (map encode_strategy [sample_strategy]))) sample_args fs' 3 = Ok (Some [sample_strategy])
     \<and> load_strategy (\<lambda>_. Some (JArr (map encode_strategy [sample_strategy]))) sample_args fs' 1 = Ok None"
proof -
  let ?loads = "\<lambda>_. Some (JArr (map encode_strategy [sample_strategy]))"
  have "\<exists>fs'. store_strategy (\<lambda>_. ''[]'') sample_args 3 [sample_strategy] [] = (Ok [sample_strategy], fs')
     \<and> load_strategy ?loads sample_args fs' 3 = Ok (Some [sample_strategy])
     \<and> (\<forall>k. k \<noteq> 3 \<longrightarrow> load_strategy ?loads sample_args fs' k = load_strategy ?loads sample_args [] k)"
    by (rule store_load_strategy) (simp_all add: sample_args_def is_file_def is_dir_def step_file_def)
  moreover have "load_strategy ?loads sample_args [] 1 = Ok None" by (simp add: load_strategy_def)
  ultimately show ?thesis by (metis one_eq_numeral_iff semiring_norm(86))
qed

end
