(* ===== verification/Conductor.thy ===== *)
theory Conductor
  imports Proof_Strategy
begin

text \<open>
  The formal conductor (\<open>dv/formal/conductor.py\<close>) above its process runner: races, proofs, bounded model checking, the
  search for a strategy and the four modes of the command.

  A shell command is a call of the parameter \<open>sh\<close>, which gives the result of a process from the commands run before
  it; the scheduler that produces it is in \<open>Process_Runner\<close>. \<open>asyncio.gather\<close> runs its tasks in order: a task takes
  its numbers before its first wait, so only the order of the proof log depends on it. Log lines are modelled
  where they are the result of the mode (\<open>info\<close>).
\<close>

section \<open>Commands\<close>

type_synonym call = "string \<times> pyfloat \<times> pyfloat option"

record conductor_env =
  sh :: "call list \<Rightarrow> string \<Rightarrow> process_result"
  json_loads :: decoder
  json_dumps :: "json \<Rightarrow> string"
  set_order :: "string list \<Rightarrow> string list"
  no_log :: bool
  root_hash :: string
  log_time :: "nat \<Rightarrow> pyfloat"

record conductor =
  aiger_idx :: nat
  cex_id :: nat
  calls :: "call list"
  files :: fs
  prooflog :: "json list"
  failures :: "(int \<times> string) list"

definition run_shell :: "conductor_env \<Rightarrow> string \<Rightarrow> pyfloat \<Rightarrow> pyfloat option \<Rightarrow> (conductor, process_result) eff" where
  "run_shell env c mem limit s = (Ok (sh env (calls s) c), s\<lparr>calls := calls s @ [(c, mem, limit)]\<rparr>)"

definition aig_manip :: "string \<Rightarrow> int \<Rightarrow> string list \<Rightarrow> string" where
  "aig_manip name step props =
     ''build/aig-manip build/all.aig select '' @ name @ '' build/all.ywmap '' @ str_int step @ '' '' @ join '' '' props"

definition prepare_aiger :: "conductor_env \<Rightarrow> int \<Rightarrow> string list \<Rightarrow> (conductor, string) eff" where
  "prepare_aiger env step props =
     ebind (eget aiger_idx) (\<lambda>i.
       let name = ''build/aiger-'' @ str_nat i @ ''.aig''
       in ebind (eupd (\<lambda>s. Ok (s\<lparr>aiger_idx := i + 1\<rparr>))) (\<lambda>_.
          ebind (run_shell env (aig_manip name step props) (Fin (1 / 2)) None) (\<lambda>r.
          ebind (elift (rguard (pr_code r = Some 0) AssertionError)) (\<lambda>_. eret name))))"

definition result_vars :: "process_result \<Rightarrow> json" where
  "result_vars r =
     JObj [(''code'', enc_opt JInt (pr_code r)), (''reason'', JStr (pr_reason r)), (''max_mem'', JFloat (pr_max_mem r)),
           (''dt'', JFloat (pr_dt r)), (''stdout'', enc_opt JStr (pr_stdout r)), (''stderr'', enc_opt JStr (pr_stderr r))]"

text \<open>\<open>proof_done\<close>: one line of the proof log; what it prints is not modelled.\<close>

definition proof_done :: "conductor_env \<Rightarrow> string \<Rightarrow> int \<Rightarrow> string list \<Rightarrow> process_result \<Rightarrow> (conductor, unit) eff" where
  "proof_done env config step props r =
     eupd (\<lambda>s. Ok (if no_log env then s else s\<lparr>prooflog := prooflog s @
       [JArr [JFloat (log_time env (length (prooflog s))),
              JArr [JArr (map JStr props), JInt step, JStr (root_hash env), JStr config], result_vars r]]\<rparr>))"

definition prove :: "conductor_env \<Rightarrow> string \<Rightarrow> int \<Rightarrow> string list \<Rightarrow> pyfloat option \<Rightarrow> pyfloat
    \<Rightarrow> (conductor, process_result) eff" where
  "prove env config step props limit mem =
     ebind (prepare_aiger env step props) (\<lambda>specialised.
     ebind (run_shell env (config @ '' '' @ specialised) mem limit) (\<lambda>r.
     ebind (proof_done env config step props r) (\<lambda>_. eret r)))"

definition opt_flag :: "string \<Rightarrow> int option \<Rightarrow> string" where
  "opt_flag flag x = (case x of None \<Rightarrow> [] | Some i \<Rightarrow> flag @ str_int i)"

definition bmc :: "conductor_env \<Rightarrow> int \<Rightarrow> string list \<Rightarrow> int option \<Rightarrow> int option \<Rightarrow> (conductor, process_result) eff" where
  "bmc env step props from till =
     ebind (prove env (''rIC3 -e bmc --no-preproc --witness'' @ opt_flag '' --start '' from @ opt_flag '' --end '' till)
              step props None (Fin 10)) (\<lambda>r.
     if pr_code r = Some 10 then
       ebind (elift (res_of AssertionError (pr_stdout r))) (\<lambda>out.
       ebind (eget cex_id) (\<lambda>own.
       ebind (eupd (\<lambda>s. Ok (s\<lparr>cex_id := own + 1\<rparr>))) (\<lambda>_.
       ebind (elift (rguard (NL \<in> set out) IndexError)) (\<lambda>_.
         let witness = tl (dropWhile (\<lambda>c. c \<noteq> NL) out);
             aiw = ''witness-'' @ str_nat own @ ''.aiw''
         in ebind (eupd (\<lambda>s. rbind (write_text (Path [] [aiw]) witness (files s)) (\<lambda>fs. Ok (s\<lparr>files := fs\<rparr>)))) (\<lambda>_.
            ebind (run_shell env (''./aig-manip/target/release/aig-manip build/all.aig simulate build/all.ywmap build/all.vmap ''
                @ aiw @ '' trace-'' @ str_nat own @ ''.vcd'') (Fin 0) None) (\<lambda>_. eret r))))))
     else eret r)"

section \<open>Races\<close>

text \<open>
  \<open>race\<close>: the wrappers it starts share the variable \<open>task\<close>, so all of them wait for the last task; a
  coroutine that is waited for twice raises, and the group of these errors is not handled. Only a
  race of one task has a result. What the last task started before the second wait raised is cancelled with the
  group; the model does not list it among the calls.
\<close>

definition race :: "('s, 'a option) eff list \<Rightarrow> ('s, 'a option) eff" where
  "race tasks =
     (case tasks of
        [] \<Rightarrow> eret None
      | [t] \<Rightarrow> (\<lambda>s. case t s of (Inl e, s') \<Rightarrow> (Inl (ExceptionGroup [e]), s') | (Inr r, s') \<Rightarrow> (Inr r, s'))
      | _ # ts \<Rightarrow> eraise (ExceptionGroup (map (\<lambda>_. RuntimeError) ts)))"

fun gather :: "('s, 'a) eff list \<Rightarrow> ('s, 'a list) eff" where
  "gather [] = eret []"
| "gather (t # ts) = ebind t (\<lambda>x. ebind (gather ts) (\<lambda>xs. eret (x # xs)))"

section \<open>The search for a strategy\<close>

definition explore_one :: "conductor_env \<Rightarrow> int \<Rightarrow> string list \<Rightarrow> pyfloat \<Rightarrow> string \<Rightarrow> string \<times> pyfloat
    \<Rightarrow> (conductor, (string \<times> process_result) option) eff" where
  "explore_one env step props limit specialised cm =
     ebind (run_shell env (fst cm @ '' '' @ specialised) (snd cm) (Some limit)) (\<lambda>r.
     ebind (proof_done env (fst cm) step props r) (\<lambda>_.
       eret (if pr_code r = Some 10 \<or> pr_code r = Some 20 then Some (fst cm, r) else None)))"

definition explore :: "conductor_env \<Rightarrow> int \<Rightarrow> string list \<Rightarrow> (string \<times> pyfloat) list \<Rightarrow> pyfloat
    \<Rightarrow> (conductor, (string \<times> process_result) option) eff" where
  "explore env step props configs limit =
     ebind (prepare_aiger env step props) (\<lambda>specialised.
       race (map (explore_one env step props limit specialised) configs))"

definition ENGINES :: "bool \<Rightarrow> (string \<times> pyfloat) list" where
  "ENGINES difficult =
     (if difficult then [(''rIC3 -e kind --no-preproc'', Fin 10)]
      else [(''rIC3'', Fin 10), (''rIC3 -e kind --no-preproc'', Fin 10)])"

definition mk_strategy :: "int \<Rightarrow> string list \<Rightarrow> string \<Rightarrow> process_result \<Rightarrow> strategy" where
  "mk_strategy step props config r = \<lparr>st_step = step, st_props = props, st_config = config, st_procres = r\<rparr>"

text \<open>One property: explored on its own; no answer is a failure, a counterexample is no proof.\<close>

definition explore_single :: "conductor_env \<Rightarrow> int \<Rightarrow> string \<Rightarrow> bool \<Rightarrow> (conductor, strategy list) eff" where
  "explore_single env step p difficult =
     ebind (explore env step [p] (ENGINES difficult) (Fin (if difficult then 1800 else 600))) (\<lambda>res.
       case res of
         Some (config, r) \<Rightarrow> eret (if pr_code r = Some 20 then [mk_strategy step [p] config r] else [])
       | None \<Rightarrow> ebind (eupd (\<lambda>s. Ok (s\<lparr>failures := failures s @ [(step, p)]\<rparr>))) (\<lambda>_. eret []))"

definition without_split :: "conductor_env \<Rightarrow> int \<Rightarrow> string list \<Rightarrow> bool \<Rightarrow> (conductor, strategy list option) eff" where
  "without_split env step props difficult =
     ebind (explore env step props (ENGINES difficult) (Fin 120)) (\<lambda>res.
       eret (case res of
         Some (config, r) \<Rightarrow> if pr_code r = Some 20 then Some [mk_strategy step props config r] else None
       | None \<Rightarrow> None))"

fun is_name :: "ptree \<Rightarrow> bool" where
  "is_name (PName _) = True"
| "is_name (PTree _) = False"

fun sub_tree :: "ptree \<Rightarrow> ptree list" where
  "sub_tree (PName p) = [PName p]"
| "sub_tree (PTree t) = t"

text \<open>The trees \<open>with_split\<close> goes on with: the names one by one, or the subtrees and then the names together.\<close>

definition split_trees :: "ptree list \<Rightarrow> ptree list list" where
  "split_trees tree =
     (if list_all is_name tree then map (\<lambda>p. [p]) tree
      else map sub_tree (filter (\<lambda>t. \<not> is_name t) tree) @ [filter is_name tree])"

fun tree_size :: "ptree list \<Rightarrow> nat" where
  "tree_size [] = 0"
| "tree_size (PName p # ts) = Suc (tree_size ts)"
| "tree_size (PTree t # ts) = Suc (tree_size t + tree_size ts)"

lemma tree_size_append [simp]: "tree_size (ts @ us) = tree_size ts + tree_size us"
  by (induction ts rule: tree_size.induct) auto

lemma tree_size_Cons: "tree_size (t # ts) = tree_size [t] + tree_size ts"
  using tree_size_append [of "[t]" ts] by simp

lemma tree_size_pos: "0 < tree_size [t]"
  by (cases t) auto

lemma tree_size_mem: "t \<in> set ts \<Longrightarrow> tree_size [t] \<le> tree_size ts"
proof (induction ts)
  case (Cons u us)
  then show ?case using tree_size_Cons [of u us] by auto
qed simp

lemma tree_size_filter: "tree_size (filter P ts) \<le> tree_size ts"
proof (induction ts)
  case (Cons t ts)
  then show ?case using tree_size_Cons [of t ts] tree_size_Cons [of t "filter P ts"] by auto
qed simp

lemma tree_size_filter_less: "t \<in> set ts \<Longrightarrow> \<not> P t \<Longrightarrow> tree_size (filter P ts) < tree_size ts"
proof (induction ts)
  case (Cons u us)
  then show ?case
    using tree_size_Cons [of u us] tree_size_Cons [of u "filter P us"] tree_size_pos [of u] tree_size_filter [of P us]
    by (cases "u = t") auto
qed simp

lemma tree_size_sub: "\<not> is_name t \<Longrightarrow> tree_size (sub_tree t) < tree_size [t]"
  by (cases t) auto

lemma tree_size_split:
  assumes "length tree \<noteq> 1" and "t \<in> set (split_trees tree)"
  shows "tree_size t < tree_size tree"
proof (cases "list_all is_name tree")
  case True
  with assms(2) obtain p where p: "p \<in> set tree" "t = [p]" by (auto simp: split_trees_def)
  then obtain xs ys where "tree = xs @ p # ys" by (meson split_list)
  moreover from this assms(1) obtain q where "q \<in> set (xs @ ys)" by (cases "xs @ ys") auto
  then have "0 < tree_size (xs @ ys)" using tree_size_mem tree_size_pos by (metis order.strict_trans1 not_le not_less0)
  ultimately show ?thesis using p tree_size_Cons [of p ys] by simp
next
  case False
  then obtain u where u: "u \<in> set tree" "\<not> is_name u" by (auto simp: list_all_iff)
  from assms(2) False consider v where "v \<in> set tree" "\<not> is_name v" "t = sub_tree v" | "t = filter is_name tree"
    by (auto simp: split_trees_def)
  then show ?thesis
  proof cases
    case 1
    then show ?thesis using tree_size_sub tree_size_mem order.strict_trans2 by blast
  next
    case 2
    then show ?thesis using tree_size_filter_less [of u tree is_name] u by simp
  qed
qed

text \<open>A tree of one name has one property, so the last branch is never taken.\<close>

function build_strategy_rec :: "conductor_env \<Rightarrow> int \<Rightarrow> ptree list \<Rightarrow> bool \<Rightarrow> (conductor, strategy list) eff" where
  "build_strategy_rec env step tree difficult =
     (let all_props = find_all tree
      in if all_props = [] then eret []
         else if length all_props = 1 then explore_single env step (hd all_props) difficult
         else if length tree = 1 \<and> \<not> is_name (hd tree) then build_strategy_rec env step (sub_tree (hd tree)) difficult
         else if length tree \<noteq> 1 then
           (let with_split = ebind (gather (map (\<lambda>t. build_strategy_rec env step t difficult) (split_trees tree)))
                  (\<lambda>solutions. eret (Some (concat solutions)))
            in ebind (race [without_split env step all_props difficult, with_split]) (\<lambda>winner.
               elift (res_of AssertionError winner)))
         else eret [])"
  by pat_completeness auto
termination
proof (relation "measure (\<lambda>(env, step, tree, difficult). tree_size tree)", goal_cases)
  case (2 env step tree difficult x)
  then show ?case by (cases tree) (auto simp: tree_size_sub)
next
  case (3 env step tree difficult x t)
  then show ?case by (simp add: tree_size_split)
qed auto

declare build_strategy_rec.simps [simp del]

section \<open>Running a strategy\<close>

text \<open>\<open>s.split(sep)\<close>\<close>

function split_on :: "string \<Rightarrow> string \<Rightarrow> string list" where
  "split_on sep s =
     (case find_sub sep s of
        None \<Rightarrow> [s]
      | Some i \<Rightarrow> if sep = [] then [s] else take i s # split_on sep (drop (i + length sep) s))"
  by pat_completeness auto
termination
proof (relation "measure (\<lambda>(sep, s). length s)", goal_cases)
  case (2 sep s i)
  then show ?case using find_sub_Some [of sep s i] by (cases sep) auto
qed auto

declare split_on.simps [simp del]

definition depth_mark :: string where
  "depth_mark = ''[INFO ] k-induction proofed in depth ''"

definition step_config :: "strategy \<Rightarrow> string res" where
  "step_config st =
     (case pr_stderr (st_procres st) of
        Some err \<Rightarrow>
          if contains (st_config st) '' -e kind '' then
            (let parts = split_on depth_mark err
             in if length parts = 2
                then rbind (res_of ValueError (py_int (strip (parts ! 1)))) (\<lambda>n. Ok (st_config st @ '' --start '' @ str_int n))
                else Ok (st_config st))
          else Ok (st_config st)
      | None \<Rightarrow> Ok (st_config st))"

text \<open>\<open>strategy.sort(key=lambda x: x.procres.dt, reverse=True)\<close> keeps the order of equal times.\<close>

definition longest_first :: "strategy list \<Rightarrow> strategy list" where
  "longest_first ss = rev (sort_key (\<lambda>x. pr_dt (st_procres x)) (rev ss))"

definition run_strategy :: "conductor_env \<Rightarrow> strategy list \<Rightarrow> (conductor, (process_result \<times> strategy) list) eff" where
  "run_strategy env ss0 =
     (let ss = longest_first ss0
      in ebind (elift (rmapM step_config ss)) (\<lambda>confs.
         ebind (gather (map (\<lambda>(conf, st). prove env conf (st_step st) (st_props st) None
              (fmul (pr_max_mem (st_procres st)) (rnd (11 / 10)))) (zip confs ss))) (\<lambda>results.
           eret (zip results ss))))"

section \<open>Modes\<close>

definition load_step :: "conductor_env \<Rightarrow> args \<Rightarrow> int \<Rightarrow> (conductor, strategy list option) eff" where
  "load_step env a step s = (load_strategy (json_loads env) a (files s) step, s)"

definition store_step :: "conductor_env \<Rightarrow> args \<Rightarrow> int \<Rightarrow> strategy list \<Rightarrow> (conductor, strategy list) eff" where
  "store_step env a step ss s =
     (let (r, fs) = store_strategy (json_dumps env) a step ss (files s) in (r, s\<lparr>files := fs\<rparr>))"

text \<open>
  \<open>bmc_mode\<close>: one property is one unbounded search; several are searched in rounds of growing depth that never
  stop. The first \<open>rounds\<close> of them are run here; the result tells whether the mode ended.
\<close>

fun bmc_rounds :: "conductor_env \<Rightarrow> args \<Rightarrow> (int \<times> string) list \<Rightarrow> nat \<Rightarrow> int \<Rightarrow> (conductor, unit) eff" where
  "bmc_rounds env a props 0 i = eret ()"
| "bmc_rounds env a props (Suc n) i =
     ebind (gather (map (\<lambda>(step, prop). bmc env step [prop] (Some i) (Some i)) props)) (\<lambda>_.
       bmc_rounds env a props n (i + bmc_step a))"

definition bmc_mode :: "conductor_env \<Rightarrow> args \<Rightarrow> nat \<Rightarrow> (int \<times> string) list \<Rightarrow> (conductor, bool) eff" where
  "bmc_mode env a rounds props =
     (case props of
        [] \<Rightarrow> eret True
      | [(step, prop)] \<Rightarrow> ebind (bmc env step [prop] (Some (bmc_start a)) None) (\<lambda>_. eret True)
      | _ \<Rightarrow> ebind (bmc_rounds env a props rounds (bmc_start a)) (\<lambda>_. eret False))"

definition info_line :: "strategy \<Rightarrow> string" where
  "info_line st =
     (let r = st_procres st
      in ''Step '' @ str_int (st_step st) @ '' :: '' @ pr_reason r @ '' :: '' @ ffmt 3 (pr_max_mem r) @ ''GB/''
         @ ffmt 3 (pr_dt r) @ ''s :: '' @ st_config st @ '' :: '' @ join '' '' (st_props st))"

definition unaccounted :: "strategy list \<Rightarrow> string list \<Rightarrow> string list" where
  "unaccounted ss props = (let acc = concat (map st_props ss) in filter (\<lambda>p. p \<notin> set acc) props)"

definition info_step :: "int \<Rightarrow> strategy list option \<Rightarrow> string list \<Rightarrow> string list \<Rightarrow> string list" where
  "info_step step loaded props skipped =
     (let ss = (case loaded of None \<Rightarrow> [] | Some ss \<Rightarrow> ss); un = unaccounted ss props
      in (if loaded = None then [''No proof strategy entry for step '' @ str_int step] else [])
         @ map info_line ss
         @ (if skipped \<noteq> [] then [''Step '' @ str_int step @ '' :: SKIPPED :: :: :: '' @ join '' '' skipped] else [])
         @ (if un \<noteq> [] then [''Step '' @ str_int step @ '' :: UNACCOUNTED :: :: :: '' @ join '' '' un] else []))"

definition info_mode :: "conductor_env \<Rightarrow> args \<Rightarrow> string list list \<Rightarrow> string list list \<Rightarrow> (conductor, string list) eff" where
  "info_mode env a groups skipped =
     ebind (gather (map (\<lambda>(i, props).
         ebind (load_step env a (int i)) (\<lambda>loaded.
         ebind (elift (rguard (i < length skipped) IndexError)) (\<lambda>_.
           eret (case loaded of None \<Rightarrow> 0 | Some ss \<Rightarrow> length ss, info_step (int i) loaded props (skipped ! i)))))
       (enumerate 0 groups))) (\<lambda>rs.
       eret (concat (map snd rs) @ [str_nat (sum_list (map fst rs)) @ '' proof steps in total'']))"

text \<open>The strategies of the steps from \<open>--start\<close> on; with \<open>--by-step\<close> each is run as it is loaded.\<close>

fun prove_steps :: "conductor_env \<Rightarrow> args \<Rightarrow> (nat \<times> string list) list \<Rightarrow> strategy list \<Rightarrow> (conductor, strategy list) eff" where
  "prove_steps env a [] acc = eret acc"
| "prove_steps env a ((i, props) # rest) acc =
     (if int i < start a then prove_steps env a rest acc
      else ebind (load_step env a (int i)) (\<lambda>loaded.
        case loaded of
          None \<Rightarrow> prove_steps env a rest acc
        | Some ss \<Rightarrow>
            if ss = [] then prove_steps env a rest acc
            else if by_step a then
              ebind (run_strategy env ss) (\<lambda>_. prove_steps env a rest (acc @ longest_first ss))
            else prove_steps env a rest (acc @ ss)))"

definition uncovered :: "strategy list \<Rightarrow> (int \<times> string) list \<Rightarrow> string list" where
  "uncovered ss all_props =
     (let covered = concat (map st_props ss) in uniq (filter (\<lambda>p. p \<notin> set covered) (map snd all_props)))"

text \<open>The status the process exits with.\<close>

definition prove_mode :: "conductor_env \<Rightarrow> args \<Rightarrow> (int \<times> string) list \<Rightarrow> string list list \<Rightarrow> (conductor, int) eff" where
  "prove_mode env a all_props groups =
     ebind (prove_steps env a (enumerate 0 groups) []) (\<lambda>all_strategies.
       if check_complete a \<and> uncovered all_strategies all_props \<noteq> [] then eret 1
       else if by_step a then eret 0
       else ebind (run_strategy env all_strategies) (\<lambda>results.
         eret (if list_all (\<lambda>(r, st). pr_code r = Some 20) results then 0 else 1)))"

text \<open>\<open>load_strategy(step) or []\<close>\<close>

definition or_empty :: "'a list option \<Rightarrow> 'a list" where
  "or_empty x = (case x of None \<Rightarrow> [] | Some xs \<Rightarrow> xs)"

definition construct_strategy :: "conductor_env \<Rightarrow> args \<Rightarrow> int \<Rightarrow> string list
    \<Rightarrow> (conductor, bool \<times> strategy list \<times> string list) eff" where
  "construct_strategy env a step props =
     ebind (load_step env a step) (\<lambda>loaded.
       let strat = or_empty loaded;
           not_done = missing_from (set_order env) strat props
       in if not_done = [] then eret (False, strat, [])
          else
            ebind (eupd (\<lambda>s. Ok (s\<lparr>failures := []\<rparr>))) (\<lambda>_.
            ebind (if hard a
                   then ebind (gather (map (\<lambda>p. build_strategy_rec env step [PName p] True) not_done)) (\<lambda>xs. eret (concat xs))
                   else ebind (elift (split_by_prefixes not_done)) (\<lambda>blocks. build_strategy_rec env step blocks (hard a))) (\<lambda>found.
            ebind (store_step env a step (strat @ found)) (\<lambda>stored.
            ebind (eget failures) (\<lambda>fails. eret (True, stored, map snd fails))))))"

fun explore_steps :: "conductor_env \<Rightarrow> args \<Rightarrow> (nat \<times> string list) list \<Rightarrow> string list \<Rightarrow> (conductor, string list) eff" where
  "explore_steps env a [] acc = eret acc"
| "explore_steps env a ((i, props) # rest) acc =
     (if int i < start a then explore_steps env a rest acc
      else ebind (construct_strategy env a (int i) props) (\<lambda>(new, strat, fails).
        ebind (if no_run a then eret [] else if \<not> new \<or> length strat \<noteq> 1 then run_strategy env strat else eret []) (\<lambda>_.
          explore_steps env a rest (acc @ fails))))"

definition explore_mode :: "conductor_env \<Rightarrow> args \<Rightarrow> string list list \<Rightarrow> (conductor, string list) eff" where
  "explore_mode env a groups = explore_steps env a (enumerate 0 groups) []"

section \<open>The selection of properties and the command\<close>

definition SKIPPED_PROPS :: "string list" where
  "SKIPPED_PROPS = [''MType_Div_Data'', ''MType_Rem_Data'', ''MType_Mul_Data'', ''MType_RemU_Data'', ''MType_MulH_Data'',
     ''MType_DivU_Data'', ''MType_MulHU_Data'', ''MType_MulHSH_Data'']"

text \<open>\<open>json.load(f)["asserts"]\<close>, the first element of each entry.\<close>

definition assert_names :: "json \<Rightarrow> (int \<times> string) list res" where
  "assert_names v =
     (case v of
        JObj kvs \<Rightarrow> rbind (rbind (jindex kvs ''asserts'') to_iter) (rmapM (\<lambda>x. rbind (rbind (jnth x 0) j_str) preproc_name))
      | _ \<Rightarrow> Err TypeError)"

definition proof_names :: "(int \<times> string) list \<Rightarrow> (int \<times> string) list" where
  "proof_names names = filter (\<lambda>(step, name). \<not> endswith name ''_Cover'') names"

text \<open>The properties of \<open>-p\<close>, each in the first step that has it; \<open>None\<close> when one is not found (exit status 1).\<close>

definition named_props :: "(int \<times> string) list \<Rightarrow> string list \<Rightarrow> (int \<times> string) list option" where
  "named_props names ps = those (map (\<lambda>p. find (\<lambda>(step, name). name = p) names) ps)"

definition missing_props :: "conductor_env \<Rightarrow> args \<Rightarrow> string list list \<Rightarrow> (conductor, (int \<times> string) list) eff" where
  "missing_props env a groups =
     ebind (gather (map (\<lambda>(i, sprops).
         ebind (load_step env a (int i)) (\<lambda>loaded.
           eret (case loaded of None \<Rightarrow> []
                 | Some ss \<Rightarrow> map (Pair (int i)) (missing_from (set_order env) ss sprops))))
       (enumerate 0 groups))) (\<lambda>xs. eret (concat xs))"

definition selected_props :: "conductor_env \<Rightarrow> args \<Rightarrow> (int \<times> string) list \<Rightarrow> (conductor, (int \<times> string) list option) eff" where
  "selected_props env a names =
     ebind (elift (group_by_step names None)) (\<lambda>groups.
       case named_props names (properties a) of
         None \<Rightarrow> eret None
       | Some ps \<Rightarrow>
           if missing a then ebind (missing_props env a groups) (\<lambda>ms. eret (Some (ps @ ms)))
           else eret (Some (if ps = [] then names else ps)))"

datatype mode = Bmc nat | Info | Prove | Explore

definition run_mode :: "conductor_env \<Rightarrow> args \<Rightarrow> mode \<Rightarrow> int \<Rightarrow> (int \<times> string) list \<Rightarrow> (conductor, int) eff" where
  "run_mode env a m max_step props0 =
     (let skipped = filter (\<lambda>(step, p). p \<in> set SKIPPED_PROPS) props0;
          props = filter (\<lambda>(step, p). p \<notin> set SKIPPED_PROPS) props0
      in ebind (elift (group_by_step skipped (Some max_step))) (\<lambda>skipped_groups.
         ebind (elift (group_by_step props (Some max_step))) (\<lambda>groups.
           case m of
             Bmc rounds \<Rightarrow> ebind (bmc_mode env a rounds props) (\<lambda>_. eret 0)
           | Info \<Rightarrow> ebind (info_mode env a groups skipped_groups) (\<lambda>_. eret 0)
           | Prove \<Rightarrow> prove_mode env a props groups
           | Explore \<Rightarrow> ebind (explore_mode env a groups) (\<lambda>_. eret 0))))"

definition conductor_main :: "conductor_env \<Rightarrow> args \<Rightarrow> mode \<Rightarrow> json \<Rightarrow> (conductor, int) eff" where
  "conductor_main env a m ywmap =
     ebind (elift (assert_names ywmap)) (\<lambda>all_names.
       if all_names = [] then eraise ValueError
       else let max_step = Max (set (map fst all_names)); names = proof_names all_names
         in ebind (selected_props env a names) (\<lambda>sel.
            case sel of None \<Rightarrow> eret 1 | Some props \<Rightarrow> run_mode env a m max_step props))"

section \<open>What the search gives\<close>

lemma ebind_Err_iff: "isl (fst (ebind m f s)) \<longleftrightarrow> isl (fst (m s)) \<or> (\<exists>x s'. m s = (Inr x, s') \<and> isl (fst (f x s')))"
  by (cases "m s"; cases "fst (m s)") (auto simp: ebind_def)

lemma race_two: "race (t # u # ts) s = (Err (ExceptionGroup (map (\<lambda>_. RuntimeError) (u # ts))), s)"
  by (simp add: race_def)

lemma explore_two_engines: "isl (fst (explore env step props (ENGINES False) limit s))"
  unfolding explore_def ebind_Err_iff
  by (cases "prepare_aiger env step props s"; cases "fst (prepare_aiger env step props s)")
     (auto simp: ENGINES_def race_def)

text \<open>Without \<open>--hard\<close> every search for at least one property races two tasks, which ends with an error.\<close>

lemma build_strategy_easy_fails_aux:
  assumes "find_all tree \<noteq> []"
  shows "isl (fst (build_strategy_rec env step tree False s))"
  using assms
proof (induction env step tree False arbitrary: s rule: build_strategy_rec.induct)
  case (1 env step tree)
  show ?case
  proof (cases "length (find_all tree) = 1")
    case True
    with "1.prems" show ?thesis
      by (subst build_strategy_rec.simps) (simp add: explore_single_def ebind_Err_iff explore_two_engines Let_def)
  next
    case multi: False
    show ?thesis
    proof (cases "length tree = 1")
      case one: True
      then obtain t where t: "tree = [t]" by (cases tree) auto
      with multi "1.prems" have "\<not> is_name t" by (cases t) auto
      with t multi "1.prems" "1.hyps"(1) show ?thesis
        by (subst build_strategy_rec.simps) (cases t; auto)
    next
      case False
      with multi "1.prems" show ?thesis
        by (subst build_strategy_rec.simps) (simp add: Let_def ebind_Err_iff race_two)
    qed
  qed
qed

text \<open>The external tool that selects properties works, and a set is iterated in some order of its elements.\<close>

definition tools_work :: "conductor_env \<Rightarrow> bool" where
  "tools_work env \<longleftrightarrow> (\<forall>h name step props. pr_code (sh env h (aig_manip name step props)) = Some 0)
     \<and> (\<forall>xs. set (set_order env xs) = set xs)"

text \<open>A command of the search answered with a counterexample for this property alone.\<close>

definition refuted :: "conductor_env \<Rightarrow> conductor \<Rightarrow> int \<Rightarrow> string \<Rightarrow> bool" where
  "refuted env s step p \<longleftrightarrow> (\<exists>k name. Suc k < length (calls s) \<and> fst (calls s ! k) = aig_manip name step [p]
     \<and> fst (calls s ! Suc k) = ''rIC3 -e kind --no-preproc '' @ name
     \<and> pr_code (sh env (take (Suc k) (calls s)) (fst (calls s ! Suc k))) = Some 10)"

definition proved_in :: "strategy list \<Rightarrow> string \<Rightarrow> bool" where
  "proved_in ss p \<longleftrightarrow> list_ex (\<lambda>st. p \<in> set (st_props st)) ss"

definition accounted :: "conductor_env \<Rightarrow> conductor \<Rightarrow> int \<Rightarrow> strategy list \<Rightarrow> string \<Rightarrow> bool" where
  "accounted env s step ss p \<longleftrightarrow> proved_in ss p \<or> (step, p) \<in> set (failures s) \<or> refuted env s step p"

definition later :: "conductor \<Rightarrow> conductor \<Rightarrow> bool" where
  "later s s' \<longleftrightarrow> (\<exists>cs fs. calls s' = calls s @ cs \<and> failures s' = failures s @ fs) \<and> files s' = files s"

lemma later_trans: "later s s' \<Longrightarrow> later s' s'' \<Longrightarrow> later s s''"
  by (auto simp: later_def)

lemma refuted_later:
  assumes "refuted env s step p" and "later s s'"
  shows "refuted env s' step p"
proof -
  from assms(2) obtain cs where cs: "calls s' = calls s @ cs" by (auto simp: later_def)
  from assms(1) obtain k name where "Suc k < length (calls s)" "fst (calls s ! k) = aig_manip name step [p]"
    "fst (calls s ! Suc k) = ''rIC3 -e kind --no-preproc '' @ name"
    "pr_code (sh env (take (Suc k) (calls s)) (fst (calls s ! Suc k))) = Some 10" by (auto simp: refuted_def)
  then show ?thesis
    unfolding refuted_def cs by (intro exI [of _ k] exI [of _ name]) (auto simp: nth_append)
qed

lemma accounted_later: "accounted env s step ss p \<Longrightarrow> later s s' \<Longrightarrow> set ss \<subseteq> set ss' \<Longrightarrow> accounted env s' step ss' p"
  by (auto simp: accounted_def proved_in_def list_ex_iff later_def dest: refuted_later [of env s step p s', unfolded later_def])

lemma hard_single:
  assumes "tools_work env"
  shows "\<exists>ss s'. build_strategy_rec env step [PName p] True s = (Ok ss, s') \<and> later s s'
     \<and> list_all (\<lambda>st. pr_code (st_procres st) = Some 20 \<and> st_step st = step \<and> st_props st = [p]) ss
     \<and> accounted env s' step ss p"
proof -
  let ?name = "''build/aiger-'' @ str_nat (aiger_idx s) @ ''.aig''"
  let ?c1 = "(aig_manip ?name step [p], Fin (1 / 2), None) :: call"
  let ?c2 = "(''rIC3 -e kind --no-preproc '' @ ?name, Fin 10, Some (Fin 1800)) :: call"
  define r where "r = sh env (calls s @ [?c1]) (fst ?c2)"
  define s1 where "s1 = s\<lparr>aiger_idx := aiger_idx s + 1, calls := calls s @ [?c1, ?c2],
     prooflog := prooflog s @ (if no_log env then [] else [JArr [JFloat (log_time env (length (prooflog s))),
              JArr [JArr (map JStr [p]), JInt step, JStr (root_hash env), JStr ''rIC3 -e kind --no-preproc''], result_vars r]])\<rparr>"
  have "build_strategy_rec env step [PName p] True = explore_single env step p True"
    by (subst build_strategy_rec.simps) simp
  moreover have "explore env step [p] (ENGINES True) (Fin 1800) s
      = (Ok (if pr_code r = Some 10 \<or> pr_code r = Some 20 then Some (''rIC3 -e kind --no-preproc'', r) else None), s1)"
    using assms
    by (simp add: explore_def ENGINES_def race_def prepare_aiger_def run_shell_def eupd_def explore_one_def
        proof_done_def ebind_def tools_work_def r_def s1_def Let_def)
  ultimately have "build_strategy_rec env step [PName p] True s =
      (if pr_code r = Some 20 then (Ok [mk_strategy step [p] ''rIC3 -e kind --no-preproc'' r], s1)
       else if pr_code r = Some 10 then (Ok [], s1) else (Ok [], s1\<lparr>failures := failures s1 @ [(step, p)]\<rparr>))"
    by (simp add: explore_single_def ebind_def eupd_def)
  moreover have "later s s1" "later s (s1\<lparr>failures := failures s1 @ [(step, p)]\<rparr>)" by (auto simp: later_def s1_def)
  moreover have "refuted env s1 step p" if "pr_code r = Some 10"
    unfolding refuted_def using that
    by (intro exI [of _ "length (calls s)"] exI [of _ ?name]) (simp add: s1_def r_def nth_append)
  ultimately show ?thesis
    by (auto simp: mk_strategy_def accounted_def proved_in_def)
qed

lemma hard_gather:
  assumes "tools_work env"
  shows "\<exists>xs s'. gather (map (\<lambda>p. build_strategy_rec env step [PName p] True) ps) s = (Ok xs, s') \<and> later s s'
     \<and> list_all (\<lambda>st. pr_code (st_procres st) = Some 20 \<and> st_step st = step) (concat xs)
     \<and> list_all (accounted env s' step (concat xs)) ps"
proof (induction ps arbitrary: s)
  case Nil
  then show ?case by (auto simp: later_def)
next
  case (Cons p ps)
  from hard_single [OF assms, of step p s] obtain ss s1 where
    1: "build_strategy_rec env step [PName p] True s = (Ok ss, s1)" "later s s1"
      "list_all (\<lambda>st. pr_code (st_procres st) = Some 20 \<and> st_step st = step \<and> st_props st = [p]) ss"
      "accounted env s1 step ss p" by blast
  from Cons.IH [of s1] obtain xs s2 where
    2: "gather (map (\<lambda>p. build_strategy_rec env step [PName p] True) ps) s1 = (Ok xs, s2)" "later s1 s2"
      "list_all (\<lambda>st. pr_code (st_procres st) = Some 20 \<and> st_step st = step) (concat xs)"
      "list_all (accounted env s2 step (concat xs)) ps" by blast
  have "accounted env s2 step (concat (ss # xs)) p" using accounted_later [OF 1(4) 2(2)] by auto
  moreover have "list_all (accounted env s2 step (concat (ss # xs))) ps"
    using 2(4) accounted_later [of env s2 step "concat xs" _ s2] by (auto simp: list_all_iff later_def)
  ultimately show ?case
    using 1 2 later_trans [OF 1(2) 2(2)] by (auto simp: ebind_def list_all_iff)
qed

lemma load_step_apply [simp]: "load_step env a step s = (load_strategy (json_loads env) a (files s) step, s)"
  by (simp add: load_step_def)

lemma store_step_Ok: "\<exists>fs. store_step env a step ss s = (Ok ss, s\<lparr>files := fs\<rparr>)"
  by (auto simp: store_step_def store_strategy_def Let_def intro: exI [of _ "files s"])

text \<open>C7: With \<open>--hard\<close>, where the tool that selects properties works: every property of the step is in the end covered by a proof
  step (one that was loaded, or a new one whose engine answered that it holds), is listed as a failure, or was
  refuted by a counterexample. The stored strategy is the loaded one followed by the new proofs.\<close>

theorem construct_hard_accounts:
  assumes "tools_work env" and "hard a"
    and "load_strategy (json_loads env) a (files s) step = Ok loaded"
  shows "\<exists>new found fails s'. construct_strategy env a step props s = (Ok (new, or_empty loaded @ found, fails), s')
     \<and> list_all (\<lambda>st. pr_code (st_procres st) = Some 20 \<and> st_step st = step) found
     \<and> list_all (\<lambda>p. proved_in (or_empty loaded @ found) p \<or> p \<in> set fails \<or> refuted env s' step p) props"
proof -
  let ?ss = "or_empty loaded"
  let ?todo = "missing_from (set_order env) ?ss props"
  have todo: "set ?todo = {p \<in> set props. \<not> proved_in ?ss p}"
    using assms(1) by (auto simp: missing_from_def tools_work_def proved_in_def list_ex_iff Let_def)
  show ?thesis
  proof (cases "?todo = []")
    case True
    then have "construct_strategy env a step props s = (Ok (False, ?ss, []), s)"
      using assms(3) by (simp add: construct_strategy_def ebind_def Let_def)
    moreover have "list_all (proved_in ?ss) props" using True todo by (auto simp: list_all_iff)
    ultimately show ?thesis by (intro exI [of _ False] exI [of _ "[]"] exI [of _ s]) (auto simp: list_all_iff)
  next
    case False
    let ?s0 = "s\<lparr>failures := []\<rparr>"
    from hard_gather [OF assms(1), of step ?todo ?s0] obtain xs s1 where
      g: "gather (map (\<lambda>p. build_strategy_rec env step [PName p] True) ?todo) ?s0 = (Ok xs, s1)"
        "list_all (\<lambda>st. pr_code (st_procres st) = Some 20 \<and> st_step st = step) (concat xs)"
        "list_all (accounted env s1 step (concat xs)) ?todo" by blast
    from store_step_Ok [of env a step "?ss @ concat xs" s1] obtain fs where
      st: "store_step env a step (?ss @ concat xs) s1 = (Ok (?ss @ concat xs), s1\<lparr>files := fs\<rparr>)" by blast
    have "construct_strategy env a step props s
        = (Ok (True, ?ss @ concat xs, map snd (failures s1)), s1\<lparr>files := fs\<rparr>)"
      using assms(2,3) False g(1) st by (simp add: construct_strategy_def ebind_def Let_def eupd_def)
    moreover have "refuted env (s1\<lparr>files := fs\<rparr>) step p \<longleftrightarrow> refuted env s1 step p" for p
      by (simp add: refuted_def)
    moreover have "proved_in (?ss @ concat xs) p \<or> p \<in> set (map snd (failures s1)) \<or> refuted env s1 step p"
      if "p \<in> set props" for p
    proof (cases "proved_in ?ss p")
      case False
      with that todo g(3) have "accounted env s1 step (concat xs) p" by (auto simp: list_all_iff)
      then show ?thesis by (auto simp: accounted_def proved_in_def image_iff intro: bexI [of _ "(step, p)"])
    qed (simp add: proved_in_def)
    ultimately show ?thesis using g(2) by (auto simp: list_all_iff)
  qed
qed

text \<open>C39: Without \<open>--hard\<close>, exploring a step that has an unproved property ends with an error.\<close>

theorem construct_easy_fails:
  assumes "\<not> hard a" and "load_strategy (json_loads env) a (files s) step = Ok loaded"
    and "missing_from (set_order env) (or_empty loaded) props \<noteq> []"
  shows "\<exists>e s'. construct_strategy env a step props s = (Err e, s')"
proof -
  let ?todo = "missing_from (set_order env) (or_empty loaded) props"
  have "isl (fst (construct_strategy env a step props s))"
  proof (cases "split_by_prefixes ?todo")
    case (Inl e)
    then show ?thesis
      using assms by (simp add: construct_strategy_def ebind_def Let_def eupd_def)
  next
    case (Inr blocks)
    with split_prefixes_mset [of ?todo] have "mset (find_all blocks) = mset ?todo"
      by (auto split: if_splits)
    with assms(3) have "find_all blocks \<noteq> []" by auto
    from build_strategy_easy_fails_aux [OF this] Inr assms show ?thesis
      by (simp add: construct_strategy_def Let_def ebind_Err_iff eupd_def)
  qed
  then show ?thesis by (cases "construct_strategy env a step props s") (auto simp: isl_def)
qed

section \<open>What a proof run shows\<close>

lemma uniq_eq_Nil: "uniq xs = [] \<longleftrightarrow> xs = []"
  by (metis set_empty set_uniq)


text \<open>With \<open>--by-step\<close> the results of the proofs are not looked at: the run exits with status 0 (without
  \<open>--check-complete\<close>), whatever the engines answered.\<close>

theorem by_step_ignores_results:
  assumes "by_step a" and "\<not> check_complete a"
    and "prove_steps env a (enumerate 0 groups) [] s = (Ok strategies, s1)"
  shows "prove_mode env a all_props groups s = (Ok 0, s1)"
  using assms by (simp add: prove_mode_def ebind_def)

section \<open>Examples\<close>

text \<open>The tools work, every engine answers with the given code, and a strategy is stored for step 0.\<close>

definition sample_result :: "int \<Rightarrow> process_result" where
  "sample_result c = \<lparr>pr_code = Some c, pr_reason = ''OK'', pr_max_mem = Fin 2, pr_dt = Fin 17, pr_stdout = None,
     pr_stderr = None\<rparr>"

definition sample_env :: "int \<Rightarrow> conductor_env" where
  "sample_env c = \<lparr>sh = (\<lambda>h cmd. sample_result (if startswith cmd ''build/aig-manip'' then 0 else c)),
     json_loads = (\<lambda>_. Some (JArr (map encode_strategy [sample_strategy]))), json_dumps = (\<lambda>_. ''[]''),
     set_order = (\<lambda>xs. xs), no_log = True, root_hash = [], log_time = (\<lambda>_. Fin 0)\<rparr>"

definition sample_state :: "fs \<Rightarrow> conductor" where
  "sample_state fs = \<lparr>aiger_idx = 0, cex_id = 0, calls = [], files = fs, prooflog = [], failures = []\<rparr>"

definition stored_step :: fs where
  "stored_step = [(Path [] [''strategies''], Directory), (step_file 0, File ''[]'')]"

lemma sample_tools_work: "tools_work (sample_env c)"
  by (simp add: tools_work_def sample_env_def sample_result_def aig_manip_def startswith_def)

theorem construct_hard_accounts_witness:
  "\<exists>new found fails s'. construct_strategy (sample_env 20) (sample_args\<lparr>hard := True\<rparr>) 3 [''Mem'', ''Pc''] (sample_state [])
       = (Ok (new, or_empty None @ found, fails), s')
     \<and> list_all (\<lambda>st. pr_code (st_procres st) = Some 20 \<and> st_step st = 3) found
     \<and> list_all (\<lambda>p. proved_in (or_empty None @ found) p \<or> p \<in> set fails \<or> refuted (sample_env 20) s' 3 p) [''Mem'', ''Pc'']"
  by (rule construct_hard_accounts) (simp_all add: sample_tools_work load_strategy_def sample_args_def sample_state_def)

theorem construct_easy_fails_witness:
  "\<exists>e s'. construct_strategy (sample_env 20) sample_args 3 [''Mem'', ''Pc''] (sample_state []) = (Err e, s')"
proof (rule construct_easy_fails)
  show "\<not> hard sample_args" by (simp add: sample_args_def)
  show "load_strategy (json_loads (sample_env 20)) sample_args (files (sample_state [])) 3 = Ok None"
    by (simp add: load_strategy_def sample_args_def sample_state_def)
  show "missing_from (set_order (sample_env 20)) (or_empty None) [''Mem'', ''Pc''] \<noteq> []"
    by (simp add: missing_from_def sample_env_def or_empty_def)
qed

lemma sample_run:
  "\<exists>s'. run_strategy (sample_env c) [sample_strategy] s = (Ok [(sample_result c, sample_strategy)], s')"
  by (simp add: run_strategy_def longest_first_def step_config_def sample_strategy_def prove_def prepare_aiger_def
      run_shell_def ebind_def eupd_def proof_done_def sample_env_def sample_result_def aig_manip_def startswith_def Let_def)

lemma sample_load: "load_strategy (json_loads (sample_env c)) sample_args stored_step 0 = Ok (Some [sample_strategy])"
  by (simp add: load_strategy_def sample_args_def sample_env_def stored_step_def step_file_def del: list.map)

lemma sample_prove_steps:
  "prove_steps (sample_env c) sample_args (enumerate 0 [[''Mem'', ''Pc'']]) [] (sample_state stored_step)
     = (Ok [sample_strategy], sample_state stored_step)"
  using sample_load [of c] by (simp add: ebind_def sample_args_def sample_state_def)


text \<open>Every engine answers with a counterexample (code 10), and the run exits with status 0.\<close>

theorem by_step_ignores_results_witness:
  "\<exists>s'. prove_mode (sample_env 10) (sample_args\<lparr>by_step := True, check_complete := False\<rparr>) [(0, ''Mem''), (0, ''Pc'')]
     [[''Mem'', ''Pc'']] (sample_state stored_step) = (Ok 0, s')"
proof -
  let ?a = "sample_args\<lparr>by_step := True, check_complete := False\<rparr>"
  obtain s2 where r: "run_strategy (sample_env 10) [sample_strategy] (sample_state stored_step)
      = (Ok [(sample_result 10, sample_strategy)], s2)" using sample_run by blast
  have "load_strategy (json_loads (sample_env 10)) ?a stored_step 0 = Ok (Some [sample_strategy])"
    using sample_load [of 10] by (simp add: load_strategy_def)
  with r have "prove_steps (sample_env 10) ?a (enumerate 0 [[''Mem'', ''Pc'']]) [] (sample_state stored_step)
      = (Ok (longest_first [sample_strategy]), s2)"
    by (simp add: ebind_def) (simp add: sample_args_def sample_state_def ebind_def)
  from by_step_ignores_results [OF _ _ this] show ?thesis by auto
qed

end
