(* ===== verification/Spec2Isabelle.thy ===== *)
theory Spec2Isabelle
  imports Bug_Rank Offline_Artifacts Offline_Ranking Llm_Client Patching Batch_Cli Offline_Workflow Rerank
    Bug_Info Diff_Headers Trace_Diff Duplicate_Bugs Ibex_Cmd Tool_Requirements Uvm_Report Uvm_Simulate
    Process_Progress Conductor
begin

text \<open>
  Verification of the Python tools of the Ibex repository: fault localization, bug sets, core configurations, the UVM
  regression flow and the driver of the formal proofs.

  \<^bold>\<open>The program.\<close> The Python packages under \<open>src/tools\<close> localize bugs of the Ibex core. A batch run
  (\<open>ibex_sbfl_batch\<close>) patches a copy of the RTL for every bug case, runs a simulator that ranks basic blocks by
  suspiciousness (SBFL), and leaves one log directory per case. \<open>ibex_sbfl_llm\<close> sends the best blocks with their
  source to a language model and combines its scores with the suspiciousness into a new ranking, saved as JSON.
  \<open>ibex_sbfl_rerank\<close> recomputes that ranking offline, from the saved answer of the model, under another weight.
  \<open>ibex_sbfl_common\<close> reads the files the others write, and decides at which rank the bug was found. The scripts under
  \<open>src/scripts\<close> prepare and inspect bug sets: they write the \<open>bug_info.json\<close> the packages read, repair the headers of
  the differences the packages apply, find duplicate cases and compare traces. \<open>src/util\<close> reads the configurations of
  the core and checks the installed tools. The UVM flow (\<open>src/dv/uvm/core_ibex/scripts\<close>) is a chain of scripts that make runs for
  every test and seed: one creates the metadata and a record per run, others generate the test with riscv-dv, compile it,
  simulate it, check its logs, and collect the runs of a regression and their coverage; they meet in the records on disk.
  \<open>src/dv/formal/conductor.py\<close> searches for proofs of the formal properties step by step, stores what it found as strategies,
  and runs them again; its child processes are scheduled by the memory and the processors of the machine.

  \<^bold>\<open>Theories.\<close> The library below the model:
    \<^item> \<open>Prelude\<close>: errors as a datatype, results \<open>exn + 'a\<close> with their combinators (\<open>rbind\<close>, \<open>rmapM\<close>, \<open>rfoldM\<close>,
      \<open>rcatch\<close>), dictionaries as association lists in insertion order, and the locale \<open>codec\<close> of a printer and a
      reader that inverts it;
    \<^item> \<open>Py_Text\<close>, \<open>Py_Regex\<close>, \<open>Py_Float\<close>, \<open>Py_Json\<close>, \<open>Py_Csv\<close>, \<open>Py_Shlex\<close>, \<open>Py_System\<close>: what the code uses of
      Python: strings and integers as text, the backtracking matcher of \<open>re\<close>, binary64 arithmetic by exact rounding,
      \<open>Decimal\<close>, JSON values and their conversions, the reader and writer of tables, shell quoting, paths, a file
      system, and code with effects (\<open>ebind\<close>, \<open>ecatch\<close>, \<open>efinally\<close>).

  The components, each a group of definitions named after the code:
    \<^item> \<open>Artifacts\<close>, \<open>Bug_Rank\<close> (\<open>ibex_sbfl_common/artifacts.py\<close>) and \<open>Result_IO\<close> (\<open>result_io.py\<close>);
    \<^item> \<open>Candidates\<close> (\<open>ibex_sbfl_llm/sbfl.py\<close>, \<open>llm/models.py\<close>), \<open>Ranking\<close> (\<open>ranking.py\<close>), \<open>Snippets\<close>
      (\<open>snippets.py\<close>), \<open>Llm_Client\<close> (\<open>prompting.py\<close>, \<open>llm/*.py\<close>), \<open>Patching\<close> (\<open>patching.py\<close>, \<open>io_utils.py\<close>),
      \<open>Rerank\<close> (\<open>rerank.py\<close>, \<open>cli.py\<close>);
    \<^item> \<open>Offline_Artifacts\<close>, \<open>Offline_Ranking\<close>, \<open>Offline_Workflow\<close> (\<open>ibex_sbfl_rerank/artifacts.py\<close>, \<open>ranking.py\<close>,
      \<open>workflow.py\<close> and \<open>cli.py\<close>);
    \<^item> \<open>Batch_Config\<close> (\<open>ibex_sbfl_batch/config.py\<close>, \<open>info.py\<close>), \<open>Logparse\<close> (\<open>logparse.py\<close>, \<open>rerun.py\<close>), \<open>Runner\<close>
      and \<open>Runner_Props\<close> (\<open>workspace.py\<close>, \<open>runner.py\<close>), \<open>Analysis\<close> (\<open>analysis.py\<close>), \<open>Sweep\<close> (\<open>sweep.py\<close>),
      \<open>Statistics\<close> (\<open>statistics.py\<close>), \<open>Batch_Cli\<close> (\<open>cli.py\<close>);
    \<^item> \<open>Bug_Info\<close> (\<open>scripts/bugset_gen_bug_info.py\<close>), \<open>Diff_Headers\<close> (\<open>bugset_fix_diff_headers.py\<close>), \<open>Trace_Diff\<close>
      (\<open>trace_pc_diff.py\<close>), \<open>Duplicate_Bugs\<close> (\<open>find_duplicate_bug.py\<close>);
    \<^item> \<open>Ibex_Config\<close> (\<open>util/ibex_config.py\<close>), \<open>Ibex_Cmd\<close> (\<open>dv/uvm/core_ibex/scripts/ibex_cmd.py\<close>), its client, and
      \<open>Tool_Requirements\<close> (\<open>util/check_tool_requirements.py\<close>, \<open>tool_requirements.py\<close>);
    \<^item> \<open>Uvm_Log\<close> (\<open>riscv_dv_extension/ibex_log_to_trace_csv.py\<close>, \<open>scripts/check_logs.py\<close>, \<open>test_run_result.py\<close>,
      \<open>test_entry.py\<close>) and \<open>Uvm_Report\<close> (\<open>scripts/collect_results.py\<close>, \<open>report_lib/util.py\<close>, \<open>text.py\<close>, \<open>dvsim_json.py\<close>);
    \<^item> \<open>Uvm_Commands\<close> (\<open>scripts/scripts_lib.py\<close>, \<open>riscvdv_interface.py\<close>, \<open>setup_imports.py\<close>), \<open>Uvm_Metadata\<close> (\<open>metadata.py\<close>,
      \<open>directed_test_schema.py\<close>), \<open>Uvm_Generate\<close> (\<open>build_instr_gen.py\<close>, \<open>run_instr_gen.py\<close>, \<open>compile_test.py\<close>) and \<open>Uvm_Simulate\<close>
      (\<open>compile_tb.py\<close>, \<open>run_rtl.py\<close>, \<open>merge_cov.py\<close>, \<open>get_fcov.py\<close>);
    \<^item> \<open>Process_Runner\<close> and \<open>Process_Progress\<close> (the classes \<open>Process\<close> and \<open>ProcessRunner\<close> of \<open>dv/formal/conductor.py\<close>),
      \<open>Proof_Strategy\<close> (its strategies, their files, the grouping of names) and \<open>Conductor\<close> (races, exploration, the modes).

  \<^bold>\<open>State and operations.\<close> A class or namespace of the code is a record, an exception a constructor of \<open>exn\<close>, a
  function that only computes a HOL function into results, a function with effects a function from the state (mostly
  the file system) to a result and the new state; what was written before an exception stays written. Loops are
  structural recursion or folds; the only other loop, the retry loop of the model client, has a termination
  proof. The pool of the sweep is a step relation, \<open>pool_step\<close>, over the points that wait, run and are done. The runner
  of the conductor is a state (\<open>pending\<close>, \<open>running\<close>, and the processes that stopped) with one operation \<open>tick\<close> per turn of the event
  loop: the requests made since the last turn, then \<open>poll\<close> on what the machine shows (time, memory, exit codes). The
  endless loop of \<open>bmc_mode\<close> takes the number of its rounds as an argument; nothing is claimed of it.

  \<^bold>\<open>Interfaces.\<close> The locale \<open>codec\<close> is what every text format promises; it is interpreted for integers, paths, rank
  texts, line ranges, tables and command lines. \<open>ranker\<close> is what both rankings promise (the items of the candidates,
  ordered and numbered); it is interpreted for the online and the offline ranking, and gives that a prefix of a
  ranking is a result the summaries load. \<open>model_provider\<close> is what the client relies on in a provider, interpreted
  for the three providers and for the one the client builds. \<open>case_protocol\<close> is what running one case promises,
  interpreted for generation and for re-analysis. \<open>fifo_service\<close> is a queue whose head is served some day; it gives that
  everything in the queue is served, and is interpreted for the runner of the conductor.

  \<^bold>\<open>What is shown.\<close>
    \<^item> The bug's rank: the loop over ties computes the average rank of the tie of the first block that hits the bug
      (a refinement of \<open>bug_rank_spec\<close>), its text reads back as the same number, and so for the reranked results.
    \<^item> Saved results: what \<open>load_rerank_result\<close> returns is well formed and a fixpoint of it; the results written by
      \<open>run_rerank\<close> and by \<open>rerank_pair\<close> are accepted unchanged (\<open>run_rerank_loadable\<close>, \<open>rerank_pair_loadable\<close>).
    \<^item> Rankings: candidates are distinct, known and well formed; a ranking is a permutation of the candidates in the
      order of the combined score with ranks from 1; the offline ranking agrees with the online one.
    \<^item> Prompts: the source shown stays within its budget and shows the lines of every candidate; line ranges and the
      candidates of a saved prompt read back.
    \<^item> The client ends within a bounded number of requests and returns a complete, duplicate-free answer or one of the
      tool's errors.
    \<^item> Patches touch only files below \<open>rtl\<close>, and the temporary workspace leaves the rest of the file system as it was.
    \<^item> Batches: statuses, elapsed times and commands that are logged are read back; a case ends with a status of the
      protocol and without its work directory; cases have directories of their own; a resumed run is consistent with
      the run it resumes; the summaries read back and count exactly; the sweep visits each combination once and ends.
    \<^item> Command line: the counters printed by \<open>stats\<close> are those of the cases that \<open>summarize\<close> found.
    \<^item> Bug sets: the lines recorded of a difference are those it changes; the file written for a case is the one the
      packages load; a repaired header names a file the patching accepts, and repairing twice is repairing once; the
      groups of duplicates are exactly the classes of equal digests; the differences of two traces are all of them.
    \<^item> Configurations: which objects are accepted; every attribute of a configuration reaches every simulator exactly
      once, after the shell has split the options. Tools: when the check of the requirements succeeds.
    \<^item> Regressions: when the log of a run is a pass; a regression succeeds exactly when all its runs pass; the counts per
      test are those of its runs.
    \<^item> The flow of a run: a command is filled like a template and refused when a parameter is left; the names printed for make
      find the records that were created for them; the settings of the command line read back; the outputs of riscv-dv
      are moved to their places and no command mentions the placeholder; a run passes exactly when its last simulation was
      not killed, none before was, and its logs are good.
    \<^item> The conductor: the runner keeps its invariant for every machine and sequence of requests, serves processes in order, and
      every process is served in the end when the machine can run one at all; a stored strategy is loaded back; the tree of
      names holds the names; exploring with \<open>--hard\<close> accounts for every property, and a proof run exits with 0 exactly
      when every proof was confirmed.
    \<^item> Errors of the code: a difference directly under the bug set is not found again, a quoted executable is not
      recognized, an interrupted sweep runs every point (\<open>root_case_unresolved\<close>, \<open>quoted_executable_not_found\<close>,
      \<open>interrupt_runs_every_point\<close>); a limit that is not positive hides the differences of traces
      (\<open>zero_limit_hides_differences\<close>); a test is selected by the first of its parameters only
      (\<open>filter_tests_by_first_param\<close>); a recent VCS is refused (\<open>vcs_release_refused\<close>); a failing log does
      not take back an earlier pass (\<open>failing_log_keeps_earlier_pass\<close>), and one without an error line stops the check
      (\<open>uvm_log_verdict\<close>); a run that was killed once never passes again (\<open>killed_run_never_passes\<close>); the code of a failed
      generator is lost (\<open>run_instr_gen_code\<close>), a failed listing and a merge without coverage raise
      (\<open>compile_listing_fails\<close>, \<open>merge_cov_databases\<close>); \<open>all\<close> selects no directed test (\<open>all_skips_directed\<close>), a variable that is
      not used must be set (\<open>subst_env_vars_unset\<close>); the conductor never explores without \<open>--hard\<close>
      (\<open>construct_easy_fails\<close>), ignores results with \<open>--by-step\<close> (\<open>by_step_ignores_results\<close>), starts nothing on two processors
      (\<open>no_spare_processor\<close>) and forgets a cancellation when it kills for memory (\<open>kill_restart_forgets\<close>).

  \<^bold>\<open>Bounds.\<close> Integers are unbounded, as in Python. Floats are exact binary64; the two zeros are one value. The text of
  a file is a list of 8-bit characters: encodings are not modelled, and the character classes are those of Latin-1. A
  text file is held with the line ends Python shows (a newline); the translation of other line ends is not modelled.

  \<^bold>\<open>Parameters.\<close> Outside the sources, and arguments of the model: the JSON encoder and decoder, the YAML loader, pydantic's validation,
  the order of version numbers in \<open>packaging\<close>, the register names and the trace format of riscv-dv,
  the model services and their failures, the packaged prompts, \<open>git apply\<close>, SHA-256, child processes and signals, the
  clock, random numbers, the names of temporary files, \<open>Path.resolve\<close> and \<open>Path.expanduser\<close>, the environment, the order
  in which a pool finishes. The hypotheses on them are stated in the theorems: that \<open>git apply\<close> changes files of its
  working directory only (\<open>git_local\<close>), that a temporary directory is new (\<open>fresh_dir\<close>), that the codec reads what it
  wrote.

  For the conductor, the engines, the readings of \<open>psutil\<close> and the order of a set are parameters as well; for the UVM flow,
  riscv-dv, the simulators and what \<open>pkg-config\<close> prints.

  \<^bold>\<open>Not modelled.\<close> Symbolic links; the messages of errors that nothing reads; lines on the standard error output, and
  the lines printed before a command fails; the parsing of \<open>argv\<close> by argparse (the commands start from the values of
  their arguments); the pickle format and the lock of the metadata file. Left out: \<open>scripts/analyze_distance.py\<close> and the plots (numpy, scipy and
  matplotlib), the layout of the reports of a regression, the text that \<open>directed_tests/gen_testlist.py\<close> writes, the template
  of \<open>render_config_template.py\<close>, the first version of the reranking tool (\<open>rerank_sbfl_with_llm.py\<close>), which the
  package replaces, \<open>util/sv2v_in_place.py\<close>, the RTL, and vendored code.
\<close>

end
